(* ===== verification/Wsvpn_Prelude.thy ===== *)
theory Wsvpn_Prelude
  imports Main "HOL-Library.Word" "HOL-Library.AList"
begin

text \<open>
  The shared vocabulary of the development: Go's fixed-width integers, byte slices, error
  values and panics, Go maps that are iterated or counted (association lists with distinct
  keys) and the generic lemmas on lists, maps and words that the component theories use.
\<close>

unbundle bit_operations_syntax

named_theorems frag_simps \<open>rewriting of fragment sizes and headers\<close>
named_theorems sock_simps \<open>what a socket operation leaves unchanged\<close>
named_theorems table_simps \<open>look-ups after an update of a switch table\<close>

section \<open>Types\<close>

type_synonym u8 = "8 word"
type_synonym u16 = "16 word"
type_synonym u32 = "32 word"
type_synonym u64 = "64 word"
type_synonym bytes = "u8 list"

text \<open>Instants and durations, in nanoseconds.\<close>

type_synonym gotime = int

definition second :: gotime where
  "second = 1000000000"

text \<open>
  Go's error values. The sentinels that the code compares with \<^verbatim>\<open>errors.Is\<close>
  or \<^verbatim>\<open>==\<close> are constructors, every other error is known by its text.
\<close>

datatype go_error =
    ErrDataPayloadLimitReduced
  | ErrCommandNotSupported
  | ErrEOF
  | ErrUnexpectedEOF
  | GoErr string

primrec Error :: "go_error \<Rightarrow> string" where
  "Error ErrDataPayloadLimitReduced = ''data payload limit reduced''"
| "Error ErrCommandNotSupported = ''command not supported by peer''"
| "Error ErrEOF = ''EOF''"
| "Error ErrUnexpectedEOF = ''unexpected EOF''"
| "Error (GoErr s) = s"

text \<open>What a call that may panic yields.\<close>

datatype 'a go = Ret 'a | Panic

text \<open>
  The slice expression \<^verbatim>\<open>xs[lo:hi]\<close>: it panics unless \<open>lo \<le> hi\<close> and
  \<open>hi\<close> is in range.
\<close>

definition go_slice :: "'a list \<Rightarrow> nat \<Rightarrow> nat \<Rightarrow> 'a list go" where
  "go_slice xs lo hi =
     (if lo \<le> hi \<and> hi \<le> length xs then Ret (take (hi - lo) (drop lo xs)) else Panic)"

lemma go_slice_Ret:
  "lo \<le> hi \<Longrightarrow> hi \<le> length xs \<Longrightarrow> go_slice xs lo hi = Ret (take (hi - lo) (drop lo xs))"
  by (simp add: go_slice_def)

lemma go_slice_Panic: "hi < lo \<Longrightarrow> go_slice xs lo hi = Panic"
  by (simp add: go_slice_def)

text \<open>
  A call that may also never return: \<open>None\<close> is a loop without end, \<open>Some Panic\<close> a
  crash and \<open>Some (Ret r)\<close> a return.
\<close>

type_synonym 'a run = "'a go option"

definition run_bind :: "'a run \<Rightarrow> ('a \<Rightarrow> 'b run) \<Rightarrow> 'b run" where
  "run_bind m f = (case m of None \<Rightarrow> None | Some Panic \<Rightarrow> Some Panic | Some (Ret a) \<Rightarrow> f a)"

definition run_return :: "'a \<Rightarrow> 'a run" where
  "run_return a = Some (Ret a)"

lemma run_bind_simps [simp]:
  "run_bind None f = None"
  "run_bind (Some Panic) f = Some Panic"
  "run_bind (Some (Ret a)) f = f a"
  "run_bind (run_return a) f = f a"
  by (simp_all add: run_bind_def run_return_def)

lemma run_bind_eq_Ret:
  "run_bind m f = Some (Ret b) \<longleftrightarrow> (\<exists>a. m = Some (Ret a) \<and> f a = Some (Ret b))"
  by (auto simp: run_bind_def split: option.splits go.splits)

lemma run_bind_returns:
  "m \<noteq> None \<Longrightarrow> (\<And>a. m = Some (Ret a) \<Longrightarrow> f a \<noteq> None) \<Longrightarrow> run_bind m f \<noteq> None"
  by (auto simp: run_bind_def split: option.splits go.splits)

section \<open>Go maps with an iteration order\<close>

text \<open>
  A Go map that the code iterates over or measures with \<^verbatim>\<open>len\<close> is an
  association list with distinct keys; the list order stands for the iteration order, and no
  theorem depends on which order it is.
\<close>

definition keys :: "('k \<times> 'v) list \<Rightarrow> 'k list" where
  "keys m = map fst m"

lemma set_keys [simp]: "set (keys m) = dom (map_of m)"
  by (simp add: keys_def dom_map_of_conv_image_fst)

lemma keys_Nil [simp]: "keys [] = []"
  by (simp add: keys_def)

lemma keys_Cons [simp]: "keys ((k, v) # m) = k # keys m"
  by (simp add: keys_def)

lemma distinct_keys_update [simp]: "distinct (keys m) \<Longrightarrow> distinct (keys (AList.update k v m))"
  by (simp add: keys_def distinct_update)

lemma distinct_keys_delete [simp]: "distinct (keys m) \<Longrightarrow> distinct (keys (AList.delete k m))"
  by (simp add: keys_def distinct_delete)

lemma length_distinct_keys: "distinct (keys m) \<Longrightarrow> length m = card (dom (map_of m))"
proof -
  assume d: "distinct (keys m)"
  have "length m = length (keys m)" by (simp add: keys_def)
  also have "\<dots> = card (set (keys m))" using d by (rule distinct_card [symmetric])
  finally show ?thesis by simp
qed

lemma map_of_AList_update [simp]: "map_of (AList.update k v m) = (map_of m)(k \<mapsto> v)"
  by (rule update_conv')

lemma map_of_AList_delete [simp]: "map_of (AList.delete k m) = (map_of m)(k := None)"
  by (rule delete_conv')

section \<open>Transition systems\<close>

text \<open>
  The running programs are relations between states. A property of states that every transition
  keeps holds after every run; each of the relations below is an instance.
\<close>

locale kept_invariant =
  fixes step :: "'s \<Rightarrow> 's \<Rightarrow> bool" and I :: "'s \<Rightarrow> bool"
  assumes step_keeps: "step s s' \<Longrightarrow> I s \<Longrightarrow> I s'"
begin

lemma run_keeps: "step\<^sup>*\<^sup>* s s' \<Longrightarrow> I s \<Longrightarrow> I s'"
  by (induction rule: rtranclp_induct) (auto intro: step_keeps)

end

section \<open>Words\<close>

lemma unat_u16_bound: "unat (w :: u16) < 65536"
  using unsigned_less [of w] by simp

lemma unat_u8_bound: "unat (w :: u8) < 256"
  using unsigned_less [of w] by simp

lemma unat_u32_bound: "unat (w :: u32) < 4294967296"
  using unsigned_less [of w] by simp

lemma word_of_int_less:
  assumes "0 \<le> n" and "n < uint (b :: u16)"
  shows "word_of_int n < b"
proof -
  have "n < 2 ^ 16" using assms uint_lt2p [of b] by simp
  then show ?thesis
    using assms by (simp add: word_less_def uint_word_of_int_eq take_bit_int_eq_self)
qed

lemma unat_of_nat_u16: "n < 65536 \<Longrightarrow> unat (word_of_nat n :: u16) = n"
  by (simp add: unat_of_nat take_bit_nat_eq_self)

lemma unat_of_nat_u8: "n < 256 \<Longrightarrow> unat (word_of_nat n :: u8) = n"
  by (simp add: unat_of_nat take_bit_nat_eq_self)

lemma unat_of_nat_u32: "n < 2 ^ 32 \<Longrightarrow> unat (word_of_nat n :: u32) = n"
  by (simp add: unat_of_nat take_bit_nat_eq_self)

end
