(* ===== verification/Externals.thy ===== *)
theory Externals
  imports Wsvpn_Prelude
begin

text \<open>
  The code the program calls and whose source is not in the repository: the WebSocket library
  (\<^verbatim>\<open>gobwas/ws\<close>), QUIC and WebTransport (\<^verbatim>\<open>quic-go\<close>), the
  TUN/TAP driver and packet accessors (\<^verbatim>\<open>Doridian/water\<close>), the LRU cache
  (\<^verbatim>\<open>hashicorp/golang-lru\<close>), \<^verbatim>\<open>go-cidr\<close>, \<^verbatim>\<open>google/uuid\<close>
  and the operating system. Every definition of the model that calls such code takes a record
  \<open>x\<close> of type \<open>('e, 'l) ext\<close> with one field per call. \<open>'e\<close> is the state of the
  environment (the kernel, the network, the third-party connection objects), which each
  effectful call receives and returns, so two calls with equal arguments may answer differently;
  \<open>'l\<close> is the type of LRU cache objects. An error of third-party code is its text: such
  code cannot return the program's own sentinel errors.

  The only third-party object with laws is the LRU cache: the locale \<open>lru_cache\<close> states
  what its documentation promises, and the last section shows that the laws can be met.
\<close>

type_synonym ip = bytes
type_synonym hwaddr = bytes
type_synonym macAddr = bytes

text \<open>A connection object and a network interface (\<^verbatim>\<open>Interface.Name()\<close>).\<close>

type_synonym conn = nat
type_synonym ifid = string

record ipnet =
  ipnet_IP :: ip
  ipnet_Mask :: bytes

text \<open>WebSocket frame opcodes (RFC 6455).\<close>

datatype opcode = OpContinuation | OpText | OpBinary | OpClose | OpPing | OpPong | OpReserved

text \<open>
  The errors of \<^verbatim>\<open>SendDatagram\<close>: a
  \<^verbatim>\<open>quic.DatagramTooLargeError\<close> with its \<^verbatim>\<open>MaxDatagramPayloadSize\<close>,
  or any other error.
\<close>

datatype dgram_error = DatagramTooLargeError int | DatagramError string

record ('e, 'l) ext =
  ws_WriteMessage :: "'e \<Rightarrow> conn \<Rightarrow> opcode \<Rightarrow> bytes \<Rightarrow> 'e \<times> string option"
  ws_dataWriter_Write :: "'e \<Rightarrow> conn \<Rightarrow> bytes \<Rightarrow> 'e \<times> string option"
  ws_dataWriter_Flush :: "'e \<Rightarrow> conn \<Rightarrow> 'e \<times> string option"
  ws_conn_Close :: "'e \<Rightarrow> conn \<Rightarrow> 'e \<times> string option"
  wt_SendDatagram :: "'e \<Rightarrow> conn \<Rightarrow> bytes \<Rightarrow> 'e \<times> dgram_error option"
  wt_AcceptStream :: "'e \<Rightarrow> conn \<Rightarrow> 'e \<times> string option"
  wt_OpenStreamSync :: "'e \<Rightarrow> conn \<Rightarrow> 'e \<times> string option"
  wt_stream_Write :: "'e \<Rightarrow> conn \<Rightarrow> bytes \<Rightarrow> 'e \<times> nat \<times> string option"
  wt_stream_CancelRead :: "'e \<Rightarrow> conn \<Rightarrow> nat \<Rightarrow> 'e"
  wt_stream_CancelWrite :: "'e \<Rightarrow> conn \<Rightarrow> nat \<Rightarrow> 'e"
  wt_stream_Close :: "'e \<Rightarrow> conn \<Rightarrow> 'e \<times> string option"
  wt_CloseWithError :: "'e \<Rightarrow> conn \<Rightarrow> nat \<Rightarrow> string \<Rightarrow> 'e \<times> string option"
  if_Write :: "'e \<Rightarrow> ifid \<Rightarrow> bytes \<Rightarrow> 'e \<times> string option"
  if_Close :: "'e \<Rightarrow> ifid \<Rightarrow> 'e \<times> string option"
  if_SetMTU :: "'e \<Rightarrow> ifid \<Rightarrow> int \<Rightarrow> 'e \<times> string option"
  exec_Run :: "'e \<Rightarrow> string list \<Rightarrow> 'e \<times> string option"
  uuid_NewRandom :: "'e \<Rightarrow> 'e \<times> (string + string)"
  water_TUN :: int
  water_TAP :: int
  IPVersion :: "bytes \<Rightarrow> u8"
  IPSource :: "bytes \<Rightarrow> ip option"
  IPDestination :: "bytes \<Rightarrow> ip option"
  MACSource :: "bytes \<Rightarrow> hwaddr"
  MACDestination :: "bytes \<Rightarrow> hwaddr"
  MACEthertype :: "bytes \<Rightarrow> bytes"
  IsMACUnicast :: "hwaddr \<Rightarrow> bool"
  ethertype_ARP :: bytes
  ethertype_IPv4 :: bytes
  ethertype_IPv6 :: bytes
  lru_NewWithEvict :: "int \<Rightarrow> string + 'l"
  lru_Contains :: "'l \<Rightarrow> macAddr \<Rightarrow> bool"
  lru_Add :: "'l \<Rightarrow> macAddr \<Rightarrow> gotime \<Rightarrow> 'l \<times> macAddr list"
  lru_Remove :: "'l \<Rightarrow> macAddr \<Rightarrow> 'l \<times> macAddr list"
  lru_Resize :: "'l \<Rightarrow> int \<Rightarrow> 'l \<times> macAddr list"
  lru_Purge :: "'l \<Rightarrow> 'l \<times> macAddr list"
  lru_GetOldest :: "'l \<Rightarrow> (macAddr \<times> gotime) option"
  lru_Keys :: "'l \<Rightarrow> macAddr list"
  lru_Len :: "'l \<Rightarrow> nat"
  cidr_Host :: "ipnet \<Rightarrow> int \<Rightarrow> string + ip"
  cidr_AddressCount :: "ipnet \<Rightarrow> u64 go"

section \<open>The LRU cache contract\<close>

text \<open>
  The cache operations that remove entries call the eviction callback once per removed key;
  the model returns those keys in order and the caller runs the callback over them.
  \<open>entries c\<close> lists the cache from the oldest to the newest entry and \<open>cap c\<close> is
  its capacity, as in the documentation of \<^verbatim>\<open>golang-lru\<close>.
\<close>

definition lru_put :: "macAddr \<Rightarrow> gotime \<Rightarrow> (macAddr \<times> gotime) list \<Rightarrow> (macAddr \<times> gotime) list" where
  "lru_put k t es = filter (\<lambda>p. fst p \<noteq> k) es @ [(k, t)]"

locale lru_cache =
  fixes x :: "('e, 'l) ext"
    and ok :: "'l \<Rightarrow> bool"
    and cap :: "'l \<Rightarrow> nat"
    and entries :: "'l \<Rightarrow> (macAddr \<times> gotime) list"
  assumes new_ok: "0 < n \<Longrightarrow> \<exists>c. lru_NewWithEvict x n = Inr c"
    and new_err: "n \<le> 0 \<Longrightarrow> \<exists>e. lru_NewWithEvict x n = Inl e"
    and new_entries: "lru_NewWithEvict x n = Inr c \<Longrightarrow> ok c \<and> entries c = [] \<and> int (cap c) = n"
    and ok_distinct: "ok c \<Longrightarrow> distinct (map fst (entries c))"
    and ok_cap: "ok c \<Longrightarrow> length (entries c) \<le> cap c \<and> 0 < cap c"
    and keys_entries: "ok c \<Longrightarrow> lru_Keys x c = map fst (entries c)"
    and len_entries: "ok c \<Longrightarrow> lru_Len x c = length (entries c)"
    and contains_entries: "ok c \<Longrightarrow> lru_Contains x c k \<longleftrightarrow> k \<in> fst ` set (entries c)"
    and oldest_entries:
      "ok c \<Longrightarrow> lru_GetOldest x c = (case entries c of [] \<Rightarrow> None | p # _ \<Rightarrow> Some p)"
    and add_entries: "ok c \<Longrightarrow> lru_Add x c k t = (c', ev) \<Longrightarrow> ok c' \<and> cap c' = cap c \<and>
        (if length (lru_put k t (entries c)) \<le> cap c
         then entries c' = lru_put k t (entries c) \<and> ev = []
         else entries c' = tl (lru_put k t (entries c)) \<and> ev = [fst (hd (lru_put k t (entries c)))])"
    and remove_entries: "ok c \<Longrightarrow> lru_Remove x c k = (c', ev) \<Longrightarrow> ok c' \<and> cap c' = cap c \<and>
        entries c' = filter (\<lambda>p. fst p \<noteq> k) (entries c) \<and>
        ev = (if k \<in> fst ` set (entries c) then [k] else [])"
    and resize_entries: "ok c \<Longrightarrow> 0 < n \<Longrightarrow> lru_Resize x c n = (c', ev) \<Longrightarrow>
        ok c' \<and> int (cap c') = n \<and>
        entries c' = drop (length (entries c) - nat n) (entries c) \<and>
        ev = map fst (take (length (entries c) - nat n) (entries c))"
    and purge_entries: "ok c \<Longrightarrow> lru_Purge x c = (c', ev) \<Longrightarrow>
        ok c' \<and> cap c' = cap c \<and> entries c' = [] \<and> set ev = fst ` set (entries c)"

section \<open>A cache that meets the contract\<close>

text \<open>
  A capacity and the entries from the oldest to the newest. It is the instance the witnesses
  use; the theorems hold for every implementation of the contract.
\<close>

type_synonym list_lru = "nat \<times> (macAddr \<times> gotime) list"

definition ll_ok :: "list_lru \<Rightarrow> bool" where
  "ll_ok c \<longleftrightarrow> distinct (map fst (snd c)) \<and> length (snd c) \<le> fst c \<and> 0 < fst c"

definition ll_new :: "int \<Rightarrow> string + list_lru" where
  "ll_new n = (if n \<le> 0 then Inl ''must provide a positive size'' else Inr (nat n, []))"

definition ll_add :: "list_lru \<Rightarrow> macAddr \<Rightarrow> gotime \<Rightarrow> list_lru \<times> macAddr list" where
  "ll_add c k t = (let es = lru_put k t (snd c) in
     if length es \<le> fst c then ((fst c, es), []) else ((fst c, tl es), [fst (hd es)]))"

definition ll_remove :: "list_lru \<Rightarrow> macAddr \<Rightarrow> list_lru \<times> macAddr list" where
  "ll_remove c k = ((fst c, filter (\<lambda>p. fst p \<noteq> k) (snd c)),
     if k \<in> fst ` set (snd c) then [k] else [])"

definition ll_resize :: "list_lru \<Rightarrow> int \<Rightarrow> list_lru \<times> macAddr list" where
  "ll_resize c n = (let d = length (snd c) - nat n in
     ((nat n, drop d (snd c)), map fst (take d (snd c))))"

definition ll_purge :: "list_lru \<Rightarrow> list_lru \<times> macAddr list" where
  "ll_purge c = ((fst c, []), map fst (snd c))"

definition ll_oldest :: "list_lru \<Rightarrow> (macAddr \<times> gotime) option" where
  "ll_oldest c = (case snd c of [] \<Rightarrow> None | p # _ \<Rightarrow> Some p)"

definition with_list_lru :: "('e, list_lru) ext \<Rightarrow> ('e, list_lru) ext" where
  "with_list_lru x = x\<lparr>
     lru_NewWithEvict := ll_new, lru_Contains := (\<lambda>c k. k \<in> fst ` set (snd c)),
     lru_Add := ll_add, lru_Remove := ll_remove, lru_Resize := ll_resize, lru_Purge := ll_purge,
     lru_GetOldest := ll_oldest, lru_Keys := (\<lambda>c. map fst (snd c)),
     lru_Len := (\<lambda>c. length (snd c))\<rparr>"

lemma distinct_lru_put:
  "distinct (map fst es) \<Longrightarrow> distinct (map fst (lru_put k t es))"
  by (auto simp: lru_put_def distinct_map inj_on_def)

lemma length_lru_put: "distinct (map fst es) \<Longrightarrow> length (lru_put k t es) \<le> Suc (length es)"
  by (simp add: lru_put_def)

lemma ll_ok_add: "ll_ok c \<Longrightarrow> ll_add c k t = (c', ev) \<Longrightarrow> ll_ok c' \<and> fst c' = fst c \<and>
    (if length (lru_put k t (snd c)) \<le> fst c
     then snd c' = lru_put k t (snd c) \<and> ev = []
     else snd c' = tl (lru_put k t (snd c)) \<and> ev = [fst (hd (lru_put k t (snd c)))])"
proof -
  assume ok: "ll_ok c" and add: "ll_add c k t = (c', ev)"
  let ?es = "lru_put k t (snd c)"
  have d: "distinct (map fst ?es)" and l: "length ?es \<le> Suc (length (snd c))"
    using ok distinct_lru_put length_lru_put by (auto simp: ll_ok_def)
  have "distinct (map fst (tl ?es))"
    using distinct_tl [OF d] by (simp add: map_tl)
  then show ?thesis
    using ok add d l by (auto simp: ll_ok_def ll_add_def Let_def split: if_splits)
qed

lemma ll_ok_resize: "ll_ok c \<Longrightarrow> 0 < n \<Longrightarrow> ll_resize c n = (c', ev) \<Longrightarrow>
    ll_ok c' \<and> int (fst c') = n \<and> snd c' = drop (length (snd c) - nat n) (snd c) \<and>
    ev = map fst (take (length (snd c) - nat n) (snd c))"
  by (auto simp: ll_ok_def ll_resize_def Let_def drop_map [symmetric])

lemma with_list_lru_simps [simp]:
  "lru_NewWithEvict (with_list_lru x) = ll_new"
  "lru_Contains (with_list_lru x) = (\<lambda>c k. k \<in> fst ` set (snd c))"
  "lru_Add (with_list_lru x) = ll_add"
  "lru_Remove (with_list_lru x) = ll_remove"
  "lru_Resize (with_list_lru x) = ll_resize"
  "lru_Purge (with_list_lru x) = ll_purge"
  "lru_GetOldest (with_list_lru x) = ll_oldest"
  "lru_Keys (with_list_lru x) = (\<lambda>c. map fst (snd c))"
  "lru_Len (with_list_lru x) = (\<lambda>c. length (snd c))"
  by (simp_all add: with_list_lru_def)

interpretation ll: lru_cache "with_list_lru x" ll_ok fst snd for x
proof (unfold_locales, unfold with_list_lru_simps)
  show "0 < n \<Longrightarrow> \<exists>c. ll_new n = Inr c" for n
    by (simp add: ll_new_def)
  show "n \<le> 0 \<Longrightarrow> \<exists>e. ll_new n = Inl e" for n
    by (simp add: ll_new_def)
  show "ll_new n = Inr c \<Longrightarrow> ll_ok c \<and> snd c = [] \<and> int (fst c) = n" for n c
    by (auto simp: ll_new_def ll_ok_def split: if_splits)
  show "ll_ok c \<Longrightarrow> ll_add c k t = (c', ev) \<Longrightarrow> ll_ok c' \<and> fst c' = fst c \<and>
      (if length (lru_put k t (snd c)) \<le> fst c
       then snd c' = lru_put k t (snd c) \<and> ev = []
       else snd c' = tl (lru_put k t (snd c)) \<and> ev = [fst (hd (lru_put k t (snd c)))])"
    for c k t c' ev
    by (rule ll_ok_add)
  show "ll_ok c \<Longrightarrow> 0 < n \<Longrightarrow> ll_resize c n = (c', ev) \<Longrightarrow>
      ll_ok c' \<and> int (fst c') = n \<and> snd c' = drop (length (snd c) - nat n) (snd c) \<and>
      ev = map fst (take (length (snd c) - nat n) (snd c))" for c n c' ev
    by (rule ll_ok_resize)
qed (auto simp: ll_remove_def ll_purge_def ll_oldest_def ll_ok_def
    intro: distinct_map_filter le_trans [OF length_filter_le] split: list.splits)

section \<open>An environment for concrete runs\<close>

text \<open>
  A network on which every call succeeds and whose state is the list of what was sent, so that
  a concrete run of the model can be evaluated. The packet accessors read IPv4 and Ethernet
  headers; \<open>demo_limit\<close> is the largest datagram it accepts.
\<close>

type_synonym demo_env = "(conn \<times> bytes) list"

definition demo_limit :: int where
  "demo_limit = 1184"

definition demo_ext :: "(demo_env, list_lru) ext" where
  "demo_ext = with_list_lru \<lparr>
     ws_WriteMessage = (\<lambda>e c oc m. (e @ [(c, m)], None)),
     ws_dataWriter_Write = (\<lambda>e c m. (e @ [(c, m)], None)),
     ws_dataWriter_Flush = (\<lambda>e c. (e, None)),
     ws_conn_Close = (\<lambda>e c. (e, None)),
     wt_SendDatagram = (\<lambda>e c m. if int (length m) \<le> demo_limit then (e @ [(c, m)], None)
                                 else (e, Some (DatagramTooLargeError demo_limit))),
     wt_AcceptStream = (\<lambda>e c. (e, None)),
     wt_OpenStreamSync = (\<lambda>e c. (e, None)),
     wt_stream_Write = (\<lambda>e c m. (e @ [(c, m)], length m, None)),
     wt_stream_CancelRead = (\<lambda>e c n. e),
     wt_stream_CancelWrite = (\<lambda>e c n. e),
     wt_stream_Close = (\<lambda>e c. (e, None)),
     wt_CloseWithError = (\<lambda>e c n m. (e, None)),
     if_Write = (\<lambda>e i m. (e @ [(length i, m)], None)),
     if_Close = (\<lambda>e i. (e, None)),
     if_SetMTU = (\<lambda>e i n. (e, None)),
     exec_Run = (\<lambda>e args. (e, None)),
     uuid_NewRandom = (\<lambda>e. (e, Inr ''00000000-0000-4000-8000-000000000000'')),
     water_TUN = 1,
     water_TAP = 0,
     IPVersion = (\<lambda>p. drop_bit 4 (p ! 0)),
     IPSource = (\<lambda>p. Some (take 4 (drop 12 p))),
     IPDestination = (\<lambda>p. Some (take 4 (drop 16 p))),
     MACSource = (\<lambda>p. take 6 (drop 6 p)),
     MACDestination = (\<lambda>p. take 6 p),
     MACEthertype = (\<lambda>p. take 2 (drop 12 p)),
     IsMACUnicast = (\<lambda>m. \<not> bit (m ! 0) 0),
     ethertype_ARP = [8, 6],
     ethertype_IPv4 = [8, 0],
     ethertype_IPv6 = [0x86, 0xDD],
     lru_NewWithEvict = ll_new, lru_Contains = (\<lambda>c k. False), lru_Add = ll_add,
     lru_Remove = ll_remove, lru_Resize = ll_resize, lru_Purge = ll_purge,
     lru_GetOldest = ll_oldest, lru_Keys = (\<lambda>c. []), lru_Len = (\<lambda>c. 0),
     cidr_Host = (\<lambda>n i. if 0 \<le> i \<and> i < 256 then Inr (take 3 (ipnet_IP n) @ [word_of_int i])
                              else Inl ''host number out of range''),
     cidr_AddressCount = (\<lambda>n. Ret 256)\<rparr>"

lemma demo_ext_simps [simp]:
  "ws_WriteMessage demo_ext = (\<lambda>e c oc m. (e @ [(c, m)], None))"
  "ws_dataWriter_Write demo_ext = (\<lambda>e c m. (e @ [(c, m)], None))"
  "ws_dataWriter_Flush demo_ext = (\<lambda>e c. (e, None))"
  "ws_conn_Close demo_ext = (\<lambda>e c. (e, None))"
  "wt_SendDatagram demo_ext = (\<lambda>e c m. if int (length m) \<le> demo_limit then (e @ [(c, m)], None)
                                 else (e, Some (DatagramTooLargeError demo_limit)))"
  "if_Write demo_ext = (\<lambda>e i m. (e @ [(length i, m)], None))"
  "if_Close demo_ext = (\<lambda>e i. (e, None))"
  "uuid_NewRandom demo_ext = (\<lambda>e. (e, Inr ''00000000-0000-4000-8000-000000000000''))"
  "IPVersion demo_ext = (\<lambda>p. drop_bit 4 (p ! 0))"
  "IPSource demo_ext = (\<lambda>p. Some (take 4 (drop 12 p)))"
  "IPDestination demo_ext = (\<lambda>p. Some (take 4 (drop 16 p)))"
  "MACSource demo_ext = (\<lambda>p. take 6 (drop 6 p))"
  "MACDestination demo_ext = (\<lambda>p. take 6 p)"
  "MACEthertype demo_ext = (\<lambda>p. take 2 (drop 12 p))"
  "IsMACUnicast demo_ext = (\<lambda>m. \<not> bit (m ! 0) 0)"
  "ethertype_ARP demo_ext = [8, 6]"
  "ethertype_IPv4 demo_ext = [8, 0]"
  "ethertype_IPv6 demo_ext = [0x86, 0xDD]"
  "lru_NewWithEvict demo_ext = ll_new"
  "lru_Contains demo_ext = (\<lambda>c k. k \<in> fst ` set (snd c))"
  "lru_Add demo_ext = ll_add"
  "lru_Remove demo_ext = ll_remove"
  "lru_Resize demo_ext = ll_resize"
  "lru_Purge demo_ext = ll_purge"
  "lru_GetOldest demo_ext = ll_oldest"
  "lru_Keys demo_ext = (\<lambda>c. map fst (snd c))"
  "lru_Len demo_ext = (\<lambda>c. length (snd c))"
  "cidr_Host demo_ext = (\<lambda>n i. if 0 \<le> i \<and> i < 256 then Inr (take 3 (ipnet_IP n) @ [word_of_int i])
                              else Inl ''host number out of range'')"
  "cidr_AddressCount demo_ext = (\<lambda>n. Ret 256)"
  by (simp_all add: demo_ext_def with_list_lru_def)

lemma demo_lru_cache: "lru_cache demo_ext ll_ok fst snd"
  unfolding demo_ext_def by (rule ll.lru_cache_axioms)

end
