(* ===== verification/Net_IP.thy ===== *)
theory Net_IP
  imports Externals
begin

text \<open>
  The part of Go's \<^verbatim>\<open>net.IP\<close> that the switches use, and the two address
  conversions of the switches: \<open>ipToIPAddr\<close> of \<^verbatim>\<open>server/ipswitch/base.go\<close>
  (the key of the IP table) and \<open>hwAddrToMAC\<close> of \<^verbatim>\<open>server/macswitch/base.go\<close>
  (the key of the MAC table).
\<close>

unbundle bit_operations_syntax

section \<open>The standard library\<close>

definition v4InV6Prefix :: bytes where
  "v4InV6Prefix = replicate 10 0 @ [255, 255]"

definition To4 :: "ip \<Rightarrow> bytes option" where
  "To4 ip = (if length ip = 4 then Some ip
     else if length ip = 16 \<and> take 12 ip = v4InV6Prefix then Some (drop 12 ip)
     else None)"

definition To16 :: "ip \<Rightarrow> bytes option" where
  "To16 ip = (if length ip = 4 then Some (v4InV6Prefix @ ip)
     else if length ip = 16 then Some ip
     else None)"

definition ip_Equal :: "ip \<Rightarrow> ip \<Rightarrow> bool" where
  "ip_Equal ip y =
     (if length ip = length y then ip = y
      else if length ip = 4 \<and> length y = 16 then take 12 y = v4InV6Prefix \<and> ip = drop 12 y
      else if length ip = 16 \<and> length y = 4 then take 12 ip = v4InV6Prefix \<and> drop 12 ip = y
      else False)"

definition IPv4bcast :: ip where
  "IPv4bcast = v4InV6Prefix @ [255, 255, 255, 255]"

definition IPv4zero :: ip where
  "IPv4zero = v4InV6Prefix @ [0, 0, 0, 0]"

definition IPv6unspecified :: ip where
  "IPv6unspecified = replicate 16 0"

definition IPv6loopback :: ip where
  "IPv6loopback = replicate 15 0 @ [1]"

definition IsUnspecified :: "ip \<Rightarrow> bool" where
  "IsUnspecified ip \<longleftrightarrow> ip_Equal ip IPv4zero \<or> ip_Equal ip IPv6unspecified"

definition IsLoopback :: "ip \<Rightarrow> bool" where
  "IsLoopback ip = (case To4 ip of
     Some ip4 \<Rightarrow> ip4 ! 0 = 127
   | None \<Rightarrow> ip_Equal ip IPv6loopback)"

definition IsMulticast :: "ip \<Rightarrow> bool" where
  "IsMulticast ip = (case To4 ip of
     Some ip4 \<Rightarrow> ip4 ! 0 AND 0xf0 = 0xe0
   | None \<Rightarrow> length ip = 16 \<and> ip ! 0 = 0xff)"

definition IsLinkLocalUnicast :: "ip \<Rightarrow> bool" where
  "IsLinkLocalUnicast ip = (case To4 ip of
     Some ip4 \<Rightarrow> ip4 ! 0 = 169 \<and> ip4 ! 1 = 254
   | None \<Rightarrow> length ip = 16 \<and> ip ! 0 = 0xfe \<and> ip ! 1 AND 0xc0 = 0x80)"

definition IsGlobalUnicast :: "ip \<Rightarrow> bool" where
  "IsGlobalUnicast ip \<longleftrightarrow>
     (length ip = 4 \<or> length ip = 16) \<and> \<not> ip_Equal ip IPv4bcast \<and> \<not> IsUnspecified ip \<and>
     \<not> IsLoopback ip \<and> \<not> IsMulticast ip \<and> \<not> IsLinkLocalUnicast ip"

section \<open>Table keys\<close>

type_synonym ipaddr = bytes

text \<open>
  \<^verbatim>\<open>copy(out[:], ip.To16())\<close> into a zeroed 16-byte array; \<^verbatim>\<open>To16\<close>
  is nil, and the array stays zero, for an address that is neither 4 nor 16 bytes long.
\<close>

definition ipToIPAddr :: "ip \<Rightarrow> ipaddr" where
  "ipToIPAddr ip = (case To16 ip of Some b \<Rightarrow> b | None \<Rightarrow> replicate 16 0)"

text \<open>\<^verbatim>\<open>copy(out[:], hw)\<close> into a zeroed 6-byte array.\<close>

definition hwAddrToMAC :: "hwaddr \<Rightarrow> macAddr" where
  "hwAddrToMAC hw = take 6 hw @ drop (length hw) (replicate 6 0)"

section \<open>Lemmas\<close>

definition valid_ip :: "ip \<Rightarrow> bool" where
  "valid_ip ip \<longleftrightarrow> length ip = 4 \<or> length ip = 16"

lemma length_v4InV6Prefix [simp]: "length v4InV6Prefix = 12"
  by (simp add: v4InV6Prefix_def)

lemma length_ipToIPAddr [simp]: "length (ipToIPAddr ip) = 16"
  by (auto simp: ipToIPAddr_def To16_def)

lemma length_hwAddrToMAC [simp]: "length (hwAddrToMAC hw) = 6"
  by (simp add: hwAddrToMAC_def)

lemma ip_Equal_refl [simp]: "ip_Equal ip ip"
  by (simp add: ip_Equal_def)

lemma ip_Equal_sym: "ip_Equal a b \<Longrightarrow> ip_Equal b a"
  by (auto simp: ip_Equal_def split: if_splits)

lemma split_prefix: "length a = 16 \<Longrightarrow> length b = 4 \<Longrightarrow>
    a = v4InV6Prefix @ b \<longleftrightarrow> take 12 a = v4InV6Prefix \<and> drop 12 a = b"
  using append_eq_conv_conj [of v4InV6Prefix b a] by auto

lemma ip_Equal_iff_key:
  assumes "valid_ip a" and "valid_ip b"
  shows "ip_Equal a b \<longleftrightarrow> ipToIPAddr a = ipToIPAddr b"
  using assms split_prefix [of a b] split_prefix [of b a]
  by (auto simp: valid_ip_def ip_Equal_def ipToIPAddr_def To16_def)

text \<open>
  The source-address test of the IP switch (\<^verbatim>\<open>srcIP.Equal(AssignedIP)\<close>)
  and the key of its table (\<^verbatim>\<open>ipToIPAddr\<close>) identify the same addresses: two
  addresses of legal length pass \<^verbatim>\<open>Equal\<close> exactly when they have the same key,
  whether written in 4 or 16 bytes, so a socket is found under every spelling of the address
  that its anti-spoofing test accepts.
\<close>

theorem spoof_test_matches_table_key:
  assumes "length a = 4 \<or> length a = 16" and "length b = 4 \<or> length b = 16"
  shows "ip_Equal a b \<longleftrightarrow> ipToIPAddr a = ipToIPAddr b"
  using assms ip_Equal_iff_key by (simp add: valid_ip_def)

theorem spoof_test_matches_table_key_witness:
  "ip_Equal [10, 0, 0, 2] (v4InV6Prefix @ [10, 0, 0, 2]) \<longleftrightarrow>
   ipToIPAddr [10, 0, 0, 2] = ipToIPAddr (v4InV6Prefix @ [10, 0, 0, 2])"
  by (rule spoof_test_matches_table_key) simp_all

end
