(* ===== verification/Shared_Base.thy ===== *)
theory Shared_Base
  imports Net_IP
begin

text \<open>
  The helpers of \<^verbatim>\<open>shared/\<close>: the VPN modes (\<^verbatim>\<open>modes.go\<close>), the
  string and size helpers (\<^verbatim>\<open>util.go\<close>), the feature names
  (\<^verbatim>\<open>features/base.go\<close>), the protocol version (\<^verbatim>\<open>version.go\<close>),
  the TLS version names (\<^verbatim>\<open>tls.go\<close>), the event scripts
  (\<^verbatim>\<open>events.go\<close>) and the VPN subnet (\<^verbatim>\<open>vpn_net.go\<close>).
\<close>

section \<open>Modes\<close>

datatype VPNMode = VPNModeTUN | VPNModeTAP | VPNModeInvalid

primrec ModeToString :: "VPNMode \<Rightarrow> string" where
  "ModeToString VPNModeTAP = ''TAP''"
| "ModeToString VPNModeTUN = ''TUN''"
| "ModeToString VPNModeInvalid = ''Invalid''"

primrec ToWaterDeviceType :: "('e, 'l) ext \<Rightarrow> VPNMode \<Rightarrow> int" where
  "ToWaterDeviceType x VPNModeTAP = water_TAP x"
| "ToWaterDeviceType x VPNModeTUN = water_TUN x"
| "ToWaterDeviceType x VPNModeInvalid = -1"

definition VPNModeFromString :: "string \<Rightarrow> VPNMode" where
  "VPNModeFromString mode =
     (if mode = ''TAP'' then VPNModeTAP
      else if mode = ''TUN'' then VPNModeTUN
      else VPNModeInvalid)"

section \<open>Strings and sizes\<close>

definition BoolToString :: "bool \<Rightarrow> string \<Rightarrow> string \<Rightarrow> string" where
  "BoolToString val trueval falseval = (if val then trueval else falseval)"

definition BoolIfString :: "bool \<Rightarrow> string \<Rightarrow> string" where
  "BoolIfString val trueval = BoolToString val trueval ''''"

definition BoolToEnabled :: "bool \<Rightarrow> string" where
  "BoolToEnabled val = BoolToString val ''enabled'' ''disabled''"

definition GetPacketBufferSizeByMTU :: "int \<Rightarrow> int" where
  "GetPacketBufferSizeByMTU mtu = mtu + 18 + 64"

definition DefaultMAC :: hwaddr where
  "DefaultMAC = [0xFF, 0xFF, 0xFF, 0xFF, 0xFF, 0xFF]"

section \<open>Features and versions\<close>

type_synonym feature = string

definition Fragmentation :: feature where
  "Fragmentation = ''fragmentation''"

definition Compression :: feature where
  "Compression = ''compression''"

definition IsFeatureSupported :: "feature \<Rightarrow> bool" where
  "IsFeatureSupported feat \<longleftrightarrow> feat = Fragmentation"

lemma Fragmentation_neq_Compression [simp]: "Fragmentation \<noteq> Compression"
  by (simp add: Fragmentation_def Compression_def)

definition Version :: string where
  "Version = ''dev''"

definition ProtocolVersion :: int where
  "ProtocolVersion = 12"

text \<open>The constants of \<^verbatim>\<open>crypto/tls\<close>: TLS 1.0 is \<open>0x0301\<close>, and so on.\<close>

definition TLSVersionString :: "u16 \<Rightarrow> string" where
  "TLSVersionString version =
     (if version = 0x0301 then ''1.0''
      else if version = 0x0302 then ''1.1''
      else if version = 0x0303 then ''1.2''
      else if version = 0x0304 then ''1.3''
      else ''Invalid'')"

definition TLSVersionNum :: "string \<Rightarrow> u16" where
  "TLSVersionNum version =
     (if version = ''1.0'' then 0x0301
      else if version = ''1.1'' then 0x0302
      else if version = ''1.2'' then 0x0303
      else if version = ''1.3'' then 0x0304
      else 0)"

section \<open>Event scripts\<close>

definition EventUp :: string where "EventUp = ''up''"

definition EventDown :: string where "EventDown = ''down''"

definition EventStartup :: string where "EventStartup = ''startup''"

record EventConfigHolder =
  UpScript :: "string list"
  DownScript :: "string list"
  StartupScript :: "string list"

record EventConfig =
  ec_Up :: "string list"
  ec_Down :: "string list"
  ec_Startup :: "string list"

definition joinSpace :: "string list \<Rightarrow> string" where
  "joinSpace ss = concat (case ss of [] \<Rightarrow> [] | s # rest \<Rightarrow> s # map ((@) '' '') rest)"

definition ExecCmd :: "('e, 'l) ext \<Rightarrow> 'e \<Rightarrow> string \<Rightarrow> string list \<Rightarrow> 'e \<times> go_error option" where
  "ExecCmd x e cmd arg = (case exec_Run x e (cmd # arg) of
     (e', None) \<Rightarrow> (e', None)
   | (e', Some err) \<Rightarrow>
       (e', Some (GoErr (''command '' @ cmd @ '' '' @ joinSpace arg @ '': '' @ err))))"

text \<open>
  \<^verbatim>\<open>ExecCmdGetStdOut\<close>, which no part of the program calls: the output of the command, or
  none with an error. \<open>run\<close> runs a command and gives what the process wrote and its error; the
  buffer behind the writer is empty, so the writer hands the output on without keeping any of it.
\<close>

definition ExecCmdGetStdOut :: "('e \<Rightarrow> string list \<Rightarrow> 'e \<times> string \<times> string option) \<Rightarrow> 'e \<Rightarrow> string
    \<Rightarrow> string list \<Rightarrow> 'e \<times> string \<times> go_error option" where
  "ExecCmdGetStdOut run e cmd arg = (case run e (cmd # arg) of
     (e', out, None) \<Rightarrow> (e', out, None)
   | (e', out, Some err) \<Rightarrow>
       (e', [], Some (GoErr (''command '' @ cmd @ '' '' @ joinSpace arg @ '': '' @ err))))"

definition RunEventScript :: "('e, 'l) ext \<Rightarrow> 'e \<Rightarrow> EventConfigHolder \<Rightarrow> string \<Rightarrow> string \<Rightarrow> string
    \<Rightarrow> string list \<Rightarrow> 'e \<times> go_error option" where
  "RunEventScript x e c op remoteNet ifc args =
     (case (if op = EventUp then Some (UpScript c)
            else if op = EventDown then Some (DownScript c)
            else if op = EventStartup then Some (StartupScript c)
            else None) of
        None \<Rightarrow> (e, Some (GoErr (''invalid event '' @ op)))
      | Some [] \<Rightarrow> (e, None)
      | Some (exe # scriptArgs) \<Rightarrow>
          ExecCmd x e exe (scriptArgs @ [op, remoteNet, ifc] @ args))"

definition LoadEventConfig :: "EventConfigHolder \<Rightarrow> EventConfig \<Rightarrow> EventConfigHolder" where
  "LoadEventConfig c config =
     c\<lparr>UpScript := ec_Up config, DownScript := ec_Down config, StartupScript := ec_Startup config\<rparr>"

section \<open>The VPN subnet\<close>

record VPNNet =
  vn_ip :: ip
  vn_ipNet :: ipnet
  vn_str :: string

definition GetRawIP :: "VPNNet \<Rightarrow> ip" where
  "GetRawIP r = vn_ip r"

definition GetIPAt :: "('e, 'l) ext \<Rightarrow> VPNNet \<Rightarrow> int \<Rightarrow> string + ip" where
  "GetIPAt x r idx = cidr_Host x (vn_ipNet r) idx"

text \<open>\<^verbatim>\<open>ip, _ := r.GetIPAt(1)\<close>: on an error the address is nil.\<close>

definition GetServerIP :: "('e, 'l) ext \<Rightarrow> VPNNet \<Rightarrow> ip option" where
  "GetServerIP x r = (case GetIPAt x r 1 of Inl _ \<Rightarrow> None | Inr i \<Rightarrow> Some i)"

definition GetSubnet :: "VPNNet \<Rightarrow> ipnet" where
  "GetSubnet r = vn_ipNet r"

definition GetRaw :: "VPNNet \<Rightarrow> string" where
  "GetRaw r = vn_str r"

text \<open>
  \<^verbatim>\<open>net.IPMask.Size\<close>: the number of leading one bits, and 0 for a mask that is not
  ones followed by zeros.
\<close>

fun byte_ones :: "nat \<Rightarrow> u8 \<Rightarrow> nat" where
  "byte_ones 0 b = 0"
| "byte_ones (Suc n) b = (if bit b n then Suc (byte_ones n b) else 0)"

fun simpleMaskLength :: "bytes \<Rightarrow> nat option" where
  "simpleMaskLength [] = Some 0"
| "simpleMaskLength (v # vs) =
     (if v = 0xff then map_option ((+) 8) (simpleMaskLength vs)
      else if v = push_bit (8 - byte_ones 8 v) (0xff :: u8) \<and> list_all (\<lambda>b. b = 0) vs
      then Some (byte_ones 8 v)
      else None)"

definition GetSize :: "VPNNet \<Rightarrow> int" where
  "GetSize r = (case simpleMaskLength (ipnet_Mask (vn_ipNet r)) of None \<Rightarrow> 0 | Some n \<Rightarrow> int n)"

definition GetClientSlots :: "('e, 'l) ext \<Rightarrow> VPNNet \<Rightarrow> u64 go" where
  "GetClientSlots x r = (case cidr_AddressCount x (vn_ipNet r) of
     Panic \<Rightarrow> Panic | Ret n \<Rightarrow> Ret (n - 3))"

definition VPNNet_Equals :: "VPNNet \<Rightarrow> VPNNet \<Rightarrow> bool" where
  "VPNNet_Equals r other \<longleftrightarrow> vn_str r = vn_str other"

section \<open>Lemmas\<close>

lemma mode_roundtrip: "VPNModeFromString (ModeToString m) = m"
  by (cases m) (simp_all add: VPNModeFromString_def)

lemma mode_roundtrip_string:
  "VPNModeFromString s \<noteq> VPNModeInvalid \<Longrightarrow> ModeToString (VPNModeFromString s) = s"
  by (auto simp: VPNModeFromString_def split: if_splits)

lemma tls_roundtrip: "TLSVersionNum v \<noteq> 0 \<Longrightarrow> TLSVersionString (TLSVersionNum v) = v"
  by (auto simp: TLSVersionNum_def TLSVersionString_def split: if_splits)

lemma byte_ones_le: "byte_ones n b \<le> n"
  by (induction n b rule: byte_ones.induct) auto

lemma GetSize_bound: "GetSize r \<le> 8 * int (length (ipnet_Mask (vn_ipNet r)))"
proof -
  have "simpleMaskLength m = Some n \<Longrightarrow> n \<le> 8 * length m" for m n
  proof (induction m arbitrary: n rule: simpleMaskLength.induct)
    case (2 v vs)
    then show ?case using byte_ones_le [of 8 v] by (auto split: if_splits)
  qed simp
  then show ?thesis by (fastforce simp: GetSize_def split: option.splits)
qed

end
