(* ===== verification/Cond_Wait.thy ===== *)
theory Cond_Wait
  imports Wsvpn_Prelude
begin

text \<open>
  Waiting for an object to be ready: the loop of \<^verbatim>\<open>WaitReady\<close> over a
  \<^verbatim>\<open>sync.Cond\<close> and \<^verbatim>\<open>setReady\<close>, which the socket
  (\<^verbatim>\<open>shared/sockets/base.go\<close>) and the WebTransport adapter have in the same words.
  Each transition is one access to shared memory, so that a list of actions is an interleaving of the
  goroutines. \<open>ready\<close> and \<open>put\<close> are the field \<^verbatim>\<open>isReady\<close> of the object
  and its update.
\<close>

section \<open>The goroutines\<close>

text \<open>
  Where a goroutine is in \<^verbatim>\<open>WaitReady\<close>: before the test of the loop; before
  \<^verbatim>\<open>L.Lock()\<close>; inside \<^verbatim>\<open>Wait\<close>, before it joins the list of
  those that a broadcast wakes; before it unlocks, and whether a broadcast came since; asleep; awake and
  about to lock again; before \<^verbatim>\<open>L.Unlock()\<close>; or not in the function any more.
\<close>

datatype wait_pc = AtTest | AtLock | AtEnlist | AtRelease bool | Asleep | Awake | AtUnlock | Returned

text \<open>\<open>cv_setting\<close> counts the calls of \<^verbatim>\<open>setReady\<close> that are between their two statements.\<close>

record ('w, 's) cond_state =
  cv_obj :: 's
  cv_at :: "'w \<Rightarrow> wait_pc"
  cv_lock :: "'w option"
  cv_setting :: nat

text \<open>\<^verbatim>\<open>MakeSimpleCond\<close>: nobody holds the new lock, and nobody waits.\<close>

definition MakeSimpleCond :: "'s \<Rightarrow> ('w, 's) cond_state" where
  "MakeSimpleCond obj = \<lparr>cv_obj = obj, cv_at = (\<lambda>_. Returned), cv_lock = None, cv_setting = 0\<rparr>"

definition cv_start :: "'w set \<Rightarrow> 's \<Rightarrow> ('w, 's) cond_state" where
  "cv_start W obj = (MakeSimpleCond obj)\<lparr>cv_at := (\<lambda>w. if w \<in> W then AtTest else Returned)\<rparr>"

definition goto :: "'w \<Rightarrow> wait_pc \<Rightarrow> 'w option \<Rightarrow> ('w, 's) cond_state \<Rightarrow> ('w, 's) cond_state" where
  "goto w pc lock s = s\<lparr>cv_at := (cv_at s)(w := pc), cv_lock := lock\<rparr>"

text \<open>The next step of a goroutine; \<open>None\<close> if it is blocked.\<close>

definition WaitReady_step :: "('s \<Rightarrow> bool) \<Rightarrow> 'w \<Rightarrow> ('w, 's) cond_state \<Rightarrow> ('w, 's) cond_state option" where
  "WaitReady_step ready w s = (case cv_at s w of
     AtTest \<Rightarrow> Some (goto w (if ready (cv_obj s) then Returned else AtLock) (cv_lock s) s)
   | AtLock \<Rightarrow> if cv_lock s = None then Some (goto w AtEnlist (Some w) s) else None
   | AtEnlist \<Rightarrow> Some (goto w (AtRelease False) (cv_lock s) s)
   | AtRelease notified \<Rightarrow> Some (goto w (if notified then Awake else Asleep) None s)
   | Asleep \<Rightarrow> None
   | Awake \<Rightarrow> if cv_lock s = None then Some (goto w AtUnlock (Some w) s) else None
   | AtUnlock \<Rightarrow> Some (goto w AtTest None s)
   | Returned \<Rightarrow> None)"

text \<open>The two statements of \<^verbatim>\<open>setReady\<close>; neither takes the lock.\<close>

definition setReady_store :: "('s \<Rightarrow> 's) \<Rightarrow> ('w, 's) cond_state \<Rightarrow> ('w, 's) cond_state" where
  "setReady_store put s = s\<lparr>cv_obj := put (cv_obj s), cv_setting := Suc (cv_setting s)\<rparr>"

fun notify :: "wait_pc \<Rightarrow> wait_pc" where
  "notify (AtRelease b) = AtRelease True"
| "notify Asleep = Awake"
| "notify pc = pc"

definition Broadcast :: "('w, 's) cond_state \<Rightarrow> ('w, 's) cond_state option" where
  "Broadcast s = (case cv_setting s of
     0 \<Rightarrow> None
   | Suc n \<Rightarrow> Some (s\<lparr>cv_at := (\<lambda>w. notify (cv_at s w)), cv_setting := n\<rparr>))"

datatype 'w cond_act = Store | Notify | Runs 'w

primrec cond_step :: "('s \<Rightarrow> bool) \<Rightarrow> ('s \<Rightarrow> 's) \<Rightarrow> 'w cond_act \<Rightarrow> ('w, 's) cond_state \<Rightarrow> ('w, 's) cond_state option" where
  "cond_step ready put Store s = Some (setReady_store put s)"
| "cond_step ready put Notify s = Broadcast s"
| "cond_step ready put (Runs w) s = WaitReady_step ready w s"

primrec cond_run :: "('s \<Rightarrow> bool) \<Rightarrow> ('s \<Rightarrow> 's) \<Rightarrow> 'w cond_act list \<Rightarrow> ('w, 's) cond_state \<Rightarrow> ('w, 's) cond_state option" where
  "cond_run ready put [] s = Some s"
| "cond_run ready put (a # as) s = (case cond_step ready put a s of None \<Rightarrow> None | Some s' \<Rightarrow> cond_run ready put as s')"

definition waiter_steps :: "'w cond_act list \<Rightarrow> nat" where
  "waiter_steps as = length (filter (\<lambda>a. a \<notin> {Store, Notify}) as)"

lemma goto_simps [simp]:
  "cv_obj (goto w pc l s) = cv_obj s" "cv_at (goto w pc l s) = (cv_at s)(w := pc)" "cv_lock (goto w pc l s) = l"
  "cv_setting (goto w pc l s) = cv_setting s"
  by (simp_all add: goto_def)

lemma cv_start_simps [simp]:
  "cv_obj (cv_start W obj) = obj" "cv_at (cv_start W obj) w = (if w \<in> W then AtTest else Returned)"
  "cv_lock (cv_start W obj) = None" "cv_setting (cv_start W obj) = 0"
  by (simp_all add: cv_start_def MakeSimpleCond_def)

lemma notify_eq [simp]:
  "notify pc = AtTest \<longleftrightarrow> pc = AtTest" "notify pc = AtLock \<longleftrightarrow> pc = AtLock" "notify pc = AtEnlist \<longleftrightarrow> pc = AtEnlist"
  "notify pc \<noteq> AtRelease False" "notify pc \<noteq> Asleep" "notify pc = AtUnlock \<longleftrightarrow> pc = AtUnlock"
  "notify pc = Returned \<longleftrightarrow> pc = Returned" "notify pc = AtRelease b \<longleftrightarrow> b \<and> (\<exists>b'. pc = AtRelease b')"
  by (cases pc; simp)+

lemma cond_run_append:
  "cond_run ready put (as @ bs) s = (case cond_run ready put as s of None \<Rightarrow> None | Some s' \<Rightarrow> cond_run ready put bs s')"
  by (induction as arbitrary: s) (auto split: option.splits)

section \<open>What holds in every interleaving\<close>

text \<open>
  A goroutine is past waiting, or the lock is held by one that is at a place where it holds it; ready
  stays ready; who has returned has seen it.
\<close>

fun holds_lock :: "wait_pc \<Rightarrow> bool" where
  "holds_lock AtEnlist \<longleftrightarrow> True"
| "holds_lock (AtRelease b) \<longleftrightarrow> True"
| "holds_lock AtUnlock \<longleftrightarrow> True"
| "holds_lock pc \<longleftrightarrow> False"

definition cond_ok :: "('s \<Rightarrow> bool) \<Rightarrow> 'w set \<Rightarrow> ('w, 's) cond_state \<Rightarrow> bool" where
  "cond_ok ready W s \<longleftrightarrow> (\<forall>w. holds_lock (cv_at s w) \<longleftrightarrow> cv_lock s = Some w) \<and>
     (\<forall>w \<in> W. cv_at s w = Returned \<longrightarrow> ready (cv_obj s)) \<and> (\<forall>w. w \<notin> W \<longrightarrow> cv_at s w = Returned) \<and>
     (cv_setting s > 0 \<longrightarrow> ready (cv_obj s))"

text \<open>Ready, and no goroutine that could still go to sleep or is asleep.\<close>

definition all_notified :: "('s \<Rightarrow> bool) \<Rightarrow> ('w, 's) cond_state \<Rightarrow> bool" where
  "all_notified ready s \<longleftrightarrow> ready (cv_obj s) \<and> (\<forall>w. cv_at s w \<notin> {AtLock, AtEnlist, AtRelease False, Asleep})"

fun steps_left :: "wait_pc \<Rightarrow> nat" where
  "steps_left (AtRelease b) = 4" | "steps_left Awake = 3" | "steps_left AtUnlock = 2" | "steps_left AtTest = 1"
| "steps_left Returned = 0" | "steps_left pc = 5"

text \<open>Ready, nothing under way, and a goroutine that sleeps whatever the others do, short of another \<^verbatim>\<open>setReady\<close>.\<close>

definition missed_wakeup :: "('s \<Rightarrow> bool) \<Rightarrow> ('s \<Rightarrow> 's) \<Rightarrow> 'w \<Rightarrow> ('w, 's) cond_state \<Rightarrow> bool" where
  "missed_wakeup ready put w s \<longleftrightarrow> ready (cv_obj s) \<and> cv_setting s = 0 \<and>
     (\<forall>as s'. Store \<notin> set as \<longrightarrow> cond_run ready put as s = Some s' \<longrightarrow> cv_at s' w = Asleep)"

locale ready_flag =
  fixes ready :: "'s \<Rightarrow> bool" and put :: "'s \<Rightarrow> 's"
  assumes put_ready: "ready (put s)"
begin

lemma ok_start: "cond_ok ready W (cv_start W obj)"
  by (simp add: cond_ok_def)

lemma ok_goto:
  assumes "cond_ok ready W s" and "w \<in> W" and "holds_lock pc \<longleftrightarrow> l = Some w"
    and "\<And>v. v \<noteq> w \<Longrightarrow> l = Some v \<longleftrightarrow> cv_lock s = Some v" and "pc = Returned \<Longrightarrow> ready (cv_obj s)"
  shows "cond_ok ready W (goto w pc l s)"
  using assms by (auto simp: cond_ok_def)

lemma ok_waiter:
  assumes "WaitReady_step ready w s = Some s'" and ok: "cond_ok ready W s"
  shows "cond_ok ready W s'"
proof -
  have "cv_at s w \<noteq> Returned" using assms(1) by (auto simp: WaitReady_step_def)
  then have w: "w \<in> W" using ok by (auto simp: cond_ok_def)
  have lock: "holds_lock (cv_at s w) \<longleftrightarrow> cv_lock s = Some w" using ok by (simp add: cond_ok_def)
  show ?thesis
    using assms(1) lock
    by (cases "cv_at s w") (auto simp: WaitReady_step_def intro!: ok_goto [OF ok w] split: if_splits)
qed

lemma holds_lock_notify [simp]: "holds_lock (notify pc) = holds_lock pc"
  by (cases pc) simp_all

lemma ok_step: "\<lbrakk>cond_step ready put a s = Some s'; cond_ok ready W s\<rbrakk> \<Longrightarrow> cond_ok ready W s'"
proof (cases a)
  case (Runs w)
  then show "cond_step ready put a s = Some s' \<Longrightarrow> cond_ok ready W s \<Longrightarrow> cond_ok ready W s'" by (simp add: ok_waiter)
qed (auto simp: cond_ok_def setReady_store_def put_ready Broadcast_def split: nat.splits)

lemma ok_run: "\<lbrakk>cond_run ready put as s = Some s'; cond_ok ready W s\<rbrakk> \<Longrightarrow> cond_ok ready W s'"
  by (induction as arbitrary: s) (auto split: option.splits dest: ok_step)

lemma notified_step: "\<lbrakk>cond_step ready put a s = Some s'; all_notified ready s\<rbrakk> \<Longrightarrow> all_notified ready s'"
  by (cases a) (auto simp: all_notified_def setReady_store_def put_ready Broadcast_def WaitReady_step_def
      split: nat.splits wait_pc.splits if_splits)

lemma notified_Broadcast:
  assumes "cond_step ready put Notify s = Some s'" and "cond_ok ready W s" and "\<And>w. cv_at s w \<noteq> AtLock \<and> cv_at s w \<noteq> AtEnlist"
  shows "all_notified ready s'"
  using assms by (auto simp: all_notified_def cond_ok_def Broadcast_def split: nat.splits)

text \<open>A step of a waiter that has been notified brings it nearer to its return.\<close>

lemma steps_left_waiter:
  "\<lbrakk>WaitReady_step ready w s = Some s'; all_notified ready s\<rbrakk> \<Longrightarrow>
     Suc (steps_left (cv_at s' w)) = steps_left (cv_at s w) \<and> (\<forall>v. v \<noteq> w \<longrightarrow> cv_at s' v = cv_at s v)"
  by (auto simp: all_notified_def WaitReady_step_def split: wait_pc.splits if_splits)

lemma steps_left_notify: "all_notified ready s \<Longrightarrow> steps_left (notify (cv_at s w)) = steps_left (cv_at s w)"
  by (cases "cv_at s w") (auto simp: all_notified_def)

lemma steps_left_step:
  assumes "cond_step ready put a s = Some s'" and n: "all_notified ready s" and ok: "cond_ok ready W s" and "finite W"
  shows "(\<Sum>w\<in>W. steps_left (cv_at s' w)) + waiter_steps [a] = (\<Sum>w\<in>W. steps_left (cv_at s w))"
proof (cases a)
  case (Runs v)
  then have r: "WaitReady_step ready v s = Some s'" using assms(1) by simp
  have "cv_at s v \<noteq> Returned" using r by (auto simp: WaitReady_step_def)
  then have "v \<in> W" using ok by (auto simp: cond_ok_def)
  then have "(\<Sum>w\<in>W. f w) = f v + (\<Sum>w\<in>W - {v}. f w)" for f :: "_ \<Rightarrow> nat"
    using assms(4) by (simp add: sum.remove)
  moreover have "(\<Sum>w\<in>W - {v}. steps_left (cv_at s' w)) = (\<Sum>w\<in>W - {v}. steps_left (cv_at s w))"
    using steps_left_waiter [OF r n] by (intro sum.cong) auto
  ultimately show ?thesis using steps_left_waiter [OF r n] Runs by (simp add: waiter_steps_def)
next
  case Notify
  then show ?thesis using assms(1) steps_left_notify [OF n] by (auto simp: Broadcast_def waiter_steps_def split: nat.splits)
next
  case Store
  then show ?thesis using assms(1) by (auto simp: setReady_store_def waiter_steps_def)
qed

lemma notified_run:
  "\<lbrakk>cond_run ready put as s = Some s'; all_notified ready s; cond_ok ready W s; finite W\<rbrakk> \<Longrightarrow>
     all_notified ready s' \<and> cond_ok ready W s' \<and>
     (\<Sum>w\<in>W. steps_left (cv_at s' w)) + waiter_steps as = (\<Sum>w\<in>W. steps_left (cv_at s w))"
proof (induction as arbitrary: s)
  case (Cons a as)
  then obtain s1 where s1: "cond_step ready put a s = Some s1" "cond_run ready put as s1 = Some s'"
    by (auto split: option.splits)
  have "waiter_steps (a # as) = waiter_steps [a] + waiter_steps as" by (simp add: waiter_steps_def)
  then show ?case
    using Cons.IH [OF s1(2) notified_step [OF s1(1) Cons.prems(2)] ok_step [OF s1(1) Cons.prems(3)] Cons.prems(4)]
      steps_left_step [OF s1(1) Cons.prems(2-4)] by simp
qed (simp add: waiter_steps_def)

lemma steps_left_bound: "all_notified ready s \<Longrightarrow> steps_left (cv_at s w) \<le> 4"
  by (cases "cv_at s w") (auto simp: all_notified_def)

text \<open>While one of them waits, one can go on: the lock is free, or held by one that does not sleep.\<close>

lemma notified_not_stuck:
  assumes "all_notified ready s" and "cond_ok ready W s" and "w \<in> W" and "cv_at s w \<noteq> Returned"
  shows "\<exists>v\<in>W. WaitReady_step ready v s \<noteq> None"
proof (cases "cv_lock s")
  case None
  then show ?thesis
    using assms by (intro bexI [of _ w]) (auto simp: WaitReady_step_def all_notified_def split: wait_pc.splits)
next
  case (Some v)
  then have h: "holds_lock (cv_at s v)" using assms(2) by (simp add: cond_ok_def)
  then have "cv_at s v \<noteq> Returned" by auto
  then have "v \<in> W" using assms(2) by (auto simp: cond_ok_def)
  with h show ?thesis
    using assms(1) by (intro bexI [of _ v]) (auto simp: WaitReady_step_def all_notified_def split: wait_pc.splits)
qed

lemma waiters_return:
  assumes "cond_run ready put as (cv_start W obj) = Some s" and "finite W"
    and "cond_step ready put Notify s = Some s1" and "\<And>w. cv_at s w \<noteq> AtLock \<and> cv_at s w \<noteq> AtEnlist"
    and "cond_run ready put bs s1 = Some s2"
  shows "waiter_steps bs \<le> 4 * card W" and "\<lbrakk>w \<in> W; cv_at s2 w \<noteq> Returned\<rbrakk> \<Longrightarrow> \<exists>v\<in>W. cond_step ready put (Runs v) s2 \<noteq> None"
proof -
  have ok: "cond_ok ready W s" by (rule ok_run [OF assms(1) ok_start])
  have n: "all_notified ready s1" by (rule notified_Broadcast [OF assms(3) ok assms(4)])
  note r = notified_run [OF assms(5) n ok_step [OF assms(3) ok] assms(2)]
  have "(\<Sum>w\<in>W. steps_left (cv_at s1 w)) \<le> (\<Sum>w\<in>W. 4)" by (rule sum_mono) (rule steps_left_bound [OF n])
  then show "waiter_steps bs \<le> 4 * card W" using r by simp
  show "\<lbrakk>w \<in> W; cv_at s2 w \<noteq> Returned\<rbrakk> \<Longrightarrow> \<exists>v\<in>W. cond_step ready put (Runs v) s2 \<noteq> None"
    using notified_not_stuck r by auto
qed

text \<open>A goroutine that is asleep when no call of \<^verbatim>\<open>setReady\<close> is under way sleeps until the next one.\<close>

lemma sleeps_on:
  "\<lbrakk>cond_run ready put as s = Some s'; cv_at s w = Asleep; cv_setting s = 0; Store \<notin> set as\<rbrakk> \<Longrightarrow>
     cv_at s' w = Asleep \<and> cv_setting s' = 0"
proof (induction as arbitrary: s)
  case (Cons a as)
  then obtain s1 where s1: "cond_step ready put a s = Some s1" "cond_run ready put as s1 = Some s'"
    by (auto split: option.splits)
  then have "cv_at s1 w = Asleep \<and> cv_setting s1 = 0"
    using Cons.prems(2-4) by (cases a) (auto simp: Broadcast_def WaitReady_step_def split: wait_pc.splits if_splits)
  then show ?case using Cons.IH [OF s1(2)] Cons.prems(4) by simp
qed simp

lemma misses_setReady:
  assumes "\<not> ready obj"
  shows "\<exists>s. cond_run ready put [Runs w, Store, Notify, Runs w, Runs w, Runs w] (cv_start {w} obj) = Some s \<and>
    missed_wakeup ready put w s \<and>
    (\<exists>s'. cond_run ready put [Store, Notify, Runs w, Runs w, Runs w] s = Some s' \<and> cv_at s' w = Returned)"
proof -
  obtain s where s: "cond_run ready put [Runs w, Store, Notify, Runs w, Runs w, Runs w] (cv_start {w} obj) = Some s"
    "ready (cv_obj s)" "cv_setting s = 0" "cv_at s w = Asleep" "cv_lock s = None"
    using assms by (simp add: WaitReady_step_def setReady_store_def Broadcast_def put_ready)
  have "\<exists>s'. cond_run ready put [Store, Notify, Runs w, Runs w, Runs w] s = Some s' \<and> cv_at s' w = Returned"
    using s(2-5) by (simp add: WaitReady_step_def setReady_store_def Broadcast_def put_ready)
  moreover have "missed_wakeup ready put w s"
    using s(2,3) by (auto simp: missed_wakeup_def dest: sleeps_on [OF _ s(4,3)])
  ultimately show ?thesis using s(1) by auto
qed

end

end
