(* ===== verification/Adapters.thy ===== *)
theory Adapters
  imports Shared_Base Cond_Wait
begin

text \<open>
  The two transports behind the \<^verbatim>\<open>SocketAdapter\<close> interface
  (\<^verbatim>\<open>shared/sockets/adapters\<close>): a WebSocket connection, which carries any message
  up to 65535 bytes, and a WebTransport session, which sends data as datagrams of a bounded
  size that it lowers when the QUIC library reports a smaller limit, and control messages and
  pings over one stream with a three-byte frame header.
\<close>

unbundle bit_operations_syntax

section \<open>State\<close>

type_synonym SerializationType = int

record ws_adapter =
  ws_conn :: conn
  ws_serializationType :: SerializationType
  ws_isServer :: bool

record wt_adapter =
  wt_conn :: conn
  wt_stream :: bool
  wt_isServer :: bool
  wt_isReady :: bool
  wt_isFullyInitialized :: bool
  wt_serializationType :: SerializationType
  wt_lastServeError :: "go_error option"
  wt_lastServeErrorUnexpected :: bool
  wt_maxPayloadLen :: u16

datatype adapter = WS ws_adapter | WT wt_adapter

definition NewWebSocketAdapter :: "conn \<Rightarrow> SerializationType \<Rightarrow> bool \<Rightarrow> adapter" where
  "NewWebSocketAdapter c st isServer =
     WS \<lparr>ws_conn = c, ws_serializationType = st, ws_isServer = isServer\<rparr>"

definition NewWebTransportAdapter :: "conn \<Rightarrow> SerializationType \<Rightarrow> bool \<Rightarrow> adapter" where
  "NewWebTransportAdapter c st isServer =
     WT \<lparr>wt_conn = c, wt_stream = False, wt_isServer = isServer, wt_isReady = False,
         wt_isFullyInitialized = False, wt_serializationType = st, wt_lastServeError = None,
         wt_lastServeErrorUnexpected = False, wt_maxPayloadLen = 0\<rparr>"

primrec IsServer :: "adapter \<Rightarrow> bool" where
  "IsServer (WS a) = ws_isServer a"
| "IsServer (WT a) = wt_isServer a"

primrec IsClient :: "adapter \<Rightarrow> bool" where
  "IsClient (WS a) = (\<not> ws_isServer a)"
| "IsClient (WT a) = (\<not> wt_isServer a)"

primrec AdapterName :: "adapter \<Rightarrow> string" where
  "AdapterName (WS a) = ''WebSocket''"
| "AdapterName (WT a) = ''WebTransport''"

primrec GetCommandSerializationType :: "adapter \<Rightarrow> SerializationType" where
  "GetCommandSerializationType (WS a) = ws_serializationType a"
| "GetCommandSerializationType (WT a) = wt_serializationType a"

primrec MaxDataPayloadLen :: "adapter \<Rightarrow> u16" where
  "MaxDataPayloadLen (WS a) = 0xFFFF"
| "MaxDataPayloadLen (WT a) = wt_maxPayloadLen a"

definition wt_RefreshFeatures :: "wt_adapter \<Rightarrow> wt_adapter" where
  "wt_RefreshFeatures a = a\<lparr>wt_maxPayloadLen := 1200 - 16\<rparr>"

primrec RefreshFeatures :: "adapter \<Rightarrow> adapter" where
  "RefreshFeatures (WS a) = WS a"
| "RefreshFeatures (WT a) = WT (wt_RefreshFeatures a)"

text \<open>
  The addresses and the TLS state of a connection, as the two libraries give them; a network connection may
  be no TLS connection.
\<close>

record addr_ext =
  net_LocalAddr :: "conn \<Rightarrow> string"
  net_RemoteAddr :: "conn \<Rightarrow> string"
  net_tlsState :: "conn \<Rightarrow> string option"
  session_LocalAddr :: "conn \<Rightarrow> string"
  session_RemoteAddr :: "conn \<Rightarrow> string"
  session_tlsState :: "conn \<Rightarrow> string"

definition ws_LocalAddr :: "addr_ext \<Rightarrow> ws_adapter \<Rightarrow> string" where
  "ws_LocalAddr n a = net_LocalAddr n (ws_conn a)"

definition ws_RemoteAddr :: "addr_ext \<Rightarrow> ws_adapter \<Rightarrow> string" where
  "ws_RemoteAddr n a = net_RemoteAddr n (ws_conn a)"

definition ws_GetTLSConnectionState :: "addr_ext \<Rightarrow> ws_adapter \<Rightarrow> string option" where
  "ws_GetTLSConnectionState n a = net_tlsState n (ws_conn a)"

definition wt_LocalAddr :: "addr_ext \<Rightarrow> wt_adapter \<Rightarrow> string" where
  "wt_LocalAddr n a = session_LocalAddr n (wt_conn a)"

definition wt_RemoteAddr :: "addr_ext \<Rightarrow> wt_adapter \<Rightarrow> string" where
  "wt_RemoteAddr n a = session_RemoteAddr n (wt_conn a)"

definition wt_GetTLSConnectionState :: "addr_ext \<Rightarrow> wt_adapter \<Rightarrow> string option" where
  "wt_GetTLSConnectionState n a = Some (session_tlsState n (wt_conn a))"

primrec AdapterLocalAddr :: "addr_ext \<Rightarrow> adapter \<Rightarrow> string" where
  "AdapterLocalAddr n (WS a) = ws_LocalAddr n a"
| "AdapterLocalAddr n (WT a) = wt_LocalAddr n a"

primrec AdapterRemoteAddr :: "addr_ext \<Rightarrow> adapter \<Rightarrow> string" where
  "AdapterRemoteAddr n (WS a) = ws_RemoteAddr n a"
| "AdapterRemoteAddr n (WT a) = wt_RemoteAddr n a"

primrec GetTLSConnectionState :: "addr_ext \<Rightarrow> adapter \<Rightarrow> string option" where
  "GetTLSConnectionState n (WS a) = ws_GetTLSConnectionState n a"
| "GetTLSConnectionState n (WT a) = wt_GetTLSConnectionState n a"

section \<open>Sending\<close>

definition ws_WriteDataMessage ::
  "('e, 'l) ext \<Rightarrow> 'e \<Rightarrow> ws_adapter \<Rightarrow> bytes \<Rightarrow> 'e \<times> go_error option" where
  "ws_WriteDataMessage x e a message = (case ws_dataWriter_Write x e (ws_conn a) message of
     (e1, Some err) \<Rightarrow> (e1, Some (GoErr err))
   | (e1, None) \<Rightarrow> (case ws_dataWriter_Flush x e1 (ws_conn a) of
       (e2, err) \<Rightarrow> (e2, map_option GoErr err)))"

text \<open>
  The conversion \<^verbatim>\<open>uint16(MaxDatagramPayloadSize)\<close> keeps the low 16 bits of the
  \<^verbatim>\<open>int64\<close>.
\<close>

definition wt_WriteDataMessage ::
  "('e, 'l) ext \<Rightarrow> 'e \<Rightarrow> wt_adapter \<Rightarrow> bytes \<Rightarrow> 'e \<times> wt_adapter \<times> go_error option" where
  "wt_WriteDataMessage x e a message =
     (if \<not> wt_isFullyInitialized a then (e, a, Some (GoErr ''not able to send''))
      else if length message > unat (wt_maxPayloadLen a)
      then (e, a, Some (GoErr ''data payload too large''))
      else (case wt_SendDatagram x e (wt_conn a) message of
        (e', None) \<Rightarrow> (e', a, None)
      | (e', Some (DatagramTooLargeError n)) \<Rightarrow>
          if n < int (unat (wt_maxPayloadLen a))
          then (e', a\<lparr>wt_maxPayloadLen := word_of_int n\<rparr>, Some ErrDataPayloadLimitReduced)
          else (e', a, Some (GoErr ''DATAGRAM frame too large''))
      | (e', Some (DatagramError err)) \<Rightarrow> (e', a, Some (GoErr err))))"

fun WriteDataMessage ::
  "('e, 'l) ext \<Rightarrow> 'e \<Rightarrow> adapter \<Rightarrow> bytes \<Rightarrow> 'e \<times> adapter \<times> go_error option" where
  "WriteDataMessage x e (WS a) message =
     (case ws_WriteDataMessage x e a message of (e', err) \<Rightarrow> (e', WS a, err))"
| "WriteDataMessage x e (WT a) message =
     (case wt_WriteDataMessage x e a message of (e', a', err) \<Rightarrow> (e', WT a', err))"

definition messageTypeControl :: u8 where "messageTypeControl = 0"

definition messageTypePing :: u8 where "messageTypePing = 1"

definition messageTypePong :: u8 where "messageTypePong = 2"

text \<open>The frame of a control message on the WebTransport stream.\<close>

definition control_frame :: "bytes \<Rightarrow> bytes" where
  "control_frame message =
     [messageTypeControl, word_of_nat ((length message div 256) mod 256),
      word_of_nat (length message mod 256)] @ message"

definition wt_WriteControlMessage ::
  "('e, 'l) ext \<Rightarrow> 'e \<Rightarrow> wt_adapter \<Rightarrow> bytes \<Rightarrow> 'e \<times> go_error option" where
  "wt_WriteControlMessage x e a message =
     (if \<not> wt_isFullyInitialized a then (e, Some (GoErr ''not able to send''))
      else if length message > 0xFFFF then (e, Some (GoErr ''control message too large''))
      else let msg = control_frame message in
        (case wt_stream_Write x e (wt_conn a) msg of
          (e', n, None) \<Rightarrow>
            if n \<noteq> length msg then (e', Some (GoErr ''could not write full message''))
            else (e', None)
        | (e', n, Some err) \<Rightarrow> (e', Some (GoErr err))))"

fun WriteControlMessage ::
  "('e, 'l) ext \<Rightarrow> 'e \<Rightarrow> adapter \<Rightarrow> bytes \<Rightarrow> 'e \<times> go_error option" where
  "WriteControlMessage x e (WS a) message =
     (case ws_WriteMessage x e (ws_conn a) OpText message of (e', err) \<Rightarrow> (e', map_option GoErr err))"
| "WriteControlMessage x e (WT a) message = wt_WriteControlMessage x e a message"

fun WritePingMessage :: "('e, 'l) ext \<Rightarrow> 'e \<Rightarrow> adapter \<Rightarrow> 'e \<times> go_error option" where
  "WritePingMessage x e (WS a) =
     (case ws_WriteMessage x e (ws_conn a) OpPing [] of (e', err) \<Rightarrow> (e', map_option GoErr err))"
| "WritePingMessage x e (WT a) =
     (if \<not> wt_isReady a then (e, Some (GoErr ''not ready''))
      else (case wt_stream_Write x e (wt_conn a) [messageTypePing] of
        (e', n, err) \<Rightarrow> (e', map_option GoErr err)))"

definition ws_writePongMessage ::
  "('e, 'l) ext \<Rightarrow> 'e \<Rightarrow> ws_adapter \<Rightarrow> bytes \<Rightarrow> 'e \<times> go_error option" where
  "ws_writePongMessage x e a data =
     (case ws_WriteMessage x e (ws_conn a) OpPong data of (e', err) \<Rightarrow> (e', map_option GoErr err))"

section \<open>Opening and closing\<close>

definition ErrorCodeClosed :: nat where "ErrorCodeClosed = 1"

definition wt_Close :: "('e, 'l) ext \<Rightarrow> 'e \<Rightarrow> wt_adapter \<Rightarrow> 'e \<times> go_error option" where
  "wt_Close x e a =
     (let e1 = (if wt_stream a
                then fst (wt_stream_Close x
                       (wt_stream_CancelWrite x (wt_stream_CancelRead x e (wt_conn a) ErrorCodeClosed)
                          (wt_conn a) ErrorCodeClosed) (wt_conn a))
                else e)
      in (case wt_CloseWithError x e1 (wt_conn a) ErrorCodeClosed ''Close called'' of
            (e', err) \<Rightarrow> (e', map_option GoErr err)))"

fun AdapterClose :: "('e, 'l) ext \<Rightarrow> 'e \<Rightarrow> adapter \<Rightarrow> 'e \<times> go_error option" where
  "AdapterClose x e (WS a) = (case ws_conn_Close x e (ws_conn a) of (e', err) \<Rightarrow> (e', map_option GoErr err))"
| "AdapterClose x e (WT a) = wt_Close x e a"

definition wt_setReady :: "wt_adapter \<Rightarrow> wt_adapter" where
  "wt_setReady a = a\<lparr>wt_isReady := True\<rparr>"

interpretation wt_flag: ready_flag wt_isReady wt_setReady
  by unfold_locales (simp add: wt_setReady_def)

text \<open>
  The part of \<^verbatim>\<open>WebTransportAdapter.Serve\<close> before it waits for its two reader
  goroutines: \<open>Some err\<close> when no stream could be had, and \<open>None\<close> when the readers run.
\<close>

definition wt_Serve_start ::
  "('e, 'l) ext \<Rightarrow> 'e \<Rightarrow> wt_adapter \<Rightarrow> 'e \<times> wt_adapter \<times> go_error option" where
  "wt_Serve_start x e a =
     (case (if wt_isServer a then wt_AcceptStream x e (wt_conn a)
            else wt_OpenStreamSync x e (wt_conn a)) of
        (e', Some err) \<Rightarrow> (e', wt_setReady a, Some (GoErr err))
      | (e', None) \<Rightarrow>
          (e', wt_setReady ((wt_RefreshFeatures (a\<lparr>wt_stream := True\<rparr>))\<lparr>wt_isFullyInitialized := True\<rparr>),
           None))"

definition wt_handleServeError :: "wt_adapter \<Rightarrow> go_error \<Rightarrow> bool \<Rightarrow> wt_adapter" where
  "wt_handleServeError a err unexpected =
     (if wt_lastServeError a = None
      then a\<lparr>wt_lastServeError := Some err, wt_lastServeErrorUnexpected := unexpected\<rparr>
      else a)"

section \<open>Reading the stream\<close>

text \<open>
  One iteration of the loop of \<^verbatim>\<open>serveStream\<close> on the bytes that the stream still
  delivers: the message it reads and the rest, or \<open>None\<close> when the bytes run out first. In
  that case the next \<^verbatim>\<open>ReadByte\<close> fails, also after a \<^verbatim>\<open>break\<close>
  that only leaves the \<^verbatim>\<open>switch\<close>, and the loop ends with the stream's error.
\<close>

datatype stream_item = ControlItem bytes | PingItem | PongItem | UnknownItem u8

fun read_item :: "bytes \<Rightarrow> (stream_item \<times> bytes) option" where
  "read_item [] = None"
| "read_item (msgType # rest) =
     (if msgType = messageTypeControl then
        (case rest of
           msgLenUpper # msgLenLower # body \<Rightarrow>
             let msgLen = (ucast msgLenLower :: u16) OR push_bit 8 (ucast msgLenUpper) in
             if length body < unat msgLen then None
             else Some (ControlItem (take (unat msgLen) body), drop (unat msgLen) body)
         | _ \<Rightarrow> None)
      else if msgType = messageTypePing then Some (PingItem, rest)
      else if msgType = messageTypePong then Some (PongItem, rest)
      else Some (UnknownItem msgType, rest))"

lemma read_item_shrinks: "read_item bs = Some (it, rest) \<Longrightarrow> length rest < length bs"
  by (cases bs) (auto simp: Let_def split: if_splits list.splits)

function stream_items :: "bytes \<Rightarrow> stream_item list" where
  "stream_items bs = (case read_item bs of None \<Rightarrow> [] | Some (it, rest) \<Rightarrow> it # stream_items rest)"
  by pat_completeness auto
termination
  by (relation "measure length") (auto dest: read_item_shrinks)

declare stream_items.simps [simp del]

section \<open>Lemmas\<close>

lemma u16_of_halves: "(ucast (word_of_nat (n mod 256) :: u8) :: u16) OR
    push_bit 8 (ucast (word_of_nat (n div 256) :: u8)) = word_of_nat n"
proof (rule bit_word_eqI)
  fix i assume i: "i < LENGTH(16)"
  have m: "n mod 256 = take_bit 8 n" and d: "n div 256 = drop_bit 8 n"
    by (simp_all add: take_bit_eq_mod drop_bit_eq_div)
  show "bit ((ucast (word_of_nat (n mod 256) :: u8) :: u16) OR
      push_bit 8 (ucast (word_of_nat (n div 256) :: u8))) i = bit (word_of_nat n :: u16) i"
    unfolding m d using i by (auto simp: bit_simps)
qed

lemma read_control_frame:
  assumes "length m \<le> 0xFFFF"
  shows "read_item (control_frame m @ rest) = Some (ControlItem m, rest)"
proof -
  have "unat (word_of_nat (length m) :: u16) = length m"
    using assms by (simp add: unat_of_nat_u16)
  then show ?thesis
    using assms by (simp add: control_frame_def u16_of_halves Let_def)
qed

lemma stream_items_frames:
  assumes "\<forall>m \<in> set ms. length m \<le> 0xFFFF"
  shows "stream_items (concat (map control_frame ms)) = map ControlItem ms"
  using assms
proof (induction ms)
  case Nil
  then show ?case by (simp add: stream_items.simps)
next
  case (Cons m ms)
  have "read_item (control_frame m @ concat (map control_frame ms)) =
      Some (ControlItem m, concat (map control_frame ms))"
    using Cons.prems by (intro read_control_frame) simp
  then show ?case
    using Cons by (simp add: stream_items.simps [of "control_frame m @ _"])
qed

text \<open>
  Control messages survive the WebTransport stream: the frames that
  \<^verbatim>\<open>WriteControlMessage\<close> puts on the stream for any sequence of messages of at most
  65535 bytes, one after the other, are read back by the loop of
  \<^verbatim>\<open>serveStream\<close> as exactly these messages in this order.
\<close>

theorem control_stream_roundtrip:
  assumes "\<forall>m \<in> set ms. length m \<le> 0xFFFF"
  shows "stream_items (concat (map control_frame ms)) = map ControlItem ms"
  using assms by (rule stream_items_frames)

theorem control_stream_roundtrip_witness:
  "stream_items (concat (map control_frame [[1, 2, 3], [], [0]])) =
   [ControlItem [1, 2, 3], ControlItem [], ControlItem [0]]"
  using control_stream_roundtrip [of "[[1, 2, 3], [], [0]]"] by simp

lemma wt_WriteDataMessage_sends:
  assumes "wt_isFullyInitialized a" and "length m \<le> unat (wt_maxPayloadLen a)"
    and "wt_SendDatagram x e (wt_conn a) m = (e', None)"
  shows "wt_WriteDataMessage x e a m = (e', a, None)"
  using assms by (simp add: wt_WriteDataMessage_def)

lemma WriteDataMessage_limit:
  assumes "WriteDataMessage x e a m = (e', a', Some ErrDataPayloadLimitReduced)"
    and nonneg: "\<And>e c m e' n. wt_SendDatagram x e c m = (e', Some (DatagramTooLargeError n)) \<Longrightarrow> 0 \<le> n"
  shows "MaxDataPayloadLen a' < MaxDataPayloadLen a"
proof (cases a)
  case (WS b)
  then show ?thesis
    using assms(1) by (auto simp: ws_WriteDataMessage_def split: prod.splits option.splits)
next
  case (WT b)
  then obtain n where "n < int (unat (wt_maxPayloadLen b))" and a': "a' = WT (b\<lparr>wt_maxPayloadLen := word_of_int n\<rparr>)"
    and "0 \<le> n"
    using assms
    by (auto simp: wt_WriteDataMessage_def split: if_splits prod.splits option.splits dgram_error.splits
        dest: nonneg)
  then have "word_of_int n < wt_maxPayloadLen b"
    by (intro word_of_int_less) simp_all
  then show ?thesis
    using WT a' by simp
qed

end
