(* ===== verification/Socket_State.thy ===== *)
theory Socket_State
  imports Adapters
begin

text \<open>
  The state of the program: the \<^verbatim>\<open>Socket\<close> object of
  \<^verbatim>\<open>shared/sockets/base.go\<close>, the two switches that implement
  \<^verbatim>\<open>PacketHandler\<close> on the server, and the world in which they act: the heap of
  sockets, the server's packet handler, the environment, the goroutines that were started and
  the events that were pushed. Then the operations of a socket that touch only that socket:
  construction, feature negotiation and readiness.
\<close>

section \<open>The socket object\<close>

type_synonym sid = nat

record fragmentsInfo =
  fi_lastIndex :: int
  fi_data :: "(u8 \<times> bytes) list"
  fi_time :: gotime

definition fragmentExpiryTime :: gotime where
  "fragmentExpiryTime = second * 30"

text \<open>The closures that \<^verbatim>\<open>AddCommandHandler\<close> stores.\<close>

datatype CommandHandler =
  VersionHandler | ReplyHandler | MessageHandler | AddRouteHandler | InitHandler | SetMTUHandler

record socket =
  sk_AssignedIP :: ip
  sk_lastFragmentID :: u32
  sk_defragBuffer :: "u32 \<rightharpoonup> fragmentsInfo"
  sk_tickerRunning :: bool
  sk_fragmentationEnabled :: bool
  sk_compressionEnabled :: bool
  sk_remoteProtocolVersion :: int
  sk_adapter :: adapter
  sk_iface :: "ifid option"
  sk_ifaceManaged :: bool
  sk_wg :: int
  sk_handlers :: "string \<rightharpoonup> CommandHandler"
  sk_closeChanOpen :: bool
  sk_packetBufferSize :: int
  sk_hasPacketHandler :: bool
  sk_pingInterval :: gotime
  sk_pingTimeout :: gotime
  sk_isReady :: bool
  sk_isClosing :: bool
  sk_localFeatures :: "(feature \<times> bool) list"
  sk_remoteFeatures :: "(feature \<times> bool) list"
  sk_usedFeatures :: "(feature \<times> bool) list"
  sk_hasEventPusher :: bool
  sk_upEventSent :: bool
  sk_username :: string

definition UndeterminedProtocolVersion :: int where "UndeterminedProtocolVersion = 0"

definition fragmentationMinProtocol :: int where "fragmentationMinProtocol = 10"

definition fragmentationNegotiatedMinProtocol :: int where "fragmentationNegotiatedMinProtocol = 11"

definition featureFieldMinProtocol :: int where "featureFieldMinProtocol = 12"

lemmas protocol_consts = UndeterminedProtocolVersion_def fragmentationMinProtocol_def
  fragmentationNegotiatedMinProtocol_def featureFieldMinProtocol_def

definition MakeSocket :: "adapter \<Rightarrow> ifid option \<Rightarrow> bool \<Rightarrow> bool \<Rightarrow> socket" where
  "MakeSocket ad ifc ifaceManaged eventPusher = \<lparr>
     sk_AssignedIP = IPv6unspecified,
     sk_lastFragmentID = 0,
     sk_defragBuffer = Map.empty,
     sk_tickerRunning = True,
     sk_fragmentationEnabled = False,
     sk_compressionEnabled = False,
     sk_remoteProtocolVersion = UndeterminedProtocolVersion,
     sk_adapter = ad,
     sk_iface = ifc,
     sk_ifaceManaged = ifaceManaged,
     sk_wg = 0,
     sk_handlers = Map.empty,
     sk_closeChanOpen = True,
     sk_packetBufferSize = 2000,
     sk_hasPacketHandler = False,
     sk_pingInterval = 0,
     sk_pingTimeout = 0,
     sk_isReady = False,
     sk_isClosing = False,
     sk_localFeatures = [],
     sk_remoteFeatures = [],
     sk_usedFeatures = [],
     sk_hasEventPusher = eventPusher,
     sk_upEventSent = False,
     sk_username = ''''\<rparr>"

section \<open>Operations on one socket\<close>

definition ConfigurePing :: "socket \<Rightarrow> gotime \<Rightarrow> gotime \<Rightarrow> socket" where
  "ConfigurePing s pingInterval pingTimeout =
     s\<lparr>sk_pingInterval := pingInterval, sk_pingTimeout := pingTimeout\<rparr>"

text \<open>Reading a Go \<^verbatim>\<open>map[Feature]bool\<close>: a missing key reads as false.\<close>

definition feature_get :: "(feature \<times> bool) list \<Rightarrow> feature \<Rightarrow> bool" where
  "feature_get m f = (map_of m f = Some True)"

definition SetLocalFeature :: "socket \<Rightarrow> feature \<Rightarrow> bool \<Rightarrow> socket" where
  "SetLocalFeature s feat enabled =
     (if \<not> enabled then s\<lparr>sk_localFeatures := AList.delete feat (sk_localFeatures s)\<rparr>
      else s\<lparr>sk_localFeatures := AList.update feat True (sk_localFeatures s)\<rparr>)"

definition IsLocalFeature :: "socket \<Rightarrow> feature \<Rightarrow> bool" where
  "IsLocalFeature s feat = feature_get (sk_localFeatures s) feat"

definition IsFeatureEnabled :: "socket \<Rightarrow> feature \<Rightarrow> bool" where
  "IsFeatureEnabled s feat = feature_get (sk_usedFeatures s) feat"

definition SetPacketHandler :: "socket \<Rightarrow> socket" where
  "SetPacketHandler s = s\<lparr>sk_hasPacketHandler := True\<rparr>"

text \<open>The loop of \<^verbatim>\<open>featureCheck\<close> over the local features.\<close>

fun used_features :: "(feature \<times> bool) list \<Rightarrow> (feature \<times> bool) list \<Rightarrow> (feature \<times> bool) list
    \<Rightarrow> (feature \<times> bool) list" where
  "used_features remote [] used = used"
| "used_features remote ((feat, en) # local) used =
     used_features remote local
       (if \<not> en then used
        else if feature_get remote feat then AList.update feat True used
        else used)"

definition featureCheck :: "socket \<Rightarrow> socket" where
  "featureCheck s =
     (if sk_remoteProtocolVersion s = UndeterminedProtocolVersion then s
      else
        let s1 = s\<lparr>sk_usedFeatures := used_features (sk_remoteFeatures s) (sk_localFeatures s) []\<rparr>;
            ver = sk_remoteProtocolVersion s;
            s2 = s1\<lparr>sk_fragmentationEnabled :=
                (if ver \<ge> fragmentationMinProtocol \<and> ver < fragmentationNegotiatedMinProtocol then True
                 else if ver \<ge> fragmentationNegotiatedMinProtocol \<and> ver < featureFieldMinProtocol
                 then feature_get (sk_localFeatures s1) Fragmentation
                 else IsFeatureEnabled s1 Fragmentation)\<rparr>;
            s3 = s2\<lparr>sk_compressionEnabled := IsFeatureEnabled s2 Compression\<rparr>
        in s3\<lparr>sk_adapter := RefreshFeatures (sk_adapter s3)\<rparr>)"

definition HandleInitPacketFragmentation :: "socket \<Rightarrow> bool \<Rightarrow> socket" where
  "HandleInitPacketFragmentation s enabled =
     (if sk_remoteProtocolVersion s \<ge> featureFieldMinProtocol then s
      else
        let s1 = SetLocalFeature s Fragmentation True;
            s2 = (if enabled
                  then s1\<lparr>sk_remoteFeatures := AList.update Fragmentation True (sk_remoteFeatures s1)\<rparr>
                  else s1\<lparr>sk_remoteFeatures := AList.delete Fragmentation (sk_remoteFeatures s1)\<rparr>)
        in featureCheck s2)"

definition setReady :: "socket \<Rightarrow> socket" where
  "setReady s = s\<lparr>sk_isReady := True\<rparr>"

interpretation sk_flag: ready_flag sk_isReady setReady
  by unfold_locales (simp add: setReady_def)

definition GetAdapter :: "socket \<Rightarrow> adapter" where
  "GetAdapter s = sk_adapter s"

definition LocalAddr :: "addr_ext \<Rightarrow> socket \<Rightarrow> string" where
  "LocalAddr n s = AdapterLocalAddr n (sk_adapter s)"

definition RemoteAddr :: "addr_ext \<Rightarrow> socket \<Rightarrow> string" where
  "RemoteAddr n s = AdapterRemoteAddr n (sk_adapter s)"

definition SetMTU :: "socket \<Rightarrow> int \<Rightarrow> socket" where
  "SetMTU s mtu = s\<lparr>sk_packetBufferSize := GetPacketBufferSizeByMTU mtu\<rparr>"

definition GetInterfaceIfManaged :: "socket \<Rightarrow> ifid option" where
  "GetInterfaceIfManaged s = (if \<not> sk_ifaceManaged s then None else sk_iface s)"

text \<open>
  The state change of the \<^verbatim>\<open>version\<close> command handler once its parameters are
  decoded.
\<close>

definition handleVersion :: "socket \<Rightarrow> int \<Rightarrow> feature list \<Rightarrow> socket" where
  "handleVersion s protocolVersion enabledFeatures =
     (let s1 = s\<lparr>sk_remoteProtocolVersion := protocolVersion,
                 sk_remoteFeatures := fold (\<lambda>v m. AList.update v True m) enabledFeatures []\<rparr>
      in setReady (featureCheck s1))"

text \<open>
  The feature list that \<^verbatim>\<open>sendDefaultWelcome\<close> puts into the
  \<^verbatim>\<open>version\<close> command.
\<close>

definition localFeaturesArray :: "socket \<Rightarrow> feature list" where
  "localFeaturesArray s = map fst (filter snd (sk_localFeatures s))"

section \<open>The switches\<close>

record IPSwitch =
  ips_AllowClientToClient :: bool
  ipTable :: "(ipaddr \<times> sid) list"

definition MakeIPSwitch :: IPSwitch where
  "MakeIPSwitch = \<lparr>ips_AllowClientToClient = False, ipTable = []\<rparr>"

text \<open>
  \<open>socketTable\<close> maps a socket to its cache pointer, \<open>None\<close> being the nil pointer that
  \<^verbatim>\<open>RegisterSocket\<close> stores when the cache cannot be made. \<open>macs_timerArmed\<close> is
  whether \<^verbatim>\<open>cleanupTimer\<close>, a one-shot \<^verbatim>\<open>time.Timer\<close>, still will
  deliver a tick.
\<close>

record 'l MACSwitch =
  macs_AllowClientToClient :: bool
  macs_AllowIPSpoofing :: bool
  macs_AllowUnknownEtherTypes :: bool
  macs_AllowMACChanging :: bool
  macs_AllowedMACsPerConnection :: int
  macs_MACTableTimeout :: gotime
  macTable :: "macAddr \<rightharpoonup> sid"
  socketTable :: "(sid \<times> 'l option) list"
  macs_timerArmed :: bool
  macs_isRunning :: bool

definition MakeMACSwitch :: "'l MACSwitch" where
  "MakeMACSwitch = \<lparr>
     macs_AllowClientToClient = False,
     macs_AllowIPSpoofing = False,
     macs_AllowUnknownEtherTypes = False,
     macs_AllowMACChanging = True,
     macs_AllowedMACsPerConnection = 1,
     macs_MACTableTimeout = 600 * second,
     macTable = Map.empty,
     socketTable = [],
     macs_timerArmed = True,
     macs_isRunning = True\<rparr>"

definition MACSwitch_Close :: "'l MACSwitch \<Rightarrow> 'l MACSwitch" where
  "MACSwitch_Close g = g\<lparr>macs_isRunning := False\<rparr>"

datatype 'l PacketHandler = IPH IPSwitch | MACH "'l MACSwitch"

section \<open>The world\<close>

text \<open>
  Goroutines that the code starts. The first is the closure of \<^verbatim>\<open>CloseError\<close>
  (send the message, then close the adapter), the second the \<^verbatim>\<open>go
  socket.CloseError(err)\<close> of \<^verbatim>\<open>MACSwitch.RegisterSocket\<close>, the others those of
  \<^verbatim>\<open>Socket.Serve\<close>.
\<close>

datatype goroutine =
    SendErrorAndClose sid string
  | GoCloseError sid go_error
  | PingLoop sid
  | AdapterServe sid
  | ServeIfaceRead sid
  | CleanupFragmentsLoop sid
  | SendDefaultWelcome sid

record ('e, 'l) world =
  w_env :: 'e
  w_sock :: "sid \<Rightarrow> socket"
  w_handler :: "'l PacketHandler option"
  w_spawned :: "goroutine list"
  w_events :: "(sid \<times> string) list"

definition upd_sock :: "sid \<Rightarrow> (socket \<Rightarrow> socket) \<Rightarrow> ('e, 'l) world \<Rightarrow> ('e, 'l) world" where
  "upd_sock i f w = w\<lparr>w_sock := (w_sock w)(i := f (w_sock w i))\<rparr>"

definition spawn :: "goroutine \<Rightarrow> ('e, 'l) world \<Rightarrow> ('e, 'l) world" where
  "spawn g w = w\<lparr>w_spawned := w_spawned w @ [g]\<rparr>"

definition push_event :: "sid \<Rightarrow> string \<Rightarrow> ('e, 'l) world \<Rightarrow> ('e, 'l) world" where
  "push_event i evt w = w\<lparr>w_events := w_events w @ [(i, evt)]\<rparr>"

lemma upd_sock_simps [simp]:
  "w_env (upd_sock i f w) = w_env w"
  "w_handler (upd_sock i f w) = w_handler w"
  "w_spawned (upd_sock i f w) = w_spawned w"
  "w_events (upd_sock i f w) = w_events w"
  "w_sock (upd_sock i f w) = (w_sock w)(i := f (w_sock w i))"
  by (simp_all add: upd_sock_def)

lemma spawn_simps [simp]:
  "w_env (spawn g w) = w_env w"
  "w_handler (spawn g w) = w_handler w"
  "w_sock (spawn g w) = w_sock w"
  "w_events (spawn g w) = w_events w"
  "w_spawned (spawn g w) = w_spawned w @ [g]"
  by (simp_all add: spawn_def)

lemma push_event_simps [simp]:
  "w_env (push_event i evt w) = w_env w"
  "w_handler (push_event i evt w) = w_handler w"
  "w_sock (push_event i evt w) = w_sock w"
  "w_spawned (push_event i evt w) = w_spawned w"
  "w_events (push_event i evt w) = w_events w @ [(i, evt)]"
  by (simp_all add: push_event_def)

section \<open>Feature negotiation\<close>

lemma feature_get_update [simp]:
  "feature_get (AList.update f True m) g \<longleftrightarrow> g = f \<or> feature_get m g"
  by (auto simp: feature_get_def)

lemma feature_get_delete [simp]:
  "feature_get (AList.delete f m) g \<longleftrightarrow> g \<noteq> f \<and> feature_get m g"
  by (auto simp: feature_get_def)

lemma feature_get_Nil [simp]: "\<not> feature_get [] f"
  by (simp add: feature_get_def)

lemma feature_get_Cons:
  "distinct (keys ((g, en) # m)) \<Longrightarrow>
   feature_get ((g, en) # m) f \<longleftrightarrow> (if f = g then en else feature_get m f)"
  by (auto simp: feature_get_def)

lemma feature_get_used:
  "distinct (keys local) \<Longrightarrow> feature_get (used_features remote local used) f \<longleftrightarrow>
   feature_get used f \<or> feature_get local f \<and> feature_get remote f"
proof (induction remote local used rule: used_features.induct)
  case (2 remote feat en local used)
  then show ?case
    by (auto simp: feature_get_Cons split: if_splits) (auto simp: feature_get_def)
qed simp

lemma feature_get_fold_update:
  "feature_get (fold (\<lambda>v m. AList.update v True m) fs m) f \<longleftrightarrow> f \<in> set fs \<or> feature_get m f"
  by (induction fs arbitrary: m) auto

lemma feature_get_in_array:
  "distinct (keys m) \<Longrightarrow> f \<in> set (map fst (filter snd m)) \<longleftrightarrow> feature_get m f"
proof -
  assume "distinct (keys m)"
  then have "map_of m f = Some True \<longleftrightarrow> (f, True) \<in> set m"
    by (simp add: keys_def)
  then show ?thesis by (force simp: feature_get_def)
qed

definition features_ok :: "socket \<Rightarrow> bool" where
  "features_ok s \<longleftrightarrow> distinct (keys (sk_localFeatures s))"

lemma features_ok_MakeSocket: "features_ok (MakeSocket ad i m p)"
  by (simp add: features_ok_def MakeSocket_def)

lemma features_ok_SetLocalFeature: "features_ok s \<Longrightarrow> features_ok (SetLocalFeature s f en)"
  by (simp add: features_ok_def SetLocalFeature_def)

lemma version_negotiation:
  assumes "features_ok s" and "protocolVersion \<ge> 12"
  shows "sk_fragmentationEnabled (handleVersion s protocolVersion fs) \<longleftrightarrow>
      IsLocalFeature s Fragmentation \<and> Fragmentation \<in> set fs"
  using assms
  by (simp add: handleVersion_def featureCheck_def Let_def protocol_consts setReady_def
      IsFeatureEnabled_def IsLocalFeature_def feature_get_used feature_get_fold_update features_ok_def)

text \<open>
  C14 Two peers of protocol version 12 or later agree on the data format: when each has handled
  the \<^verbatim>\<open>version\<close> command that the other sends in
  \<^verbatim>\<open>sendDefaultWelcome\<close>, fragmentation is on at one side exactly when it is on at
  the other, and exactly when both sides have the feature enabled locally.
\<close>

theorem peers_agree_on_fragmentation:
  assumes "features_ok a" and "features_ok b" and "va \<ge> 12" and "vb \<ge> 12"
  shows "sk_fragmentationEnabled (handleVersion a vb (localFeaturesArray b)) =
      sk_fragmentationEnabled (handleVersion b va (localFeaturesArray a)) \<and>
    sk_fragmentationEnabled (handleVersion a vb (localFeaturesArray b)) =
      (IsLocalFeature a Fragmentation \<and> IsLocalFeature b Fragmentation)"
proof -
  have arr: "Fragmentation \<in> set (localFeaturesArray s) \<longleftrightarrow> IsLocalFeature s Fragmentation"
    if "features_ok s" for s
    using that feature_get_in_array [of "sk_localFeatures s" Fragmentation]
    by (simp add: localFeaturesArray_def IsLocalFeature_def features_ok_def)
  show ?thesis
    using assms by (auto simp: version_negotiation arr)
qed

definition example_socket :: socket where
  "example_socket = SetLocalFeature (MakeSocket (NewWebSocketAdapter 0 1 True) None False False)
     Fragmentation True"

lemma features_ok_example: "features_ok example_socket"
  by (simp add: example_socket_def features_ok_SetLocalFeature features_ok_MakeSocket)

theorem peers_agree_on_fragmentation_witness:
  "sk_fragmentationEnabled (handleVersion example_socket 12 (localFeaturesArray example_socket)) =
    sk_fragmentationEnabled (handleVersion example_socket 13 (localFeaturesArray example_socket)) \<and>
   sk_fragmentationEnabled (handleVersion example_socket 12 (localFeaturesArray example_socket)) =
    (IsLocalFeature example_socket Fragmentation \<and> IsLocalFeature example_socket Fragmentation)"
  by (rule peers_agree_on_fragmentation [OF features_ok_example features_ok_example]) simp_all

text \<open>
  With a server of protocol version 11 the client turns fragmentation on whatever the
  server's \<^verbatim>\<open>init\<close> command says: \<^verbatim>\<open>HandleInitPacketFragmentation\<close>
  sets the local feature before \<^verbatim>\<open>featureCheck\<close> reads it, so an
  \<^verbatim>\<open>enable_fragmentation\<close> of false is ignored, which
  \<^verbatim>\<open>docs/PROTOCOL.md\<close> rules out.
\<close>

theorem version_11_ignores_enable_fragmentation:
  assumes "sk_remoteProtocolVersion s = 11"
  shows "sk_fragmentationEnabled (HandleInitPacketFragmentation s enabled)"
  using assms
  by (simp add: HandleInitPacketFragmentation_def featureCheck_def SetLocalFeature_def Let_def
      protocol_consts)

theorem version_11_ignores_enable_fragmentation_witness:
  "sk_fragmentationEnabled
     (HandleInitPacketFragmentation (example_socket\<lparr>sk_remoteProtocolVersion := 11\<rparr>) False)"
  by (rule version_11_ignores_enable_fragmentation) simp

end
