(* ===== verification/Switch_Tables.thy ===== *)
theory Switch_Tables
  imports Socket_State
begin

text \<open>
  The tables of the two switches (\<^verbatim>\<open>server/ipswitch\<close>,
  \<^verbatim>\<open>server/macswitch\<close>): which socket owns an IP address, which socket owns a MAC
  address and which MAC addresses a socket has used. Registration, removal, look-up, the
  reaction to a configuration change and the periodic clean-up of the MAC tables. What a switch
  does with a packet, and the closing of conflicting sockets, needs the socket operations and
  follows in the theory of the packet handlers.
\<close>

section \<open>The IP table\<close>

definition findSocketByIP :: "IPSwitch \<Rightarrow> ip \<Rightarrow> sid option" where
  "findSocketByIP g ip = map_of (ipTable g) (ipToIPAddr ip)"

text \<open>The first loop of \<^verbatim>\<open>broadcastDataMessage\<close>: the sockets to write to.\<close>

definition ips_targetList :: "IPSwitch \<Rightarrow> sid option \<Rightarrow> sid list" where
  "ips_targetList g skip = filter (\<lambda>v. Some v \<noteq> skip) (map snd (ipTable g))"

text \<open>The part of \<^verbatim>\<open>RegisterSocket\<close> under the lock, with the previous owner.\<close>

definition ips_insert :: "IPSwitch \<Rightarrow> ip \<Rightarrow> sid \<Rightarrow> IPSwitch \<times> sid option" where
  "ips_insert g assignedIP i =
     (let ipAddr = ipToIPAddr assignedIP in
      (g\<lparr>ipTable := AList.update ipAddr i (ipTable g)\<rparr>, map_of (ipTable g) ipAddr))"

definition ips_UnregisterSocket :: "IPSwitch \<Rightarrow> ip \<Rightarrow> sid \<Rightarrow> IPSwitch" where
  "ips_UnregisterSocket g assignedIP i =
     (let ipAddr = ipToIPAddr assignedIP in
      if map_of (ipTable g) ipAddr \<noteq> Some i then g
      else g\<lparr>ipTable := AList.delete ipAddr (ipTable g)\<rparr>)"

section \<open>The MAC tables\<close>

definition findSocketByMAC :: "'l MACSwitch \<Rightarrow> hwaddr \<Rightarrow> sid option" where
  "findSocketByMAC g hw = macTable g (hwAddrToMAC hw)"

definition macs_targetList :: "'l MACSwitch \<Rightarrow> sid option \<Rightarrow> sid list" where
  "macs_targetList g skip = filter (\<lambda>v. Some v \<noteq> skip) (map fst (socketTable g))"

definition onMACEvicted :: "macAddr \<Rightarrow> 'l MACSwitch \<Rightarrow> 'l MACSwitch" where
  "onMACEvicted key g = g\<lparr>macTable := (macTable g)(key := None)\<rparr>"

text \<open>The cache pointer that \<^verbatim>\<open>socketTable\<close> holds: nil for an unknown socket.\<close>

definition socketMACs :: "'l MACSwitch \<Rightarrow> sid \<Rightarrow> 'l option" where
  "socketMACs g i = (case map_of (socketTable g) i of Some (Some c) \<Rightarrow> Some c | _ \<Rightarrow> None)"

text \<open>
  An operation on the cache object a pointer leads to: the object changes in place and the
  eviction callback runs for every key it drops.
\<close>

definition upd_cache :: "sid \<Rightarrow> 'l \<times> macAddr list \<Rightarrow> 'l MACSwitch \<Rightarrow> 'l MACSwitch" where
  "upd_cache i r g = fold onMACEvicted (snd r)
     (g\<lparr>socketTable := AList.update i (Some (fst r)) (socketTable g)\<rparr>)"

text \<open>
  \<^verbatim>\<open>RegisterSocket\<close> stores what the constructor returns beside its error, without looking
  at the error first. The model takes this for a nil pointer; in version 2 of golang-lru it is a
  wrapper around a nil cache, on which every operation dereferences nil.
\<close>

definition macs_RegisterSocket ::
  "('e, 'l) ext \<Rightarrow> 'l MACSwitch \<Rightarrow> sid \<Rightarrow> 'l MACSwitch \<times> go_error option" where
  "macs_RegisterSocket x g i =
     (case lru_NewWithEvict x (macs_AllowedMACsPerConnection g) of
        Inl err \<Rightarrow> (g\<lparr>socketTable := AList.update i None (socketTable g)\<rparr>, Some (GoErr err))
      | Inr c \<Rightarrow> (g\<lparr>socketTable := AList.update i (Some c) (socketTable g)\<rparr>, None))"

definition macs_UnregisterSocket :: "('e, 'l) ext \<Rightarrow> 'l MACSwitch \<Rightarrow> sid \<Rightarrow> 'l MACSwitch" where
  "macs_UnregisterSocket x g i =
     (case socketMACs g i of
        None \<Rightarrow> g
      | Some socketTbl \<Rightarrow>
          let g1 = g\<lparr>macTable := fold (\<lambda>mac t. t(mac := None)) (lru_Keys x socketTbl) (macTable g)\<rparr>;
              g2 = g1\<lparr>socketTable := AList.delete i (socketTable g1)\<rparr>
          in fold onMACEvicted (snd (lru_Purge x socketTbl)) g2)"

text \<open>
  \<^verbatim>\<open>ConfigUpdate\<close>: every cache is resized; a nil cache pointer panics.
\<close>

fun resize_tables :: "('e, 'l) ext \<Rightarrow> (sid \<times> 'l option) list \<Rightarrow> 'l MACSwitch \<Rightarrow> 'l MACSwitch go" where
  "resize_tables x [] g = Ret g"
| "resize_tables x ((i, None) # tables) g = Panic"
| "resize_tables x ((i, Some c) # tables) g =
     resize_tables x tables (upd_cache i (lru_Resize x c (macs_AllowedMACsPerConnection g)) g)"

definition ConfigUpdate :: "('e, 'l) ext \<Rightarrow> 'l MACSwitch \<Rightarrow> 'l MACSwitch go" where
  "ConfigUpdate x g = resize_tables x (socketTable g) g"

text \<open>
  \<^verbatim>\<open>cleanupMACs\<close> removes the oldest entry of a cache while it is too old. The loop
  depends on the cache for its end, so it is a partial function: \<open>None\<close> is a loop that
  never ends.
\<close>

partial_function (option) cleanupMACs ::
  "('e, 'l) ext \<Rightarrow> gotime \<Rightarrow> sid \<Rightarrow> 'l \<Rightarrow> 'l MACSwitch \<Rightarrow> 'l MACSwitch option" where
  "cleanupMACs x now i c g =
     (case lru_GetOldest x c of
        None \<Rightarrow> Some g
      | Some p \<Rightarrow>
          if now - snd p \<le> macs_MACTableTimeout g then Some g
          else cleanupMACs x now i (fst (lru_Remove x c (fst p)))
                 (upd_cache i (lru_Remove x c (fst p)) g))"

fun cleanup_tables ::
  "('e, 'l) ext \<Rightarrow> gotime \<Rightarrow> (sid \<times> 'l option) list \<Rightarrow> 'l MACSwitch \<Rightarrow> 'l MACSwitch go option" where
  "cleanup_tables x now [] g = Some (Ret g)"
| "cleanup_tables x now ((i, None) # tables) g = Some Panic"
| "cleanup_tables x now ((i, Some c) # tables) g =
     (case cleanupMACs x now i c g of
        None \<Rightarrow> None
      | Some g' \<Rightarrow> cleanup_tables x now tables g')"

text \<open>
  One round of the loop of \<^verbatim>\<open>cleanupAllMACs\<close>: the receive from the timer channel
  consumes the only tick a one-shot timer has, and nothing in the program arms it again. The
  round happens only while the switch runs and the tick is there; otherwise the goroutine has
  left the loop or waits.
\<close>

definition cleanupAllMACs_ready :: "'l MACSwitch \<Rightarrow> bool" where
  "cleanupAllMACs_ready g \<longleftrightarrow> macs_isRunning g \<and> macs_timerArmed g"

definition cleanupAllMACs_round ::
  "('e, 'l) ext \<Rightarrow> gotime \<Rightarrow> 'l MACSwitch \<Rightarrow> 'l MACSwitch go option" where
  "cleanupAllMACs_round x now g =
     (let g1 = g\<lparr>macs_timerArmed := False\<rparr> in
      if \<not> macs_AllowMACChanging g1 then Some (Ret g1)
      else cleanup_tables x now (socketTable g1) g1)"

section \<open>IP table lemmas\<close>

lemma findSocketByIP_insert [table_simps]:
  "findSocketByIP (fst (ips_insert g a i)) ip =
     (if ipToIPAddr ip = ipToIPAddr a then Some i else findSocketByIP g ip)"
  by (simp add: ips_insert_def findSocketByIP_def Let_def)

lemma findSocketByIP_unregister [table_simps]:
  "findSocketByIP (ips_UnregisterSocket g a i) ip =
     (if ipToIPAddr ip = ipToIPAddr a \<and> findSocketByIP g a = Some i then None
      else findSocketByIP g ip)"
  by (auto simp: ips_UnregisterSocket_def findSocketByIP_def Let_def)

definition ips_ok :: "IPSwitch \<Rightarrow> bool" where
  "ips_ok g \<longleftrightarrow> distinct (keys (ipTable g))"

lemma ips_ok_make: "ips_ok MakeIPSwitch"
  by (simp add: ips_ok_def MakeIPSwitch_def)

lemma ips_ok_insert: "ips_ok g \<Longrightarrow> ips_ok (fst (ips_insert g a i))"
  by (simp add: ips_ok_def ips_insert_def Let_def)

lemma ips_ok_unregister: "ips_ok g \<Longrightarrow> ips_ok (ips_UnregisterSocket g a i)"
  by (simp add: ips_ok_def ips_UnregisterSocket_def Let_def)

lemma set_ips_targetList:
  "ips_ok g \<Longrightarrow> v \<in> set (ips_targetList g skip) \<longleftrightarrow>
     Some v \<noteq> skip \<and> (\<exists>k. map_of (ipTable g) k = Some v)"
  by (force simp: ips_ok_def ips_targetList_def keys_def)

section \<open>MAC table lemmas\<close>

lemma fold_onMACEvicted:
  "fold onMACEvicted ks g = g\<lparr>macTable := (\<lambda>m. if m \<in> set ks then None else macTable g m)\<rparr>"
  by (induction ks arbitrary: g) (auto simp: onMACEvicted_def fun_eq_iff)

lemma fold_delete_macs: "fold (\<lambda>mac t. t(mac := None)) ks t = (\<lambda>m. if m \<in> set ks then None else t m)"
  by (induction ks arbitrary: t) (auto simp: fun_eq_iff)

lemma upd_cache_simps [table_simps]:
  "macTable (upd_cache i r g) = (\<lambda>m. if m \<in> set (snd r) then None else macTable g m)"
  "socketTable (upd_cache i r g) = AList.update i (Some (fst r)) (socketTable g)"
  "macs_AllowedMACsPerConnection (upd_cache i r g) = macs_AllowedMACsPerConnection g"
  "macs_MACTableTimeout (upd_cache i r g) = macs_MACTableTimeout g"
  "macs_AllowMACChanging (upd_cache i r g) = macs_AllowMACChanging g"
  "macs_timerArmed (upd_cache i r g) = macs_timerArmed g"
  "macs_isRunning (upd_cache i r g) = macs_isRunning g"
  by (simp_all add: upd_cache_def fold_onMACEvicted fun_eq_iff)

lemma socketMACs_upd_cache [table_simps]:
  "socketMACs (upd_cache i r g) j = (if j = i then Some (fst r) else socketMACs g j)"
  by (simp add: socketMACs_def table_simps)

lemma macs_UnregisterSocket_cases:
  "macs_UnregisterSocket x g i =
     (case socketMACs g i of None \<Rightarrow> g
      | Some c \<Rightarrow> g\<lparr>macTable := (\<lambda>m. if m \<in> set (lru_Keys x c) \<union> set (snd (lru_Purge x c)) then None
                               else macTable g m),
                   socketTable := AList.delete i (socketTable g)\<rparr>)"
  by (auto simp: macs_UnregisterSocket_def fold_onMACEvicted fold_delete_macs Let_def fun_eq_iff
      split: option.splits)

end
