(* ===== verification/Socket_Core.thy ===== *)
theory Socket_Core
  imports Switch_Tables
begin

text \<open>
  The life cycle of a socket (\<^verbatim>\<open>shared/sockets/base.go\<close>,
  \<^verbatim>\<open>shared/sockets/vpnnet.go\<close>): closing, with or without an error message to the
  peer, and attaching an interface. Each operation acts on the whole world, because closing a
  socket removes it from the switch, closes its interface and pushes the \<^verbatim>\<open>down\<close>
  event.
\<close>

section \<open>Operations\<close>

definition UnregisterSocket :: "('e, 'l) ext \<Rightarrow> sid \<Rightarrow> ('e, 'l) world \<Rightarrow> ('e, 'l) world" where
  "UnregisterSocket x i w = (case w_handler w of
     None \<Rightarrow> w
   | Some (IPH g) \<Rightarrow>
       w\<lparr>w_handler := Some (IPH (ips_UnregisterSocket g (sk_AssignedIP (w_sock w i)) i))\<rparr>
   | Some (MACH g) \<Rightarrow> w\<lparr>w_handler := Some (MACH (macs_UnregisterSocket x g i))\<rparr>)"

definition close_adapter :: "('e, 'l) ext \<Rightarrow> sid \<Rightarrow> ('e, 'l) world \<Rightarrow> ('e, 'l) world" where
  "close_adapter x i w = w\<lparr>w_env := fst (AdapterClose x (w_env w) (sk_adapter (w_sock w i)))\<rparr>"

definition close_iface :: "('e, 'l) ext \<Rightarrow> sid \<Rightarrow> ('e, 'l) world \<Rightarrow> ('e, 'l) world" where
  "close_iface x i w = (case sk_iface (w_sock w i) of
     None \<Rightarrow> w
   | Some ifc \<Rightarrow> if sk_ifaceManaged (w_sock w i)
                then w\<lparr>w_env := fst (if_Close x (w_env w) ifc)\<rparr> else w)"

definition close_chan :: "socket \<Rightarrow> socket" where
  "close_chan s = (if sk_closeChanOpen s then s\<lparr>sk_closeChanOpen := False\<rparr> else s)"

definition sock_close :: "('e, 'l) ext \<Rightarrow> sid \<Rightarrow> bool \<Rightarrow> ('e, 'l) world \<Rightarrow> ('e, 'l) world" where
  "sock_close x i closeAdapter w =
     (let w1 = upd_sock i (\<lambda>s. s\<lparr>sk_isClosing := True\<rparr>) w;
          w2 = (if closeAdapter then close_adapter x i w1 else w1);
          w3 = close_iface x i w2;
          w4 = upd_sock i close_chan w3;
          w5 = (if sk_hasPacketHandler (w_sock w4 i) then UnregisterSocket x i w4 else w4);
          w6 = upd_sock i setReady w5;
          w7 = upd_sock i (\<lambda>s. s\<lparr>sk_tickerRunning := False\<rparr>) w6
      in if sk_hasEventPusher (w_sock w7 i) \<and> sk_upEventSent (w_sock w7 i)
         then push_event i EventDown (upd_sock i (\<lambda>s. s\<lparr>sk_upEventSent := False\<rparr>) w7)
         else w7)"

definition CloseError :: "('e, 'l) ext \<Rightarrow> sid \<Rightarrow> go_error \<Rightarrow> ('e, 'l) world \<Rightarrow> ('e, 'l) world" where
  "CloseError x i err w =
     (let wasClosing = sk_isClosing (w_sock w i);
          w1 = sock_close x i False w
      in if \<not> wasClosing then spawn (SendErrorAndClose i (Error err)) w1
         else close_adapter x i w1)"

definition Close :: "('e, 'l) ext \<Rightarrow> sid \<Rightarrow> ('e, 'l) world \<Rightarrow> ('e, 'l) world" where
  "Close x i w = (if sk_isClosing (w_sock w i) then w else sock_close x i True w)"

definition closeDone :: "('e, 'l) ext \<Rightarrow> sid \<Rightarrow> ('e, 'l) world \<Rightarrow> ('e, 'l) world" where
  "closeDone x i w = Close x i (upd_sock i (\<lambda>s. s\<lparr>sk_wg := sk_wg s - 1\<rparr>) w)"

definition tryServeIfaceRead :: "sid \<Rightarrow> ('e, 'l) world \<Rightarrow> ('e, 'l) world" where
  "tryServeIfaceRead i w =
     (if sk_iface (w_sock w i) = None \<or> \<not> sk_ifaceManaged (w_sock w i) then w
      else spawn (ServeIfaceRead i) (upd_sock i (\<lambda>s. s\<lparr>sk_wg := sk_wg s + 1\<rparr>) w))"

definition SetInterface :: "sid \<Rightarrow> ifid \<Rightarrow> ('e, 'l) world \<Rightarrow> ('e, 'l) world \<times> go_error option" where
  "SetInterface i ifc w =
     (if sk_iface (w_sock w i) \<noteq> None
      then (w, Some (GoErr ''cannot re-define interface: Already set''))
      else (tryServeIfaceRead i (upd_sock i (\<lambda>s. s\<lparr>sk_iface := Some ifc\<rparr>) w), None))"

section \<open>What closing does\<close>

definition closed_socket :: "socket \<Rightarrow> socket" where
  "closed_socket s = s\<lparr>sk_isClosing := True, sk_closeChanOpen := False, sk_isReady := True,
     sk_tickerRunning := False, sk_upEventSent := (if sk_hasEventPusher s then False else sk_upEventSent s)\<rparr>"

definition unregistered :: "('e, 'l) ext \<Rightarrow> sid \<Rightarrow> ('e, 'l) world \<Rightarrow> 'l PacketHandler option" where
  "unregistered x i w = (if sk_hasPacketHandler (w_sock w i)
     then w_handler (UnregisterSocket x i w) else w_handler w)"

lemma UnregisterSocket_simps [sock_simps]:
  "w_sock (UnregisterSocket x i w) = w_sock w"
  "w_spawned (UnregisterSocket x i w) = w_spawned w"
  "w_events (UnregisterSocket x i w) = w_events w"
  "w_env (UnregisterSocket x i w) = w_env w"
  by (simp_all add: UnregisterSocket_def split: option.splits PacketHandler.splits)

lemma close_adapter_simps [sock_simps]:
  "w_sock (close_adapter x i w) = w_sock w"
  "w_spawned (close_adapter x i w) = w_spawned w"
  "w_events (close_adapter x i w) = w_events w"
  "w_handler (close_adapter x i w) = w_handler w"
  by (simp_all add: close_adapter_def)

lemma close_iface_simps [sock_simps]:
  "w_sock (close_iface x i w) = w_sock w"
  "w_spawned (close_iface x i w) = w_spawned w"
  "w_events (close_iface x i w) = w_events w"
  "w_handler (close_iface x i w) = w_handler w"
  by (simp_all add: close_iface_def split: option.splits)

lemma UnregisterSocket_cong:
  "w_handler w = w_handler w' \<Longrightarrow> sk_AssignedIP (w_sock w i) = sk_AssignedIP (w_sock w' i) \<Longrightarrow>
   w_handler (UnregisterSocket x i w) = w_handler (UnregisterSocket x i w')"
  by (simp add: UnregisterSocket_def split: option.splits PacketHandler.splits)

lemma sock_close_sock [sock_simps]:
  "w_sock (sock_close x i b w) = (w_sock w)(i := closed_socket (w_sock w i))"
  by (simp add: sock_close_def closed_socket_def sock_simps Let_def setReady_def close_chan_def fun_eq_iff)

lemma sock_close_spawned [sock_simps]: "w_spawned (sock_close x i b w) = w_spawned w"
  by (simp add: sock_close_def sock_simps Let_def)

lemma sock_close_events [sock_simps]:
  "w_events (sock_close x i b w) =
     w_events w @ (if sk_hasEventPusher (w_sock w i) \<and> sk_upEventSent (w_sock w i)
                   then [(i, EventDown)] else [])"
  by (simp add: sock_close_def sock_simps Let_def setReady_def close_chan_def)

lemma sock_close_handler [sock_simps]: "w_handler (sock_close x i b w) = unregistered x i w"
  by (simp add: sock_close_def sock_simps Let_def unregistered_def close_chan_def
      cong: if_cong) (auto intro!: UnregisterSocket_cong simp: sock_simps close_chan_def)

lemma CloseError_simps [sock_simps]:
  "w_sock (CloseError x i err w) = (w_sock w)(i := closed_socket (w_sock w i))"
  "w_handler (CloseError x i err w) = unregistered x i w"
  "w_events (CloseError x i err w) =
     w_events w @ (if sk_hasEventPusher (w_sock w i) \<and> sk_upEventSent (w_sock w i)
                   then [(i, EventDown)] else [])"
  "w_spawned (CloseError x i err w) =
     w_spawned w @ (if sk_isClosing (w_sock w i) then [] else [SendErrorAndClose i (Error err)])"
  by (simp_all add: CloseError_def sock_simps Let_def)

lemma closed_socket_idem [simp]: "closed_socket (closed_socket s) = closed_socket s"
  by (simp add: closed_socket_def)

lemma closed_socket_fields [simp]:
  "sk_isClosing (closed_socket s)" "\<not> sk_closeChanOpen (closed_socket s)"
  "sk_isReady (closed_socket s)" "\<not> sk_tickerRunning (closed_socket s)"
  "sk_AssignedIP (closed_socket s) = sk_AssignedIP s"
  "sk_adapter (closed_socket s) = sk_adapter s"
  "sk_hasPacketHandler (closed_socket s) = sk_hasPacketHandler s"
  "sk_hasEventPusher (closed_socket s) = sk_hasEventPusher s"
  "sk_lastFragmentID (closed_socket s) = sk_lastFragmentID s"
  by (simp_all add: closed_socket_def)

end
