(* ===== verification/Data_Write.thy ===== *)
theory Data_Write
  imports Socket_Core
begin

text \<open>
  The sending half of \<^verbatim>\<open>shared/sockets/data_message.go\<close>: a packet goes out as one
  message, or as fragments with a five-byte header (last-fragment bit and index, packet
  identifier), and is sent again from the start when the transport lowers its payload limit.
  The integers are kept at their widths: the length, the limit and every offset is a
  \<^verbatim>\<open>uint16\<close>, the identifier a \<^verbatim>\<open>uint32\<close> that
  \<^verbatim>\<open>atomic.AddUint32\<close> increments, and the header bytes are
  \<^verbatim>\<open>uint8\<close>.
\<close>

unbundle bit_operations_syntax

section \<open>Fragments\<close>

text \<open>The four identifier bytes, most significant first, each reduced modulo 255 as in the code.\<close>

definition packetIDBytes :: "u32 \<Rightarrow> bytes" where
  "packetIDBytes packetID =
     [ucast (drop_bit 24 packetID mod 0xFF), ucast (drop_bit 16 packetID mod 0xFF),
      ucast (drop_bit 8 packetID mod 0xFF), ucast (packetID mod 0xFF)]"

definition fragFlagByte :: "u16 \<Rightarrow> u16 \<Rightarrow> u8" where
  "fragFlagByte fragmentCount frag =
     (let fragFlag = (ucast frag :: u8) in
      if frag = fragmentCount - 1 then fragFlag OR 0b10000000 else fragFlag)"

text \<open>
  The body of the fragment loop up to the write: the bytes in \<^verbatim>\<open>buf\<close>, or a panic
  of the slice expression. \<open>maxLen\<close> is already reduced by the header length.
\<close>

definition fragment :: "bytes \<Rightarrow> u16 \<Rightarrow> u16 \<Rightarrow> u32 \<Rightarrow> u16 \<Rightarrow> bytes go" where
  "fragment data maxLen fragmentCount packetID frag =
     (let dataLen = (word_of_nat (length data) :: u16);
          fragStart = frag * maxLen;
          fragEnd0 = fragStart + maxLen;
          fragEnd = (if fragEnd0 > dataLen then dataLen else fragEnd0)
      in (case go_slice data (unat fragStart) (unat fragEnd) of
            Panic \<Rightarrow> Panic
          | Ret part \<Rightarrow> Ret ([fragFlagByte fragmentCount frag] @ packetIDBytes packetID @ part)))"

fun writeFragments :: "('e, 'l) ext \<Rightarrow> (u16 \<Rightarrow> bytes go) \<Rightarrow> u16 list \<Rightarrow> 'e \<Rightarrow> adapter
    \<Rightarrow> ('e \<times> adapter \<times> go_error option) go" where
  "writeFragments x mk [] e ad = Ret (e, ad, None)"
| "writeFragments x mk (frag # frags) e ad =
     (case mk frag of
        Panic \<Rightarrow> Panic
      | Ret msg \<Rightarrow> (case WriteDataMessage x e ad msg of
          (e', ad', Some err) \<Rightarrow> Ret (e', ad', Some err)
        | (e', ad', None) \<Rightarrow> writeFragments x mk frags e' ad'))"

definition writePacketFragmented :: "('e, 'l) ext \<Rightarrow> 'e \<Rightarrow> socket \<Rightarrow> bytes \<Rightarrow> u16
    \<Rightarrow> ('e \<times> socket \<times> go_error option) go" where
  "writePacketFragmented x e s data maxLen0 =
     (let dataLen = (word_of_nat (length data) :: u16) in
      if dataLen + 1 \<le> maxLen0 then
        (case WriteDataMessage x e (sk_adapter s) ([0b10000000] @ data) of
           (e', ad', err) \<Rightarrow> Ret (e', s\<lparr>sk_adapter := ad'\<rparr>, err))
      else
        let packetID = sk_lastFragmentID s + 1;
            s1 = s\<lparr>sk_lastFragmentID := packetID\<rparr>;
            maxLen = maxLen0 - 5
        in if maxLen = 0 then Panic
           else
             let fragmentCount0 = dataLen div maxLen;
                 fragmentCount = (if dataLen mod maxLen \<noteq> 0 then fragmentCount0 + 1 else fragmentCount0)
             in (case writeFragments x (fragment data maxLen fragmentCount packetID)
                       (map word_of_nat [0..<unat fragmentCount]) e (sk_adapter s1) of
                   Panic \<Rightarrow> Panic
                 | Ret (e', ad', err) \<Rightarrow> Ret (e', s1\<lparr>sk_adapter := ad'\<rparr>, err)))"

text \<open>The \<^verbatim>\<open>for\<close> loop of \<^verbatim>\<open>WritePacket\<close>, which has no bound of its own.\<close>

partial_function (option) resendLoop :: "('e, 'l) ext \<Rightarrow> bytes \<Rightarrow> 'e \<Rightarrow> socket
    \<Rightarrow> ('e \<times> socket \<times> go_error option) run" where
  "resendLoop x data e s =
     (case writePacketFragmented x e s data (MaxDataPayloadLen (sk_adapter s)) of
        Panic \<Rightarrow> Some Panic
      | Ret r \<Rightarrow>
          if snd (snd r) = Some ErrDataPayloadLimitReduced
          then resendLoop x data (fst r) (fst (snd r))
          else Some (Ret r))"

definition set_sock :: "sid \<Rightarrow> 'e \<Rightarrow> socket \<Rightarrow> ('e, 'l) world \<Rightarrow> ('e, 'l) world" where
  "set_sock i e s w = w\<lparr>w_env := e, w_sock := (w_sock w)(i := s)\<rparr>"

definition WritePacket :: "('e, 'l) ext \<Rightarrow> sid \<Rightarrow> bytes \<Rightarrow> ('e, 'l) world
    \<Rightarrow> (('e, 'l) world \<times> go_error option) run" where
  "WritePacket x i data w =
     (let s = w_sock w i in
      if sk_remoteProtocolVersion s = UndeterminedProtocolVersion \<or> \<not> sk_isReady s \<or> sk_isClosing s
      then run_return (w, None)
      else if \<not> sk_fragmentationEnabled s then
        (case WriteDataMessage x (w_env w) (sk_adapter s) data of
           (e', ad', None) \<Rightarrow> run_return (set_sock i e' (s\<lparr>sk_adapter := ad'\<rparr>) w, None)
         | (e', ad', Some err) \<Rightarrow>
             run_return (CloseError x i (GoErr (''error unfragmented data message: '' @ Error err))
               (set_sock i e' (s\<lparr>sk_adapter := ad'\<rparr>) w), Some err))
      else if length data \<le> 0 \<or> length data > 0xFFFF then
        let err = GoErr ''packet size out of bounds (0 < size <= 65535)''
        in run_return (CloseError x i err w, Some err)
      else run_bind (resendLoop x data (w_env w) s)
        (\<lambda>(e', s', err). run_return (set_sock i e' s' w, err)))"

section \<open>The identifier on the wire\<close>

definition decodeID :: "bytes \<Rightarrow> u32" where
  "decodeID b = push_bit 24 (ucast (b ! 0)) OR push_bit 16 (ucast (b ! 1)) OR
     push_bit 8 (ucast (b ! 2)) OR ucast (b ! 3)"

definition wireID :: "u32 \<Rightarrow> u32" where
  "wireID packetID = decodeID (packetIDBytes packetID)"

lemma length_packetIDBytes [simp]: "length (packetIDBytes p) = 4"
  by (simp add: packetIDBytes_def)

lemma ucast_decodeID: "ucast (decodeID b) = b ! 3"
  by (rule bit_word_eqI) (auto simp: decodeID_def bit_simps)

lemma mod_255_of_u32: "(ucast (p mod 0xFF :: u32) :: u8) = ucast (q mod 0xFF :: u32) \<longleftrightarrow>
    unat p mod 255 = unat q mod 255"
proof -
  have "unat (ucast (r mod 0xFF :: u32) :: u8) = unat r mod 255" for r :: u32
  proof -
    have m: "unat (r mod 0xFF) = unat r mod 255" by (simp add: unat_mod)
    then have "unat (r mod 0xFF) < 2 ^ LENGTH(8)" by simp
    then show ?thesis using m by (simp only: unsigned_ucast_eq take_bit_nat_eq_self)
  qed
  then show ?thesis by (simp only: word_unat_eq_iff)
qed

text \<open>
  Two fragmented packets sent within 254 packets of each other (and with no overflow of
  the 32-bit counter between them) never share an identifier on the wire, so their fragments
  are never mixed by a receiver that has lost none of either.
\<close>

theorem nearby_packets_have_distinct_ids:
  assumes "unat p < unat q" and "unat q < unat p + 255"
  shows "wireID p \<noteq> wireID q"
proof
  assume "wireID p = wireID q"
  then have "packetIDBytes p ! 3 = packetIDBytes q ! 3"
    unfolding wireID_def by (metis ucast_decodeID)
  then have "unat p mod 255 = unat q mod 255"
    by (simp add: packetIDBytes_def mod_255_of_u32)
  then have "255 dvd unat q - unat p"
    using assms mod_eq_dvd_iff_nat [of "unat p" "unat q" 255] by simp
  then show False using assms dvd_imp_le [of 255 "unat q - unat p"] by simp
qed

theorem nearby_packets_have_distinct_ids_witness: "wireID 255 \<noteq> wireID 509"
  by (rule nearby_packets_have_distinct_ids) simp_all

text \<open>
  The identifier is not the 32-bit counter: because each byte is reduced modulo 255
  instead of 256, the first and the last packet of every block of 256 consecutive counter
  values carry the same four bytes.
\<close>

theorem ids_collide_in_every_block:
  assumes "unat p mod 256 = 0"
  shows "p \<noteq> p + 255 \<and> packetIDBytes (p + 255) = packetIDBytes p"
proof -
  have q: "unat (p + 255) = unat p + 255"
  proof -
    obtain k where "unat p = 256 * k" using assms by (auto elim: dvdE)
    then have "unat p + 255 < 4294967296" using unat_u32_bound [of p] by simp
    then show ?thesis by (simp add: unat_word_ariths)
  qed
  have hi: "drop_bit (k + 8) (p + 255) = drop_bit (k + 8) p" for k
  proof -
    have "unat (p + 255) div 2 ^ 8 = unat p div 2 ^ 8"
      using q assms by (auto simp: mod_eq_0_iff_dvd elim!: dvdE)
    then have "unat (drop_bit 8 (p + 255)) = unat (drop_bit 8 p)"
      by (simp add: drop_bit_eq_div unat_div)
    then have "drop_bit 8 (p + 255) = drop_bit 8 p" by (simp add: word_unat_eq_iff)
    then show ?thesis by (simp only: drop_bit_drop_bit [symmetric])
  qed
  have "p \<noteq> p + 255" by simp
  moreover have "(ucast ((p + 255) mod 0xFF) :: u8) = ucast (p mod 0xFF)"
    using q by (simp add: mod_255_of_u32)
  ultimately show ?thesis
    using hi [of 0] hi [of 8] hi [of 16] by (simp add: packetIDBytes_def)
qed

theorem ids_collide_in_every_block_witness:
  "(256 :: u32) \<noteq> 256 + 255 \<and> packetIDBytes (256 + 255) = packetIDBytes 256"
  by (rule ids_collide_in_every_block) simp

end
