(* ===== verification/Fragmentation.thy ===== *)
theory Fragmentation
  imports Data_Write
begin

text \<open>
  What the sending code puts on the wire, as a specification over natural numbers: the number
  of fragments and each fragment's bytes. The lemmas show that the \<^verbatim>\<open>uint16\<close>
  arithmetic of \<^verbatim>\<open>writePacketFragmented\<close> computes exactly these fragments
  while the rounded-up length stays below 65536, and that the slice expression panics as soon as
  it does not.
\<close>

unbundle bit_operations_syntax

section \<open>Specification\<close>

definition nfrags :: "nat \<Rightarrow> nat \<Rightarrow> nat" where
  "nfrags len m = len div m + (if len mod m = 0 then 0 else 1)"

definition frag_flag :: "nat \<Rightarrow> nat \<Rightarrow> u8" where
  "frag_flag n i = (if Suc i = n then word_of_nat i OR 0b10000000 else word_of_nat i)"

definition frag_spec :: "bytes \<Rightarrow> nat \<Rightarrow> u32 \<Rightarrow> nat \<Rightarrow> bytes" where
  "frag_spec data m packetID i =
     [frag_flag (nfrags (length data) m) i] @ packetIDBytes packetID @ take m (drop (i * m) data)"

definition fragments :: "bytes \<Rightarrow> nat \<Rightarrow> u32 \<Rightarrow> bytes list" where
  "fragments data m packetID = map (frag_spec data m packetID) [0..<nfrags (length data) m]"

text \<open>Messages handed to the adapter one after the other until one fails.\<close>

fun sendAll :: "('e, 'l) ext \<Rightarrow> bytes list \<Rightarrow> 'e \<Rightarrow> adapter \<Rightarrow> 'e \<times> adapter \<times> go_error option" where
  "sendAll x [] e ad = (e, ad, None)"
| "sendAll x (m # ms) e ad = (case WriteDataMessage x e ad m of
     (e', ad', Some err) \<Rightarrow> (e', ad', Some err)
   | (e', ad', None) \<Rightarrow> sendAll x ms e' ad')"

section \<open>Counting fragments\<close>

lemma nfrags_le: "0 < m \<Longrightarrow> i < nfrags len m \<Longrightarrow> i * m < len"
proof -
  assume "0 < m" and "i < nfrags len m"
  then have "i < len div m \<or> i = len div m \<and> len mod m \<noteq> 0"
    by (auto simp: nfrags_def split: if_splits)
  then show ?thesis
  proof
    assume "i < len div m"
    then have "i * m < len div m * m" using \<open>0 < m\<close> by simp
    also have "\<dots> \<le> len" by simp
    finally show ?thesis .
  next
    assume "i = len div m \<and> len mod m \<noteq> 0"
    then have "i * m + len mod m = len" and "0 < len mod m" by simp_all
    then show ?thesis by linarith
  qed
qed

lemma nfrags_cover: "0 < m \<Longrightarrow> len \<le> nfrags len m * m"
proof -
  assume m: "0 < m"
  have "len mod m \<le> m" and "len = len div m * m + len mod m" using m by simp_all
  then have "len \<le> m + len div m * m" by linarith
  then show ?thesis
    by (cases "len mod m = 0") (auto simp: nfrags_def)
qed

lemma nfrags_tight: "0 < m \<Longrightarrow> 0 < len \<Longrightarrow> nfrags len m * m < len + m"
proof -
  assume m: "0 < m" and len: "0 < len"
  then have "0 < nfrags len m"
    by (auto simp: nfrags_def div_greater_zero_iff)
  then have "(nfrags len m - 1) * m < len" using m by (intro nfrags_le) auto
  then show ?thesis using \<open>0 < nfrags len m\<close>
    by (cases "nfrags len m") auto
qed

lemma nfrags_ge_2: "0 < m \<Longrightarrow> m < len \<Longrightarrow> 2 \<le> nfrags len m"
proof (rule ccontr)
  assume "0 < m" "m < len" "\<not> 2 \<le> nfrags len m"
  then have "nfrags len m * m \<le> 1 * m" by (intro mult_le_mono1) simp
  then have "len \<le> m" using le_trans [OF nfrags_cover [OF \<open>0 < m\<close>]] by simp
  then show False using \<open>m < len\<close> by simp
qed

lemma nfrags_less_64k: "0 < m \<Longrightarrow> len < 65536 \<Longrightarrow> nfrags len m < 65536"
proof -
  assume m: "0 < m" and len: "len < 65536"
  have "nfrags len m \<le> len"
  proof (cases "m = 1")
    case True
    then show ?thesis by (simp add: nfrags_def)
  next
    case False
    then have "2 \<le> m" using m by simp
    then have "len div m \<le> len div 2" by (simp add: div_le_mono2)
    then show ?thesis
      by (cases "len = 0") (auto simp: nfrags_def)
  qed
  then show ?thesis using len by simp
qed

lemma unat_fragmentCount [frag_simps]:
  assumes len: "length data < 65536" and m: "unat maxLen = m" "0 < m"
  shows "unat (if (word_of_nat (length data) :: u16) mod maxLen \<noteq> 0
        then (word_of_nat (length data) :: u16) div maxLen + 1
        else (word_of_nat (length data) :: u16) div maxLen) = nfrags (length data) m"
proof -
  let ?w = "word_of_nat (length data) :: u16"
  have w: "unat ?w = length data" using len by (rule unat_of_nat_u16)
  have d: "unat (?w div maxLen) = length data div m" and r: "unat (?w mod maxLen) = length data mod m"
    using w m by (simp_all add: unat_div unat_mod)
  have "?w mod maxLen = 0 \<longleftrightarrow> length data mod m = 0"
    using r by (metis unat_eq_zero)
  moreover have "unat (?w div maxLen + 1) = length data div m + 1" if "length data mod m \<noteq> 0"
    using d that nfrags_less_64k [of m "length data"] len m
    by (simp add: unat_word_ariths nfrags_def)
  ultimately show ?thesis using d by (simp add: nfrags_def)
qed

section \<open>One fragment\<close>

lemma fragFlagByte_spec:
  assumes "unat cnt = n" and "i < n"
  shows "fragFlagByte cnt (word_of_nat i) = frag_flag n i"
proof -
  have n: "n < 65536" using assms unat_u16_bound [of cnt] by simp
  have "1 \<le> cnt" using assms by (simp add: word_le_nat_alt)
  then have "unat (cnt - 1) = n - 1" using assms(1) by (simp add: unat_sub)
  then have "word_of_nat i = cnt - 1 \<longleftrightarrow> Suc i = n"
    using assms n by (auto simp: word_unat_eq_iff unat_of_nat_u16)
  moreover have "(ucast (word_of_nat i :: u16) :: u8) = word_of_nat i"
    by (rule bit_word_eqI) (auto simp: bit_simps)
  ultimately show ?thesis by (simp add: fragFlagByte_def frag_flag_def)
qed

lemma fragment_offsets:
  assumes "unat (maxLen :: u16) = m" and "i * m < 65536" and "i < 65536"
  shows "unat (word_of_nat i * maxLen) = i * m"
    and "unat (word_of_nat i * maxLen + maxLen) = (i * m + m) mod 65536"
  using assms by (simp_all add: unat_word_ariths unat_of_nat_u16)

lemma fragment_Ret:
  assumes len: "length data < 65536" and m: "unat maxLen = m" "0 < m"
    and cnt: "unat cnt = nfrags (length data) m"
    and i: "i < nfrags (length data) m" and fits: "i * m + m < 65536"
  shows "fragment data maxLen cnt packetID (word_of_nat i) = Ret (frag_spec data m packetID i)"
proof -
  let ?stop = "word_of_nat i * maxLen + maxLen"
  have st: "i * m < length data" using m(2) i by (rule nfrags_le)
  have i64: "i < 65536" using i nfrags_less_64k [OF m(2) len] by simp
  have off: "unat (word_of_nat i * maxLen) = i * m" "unat ?stop = i * m + m"
    using fragment_offsets [OF m(1) _ i64] fits by simp_all
  have e: "unat (if ?stop > word_of_nat (length data) then word_of_nat (length data) else ?stop)
      = min (i * m + m) (length data)"
    using off(2) len by (auto simp: word_less_nat_alt unat_of_nat_u16 min_def)
  have "take (min (i * m + m) (length data) - i * m) (drop (i * m) data) = take m (drop (i * m) data)"
    by (simp add: min_def)
  then show ?thesis
    using st by (simp add: fragment_def Let_def e off(1) go_slice_Ret fragFlagByte_spec [OF cnt i]
        frag_spec_def)
qed

lemma fragment_Panic:
  assumes len: "length data < 65536" and m: "unat maxLen = m" "0 < m"
    and i: "i < nfrags (length data) m" "0 < i" and over: "65536 \<le> i * m + m"
  shows "fragment data maxLen cnt packetID (word_of_nat i) = Panic"
proof -
  let ?stop = "word_of_nat i * maxLen + maxLen"
  have st: "i * m < length data" using m(2) i(1) by (rule nfrags_le)
  have i64: "i < 65536" using i nfrags_less_64k [OF m(2) len] by simp
  have off: "unat (word_of_nat i * maxLen) = i * m" "unat ?stop = (i * m + m) mod 65536"
    using fragment_offsets [OF m(1) _ i64] st len by simp_all
  have "m \<le> i * m" using i(2) by simp
  moreover have "(i * m + m) mod 65536 = i * m + m - 65536"
    using over st len unat_u16_bound [of maxLen] m by (simp add: le_mod_geq)
  ultimately have "unat ?stop < i * m" using off st len over by linarith
  moreover from this have "\<not> ?stop > word_of_nat (length data)"
    using st len by (simp add: word_less_nat_alt unat_of_nat_u16)
  ultimately show ?thesis
    using off(1) by (simp add: fragment_def Let_def go_slice_Panic)
qed

section \<open>The whole packet\<close>

lemma writeFragments_Ret:
  assumes "\<And>f. f \<in> set fs \<Longrightarrow> mk f = Ret (msg f)"
  shows "writeFragments x mk fs e ad = Ret (sendAll x (map msg fs) e ad)"
  using assms
proof (induction fs arbitrary: e ad)
  case (Cons f fs)
  then show ?case by (auto split: prod.splits option.splits)
qed simp

lemma writeFragments_append_Panic:
  assumes "\<And>f. f \<in> set fs \<Longrightarrow> mk f = Ret (msg f)" and "mk g = Panic"
  shows "writeFragments x mk (fs @ [g]) e ad =
    (case sendAll x (map msg fs) e ad of
       (e', ad', None) \<Rightarrow> Panic
     | (e', ad', Some err) \<Rightarrow> Ret (e', ad', Some err))"
  using assms
proof (induction fs arbitrary: e ad)
  case (Cons f fs)
  then show ?case by (auto split: prod.splits option.splits)
qed simp

lemma dataLen_not_single:
  "length data < 65535 \<Longrightarrow>
   (word_of_nat (length data) + 1 \<le> (maxLen :: u16)) = (length data < unat maxLen)"
  by (auto simp: word_le_nat_alt unat_word_ariths unat_of_nat_u16)

lemma header_room:
  assumes "5 < unat maxLen"
  shows "unat (maxLen - 5 :: u16) = unat maxLen - 5" and "maxLen - 5 \<noteq> 0"
proof -
  have "(5 :: u16) \<le> maxLen" using assms by (simp add: word_le_nat_alt)
  then show *: "unat (maxLen - 5) = unat maxLen - 5" by (simp add: unat_sub)
  then show "maxLen - 5 \<noteq> 0" using assms by (metis unat_0 zero_less_diff less_irrefl)
qed

lemma writePacketFragmented_single:
  assumes "length data < unat maxLen" and "length data < 65535"
  shows "writePacketFragmented x e s data maxLen =
    (case WriteDataMessage x e (sk_adapter s) (0b10000000 # data) of
       (e', ad', err) \<Rightarrow> Ret (e', s\<lparr>sk_adapter := ad'\<rparr>, err))"
  using assms by (simp add: writePacketFragmented_def dataLen_not_single Let_def)

text \<open>
  A packet that does not fit into one message of \<open>maxLen\<close> bytes: \<open>m\<close> bytes of it go
  into each of its \<open>n\<close> fragments.
\<close>

definition split_packet :: "bytes \<Rightarrow> u16 \<Rightarrow> nat \<Rightarrow> nat \<Rightarrow> bool" where
  "split_packet data maxLen m n \<longleftrightarrow> 5 < unat maxLen \<and> m = unat maxLen - 5 \<and>
     n = nfrags (length data) m \<and> unat maxLen \<le> length data \<and> length data < 65535"

lemma split_len: "split_packet data maxLen m n \<Longrightarrow> length data < 65535"
  and split_n: "split_packet data maxLen m n \<Longrightarrow> n = nfrags (length data) m"
  and split_m: "split_packet data maxLen m n \<Longrightarrow> m = unat maxLen - 5"
  by (simp_all add: split_packet_def)

lemma split_m_pos:
  assumes "split_packet data maxLen m n"
  shows "0 < m" "unat (maxLen - 5) = m" "maxLen - 5 \<noteq> 0"
  using assms header_room by (simp_all add: split_packet_def)

lemma split_n_ge_2: "split_packet data maxLen m n \<Longrightarrow> 2 \<le> n"
  using nfrags_ge_2 [of m "length data"] by (auto simp: split_packet_def)

lemma split_n_bounds:
  assumes "split_packet data maxLen m n" and "i < n"
  shows "i < 65536" "i * m < length data"
  using nfrags_less_64k [of m "length data"] nfrags_le [of m i "length data"] assms
  by (auto simp: split_packet_def)

lemma unat_split_n:
  "split_packet data maxLen m n \<Longrightarrow> unat (word_of_nat n :: u16) = nfrags (length data) m"
  using nfrags_less_64k [of m "length data"] by (auto simp: split_packet_def unat_of_nat_u16)

lemma unfold_split:
  assumes sp: "split_packet data maxLen m n"
  shows "writePacketFragmented x e s data maxLen =
    (case writeFragments x (fragment data (maxLen - 5) (word_of_nat n) (sk_lastFragmentID s + 1))
       (map word_of_nat [0..<n]) e (sk_adapter s) of
       Panic \<Rightarrow> Panic
     | Ret (e', ad', err) \<Rightarrow>
         Ret (e', s\<lparr>sk_lastFragmentID := sk_lastFragmentID s + 1, sk_adapter := ad'\<rparr>, err))"
proof -
  let ?w = "word_of_nat (length data) :: u16"
  let ?cnt = "if ?w mod (maxLen - 5) \<noteq> 0 then ?w div (maxLen - 5) + 1 else ?w div (maxLen - 5)"
  have cnt: "unat ?cnt = n"
    unfolding split_n [OF sp] using split_m_pos [OF sp] split_len [OF sp]
    by (intro unat_fragmentCount) auto
  then have w: "?cnt = word_of_nat n"
    unfolding word_unat_eq_iff unat_split_n [OF sp] by (simp only: split_n [OF sp])
  have "\<not> ?w + 1 \<le> maxLen" using sp dataLen_not_single [of data maxLen] by (simp add: split_packet_def)
  then show ?thesis
    using split_m_pos(3) [OF sp] cnt unfolding writePacketFragmented_def Let_def w by simp
qed

lemma fragment_split:
  assumes "split_packet data maxLen m n" and "i < n" and "i * m + m < 65536"
  shows "fragment data (maxLen - 5) (word_of_nat n) packetID (word_of_nat i) = Ret (frag_spec data m packetID i)"
  using assms split_m_pos [OF assms(1)] unat_split_n [OF assms(1)] split_len [OF assms(1)]
    split_n [OF assms(1)]
  by (intro fragment_Ret) auto

lemma fragments_fit: "n * m < (65536 :: nat) \<Longrightarrow> i < n \<Longrightarrow> i * m + m < 65536"
proof -
  assume "n * m < 65536" "i < n"
  then have "Suc i * m \<le> n * m" by (intro mult_le_mono1) simp
  then show ?thesis using \<open>n * m < 65536\<close> by simp
qed

lemma sends_fragments:
  assumes sp: "split_packet data maxLen m n" and fits: "n * m < 65536"
  shows "writePacketFragmented x e s data maxLen =
    (case sendAll x (fragments data m (sk_lastFragmentID s + 1)) e (sk_adapter s) of
       (e', ad', err) \<Rightarrow>
         Ret (e', s\<lparr>sk_lastFragmentID := sk_lastFragmentID s + 1, sk_adapter := ad'\<rparr>, err))"
proof -
  let ?id = "sk_lastFragmentID s + 1"
  let ?fs = "map word_of_nat [0..<n] :: u16 list"
  have "writeFragments x (fragment data (maxLen - 5) (word_of_nat n) ?id) ?fs e ad =
      Ret (sendAll x (map (\<lambda>f. frag_spec data m ?id (unat f)) ?fs) e ad)" for ad
    using fits fragment_split [OF sp]
    by (intro writeFragments_Ret) (auto simp: fragments_fit unat_of_nat_u16 split_n_bounds [OF sp])
  moreover have "map (\<lambda>f. frag_spec data m ?id (unat f)) ?fs = fragments data m ?id"
    by (auto simp: fragments_def split_n [OF sp, symmetric] unat_of_nat_u16 split_n_bounds [OF sp])
  ultimately show ?thesis by (simp add: unfold_split [OF sp])
qed

lemma panics_at_last:
  assumes sp: "split_packet data maxLen m n" and over: "65536 \<le> n * m"
    and sent: "sendAll x (map (frag_spec data m (sk_lastFragmentID s + 1)) [0..<n - 1]) e (sk_adapter s) =
      (e', ad', None)"
  shows "writePacketFragmented x e s data maxLen = Panic"
proof -
  let ?id = "sk_lastFragmentID s + 1"
  let ?mk = "fragment data (maxLen - 5) (word_of_nat n) ?id"
  let ?fs = "map word_of_nat [0..<n - 1] :: u16 list"
  have split: "[0..<n] = [0..<n - 1] @ [n - 1]"
    using split_n_ge_2 [OF sp] upt_Suc_append [of 0 "n - 1"] by simp
  have last: "(n - 1) * m + m = n * m" using split_n_ge_2 [OF sp] by (cases n) auto
  have "?mk (word_of_nat (n - 1)) = Panic"
    using split_m_pos [OF sp] split_len [OF sp] split_n_ge_2 [OF sp] over last split_n [OF sp]
    by (intro fragment_Panic) auto
  moreover have "?mk f = Ret (frag_spec data m ?id (unat f))" if mem: "f \<in> set ?fs" for f
  proof -
    obtain i where f: "f = word_of_nat i" and i: "i < n - 1" using mem by auto
    have "Suc i * m < length data" using split_n_bounds(2) [OF sp, of "Suc i"] i by simp
    then show ?thesis
      using i split_len [OF sp] fragment_split [OF sp, of i] split_n_bounds(1) [OF sp, of i]
      by (simp add: f unat_of_nat_u16)
  qed
  ultimately have "writeFragments x ?mk (?fs @ [word_of_nat (n - 1)]) e (sk_adapter s) =
      (case sendAll x (map (\<lambda>f. frag_spec data m ?id (unat f)) ?fs) e (sk_adapter s) of
         (e', ad', None) \<Rightarrow> Panic
       | (e', ad', Some err) \<Rightarrow> Ret (e', ad', Some err))"
    by (intro writeFragments_append_Panic)
  also have "map (\<lambda>f. frag_spec data m ?id (unat f)) ?fs = map (frag_spec data m ?id) [0..<n - 1]"
    by (auto simp: unat_of_nat_u16 split_n_bounds [OF sp])
  finally have "writeFragments x ?mk (?fs @ [word_of_nat (n - 1)]) e (sk_adapter s) = Panic"
    unfolding sent by simp
  then show ?thesis unfolding unfold_split [OF sp] by (subst split) simp
qed

end
