(* ===== verification/Reassembly.thy ===== *)
theory Reassembly
  imports Fragmentation
begin

text \<open>
  The receiving half of \<^verbatim>\<open>shared/sockets/data_message.go\<close>: the buffer of
  incomplete packets, the message handler up to the point where it passes a packet on, and the
  removal of old entries. The main result is the round trip with the sending half: the
  fragments of a packet, delivered in any order, give back exactly that packet.
\<close>

unbundle bit_operations_syntax

section \<open>Operations\<close>

definition newFragmentsInfo :: fragmentsInfo where
  "newFragmentsInfo = \<lparr>fi_lastIndex = -1000, fi_data = [], fi_time = 0\<rparr>"

text \<open>
  The loop that collects the payload runs over the indices 0 to \<^verbatim>\<open>lastIndex\<close>,
  which is at most 127; a missing index reads as an empty slice.
\<close>

definition collect :: "fragmentsInfo \<Rightarrow> bytes" where
  "collect f = concat (map (\<lambda>i. case map_of (fi_data f) (word_of_nat i) of Some b \<Rightarrow> b | None \<Rightarrow> [])
     [0..<nat (fi_lastIndex f + 1)])"

text \<open>The part of \<^verbatim>\<open>dataMessageHandler\<close> that handles a fragment.\<close>

definition defragment ::
  "gotime \<Rightarrow> (u32 \<rightharpoonup> fragmentsInfo) \<Rightarrow> bytes \<Rightarrow> (u32 \<rightharpoonup> fragmentsInfo) \<times> bytes option" where
  "defragment now defragBuffer message =
     (let fragHeader = message ! 0;
          fragIndex = fragHeader AND 0b01111111;
          isLastFragment = (fragHeader AND 0b10000000 = 0b10000000);
          packetID = decodeID (drop 1 message);
          fragInfo = (case defragBuffer packetID of None \<Rightarrow> newFragmentsInfo | Some f \<Rightarrow> f);
          fragInfo1 = fragInfo\<lparr>fi_time := now,
                               fi_data := AList.update fragIndex (drop 5 message) (fi_data fragInfo)\<rparr>;
          fragInfo2 = (if isLastFragment then fragInfo1\<lparr>fi_lastIndex := int (unat fragIndex)\<rparr>
                       else fragInfo1)
      in if int (length (fi_data fragInfo2)) = fi_lastIndex fragInfo2 + 1
         then (defragBuffer(packetID := None), Some (collect fragInfo2))
         else (defragBuffer(packetID \<mapsto> fragInfo2), None))"

text \<open>
  What \<^verbatim>\<open>dataMessageHandler\<close> decides about a message: it returns true without
  doing more, returns false, or hands a packet to \<^verbatim>\<open>processPacket\<close>.
\<close>

datatype data_action = ReturnTrue | ReturnFalse | ProcessPacket bytes

definition data_message :: "gotime \<Rightarrow> socket \<Rightarrow> bytes \<Rightarrow> socket \<times> data_action" where
  "data_message now s message =
     (if sk_remoteProtocolVersion s = UndeterminedProtocolVersion \<or> \<not> sk_isReady s \<or> sk_isClosing s
      then (s, ReturnTrue)
      else if \<not> sk_fragmentationEnabled s then (s, ProcessPacket message)
      else if length message < 2 then (s, ReturnFalse)
      else if message ! 0 = 0b10000000 then (s, ProcessPacket (drop 1 message))
      else if length message < 6 then (s, ReturnFalse)
      else (case defragment now (sk_defragBuffer s) message of
        (buf, None) \<Rightarrow> (s\<lparr>sk_defragBuffer := buf\<rparr>, ReturnTrue)
      | (buf, Some packet) \<Rightarrow> (s\<lparr>sk_defragBuffer := buf\<rparr>, ProcessPacket packet)))"

text \<open>
  \<^verbatim>\<open>cleanupFragments\<close>: the entries whose last fragment is older than the expiry time
  are deleted.
\<close>

definition cleanupFragments :: "gotime \<Rightarrow> socket \<Rightarrow> socket" where
  "cleanupFragments now s = s\<lparr>sk_defragBuffer := (\<lambda>idx. case sk_defragBuffer s idx of
     None \<Rightarrow> None
   | Some fragInfo \<Rightarrow> if now - fi_time fragInfo > fragmentExpiryTime then None else Some fragInfo)\<rparr>"

text \<open>
  \<^verbatim>\<open>cleanupFragmentsLoop\<close> on what it receives from the ticker and the closed channel, and
  whether it has returned.
\<close>

datatype cleanup_event = TickerFires gotime | CloseChanClosed

fun cleanupFragmentsLoop :: "cleanup_event list \<Rightarrow> socket \<Rightarrow> socket \<times> bool" where
  "cleanupFragmentsLoop [] s = (s, False)"
| "cleanupFragmentsLoop (TickerFires now # evs) s = cleanupFragmentsLoop evs (cleanupFragments now s)"
| "cleanupFragmentsLoop (CloseChanClosed # evs) s = (s, True)"

text \<open>The messages of a connection, handled one after the other.\<close>

fun receive :: "socket \<Rightarrow> (gotime \<times> bytes) list \<Rightarrow> socket \<times> data_action list" where
  "receive s [] = (s, [])"
| "receive s ((now, msg) # msgs) = (case data_message now s msg of
     (s', act) \<Rightarrow> (case receive s' msgs of (s'', acts) \<Rightarrow> (s'', act # acts)))"

section \<open>Headers\<close>

lemma small_u8_bits: "i < 128 \<Longrightarrow> bit (word_of_nat i :: u8) k \<longleftrightarrow> k < 7 \<and> bit i k"
proof -
  assume "i < 128"
  then have "take_bit 7 i = i" by (intro take_bit_nat_eq_self) simp
  then have "bit i k \<longleftrightarrow> k < 7 \<and> bit i k" by (metis bit_take_bit_iff)
  then show ?thesis by (auto simp: bit_simps)
qed

lemma bit_7F: "bit (0b01111111 :: u8) k \<longleftrightarrow> k < 7"
proof -
  have "(0b01111111 :: u8) = mask 7" by (simp add: mask_eq_exp_minus_1)
  then show ?thesis by (simp only: bit_mask_iff) auto
qed

lemma bit_80: "bit (0b10000000 :: u8) k \<longleftrightarrow> k = 7"
proof -
  have "(0b10000000 :: u8) = 2 ^ 7" by simp
  then show ?thesis by (simp only: bit_exp_iff) auto
qed

lemma frag_flag_index: "i < 128 \<Longrightarrow> frag_flag n i AND 0b01111111 = word_of_nat i"
  by (rule bit_word_eqI) (auto simp: frag_flag_def bit_and_iff bit_or_iff bit_7F bit_80 small_u8_bits
      simp del: bit_numeral_word_iff)

lemma frag_flag_last: "i < 128 \<Longrightarrow> frag_flag n i AND 0b10000000 = 0b10000000 \<longleftrightarrow> Suc i = n"
proof -
  assume i: "i < 128"
  have "frag_flag n i AND 0b10000000 = (if Suc i = n then 0b10000000 else 0)"
    using i by (intro bit_word_eqI)
      (auto simp: frag_flag_def bit_and_iff bit_or_iff bit_80 small_u8_bits simp del: bit_numeral_word_iff)
  then show ?thesis by simp
qed

lemma word_of_nat_u8_inj: "i < 256 \<Longrightarrow> j < 256 \<Longrightarrow> (word_of_nat i :: u8) = word_of_nat j \<longleftrightarrow> i = j"
  by (metis unat_of_nat_u8)

lemma frag_flag_not_single: "i < 128 \<Longrightarrow> 2 \<le> n \<Longrightarrow> frag_flag n i \<noteq> 0b10000000"
proof
  assume i: "i < 128" and n: "2 \<le> n" and eq: "frag_flag n i = 0b10000000"
  have "Suc i = n" using frag_flag_last [OF i, of n] by (simp add: eq)
  moreover have "(word_of_nat i :: u8) = word_of_nat 0"
    using frag_flag_index [OF i, of n] by (simp add: eq)
  then have "i = 0" using i word_of_nat_u8_inj [of i 0] by simp
  ultimately show False using n by simp
qed

section \<open>A packet in pieces\<close>

lemma concat_chunks: "concat (map (\<lambda>i. take m (drop (i * m) xs)) [0..<k]) = take (k * m) xs"
  by (induction k) (simp_all add: take_add [symmetric] add.commute)

lemma update_new: "k \<notin> fst ` set al \<Longrightarrow> AList.update k v al = al @ [(k, v)]"
  by (induction al) auto

text \<open>The buffer entry after the fragments with the indices in \<open>got\<close> have arrived.\<close>

definition entry :: "bytes \<Rightarrow> nat \<Rightarrow> nat \<Rightarrow> nat list \<Rightarrow> gotime \<Rightarrow> fragmentsInfo option" where
  "entry data m n got t = (if got = [] then None else Some \<lparr>
     fi_lastIndex = (if n - 1 \<in> set got then int n - 1 else -1000),
     fi_data = map (\<lambda>i. (word_of_nat i, take m (drop (i * m) data))) got,
     fi_time = t\<rparr>)"

lemma frag_spec_parts:
  "frag_spec data m p i ! 0 = frag_flag (nfrags (length data) m) i"
  "decodeID (drop 1 (frag_spec data m p i)) = wireID p"
  "drop 5 (frag_spec data m p i) = take m (drop (i * m) data)"
  by (simp_all add: frag_spec_def wireID_def decodeID_def packetIDBytes_def)

lemma length_frag_spec:
  "0 < m \<Longrightarrow> i < nfrags (length data) m \<Longrightarrow> 6 \<le> length (frag_spec data m p i)"
  using nfrags_le [of m i "length data"] by (simp add: frag_spec_def)

lemma collect_all:
  assumes dist: "distinct got" and full: "set got = {..<n}" and n: "n \<le> 128"
  shows "collect \<lparr>fi_lastIndex = int n - 1,
      fi_data = map (\<lambda>j. (word_of_nat j, take m (drop (j * m) data))) got, fi_time = t\<rparr> =
    take (n * m) data"
proof -
  let ?chunk = "\<lambda>j. take m (drop (j * m) data)"
  let ?al = "map (\<lambda>j. (word_of_nat j :: u8, ?chunk j)) got"
  have "inj_on (word_of_nat :: nat \<Rightarrow> u8) (set got)"
    using full n by (intro inj_onI) (auto simp: word_of_nat_u8_inj)
  then have "distinct (map fst ?al)" using dist by (simp add: distinct_map comp_def)
  then have lk: "map_of ?al (word_of_nat j) = Some (?chunk j)" if "j < n" for j
    using that full by (intro map_of_is_SomeI) auto
  have "collect \<lparr>fi_lastIndex = int n - 1, fi_data = ?al, fi_time = t\<rparr> =
      concat (map (\<lambda>j. case map_of ?al (word_of_nat j) of Some b \<Rightarrow> b | None \<Rightarrow> []) [0..<n])"
    by (simp add: collect_def)
  also have "\<dots> = concat (map ?chunk [0..<n])"
    using lk by (intro arg_cong [where f = concat] map_cong) simp_all
  finally show ?thesis by (simp add: concat_chunks)
qed

lemma defragment_step:
  assumes n: "n = nfrags (length data) m" "n \<le> 128" and i: "i < n" "i \<notin> set got"
    and got: "distinct got" "set got \<subseteq> {..<n}"
  shows "defragment now (buf(wireID p := entry data m n got t)) (frag_spec data m p i) =
    (if Suc (length got) = n
     then (buf(wireID p := None), Some (take (n * m) data))
     else (buf(wireID p := entry data m n (got @ [i]) now), None))"
proof -
  let ?chunk = "\<lambda>j. take m (drop (j * m) data)"
  let ?al = "\<lambda>js. map (\<lambda>j. (word_of_nat j :: u8, ?chunk j)) js"
  let ?info = "\<lparr>fi_lastIndex = (if n - 1 \<in> set (got @ [i]) then int n - 1 else -1000),
    fi_data = ?al (got @ [i]), fi_time = now\<rparr>"
  have small: "j < 256" if "j \<in> insert i (set got)" for j
    using that i(1) got(2) n(2) by auto
  have "word_of_nat i \<notin> (word_of_nat :: nat \<Rightarrow> u8) ` set got"
    using small i(2) word_of_nat_u8_inj by fastforce
  then have upd: "AList.update (word_of_nat i) (?chunk i) (?al got) = ?al (got @ [i])"
    by (subst update_new) (auto simp: image_image)
  have last: "n - 1 \<in> set got \<longleftrightarrow> n - 1 \<in> set (got @ [i]) \<and> Suc i \<noteq> n"
    using i by auto
  have idx: "frag_flag n i AND 0b01111111 = word_of_nat i"
    "frag_flag n i AND 0b10000000 = 0b10000000 \<longleftrightarrow> Suc i = n" "unat (word_of_nat i :: u8) = i"
    using i(1) n(2) frag_flag_index frag_flag_last unat_of_nat_u8 by auto
  have full: "set (got @ [i]) = {..<n}" if "Suc (length got) = n"
    using that i got by (intro card_subset_eq) (auto simp: distinct_card)
  have coll: "collect ?info = take (n * m) data" if "Suc (length got) = n"
  proof -
    have "n - 1 \<in> set (got @ [i])" using full [OF that] i(1) by simp
    then show ?thesis
      using collect_all [of "got @ [i]" n m data now] full [OF that] got(1) i n(2) by simp
  qed
  have complete: "int (length (fi_data ?info)) = fi_lastIndex ?info + 1 \<longleftrightarrow> Suc (length got) = n"
  proof -
    have "n - 1 \<in> set (got @ [i])" if "Suc (length got) = n" using full [OF that] i(1) by simp
    then show ?thesis by (cases "n - 1 \<in> set (got @ [i])") auto
  qed
  let ?old = "\<lparr>fi_lastIndex = (if n - 1 \<in> set got then int n - 1 else -1000),
    fi_data = ?al got, fi_time = (if got = [] then 0 else t)\<rparr>"
  have old: "(case (buf(wireID p := entry data m n got t)) (wireID p) of
      None \<Rightarrow> newFragmentsInfo | Some f \<Rightarrow> f) = ?old"
    by (simp add: entry_def newFragmentsInfo_def)
  have new: "(if Suc i = n
      then ?old\<lparr>fi_time := now, fi_data := AList.update (word_of_nat i) (?chunk i) (fi_data ?old)\<rparr>\<lparr>fi_lastIndex := int i\<rparr>
      else ?old\<lparr>fi_time := now, fi_data := AList.update (word_of_nat i) (?chunk i) (fi_data ?old)\<rparr>) = ?info"
    unfolding fragmentsInfo.select_convs upd using last i(1) by (cases "Suc i = n") auto
  have "defragment now (buf(wireID p := entry data m n got t)) (frag_spec data m p i) =
     (if int (length (fi_data ?info)) = fi_lastIndex ?info + 1
      then (buf(wireID p := None), Some (collect ?info))
      else (buf(wireID p \<mapsto> ?info), None))"
    unfolding defragment_def Let_def frag_spec_parts n(1) [symmetric] idx old new by simp
  then show ?thesis unfolding complete using coll by (auto simp: entry_def)
qed

section \<open>The round trip\<close>

definition accepts_fragments :: "socket \<Rightarrow> bool" where
  "accepts_fragments s \<longleftrightarrow> sk_remoteProtocolVersion s \<noteq> UndeterminedProtocolVersion \<and>
     sk_isReady s \<and> \<not> sk_isClosing s \<and> sk_fragmentationEnabled s"

lemma accepts_fragments_buffer [simp]:
  "accepts_fragments (s\<lparr>sk_defragBuffer := b\<rparr>) = accepts_fragments s"
  by (simp add: accepts_fragments_def)

lemma data_message_single:
  "accepts_fragments s \<Longrightarrow> data \<noteq> [] \<Longrightarrow>
   data_message now s (0b10000000 # data) = (s, ProcessPacket data)"
  by (cases data) (auto simp: data_message_def accepts_fragments_def)

lemma data_message_fragment:
  assumes s: "accepts_fragments s" and n: "n = nfrags (length data) m" "n \<le> 128" "2 \<le> n" "0 < m"
    and i: "i < n" "i \<notin> set got" and got: "distinct got" "set got \<subseteq> {..<n}"
    and buf: "sk_defragBuffer s = buf(wireID p := entry data m n got t)"
  shows "data_message now s (frag_spec data m p i) =
    (if Suc (length got) = n
     then (s\<lparr>sk_defragBuffer := buf(wireID p := None)\<rparr>, ProcessPacket data)
     else (s\<lparr>sk_defragBuffer := buf(wireID p := entry data m n (got @ [i]) now)\<rparr>, ReturnTrue))"
proof -
  have "6 \<le> length (frag_spec data m p i)" using length_frag_spec n(1,4) i(1) by simp
  moreover have "frag_spec data m p i ! 0 \<noteq> 0b10000000"
    using frag_flag_not_single i(1) n by (simp add: frag_spec_parts)
  moreover have "take (n * m) data = data" using nfrags_cover n(1,4) by simp
  ultimately show ?thesis
    using s defragment_step [OF n(1,2) i got, of now buf p t]
    by (simp add: data_message_def accepts_fragments_def buf)
qed

lemma receive_fragments:
  assumes s: "accepts_fragments s" and n: "n = nfrags (length data) m" "n \<le> 128" "2 \<le> n" "0 < m"
    and dist: "distinct (got @ map snd order)" and all: "set (got @ map snd order) = {..<n}"
    and buf: "sk_defragBuffer s = buf(wireID p := entry data m n got t)" and ne: "order \<noteq> []"
  shows "receive s (map (\<lambda>(now, i). (now, frag_spec data m p i)) order) =
    (s\<lparr>sk_defragBuffer := buf(wireID p := None)\<rparr>,
     replicate (length order - 1) ReturnTrue @ [ProcessPacket data])"
  using s dist all buf ne
proof (induction order arbitrary: s got t)
  case (Cons p1 order)
  obtain now i where p1: "p1 = (now, i)" by (cases p1)
  have i: "i < n" "i \<notin> set got" and got: "distinct got" "set got \<subseteq> {..<n}"
    using Cons.prems(2,3) by (auto simp: p1)
  have len: "length got + Suc (length order) = n"
    using distinct_card [OF Cons.prems(2)] Cons.prems(3) by simp
  note step = data_message_fragment [OF Cons.prems(1) n i got Cons.prems(4), of now]
  show ?case
  proof (cases "order = []")
    case True
    then show ?thesis using step len by (simp add: p1 fun_upd_def)
  next
    case False
    let ?s = "s\<lparr>sk_defragBuffer := buf(wireID p := entry data m n (got @ [i]) now)\<rparr>"
    have "receive ?s (map (\<lambda>(now, i). (now, frag_spec data m p i)) order) =
      (?s\<lparr>sk_defragBuffer := buf(wireID p := None)\<rparr>,
       replicate (length order - 1) ReturnTrue @ [ProcessPacket data])"
      using Cons.prems False by (intro Cons.IH [of _ "got @ [i]" now]) (auto simp: p1)
    moreover have "length order = Suc (length order - 1)" using False by (cases order) auto
    then have "replicate (length order) ReturnTrue = ReturnTrue # replicate (length order - 1) ReturnTrue"
      by (metis replicate_Suc)
    moreover have "Suc (length got) \<noteq> n" using len False by (cases order) auto
    ultimately show ?thesis using step
      by (simp add: p1 fun_upd_def)
  qed
qed simp

section \<open>What a packet becomes on the wire\<close>

text \<open>
  The messages that \<^verbatim>\<open>writePacketFragmented\<close> should send, over unbounded numbers:
  one message with the flag of a last fragment when the packet fits, its fragments otherwise.
\<close>

definition wire_messages :: "bytes \<Rightarrow> u16 \<Rightarrow> u32 \<Rightarrow> bytes list" where
  "wire_messages data maxLen packetID =
     (if length data < unat maxLen then [0b10000000 # data]
      else fragments data (unat maxLen - 5) packetID)"

text \<open>
  The packets that the format can carry at a payload limit: a fragment index has seven bits and
  the offsets have sixteen.
\<close>

definition deliverable :: "bytes \<Rightarrow> u16 \<Rightarrow> bool" where
  "deliverable data maxLen \<longleftrightarrow> data \<noteq> [] \<and> length data < 65535 \<and>
     (length data < unat maxLen \<or>
      5 < unat maxLen \<and>
      (let m = unat maxLen - 5; n = nfrags (length data) m in n \<le> 128 \<and> n * m < 65536))"

lemma deliverable_split:
  "deliverable data maxLen \<Longrightarrow> \<not> length data < unat maxLen \<Longrightarrow>
   \<exists>m n. split_packet data maxLen m n \<and> n \<le> 128 \<and> n * m < 65536"
  by (auto simp: deliverable_def split_packet_def Let_def)

lemma wire_messages_split:
  "split_packet data maxLen m n \<Longrightarrow> wire_messages data maxLen p = fragments data m p"
  by (simp add: wire_messages_def split_packet_def)

lemma length_fragments [simp]: "length (fragments data m p) = nfrags (length data) m"
  by (simp add: fragments_def)

lemma wire_messages_limit:
  assumes "deliverable data maxLen" and "msg \<in> set (wire_messages data maxLen p)"
  shows "length msg \<le> unat maxLen"
proof (cases "length data < unat maxLen")
  case True
  then show ?thesis using assms by (simp add: wire_messages_def)
next
  case False
  then obtain m n where "split_packet data maxLen m n"
    using deliverable_split assms(1) by blast
  then show ?thesis
    using assms(2) by (auto simp: wire_messages_split fragments_def frag_spec_def split_packet_def)
qed

lemma sends_wire_messages_id:
  assumes "deliverable data maxLen"
  shows "writePacketFragmented x e s data maxLen =
    (case sendAll x (wire_messages data maxLen (sk_lastFragmentID s + 1)) e (sk_adapter s) of
       (e', ad', err) \<Rightarrow> Ret (e', s\<lparr>sk_lastFragmentID := (if length data < unat maxLen then sk_lastFragmentID s
           else sk_lastFragmentID s + 1), sk_adapter := ad'\<rparr>, err))"
proof (cases "length data < unat maxLen")
  case True
  then have "writePacketFragmented x e s data maxLen =
    (case WriteDataMessage x e (sk_adapter s) (0b10000000 # data) of
       (e', ad', err) \<Rightarrow> Ret (e', s\<lparr>sk_adapter := ad'\<rparr>, err))"
    using assms by (intro writePacketFragmented_single) (auto simp: deliverable_def)
  then show ?thesis
    using True by (auto simp: wire_messages_def split: prod.splits option.splits)
next
  case False
  then obtain m n where sp: "split_packet data maxLen m n" and "n * m < 65536"
    using deliverable_split assms by blast
  then show ?thesis
    using False sends_fragments [OF sp, of x e s] unfolding wire_messages_split [OF sp] by simp
qed

lemma sends_wire_messages:
  assumes "deliverable data maxLen"
  shows "\<exists>c. writePacketFragmented x e s data maxLen =
    (case sendAll x (wire_messages data maxLen (sk_lastFragmentID s + 1)) e (sk_adapter s) of
       (e', ad', err) \<Rightarrow> Ret (e', s\<lparr>sk_lastFragmentID := c, sk_adapter := ad'\<rparr>, err))"
  using sends_wire_messages_id [OF assms] by (intro exI)

lemma receive_wire_messages:
  assumes del: "deliverable data maxLen" and r: "accepts_fragments r"
    and free: "sk_defragBuffer r (wireID p) = None"
    and order: "distinct (map snd order)" "set (map snd order) = {..<length (wire_messages data maxLen p)}"
  shows "receive r (map (\<lambda>(now, i). (now, wire_messages data maxLen p ! i)) order) =
    (r, replicate (length order - 1) ReturnTrue @ [ProcessPacket data])"
proof (cases "length data < unat maxLen")
  case True
  have "length order = card (set (map snd order))" using distinct_card [OF order(1)] by simp
  then have "length order = 1" using True order(2) by (simp add: wire_messages_def)
  then obtain now i where o: "order = [(now, i)]" by (cases order) auto
  moreover have "i = 0" using o order(2) True by (simp add: wire_messages_def lessThan_Suc)
  ultimately show ?thesis
    using True r del by (simp add: wire_messages_def data_message_single deliverable_def)
next
  case False
  then obtain m n where sp: "split_packet data maxLen m n" and n: "n \<le> 128"
    using deliverable_split del by blast
  have all: "set (map snd order) = {..<n}"
    using order(2) by (simp add: wire_messages_split [OF sp] split_n [OF sp])
  then have "0 \<in> set (map snd order)" using split_n_ge_2 [OF sp] by simp
  then have "order \<noteq> []" by auto
  then have "receive r (map (\<lambda>(now, i). (now, frag_spec data m p i)) order) =
    (r\<lparr>sk_defragBuffer := (sk_defragBuffer r)(wireID p := None)\<rparr>,
     replicate (length order - 1) ReturnTrue @ [ProcessPacket data])"
    using r free all order(1) n split_n_ge_2 [OF sp] split_m_pos(1) [OF sp] split_n [OF sp]
    by (intro receive_fragments [where got = "[]" and t = 0])
      (auto simp: entry_def fun_upd_idem)
  moreover have "(sk_defragBuffer r)(wireID p := None) = sk_defragBuffer r"
    using free by (rule fun_upd_idem)
  moreover have "map (\<lambda>(now, i). (now, wire_messages data maxLen p ! i)) order =
      map (\<lambda>(now, i). (now, frag_spec data m p i)) order"
  proof -
    have "i < n" if "(now, i) \<in> set order" for now i using that all by force
    then show ?thesis
      by (auto simp: wire_messages_split [OF sp] fragments_def split_n [OF sp, symmetric])
  qed
  ultimately show ?thesis by (simp del: map_eq_conv)
qed

text \<open>
  C1 The round trip of the data path: a packet that the format can carry at the sender's payload
  limit is written as messages that respect the limit, and a peer with fragmentation on that has
  no half-received packet of the same wire identifier recovers exactly that packet once it has
  all messages, in whatever order and at whatever times they arrive. It passes nothing on before
  that, and its buffer is as it was before.
\<close>

theorem packet_roundtrip:
  assumes "deliverable data maxLen" and "accepts_fragments r"
    and "sk_defragBuffer r (wireID (sk_lastFragmentID s + 1)) = None"
    and "msgs = wire_messages data maxLen (sk_lastFragmentID s + 1)"
    and "distinct (map snd order)" and "set (map snd order) = {..<length msgs}"
  shows "(\<exists>c. writePacketFragmented x e s data maxLen =
      (case sendAll x msgs e (sk_adapter s) of
         (e', ad', err) \<Rightarrow> Ret (e', s\<lparr>sk_lastFragmentID := c, sk_adapter := ad'\<rparr>, err))) \<and>
    (\<forall>msg \<in> set msgs. length msg \<le> unat maxLen) \<and>
    receive r (map (\<lambda>(now, i). (now, msgs ! i)) order) =
      (r, replicate (length order - 1) ReturnTrue @ [ProcessPacket data])"
  unfolding assms(4)
proof (intro conjI ballI)
  show "length msg \<le> unat maxLen"
    if "msg \<in> set (wire_messages data maxLen (sk_lastFragmentID s + 1))" for msg
    using assms(1) that by (rule wire_messages_limit)
  show "receive r (map (\<lambda>(now, i). (now, wire_messages data maxLen (sk_lastFragmentID s + 1) ! i)) order) =
      (r, replicate (length order - 1) ReturnTrue @ [ProcessPacket data])"
    using assms by (intro receive_wire_messages) simp_all
qed (rule sends_wire_messages [OF assms(1)])

definition example_receiver :: socket where
  "example_receiver = example_socket\<lparr>sk_remoteProtocolVersion := 12, sk_isReady := True,
     sk_fragmentationEnabled := True\<rparr>"

lemma example_receiver_ok: "accepts_fragments example_receiver"
  by (simp add: accepts_fragments_def example_receiver_def protocol_consts example_socket_def
      MakeSocket_def SetLocalFeature_def)

theorem packet_roundtrip_witness:
  "receive example_receiver (map (\<lambda>(now, i). (now, wire_messages [1, 2, 3, 4, 5, 6, 7, 8, 9, 10] 8 1 ! i))
     [(50, 2), (40, 0), (70, 3), (70, 1)]) =
   (example_receiver,
    [ReturnTrue, ReturnTrue, ReturnTrue, ProcessPacket [1, 2, 3, 4, 5, 6, 7, 8, 9, 10]])"
proof -
  let ?order = "[(50, 2), (40, 0), (70, 3), (70, 1)] :: (gotime \<times> nat) list"
  have "deliverable [1, 2, 3, 4, 5, 6, 7, 8, 9, 10] 8"
    by (simp add: deliverable_def nfrags_def)
  moreover have "sk_defragBuffer example_receiver (wireID (sk_lastFragmentID example_socket + 1)) = None"
    by (simp add: example_receiver_def example_socket_def MakeSocket_def SetLocalFeature_def)
  moreover have "set (map snd ?order) =
      {..<length (wire_messages [1, 2, 3, 4, 5, 6, 7, 8, 9, 10] 8 (sk_lastFragmentID example_socket + 1))}"
    by (simp add: wire_messages_def nfrags_def lessThan_nat_numeral lessThan_Suc) auto
  moreover have "sk_lastFragmentID example_socket = 0"
    by (simp add: example_socket_def MakeSocket_def SetLocalFeature_def)
  ultimately show ?thesis
    using packet_roundtrip [OF _ example_receiver_ok _ refl, of "[1, 2, 3, 4, 5, 6, 7, 8, 9, 10]" 8
        example_socket ?order demo_ext "[]"] by simp
qed

section \<open>Old fragments\<close>

text \<open>
  The periodic clean-up of the reassembly buffer: \<^verbatim>\<open>cleanupFragments\<close> keeps exactly
  the entries that got a fragment within the last thirty seconds, unchanged, and touches nothing
  else of the socket; so after a packet with a lost fragment its identifier is usable again once
  thirty seconds have passed.
\<close>

theorem cleanup_keeps_fresh_entries:
  "sk_defragBuffer (cleanupFragments now s) p = Some f \<longleftrightarrow>
     sk_defragBuffer s p = Some f \<and> now - fi_time f \<le> 30000000000"
  by (auto simp: cleanupFragments_def fragmentExpiryTime_def second_def split: option.splits)

text \<open>No entry that the clean-up loop has seen expire survives its next tick.\<close>

lemma cleanup_loop_fresh:
  "\<lbrakk>CloseChanClosed \<notin> set evs; cleanupFragmentsLoop (evs @ [TickerFires now]) s = (s', ended);
    sk_defragBuffer s' p = Some f\<rbrakk> \<Longrightarrow> \<not> ended \<and> now - fi_time f \<le> fragmentExpiryTime"
  by (induction evs s rule: cleanupFragmentsLoop.induct) (auto simp: cleanupFragments_def split: option.splits if_splits)

end
