(* ===== verification/Data_Path.thy ===== *)
theory Data_Path
  imports Reassembly
begin

text \<open>
  What \<^verbatim>\<open>WritePacket\<close> guarantees as a whole: its retry loop ends, it is silent
  on a socket that is not ready, and which packet sizes it can carry over a WebTransport session
  with the limit of 1184 bytes that \<^verbatim>\<open>RefreshFeatures\<close> sets.
\<close>

section \<open>The retry loop\<close>

text \<open>The reported datagram limits are sizes.\<close>

definition limits_nonneg :: "('e, 'l) ext \<Rightarrow> bool" where
  "limits_nonneg x \<longleftrightarrow> (\<forall>e c m e' n. wt_SendDatagram x e c m = (e', Some (DatagramTooLargeError n)) \<longrightarrow> 0 \<le> n)"

lemma limits_nonneg_demo: "limits_nonneg demo_ext"
  by (simp add: limits_nonneg_def demo_limit_def)

lemma WriteDataMessage_shrinks:
  "limits_nonneg x \<Longrightarrow> WriteDataMessage x e a m = (e', a', Some ErrDataPayloadLimitReduced) \<Longrightarrow>
   MaxDataPayloadLen a' < MaxDataPayloadLen a"
  by (rule WriteDataMessage_limit) (auto simp: limits_nonneg_def)

lemma WriteDataMessage_keeps_limit:
  "WriteDataMessage x e a m = (e', a', None) \<Longrightarrow> a' = a"
  by (cases a) (auto simp: wt_WriteDataMessage_def split: prod.splits if_splits option.splits dgram_error.splits)

lemma writeFragments_shrinks:
  assumes "limits_nonneg x"
    and "writeFragments x mk fs e a = Ret (e', a', Some ErrDataPayloadLimitReduced)"
  shows "MaxDataPayloadLen a' < MaxDataPayloadLen a"
  using assms(2)
  by (induction fs arbitrary: e a)
    (auto split: go.splits prod.splits option.splits
      dest: WriteDataMessage_shrinks [OF assms(1)] WriteDataMessage_keeps_limit)

lemma writePacketFragmented_shrinks:
  assumes "limits_nonneg x"
    and "writePacketFragmented x e s data l = Ret (e', s', Some ErrDataPayloadLimitReduced)"
  shows "MaxDataPayloadLen (sk_adapter s') < MaxDataPayloadLen (sk_adapter s)"
  using assms(2) unfolding writePacketFragmented_def Let_def
  by (auto split: if_splits go.splits prod.splits
      dest: WriteDataMessage_shrinks [OF assms(1)] writeFragments_shrinks [OF assms(1)])

lemma resendLoop_ends:
  assumes "limits_nonneg x"
  shows "\<exists>r. resendLoop x data e s = Some r \<and>
    (\<forall>e' s' err. r = Ret (e', s', Some err) \<longrightarrow> err \<noteq> ErrDataPayloadLimitReduced)"
proof (induction "unat (MaxDataPayloadLen (sk_adapter s))" arbitrary: e s rule: less_induct)
  case less
  show ?case
  proof (cases "writePacketFragmented x e s data (MaxDataPayloadLen (sk_adapter s))")
    case (Ret r)
    obtain e1 s1 err where r: "r = (e1, s1, err)" by (cases r)
    show ?thesis
    proof (cases "err = Some ErrDataPayloadLimitReduced")
      case True
      then have "unat (MaxDataPayloadLen (sk_adapter s1)) < unat (MaxDataPayloadLen (sk_adapter s))"
        using writePacketFragmented_shrinks [OF assms] Ret r by (simp add: word_less_nat_alt)
      from less [OF this, of e1] show ?thesis
        using True Ret r by (subst resendLoop.simps) simp
    next
      case False
      then show ?thesis using Ret r by (subst resendLoop.simps) auto
    qed
  qed (subst resendLoop.simps, simp)
qed

text \<open>
  C15 Sending always comes to an end: whatever the transport answers, the loop of
  \<^verbatim>\<open>WritePacket\<close> that starts over when the payload limit was reduced runs only
  finitely often, because every restart has a strictly smaller limit, and the caller never sees
  the internal error \<^verbatim>\<open>ErrDataPayloadLimitReduced\<close> of a fragmented write. The only
  assumption is that a reported limit is not negative.
\<close>

theorem WritePacket_returns:
  assumes "limits_nonneg x" and "sk_fragmentationEnabled (w_sock w i)"
  shows "\<exists>r. WritePacket x i data w = Some r \<and>
    (\<forall>w' err. r = Ret (w', Some err) \<longrightarrow> err \<noteq> ErrDataPayloadLimitReduced)"
proof -
  obtain r where r: "resendLoop x data (w_env w) (w_sock w i) = Some r"
    and err: "\<forall>e' s' err. r = Ret (e', s', Some err) \<longrightarrow> err \<noteq> ErrDataPayloadLimitReduced"
    using resendLoop_ends [OF assms(1)] by blast
  show ?thesis
    using assms(2) err by (cases r) (auto simp: WritePacket_def Let_def r run_return_def run_bind_def)
qed

definition example_world :: "socket \<Rightarrow> (demo_env, list_lru) world" where
  "example_world s = \<lparr>w_env = [], w_sock = (\<lambda>i. s), w_handler = None, w_spawned = [], w_events = []\<rparr>"

theorem WritePacket_returns_witness:
  "\<exists>r. WritePacket demo_ext 0 [1, 2] (example_world example_receiver) = Some r \<and>
    (\<forall>w' err. r = Ret (w', Some err) \<longrightarrow> err \<noteq> ErrDataPayloadLimitReduced)"
  by (rule WritePacket_returns [OF limits_nonneg_demo]) (simp add: example_world_def example_receiver_def)

text \<open>
  Nothing leaves a socket that has not negotiated a version, is not ready or is being closed:
  \<^verbatim>\<open>WritePacket\<close> reports success and changes nothing at all; in the other direction
  the message handler passes nothing on and keeps its buffer.
\<close>

theorem no_data_unless_ready:
  assumes "sk_remoteProtocolVersion (w_sock w i) = 0 \<or> \<not> sk_isReady (w_sock w i) \<or> sk_isClosing (w_sock w i)"
  shows "WritePacket x i data w = Some (Ret (w, None)) \<and>
    data_message now (w_sock w i) msg = (w_sock w i, ReturnTrue)"
  using assms by (auto simp: WritePacket_def data_message_def run_return_def protocol_consts)

theorem no_data_unless_ready_witness:
  "WritePacket demo_ext 3 [1] (example_world example_socket) = Some (Ret (example_world example_socket, None)) \<and>
   data_message 7 (w_sock (example_world example_socket) 3) [2] =
     (w_sock (example_world example_socket) 3, ReturnTrue)"
  by (rule no_data_unless_ready)
    (simp add: example_world_def example_socket_def MakeSocket_def SetLocalFeature_def protocol_consts)

section \<open>The wire format\<close>

text \<open>
  C2 The splitting of packets in \<^verbatim>\<open>uint16\<close> arithmetic implements the format: for
  every packet that the format can carry at the limit of the transport,
  \<^verbatim>\<open>writePacketFragmented\<close> hands to the transport exactly the messages that the
  specification over natural numbers lists, in order, until one fails, and takes a new packet
  identifier exactly if there is more than one.
\<close>

theorem splitting_refines_format:
  assumes "deliverable data maxLen"
  shows "writePacketFragmented x e s data maxLen =
    (case sendAll x (wire_messages data maxLen (sk_lastFragmentID s + 1)) e (sk_adapter s) of
       (e', ad', err) \<Rightarrow> Ret (e', s\<lparr>sk_lastFragmentID := (if length data < unat maxLen then sk_lastFragmentID s
           else sk_lastFragmentID s + 1), sk_adapter := ad'\<rparr>, err))"
  using assms by (rule sends_wire_messages_id)

theorem splitting_refines_format_witness:
  "writePacketFragmented demo_ext [] example_socket (replicate 2000 7) 1184 =
    (case sendAll demo_ext (wire_messages (replicate 2000 7) 1184 (sk_lastFragmentID example_socket + 1)) []
        (sk_adapter example_socket) of
       (e', ad', err) \<Rightarrow> Ret (e', example_socket\<lparr>sk_lastFragmentID := sk_lastFragmentID example_socket + 1,
         sk_adapter := ad'\<rparr>, err))"
  using splitting_refines_format [of "replicate 2000 7" 1184 demo_ext "[]" example_socket]
  by (simp add: deliverable_def nfrags_def)

section \<open>Packet sizes over WebTransport\<close>

lemma nfrags_1179: "1184 \<le> len \<Longrightarrow> len \<le> 64845 \<Longrightarrow> nfrags len 1179 \<le> 55"
proof -
  assume "1184 \<le> len" "len \<le> 64845"
  then have "nfrags len 1179 * 1179 < 56 * 1179" using nfrags_tight [of 1179 len] by simp
  then show ?thesis by (simp only: mult_less_cancel2) simp
qed

lemma nfrags_1179_large: "64845 < len \<Longrightarrow> len < 65535 \<Longrightarrow> nfrags len 1179 = 56"
proof -
  assume l: "64845 < len" "len < 65535"
  then have "len div 1179 = 55" by (intro div_nat_eqI) simp_all
  moreover from this have "len mod 1179 \<noteq> 0"
    using l div_mult_mod_eq [of len 1179] by linarith
  ultimately show ?thesis by (simp add: nfrags_def)
qed

text \<open>
  Over a WebTransport session with its initial limit of 1184 bytes every packet of 1 to
  64845 bytes is within the format: it becomes at most 55 messages, and
  \<^verbatim>\<open>writePacketFragmented\<close> hands exactly these to the transport.
\<close>

theorem webtransport_carries:
  assumes "0 < length data" and "length data \<le> 64845"
  shows "deliverable data 1184 \<and>
    length (wire_messages data 1184 (sk_lastFragmentID s + 1)) \<le> 55 \<and>
    (\<exists>c. writePacketFragmented x e s data 1184 =
      (case sendAll x (wire_messages data 1184 (sk_lastFragmentID s + 1)) e (sk_adapter s) of
         (e', ad', err) \<Rightarrow> Ret (e', s\<lparr>sk_lastFragmentID := c, sk_adapter := ad'\<rparr>, err)))"
proof -
  have n: "nfrags (length data) 1179 \<le> 55" if "\<not> length data < 1184"
    using that assms nfrags_1179 by simp
  have "deliverable data 1184"
  proof (cases "length data < 1184")
    case False
    from n [OF this] have "nfrags (length data) 1179 * 1179 \<le> 55 * 1179" by (intro mult_le_mono1)
    then show ?thesis using assms n [OF False] by (auto simp: deliverable_def Let_def)
  qed (use assms in \<open>auto simp: deliverable_def\<close>)
  moreover have "length (wire_messages data 1184 p) \<le> 55" for p
    using n by (simp add: wire_messages_def)
  ultimately show ?thesis by (intro conjI sends_wire_messages)
qed

theorem webtransport_carries_witness:
  "deliverable (replicate 2000 0) 1184 \<and>
   length (wire_messages (replicate 2000 0) 1184 (sk_lastFragmentID example_socket + 1)) \<le> 55 \<and>
   (\<exists>c. writePacketFragmented demo_ext [] example_socket (replicate 2000 0) 1184 =
      (case sendAll demo_ext (wire_messages (replicate 2000 0) 1184 (sk_lastFragmentID example_socket + 1)) []
          (sk_adapter example_socket) of
         (e', ad', err) \<Rightarrow> Ret (e', example_socket\<lparr>sk_lastFragmentID := c, sk_adapter := ad'\<rparr>, err)))"
  by (rule webtransport_carries) simp_all

text \<open>
  C35 A packet of 64846 to 65534 bytes crashes the sender at that limit, although
  \<^verbatim>\<open>WritePacket\<close> declares every size up to 65535 to be in bounds: the end of the
  56th fragment is 56 * 1179 = 66024, which wraps around in a \<^verbatim>\<open>uint16\<close> and gives
  a slice expression whose end is below its start, once the 55 fragments before it are sent.
\<close>

theorem webtransport_panics:
  assumes "64845 < length data" and "length data < 65535"
    and "sendAll x (map (frag_spec data 1179 (sk_lastFragmentID s + 1)) [0..<55]) e (sk_adapter s) = (e', ad', None)"
  shows "writePacketFragmented x e s data 1184 = Panic"
proof (rule panics_at_last)
  show "split_packet data 1184 1179 56"
    using assms by (simp add: split_packet_def nfrags_1179_large)
  show "sendAll x (map (frag_spec data 1179 (sk_lastFragmentID s + 1)) [0..<56 - 1]) e (sk_adapter s) = (e', ad', None)"
    using assms(3) by simp
qed simp

lemma demo_sendAll:
  "sk_adapter s = WS a \<Longrightarrow>
   sendAll demo_ext ms e (sk_adapter s) = (e @ map (Pair (ws_conn a)) ms, WS a, None)"
  by (induction ms arbitrary: e) (simp_all add: ws_WriteDataMessage_def)

theorem webtransport_panics_witness:
  "writePacketFragmented demo_ext [] example_socket (replicate 65000 0) 1184 = Panic"
proof (rule webtransport_panics)
  have "sk_adapter example_socket = WS \<lparr>ws_conn = 0, ws_serializationType = 1, ws_isServer = True\<rparr>"
    by (simp add: example_socket_def MakeSocket_def SetLocalFeature_def NewWebSocketAdapter_def)
  from demo_sendAll [OF this]
  show "sendAll demo_ext (map (frag_spec (replicate 65000 0) 1179 (sk_lastFragmentID example_socket + 1)) [0..<55])
      [] (sk_adapter example_socket) =
    ([] @ map (Pair 0) (map (frag_spec (replicate 65000 0) 1179 (sk_lastFragmentID example_socket + 1)) [0..<55]),
     WS \<lparr>ws_conn = 0, ws_serializationType = 1, ws_isServer = True\<rparr>, None)"
    by (simp only: ws_adapter.select_convs)
qed simp_all

text \<open>
  The largest packet that \<^verbatim>\<open>WritePacket\<close> admits, 65535 bytes, is never split,
  however small the limit: \<^verbatim>\<open>dataLen + 1\<close> wraps to 0. The transport gets one message
  of 65536 bytes, one more than any limit can be.
\<close>

theorem largest_packet_not_split:
  assumes "length data = 65535"
  shows "length (0b10000000 # data) = 65536 \<and> writePacketFragmented x e s data maxLen =
    (case WriteDataMessage x e (sk_adapter s) (0b10000000 # data) of
       (e', ad', err) \<Rightarrow> Ret (e', s\<lparr>sk_adapter := ad'\<rparr>, err))"
proof -
  have "(word_of_nat 65535 :: u16) + 1 = 0" by (simp add: word_unat_eq_iff)
  then have "(word_of_nat (length data) :: u16) + 1 \<le> maxLen" unfolding assms by (simp only: word_zero_le)
  then show ?thesis using assms unfolding writePacketFragmented_def Let_def by simp
qed

theorem largest_packet_not_split_witness:
  "length (0b10000000 # replicate 65535 (0 :: u8)) = 65536 \<and>
   writePacketFragmented demo_ext [] example_socket (replicate 65535 0) 1184 =
    (case WriteDataMessage demo_ext [] (sk_adapter example_socket) (0b10000000 # replicate 65535 0) of
       (e', ad', err) \<Rightarrow> Ret (e', example_socket\<lparr>sk_adapter := ad'\<rparr>, err))"
  by (rule largest_packet_not_split) simp

end
