(* ===== verification/Packet_Handlers.thy ===== *)
theory Packet_Handlers
  imports Data_Path
begin

text \<open>
  What the two switches do with packets and sockets (\<^verbatim>\<open>server/ipswitch\<close>,
  \<^verbatim>\<open>server/macswitch\<close>), and the receiving end of
  \<^verbatim>\<open>shared/sockets/data_message.go\<close> that calls them: a packet from a client, or one
  read from the server's own interface (no socket), is checked against the address the client
  was given, sent to another client or to all, or left for the interface. Writing to a client can
  fail and close that client, so every operation acts on the whole world; a result is
  \<open>None\<close> when a write never returns.
\<close>

section \<open>Writing to clients\<close>

text \<open>\<^verbatim>\<open>_ = socket.WritePacket(data)\<close> over a list of sockets; errors are ignored.\<close>

fun write_all :: "('e, 'l) ext \<Rightarrow> sid list \<Rightarrow> bytes \<Rightarrow> ('e, 'l) world \<Rightarrow> ('e, 'l) world run" where
  "write_all x [] data w = run_return w"
| "write_all x (i # is) data w =
     run_bind (WritePacket x i data w) (\<lambda>(w', _). write_all x is data w')"

section \<open>The IP switch\<close>

definition ips_broadcastDataMessage ::
  "('e, 'l) ext \<Rightarrow> IPSwitch \<Rightarrow> bytes \<Rightarrow> sid option \<Rightarrow> ('e, 'l) world \<Rightarrow> ('e, 'l) world run" where
  "ips_broadcastDataMessage x g data skip w = write_all x (ips_targetList g skip) data w"

definition ips_minLen :: "u8 \<Rightarrow> nat" where
  "ips_minLen version = (if version = 4 then 20 else if version = 6 then 40 else 0)"

definition ips_HandlePacket :: "('e, 'l) ext \<Rightarrow> IPSwitch \<Rightarrow> sid option \<Rightarrow> bytes \<Rightarrow> ('e, 'l) world
    \<Rightarrow> (('e, 'l) world \<times> bool) run" where
  "ips_HandlePacket x g so packet w =
     (if length packet < 1 then run_return (w, True)
      else
        let expectedMinLen = ips_minLen (IPVersion x packet) in
        if expectedMinLen < 1 \<or> length packet < expectedMinLen then run_return (w, True)
        else (case (IPSource x packet, IPDestination x packet) of
          (Some srcIP, Some destIP) \<Rightarrow>
            if (case so of Some i \<Rightarrow> \<not> ip_Equal srcIP (sk_AssignedIP (w_sock w i)) | None \<Rightarrow> False)
            then run_return (w, True)
            else if so = None \<or> ips_AllowClientToClient g then
              (if IsGlobalUnicast destIP then
                 (case findSocketByIP g destIP of
                    Some socketDest \<Rightarrow>
                      run_bind (WritePacket x socketDest packet w) (\<lambda>(w', _). run_return (w', True))
                  | None \<Rightarrow> run_return (w, False))
               else run_bind (ips_broadcastDataMessage x g packet so w) (\<lambda>w'. run_return (w', True)))
            else run_return (w, False)
        | _ \<Rightarrow> run_return (w, True)))"

definition ips_RegisterSocket :: "('e, 'l) ext \<Rightarrow> IPSwitch \<Rightarrow> sid \<Rightarrow> ('e, 'l) world \<Rightarrow> ('e, 'l) world" where
  "ips_RegisterSocket x g i w =
     (case ips_insert g (sk_AssignedIP (w_sock w i)) i of (g', old) \<Rightarrow>
        let w1 = w\<lparr>w_handler := Some (IPH g')\<rparr> in
        case old of
          Some oldSocket \<Rightarrow> CloseError x oldSocket (GoErr ''IP conflict'') w1
        | None \<Rightarrow> w1)"

section \<open>The MAC switch\<close>

definition macs_broadcastDataMessage ::
  "('e, 'l) ext \<Rightarrow> 'l MACSwitch \<Rightarrow> bytes \<Rightarrow> sid option \<Rightarrow> ('e, 'l) world \<Rightarrow> ('e, 'l) world run" where
  "macs_broadcastDataMessage x g data skip w = write_all x (macs_targetList g skip) data w"

definition set_macs :: "'l MACSwitch \<Rightarrow> ('e, 'l) world \<Rightarrow> ('e, 'l) world" where
  "set_macs g w = w\<lparr>w_handler := Some (MACH g)\<rparr>"

definition setMACFrom :: "('e, 'l) ext \<Rightarrow> gotime \<Rightarrow> 'l MACSwitch \<Rightarrow> sid \<Rightarrow> bytes \<Rightarrow> ('e, 'l) world
    \<Rightarrow> ('e, 'l) world \<times> bool" where
  "setMACFrom x now g i msg w =
     (let srcMAC = MACSource x msg in
      if \<not> IsMACUnicast x srcMAC then (w, False)
      else
        let srcMACAddr = hwAddrToMAC srcMAC in
        (case socketMACs g i of
           None \<Rightarrow> (w, False)
         | Some c \<Rightarrow>
             if lru_Contains x c srcMACAddr
             then (set_macs (upd_cache i (lru_Add x c srcMACAddr now) g) w, True)
             else if \<not> macs_AllowMACChanging g \<and> lru_Len x c > 0 then (w, False)
             else if macTable g srcMACAddr \<noteq> None
             then (CloseError x i (GoErr ''MAC collision'') w, False)
             else
               let g1 = g\<lparr>macTable := (macTable g)(srcMACAddr \<mapsto> i)\<rparr>
               in (set_macs (upd_cache i (lru_Add x c srcMACAddr now) g1) w, True)))"

definition EthernetLength :: nat where "EthernetLength = 14"

text \<open>The IP version and the least payload length that an ether type promises; 0 for none.\<close>

definition expected_ip :: "('e, 'l) ext \<Rightarrow> bytes \<Rightarrow> u8 \<times> nat" where
  "expected_ip x etherType =
     (if etherType = ethertype_IPv4 x then (4, 20)
      else if etherType = ethertype_IPv6 x then (6, 40) else (0, 0))"

text \<open>The address test for a frame of a client: true when the frame is to be dropped.\<close>

definition frame_spoofed :: "('e, 'l) ext \<Rightarrow> bytes \<Rightarrow> ip \<Rightarrow> bool" where
  "frame_spoofed x packet assignedIP =
     (case expected_ip x (MACEthertype x packet) of (expectedIPVersion, expectedMinLen) \<Rightarrow>
        if expectedIPVersion > 0 then
          if length packet < EthernetLength + expectedMinLen then True
          else if IPVersion x (drop EthernetLength packet) \<noteq> expectedIPVersion then True
          else \<not> ip_Equal (case IPSource x (drop EthernetLength packet) of Some srcIP \<Rightarrow> srcIP | None \<Rightarrow> [])
                   assignedIP
        else False)"

text \<open>The second half of \<^verbatim>\<open>HandlePacket\<close>, once the sender is accepted.\<close>

definition macs_forward :: "('e, 'l) ext \<Rightarrow> 'l MACSwitch \<Rightarrow> sid option \<Rightarrow> bytes \<Rightarrow> ('e, 'l) world
    \<Rightarrow> (('e, 'l) world \<times> bool) run" where
  "macs_forward x g so packet w =
     (if so = None \<or> macs_AllowClientToClient g then
        let destMAC = MACDestination x packet in
        if IsMACUnicast x destMAC then
          (case findSocketByMAC g destMAC of
             Some socketDest \<Rightarrow>
               run_bind (WritePacket x socketDest packet w) (\<lambda>(w', _). run_return (w', True))
           | None \<Rightarrow> run_return (w, False))
        else run_bind (macs_broadcastDataMessage x g packet so w) (\<lambda>w'. run_return (w', False))
      else run_return (w, False))"

text \<open>The MAC switch as it is after an operation on the world.\<close>

definition macs_of :: "'l MACSwitch \<Rightarrow> ('e, 'l) world \<Rightarrow> 'l MACSwitch" where
  "macs_of g w = (case w_handler w of Some (MACH g') \<Rightarrow> g' | _ \<Rightarrow> g)"

definition macs_HandlePacket :: "('e, 'l) ext \<Rightarrow> gotime \<Rightarrow> 'l MACSwitch \<Rightarrow> sid option \<Rightarrow> bytes
    \<Rightarrow> ('e, 'l) world \<Rightarrow> (('e, 'l) world \<times> bool) run" where
  "macs_HandlePacket x now g so packet w =
     (if length packet < EthernetLength then run_return (w, \<not> macs_AllowUnknownEtherTypes g)
      else
        let etherType = MACEthertype x packet in
        if \<not> macs_AllowUnknownEtherTypes g \<and> etherType \<noteq> ethertype_ARP x \<and>
           etherType \<noteq> ethertype_IPv4 x \<and> etherType \<noteq> ethertype_IPv6 x
        then run_return (w, True)
        else (case so of
          None \<Rightarrow> macs_forward x g None packet w
        | Some i \<Rightarrow>
            (case setMACFrom x now g i packet w of
               (w1, False) \<Rightarrow> run_return (w1, True)
             | (w1, True) \<Rightarrow>
                 if \<not> macs_AllowIPSpoofing g \<and> frame_spoofed x packet (sk_AssignedIP (w_sock w1 i))
                 then run_return (w1, True)
                 else macs_forward x (macs_of g w1) (Some i) packet w1)))"

definition macs_Register :: "('e, 'l) ext \<Rightarrow> 'l MACSwitch \<Rightarrow> sid \<Rightarrow> ('e, 'l) world \<Rightarrow> ('e, 'l) world" where
  "macs_Register x g i w =
     (case macs_RegisterSocket x g i of
        (g', None) \<Rightarrow> set_macs g' w
      | (g', Some err) \<Rightarrow> spawn (GoCloseError i err) (set_macs g' w))"

section \<open>The packet handler and its callers\<close>

definition HandlePacket :: "('e, 'l) ext \<Rightarrow> gotime \<Rightarrow> sid option \<Rightarrow> bytes \<Rightarrow> ('e, 'l) world
    \<Rightarrow> (('e, 'l) world \<times> bool) run" where
  "HandlePacket x now so packet w = (case w_handler w of
     None \<Rightarrow> run_return (w, False)
   | Some (IPH g) \<Rightarrow> ips_HandlePacket x g so packet w
   | Some (MACH g) \<Rightarrow> macs_HandlePacket x now g so packet w)"

definition RegisterSocket :: "('e, 'l) ext \<Rightarrow> sid \<Rightarrow> ('e, 'l) world \<Rightarrow> ('e, 'l) world" where
  "RegisterSocket x i w = (case w_handler w of
     None \<Rightarrow> w
   | Some (IPH g) \<Rightarrow> ips_RegisterSocket x g i w
   | Some (MACH g) \<Rightarrow> macs_Register x g i w)"

text \<open>Writing to the interface: the error becomes the result false.\<close>

definition iface_write :: "('e, 'l) ext \<Rightarrow> ifid option \<Rightarrow> bytes \<Rightarrow> ('e, 'l) world \<Rightarrow> ('e, 'l) world \<times> bool" where
  "iface_write x ifc packet w = (case ifc of
     None \<Rightarrow> (w, True)
   | Some dev \<Rightarrow> (case if_Write x (w_env w) dev packet of
       (e', err) \<Rightarrow> (w\<lparr>w_env := e'\<rparr>, err = None)))"

definition processPacket :: "('e, 'l) ext \<Rightarrow> gotime \<Rightarrow> sid \<Rightarrow> bytes \<Rightarrow> ('e, 'l) world
    \<Rightarrow> (('e, 'l) world \<times> bool) run" where
  "processPacket x now i packet w =
     (if length packet < 1 then run_return (w, False)
      else run_bind
        (if sk_hasPacketHandler (w_sock w i) then HandlePacket x now (Some i) packet w
         else run_return (w, False))
        (\<lambda>(w1, res). if res then run_return (w1, True)
           else run_return (iface_write x (sk_iface (w_sock w1 i)) packet w1)))"

definition dataMessageHandler :: "('e, 'l) ext \<Rightarrow> gotime \<Rightarrow> sid \<Rightarrow> bytes \<Rightarrow> ('e, 'l) world
    \<Rightarrow> (('e, 'l) world \<times> bool) run" where
  "dataMessageHandler x now i message w =
     (case data_message now (w_sock w i) message of
        (s', ReturnTrue) \<Rightarrow> run_return (upd_sock i (\<lambda>_. s') w, True)
      | (s', ReturnFalse) \<Rightarrow> run_return (upd_sock i (\<lambda>_. s') w, False)
      | (s', ProcessPacket packet) \<Rightarrow> processPacket x now i packet (upd_sock i (\<lambda>_. s') w))"

section \<open>What is unchanged\<close>

lemma set_macs_simps [simp]:
  "w_env (set_macs g w) = w_env w" "w_sock (set_macs g w) = w_sock w"
  "w_spawned (set_macs g w) = w_spawned w" "w_events (set_macs g w) = w_events w"
  "w_handler (set_macs g w) = Some (MACH g)"
  by (simp_all add: set_macs_def)

lemma macs_of_set [simp]: "macs_of g (set_macs g' w) = g'"
  by (simp add: macs_of_def)

lemma iface_write_simps [simp]:
  "w_sock (fst (iface_write x d p w)) = w_sock w"
  "w_handler (fst (iface_write x d p w)) = w_handler w"
  "w_spawned (fst (iface_write x d p w)) = w_spawned w"
  "w_events (fst (iface_write x d p w)) = w_events w"
  by (simp_all add: iface_write_def split: option.splits prod.splits)

end
