(* ===== verification/Mac_Table.thy ===== *)
theory Mac_Table
  imports Packet_Handlers
begin

text \<open>
  The invariant of the MAC switch (\<^verbatim>\<open>server/macswitch\<close>): the address table holds
  exactly the addresses in the per-client caches, so an address belongs to one client at most.
  Every lemma is proved once in the cache contract \<open>lru_cache\<close>. The contract
  \<open>packet_handler\<close> is what a closing socket relies on when it leaves its switch; both
  switches provide it.
\<close>

section \<open>The contract of a packet handler towards a closing socket\<close>

text \<open>
  \<open>inv addr g\<close> is the handler's invariant, given the addresses assigned to the sockets;
  \<open>owner g k\<close> is the socket that packets for \<open>k\<close> go to. \<^verbatim>\<open>UnregisterSocket\<close>
  promises that the socket owns nothing afterwards and that nobody else is affected.
\<close>

locale packet_handler =
  fixes inv :: "(sid \<Rightarrow> ip) \<Rightarrow> 'g \<Rightarrow> bool"
    and unregister :: "(sid \<Rightarrow> ip) \<Rightarrow> sid \<Rightarrow> 'g \<Rightarrow> 'g"
    and owner :: "'g \<Rightarrow> 'k \<Rightarrow> sid option"
  assumes unregister_inv: "inv addr g \<Longrightarrow> inv addr (unregister addr i g)"
    and unregister_owner: "inv addr g \<Longrightarrow>
      owner (unregister addr i g) k = (if owner g k = Some i then None else owner g k)"
begin

lemma unregister_gone: "inv addr g \<Longrightarrow> owner (unregister addr i g) k \<noteq> Some i"
  by (simp add: unregister_owner)

lemma unregister_twice:
  "inv addr g \<Longrightarrow> owner (unregister addr i (unregister addr i g)) k = owner (unregister addr i g) k"
  by (simp add: unregister_owner unregister_inv)

lemma unregister_many:
  "inv addr g \<Longrightarrow> inv addr (fold (unregister addr) is g) \<and>
   owner (fold (unregister addr) is g) k =
     (if owner g k \<in> Some ` set is then None else owner g k)"
proof (induction "is" arbitrary: g)
  case (Cons i "is")
  then show ?case
    using Cons.IH [OF unregister_inv [OF Cons.prems, of i]] Cons.prems
    by (auto simp: unregister_owner)
qed simp

end

section \<open>The IP switch provides it\<close>

text \<open>A table entry is keyed with the address its socket was given.\<close>

definition ips_inv :: "(sid \<Rightarrow> ip) \<Rightarrow> IPSwitch \<Rightarrow> bool" where
  "ips_inv addr g \<longleftrightarrow> distinct (keys (ipTable g)) \<and>
     (\<forall>k i. map_of (ipTable g) k = Some i \<longrightarrow> k = ipToIPAddr (addr i))"

lemma ips_inv_insert:
  "ips_inv addr g \<Longrightarrow> ips_inv addr (fst (ips_insert g (addr i) i))"
  by (simp add: ips_inv_def ips_insert_def Let_def)

lemma ips_inv_unregister: "ips_inv addr g \<Longrightarrow> ips_inv addr (ips_UnregisterSocket g a i)"
  by (simp add: ips_inv_def ips_UnregisterSocket_def Let_def)

lemma ips_unregister_owner:
  "ips_inv addr g \<Longrightarrow> map_of (ipTable (ips_UnregisterSocket g (addr i) i)) k =
     (if map_of (ipTable g) k = Some i then None else map_of (ipTable g) k)"
proof (cases "map_of (ipTable g) k = Some i")
  case True
  assume "ips_inv addr g"
  then have "k = ipToIPAddr (addr i)" using True unfolding ips_inv_def by blast
  then show ?thesis using True by (simp add: ips_UnregisterSocket_def Let_def)
qed (auto simp: ips_UnregisterSocket_def Let_def)

interpretation ips: packet_handler ips_inv "\<lambda>addr i g. ips_UnregisterSocket g (addr i) i"
  "\<lambda>g. map_of (ipTable g)"
  by unfold_locales (auto simp: ips_inv_unregister ips_unregister_owner)

section \<open>The MAC table invariant\<close>

definition owns :: "('l \<Rightarrow> (macAddr \<times> gotime) list) \<Rightarrow> 'l MACSwitch \<Rightarrow> sid \<Rightarrow> macAddr \<Rightarrow> bool" where
  "owns entries g i m \<longleftrightarrow> (\<exists>c. socketMACs g i = Some c \<and> m \<in> fst ` set (entries c))"

definition macs_ok :: "('l \<Rightarrow> bool) \<Rightarrow> ('l \<Rightarrow> (macAddr \<times> gotime) list) \<Rightarrow> 'l MACSwitch \<Rightarrow> bool" where
  "macs_ok ok entries g \<longleftrightarrow> distinct (keys (socketTable g)) \<and>
     (\<forall>i c. socketMACs g i = Some c \<longrightarrow> ok c) \<and>
     (\<forall>m i. macTable g m = Some i \<longleftrightarrow> owns entries g i m)"

lemma macs_ok_make: "macs_ok ok entries MakeMACSwitch"
  by (simp add: macs_ok_def MakeMACSwitch_def owns_def socketMACs_def)

lemma macs_okD:
  assumes "macs_ok ok entries g"
  shows "distinct (keys (socketTable g))" "socketMACs g i = Some c \<Longrightarrow> ok c"
    "macTable g m = Some i \<longleftrightarrow> owns entries g i m"
  using assms by (auto simp: macs_ok_def)

lemma socketMACs_map_of: "map_of (socketTable g) i = Some (Some c) \<longleftrightarrow> socketMACs g i = Some c"
  by (auto simp: socketMACs_def split: option.splits)

text \<open>
  The address table while a cache is being changed: it still has the keys that are about to be
  evicted.
\<close>

lemma upd_cache_ok:
  assumes g: "macs_ok ok entries g" and c: "ok (fst r)"
    and mt: "\<And>m j. mt m = Some j \<longleftrightarrow>
      (if j = i then m \<in> fst ` set (entries (fst r)) \<union> set (snd r) else owns entries g j m)"
    and disj: "fst ` set (entries (fst r)) \<inter> set (snd r) = {}"
  shows "macs_ok ok entries (upd_cache i r (g\<lparr>macTable := mt\<rparr>))"
proof -
  let ?g = "upd_cache i r (g\<lparr>macTable := mt\<rparr>)"
  have sm: "socketMACs ?g j = (if j = i then Some (fst r) else socketMACs g j)" for j
    by (simp add: table_simps) (simp add: socketMACs_def)
  have ow: "owns entries ?g j m \<longleftrightarrow> (if j = i then m \<in> fst ` set (entries (fst r)) else owns entries g j m)" for j m
    by (auto simp: owns_def sm)
  have "macTable ?g m = Some j \<longleftrightarrow> owns entries ?g j m" for m j
  proof (cases "m \<in> set (snd r)")
    case True
    then have "mt m = Some i" using mt [of m i] by simp
    then have "\<not> owns entries g j m" if "j \<noteq> i" using mt [of m j] that by simp
    then show ?thesis using True disj by (auto simp: table_simps ow)
  qed (simp add: table_simps ow mt)
  moreover have "ok c'" if "socketMACs ?g j = Some c'" for j c'
    using that c macs_okD(2) [OF g] by (auto simp: sm split: if_splits)
  ultimately show ?thesis
    using macs_okD(1) [OF g] by (simp add: macs_ok_def) (simp add: table_simps)
qed

lemma upd_cache_same:
  assumes g: "macs_ok ok entries g" and c: "socketMACs g i = Some c" "ok (fst r)"
    and ks: "fst ` set (entries c) = fst ` set (entries (fst r)) \<union> set (snd r)"
    and disj: "fst ` set (entries (fst r)) \<inter> set (snd r) = {}"
  shows "macs_ok ok entries (upd_cache i r g)"
proof -
  have "macTable g m = Some j \<longleftrightarrow>
      (if j = i then m \<in> fst ` set (entries (fst r)) \<union> set (snd r) else owns entries g j m)" for m j
    using macs_okD(3) [OF g] c(1) ks by (auto simp: owns_def)
  from upd_cache_ok [OF g c(2) this disj] show ?thesis by simp
qed

section \<open>Every operation keeps it\<close>

context lru_cache
begin

lemma register_ok:
  assumes "macs_ok ok entries g" and "map_of (socketTable g) i = None"
  shows "macs_ok ok entries (fst (macs_RegisterSocket x g i))"
proof (cases "lru_NewWithEvict x (macs_AllowedMACsPerConnection g)")
  case (Inl err)
  then show ?thesis
    using assms by (auto simp: macs_RegisterSocket_def macs_ok_def owns_def socketMACs_def split: if_splits)
next
  case (Inr c)
  then have "ok c" "entries c = []" using new_entries by auto
  then show ?thesis
    using Inr assms by (auto simp: macs_RegisterSocket_def macs_ok_def owns_def socketMACs_def split: if_splits)
qed

lemma unregister_table:
  assumes g: "macs_ok ok entries g"
  shows "macTable (macs_UnregisterSocket x g i) m = (if macTable g m = Some i then None else macTable g m)"
proof (cases "socketMACs g i")
  case None
  then show ?thesis
    using macs_okD(3) [OF g, of m i] by (simp add: macs_UnregisterSocket_cases owns_def)
next
  case (Some c)
  then have "ok c" using macs_okD(2) [OF g] by simp
  then have "set (lru_Keys x c) \<union> set (snd (lru_Purge x c)) = fst ` set (entries c)"
    using keys_entries [of c] purge_entries [of c "fst (lru_Purge x c)" "snd (lru_Purge x c)"] by auto
  moreover have "m \<in> fst ` set (entries c) \<longleftrightarrow> macTable g m = Some i"
    using macs_okD(3) [OF g] Some by (simp add: owns_def)
  ultimately show ?thesis using Some by (simp add: macs_UnregisterSocket_cases)
qed

lemma unregister_socketMACs:
  "macs_ok ok entries g \<Longrightarrow>
   socketMACs (macs_UnregisterSocket x g i) j = (if j = i then None else socketMACs g j)"
  by (cases "socketMACs g i") (auto simp: macs_UnregisterSocket_cases socketMACs_def split: option.splits)

lemma unregister_ok:
  assumes g: "macs_ok ok entries g"
  shows "macs_ok ok entries (macs_UnregisterSocket x g i)"
proof -
  have "distinct (keys (socketTable (macs_UnregisterSocket x g i)))"
    using macs_okD(1) [OF g] by (simp add: macs_UnregisterSocket_cases split: option.splits)
  moreover have "owns entries (macs_UnregisterSocket x g i) j m \<longleftrightarrow> j \<noteq> i \<and> macTable g m = Some j" for j m
    using macs_okD(3) [OF g] by (auto simp: owns_def unregister_socketMACs [OF g])
  ultimately show ?thesis
    using macs_okD(2) [OF g] unregister_table [OF g] unregister_socketMACs [OF g]
    by (auto simp: macs_ok_def split: if_splits)
qed

sublocale macs: packet_handler "\<lambda>_. macs_ok ok entries" "\<lambda>_ i g. macs_UnregisterSocket x g i" macTable
  by unfold_locales (simp_all add: unregister_ok unregister_table)

lemma add_keys:
  assumes "ok c" and "lru_Add x c k t = (c', ev)"
  shows "ok c'" "cap c' = cap c" "insert k (fst ` set (entries c)) = fst ` set (entries c') \<union> set ev"
    "fst ` set (entries c') \<inter> set ev = {}" "k \<in> fst ` set (entries c')"
proof -
  let ?es = "lru_put k t (entries c)"
  note add = add_entries [OF assms]
  show "ok c'" "cap c' = cap c" using add by auto
  have es: "fst ` set ?es = insert k (fst ` set (entries c))" by (auto simp: lru_put_def)
  have d: "distinct (map fst ?es)" using ok_distinct [OF assms(1)] by (rule distinct_lru_put)
  obtain p ps where ps: "?es = p # ps" by (cases ?es) (auto simp: lru_put_def)
  have last: "k \<in> fst ` set ps" if "\<not> length ?es \<le> cap c"
  proof -
    have "ps \<noteq> []" using that ok_cap [OF assms(1)] ps by (cases ps) auto
    then have "last ?es = last ps" using ps by simp
    then have "(k, t) \<in> set ps" using \<open>ps \<noteq> []\<close> by (metis last_in_set last_snoc lru_put_def)
    then show ?thesis by force
  qed
  show "insert k (fst ` set (entries c)) = fst ` set (entries c') \<union> set ev"
    "fst ` set (entries c') \<inter> set ev = {}" "k \<in> fst ` set (entries c')"
    using add es d last ps by (auto split: if_splits)
qed

lemma add_known_keys:
  assumes "ok c" and "k \<in> fst ` set (entries c)" and "lru_Add x c k t = (c', ev)"
  shows "fst ` set (entries c') = fst ` set (entries c)" "ev = []"
proof -
  have "length (filter (\<lambda>p. fst p \<noteq> k) (entries c)) < length (entries c)"
    using assms(2) by (auto intro: length_filter_less)
  then have "length (lru_put k t (entries c)) \<le> cap c"
    using ok_cap [OF assms(1)] by (simp add: lru_put_def)
  then show "ev = []" using add_entries [OF assms(1,3)] by simp
  then show "fst ` set (entries c') = fst ` set (entries c)"
    using add_keys(3) [OF assms(1,3)] assms(2) by (simp add: insert_absorb)
qed

lemma refresh_ok:
  assumes "macs_ok ok entries g" and "socketMACs g i = Some c" and "k \<in> fst ` set (entries c)"
  shows "macs_ok ok entries (upd_cache i (lru_Add x c k t) g)"
proof (rule upd_cache_same [OF assms(1,2)])
  have c: "ok c" by (rule macs_okD(2) [OF assms(1,2)])
  obtain c' ev where r: "lru_Add x c k t = (c', ev)" by (cases "lru_Add x c k t")
  show "ok (fst (lru_Add x c k t))" using add_keys(1) [OF c r] r by simp
  show "fst ` set (entries c) = fst ` set (entries (fst (lru_Add x c k t))) \<union> set (snd (lru_Add x c k t))"
    "fst ` set (entries (fst (lru_Add x c k t))) \<inter> set (snd (lru_Add x c k t)) = {}"
    using add_known_keys [OF c assms(3) r] r by auto
qed

lemma learn_ok:
  assumes g: "macs_ok ok entries g" and i: "socketMACs g i = Some c" and free: "macTable g k = None"
  shows "macs_ok ok entries (upd_cache i (lru_Add x c k t) (g\<lparr>macTable := (macTable g)(k \<mapsto> i)\<rparr>))"
proof (rule upd_cache_ok [OF g])
  have c: "ok c" by (rule macs_okD(2) [OF g i])
  obtain c' ev where r: "lru_Add x c k t = (c', ev)" by (cases "lru_Add x c k t")
  note ks = add_keys [OF c r]
  show "ok (fst (lru_Add x c k t))"
    "fst ` set (entries (fst (lru_Add x c k t))) \<inter> set (snd (lru_Add x c k t)) = {}"
    using ks r by auto
  show "((macTable g)(k \<mapsto> i)) m = Some j \<longleftrightarrow> (if j = i
      then m \<in> fst ` set (entries (fst (lru_Add x c k t))) \<union> set (snd (lru_Add x c k t))
      else owns entries g j m)" for m j
  proof -
    have "\<not> owns entries g j k" using macs_okD(3) [OF g] free by (metis option.distinct(1))
    moreover have "owns entries g i m \<longleftrightarrow> m \<in> fst ` set (entries c)" using i by (simp add: owns_def)
    ultimately show ?thesis
      using macs_okD(3) [OF g] by (auto simp: r ks(3) [symmetric])
  qed
qed

lemma shrink_ok:
  assumes "macs_ok ok entries g" and "socketMACs g i = Some c" and "r = (c', ev)" and "ok c'"
    and "fst ` set (entries c) = fst ` set (entries c') \<union> set ev"
    and "fst ` set (entries c') \<inter> set ev = {}"
  shows "macs_ok ok entries (upd_cache i r g)"
  using assms by (intro upd_cache_same) simp_all

lemma remove_ok:
  assumes g: "macs_ok ok entries g" and i: "socketMACs g i = Some c"
  shows "macs_ok ok entries (upd_cache i (lru_Remove x c k) g)"
proof -
  have c: "ok c" by (rule macs_okD(2) [OF g i])
  obtain c' ev where r: "lru_Remove x c k = (c', ev)" by (cases "lru_Remove x c k")
  from remove_entries [OF c r] show ?thesis
    by (intro shrink_ok [OF g i r]) auto
qed

lemma resize_ok:
  assumes g: "macs_ok ok entries g" and i: "socketMACs g i = Some c" and n: "0 < n"
  shows "macs_ok ok entries (upd_cache i (lru_Resize x c n) g)"
proof -
  have c: "ok c" by (rule macs_okD(2) [OF g i])
  obtain c' ev where r: "lru_Resize x c n = (c', ev)" by (cases "lru_Resize x c n")
  let ?d = "length (entries c) - nat n"
  have "set (map fst (take ?d (entries c))) \<union> set (map fst (drop ?d (entries c))) = fst ` set (entries c)"
    by (metis append_take_drop_id list.set_map map_append set_append)
  moreover have "set (map fst (take ?d (entries c))) \<inter> set (map fst (drop ?d (entries c))) = {}"
    using ok_distinct [OF c] by (metis append_take_drop_id distinct_append map_append)
  ultimately show ?thesis
    using resize_entries [OF c n r] by (intro shrink_ok [OF g i r]) auto
qed

lemma resize_tables_spec:
  assumes "macs_ok ok entries g" and "distinct (keys tables)"
    and "\<And>i co. (i, co) \<in> set tables \<Longrightarrow> co \<noteq> None \<and> socketMACs g i = co"
    and "macs_AllowedMACsPerConnection g = n" and "0 < n"
  shows "\<exists>g'. resize_tables x tables g = Ret g' \<and> macs_ok ok entries g' \<and>
    macs_AllowedMACsPerConnection g' = n \<and>
    (\<forall>j. socketMACs g' j = (if j \<in> fst ` set tables
       then map_option (\<lambda>c. fst (lru_Resize x c n)) (socketMACs g j) else socketMACs g j))"
  using assms
proof (induction tables arbitrary: g)
  case (Cons t tables)
  obtain i c where t: "t = (i, Some c)" and i: "socketMACs g i = Some c"
    using Cons.prems(3) [of "fst t" "snd t"] by (cases t) auto
  let ?g = "upd_cache i (lru_Resize x c n) g"
  have fresh: "i \<notin> fst ` set tables" using Cons.prems(2) by (auto simp: t keys_def)
  have "\<exists>g'. resize_tables x tables ?g = Ret g' \<and> macs_ok ok entries g' \<and>
    macs_AllowedMACsPerConnection g' = n \<and>
    (\<forall>j. socketMACs g' j = (if j \<in> fst ` set tables
       then map_option (\<lambda>c. fst (lru_Resize x c n)) (socketMACs ?g j) else socketMACs ?g j))"
  proof (rule Cons.IH)
    show "macs_ok ok entries ?g" using Cons.prems(1) i Cons.prems(5) by (rule resize_ok)
    show "distinct (keys tables)" using Cons.prems(2) by (simp add: t)
    show "co \<noteq> None \<and> socketMACs ?g j = co" if jco: "(j, co) \<in> set tables" for j co
      using Cons.prems(3) [of j co] jco fresh by (auto simp: table_simps image_iff)
  qed (use Cons.prems in \<open>simp_all add: table_simps\<close>)
  then obtain g' where g': "resize_tables x tables ?g = Ret g'" "macs_ok ok entries g'"
    "macs_AllowedMACsPerConnection g' = n"
    "\<And>j. socketMACs g' j = (if j \<in> fst ` set tables
       then map_option (\<lambda>c. fst (lru_Resize x c n)) (socketMACs ?g j) else socketMACs ?g j)"
    by blast
  have "socketMACs g' j = (if j \<in> fst ` set (t # tables)
      then map_option (\<lambda>c. fst (lru_Resize x c n)) (socketMACs g j) else socketMACs g j)" for j
    using fresh i by (auto simp: g'(4) t table_simps)
  then show ?case using g'(1-3) Cons.prems(4) by (intro exI [of _ g']) (simp add: t)
qed simp

lemma cleanupMACs_spec:
  assumes "macs_ok ok entries g" and "socketMACs g i = Some c"
  shows "\<exists>g' c'. cleanupMACs x now i c g = Some g' \<and> macs_ok ok entries g' \<and>
    macs_MACTableTimeout g' = macs_MACTableTimeout g \<and>
    (\<forall>j. socketMACs g' j = (if j = i then Some c' else socketMACs g j)) \<and>
    entries c' = dropWhile (\<lambda>p. now - snd p > macs_MACTableTimeout g) (entries c)"
  using assms
proof (induction "length (entries c)" arbitrary: c g)
  case (0 c g)
  have "lru_GetOldest x c = None" using oldest_entries [OF macs_okD(2) [OF 0(2,3)]] 0(1) by simp
  then show ?case using 0 by (intro exI [of _ g] exI [of _ c]) (simp add: cleanupMACs.simps)
next
  case (Suc n c g)
  have c: "ok c" by (rule macs_okD(2) [OF Suc.prems])
  obtain p ps where ps: "entries c = p # ps" using Suc.hyps(2) by (cases "entries c") auto
  have oldest: "lru_GetOldest x c = Some p" using oldest_entries [OF c] ps by simp
  show ?case
  proof (cases "now - snd p \<le> macs_MACTableTimeout g")
    case True
    then show ?thesis using Suc.prems oldest ps
      by (intro exI [of _ g] exI [of _ c]) (simp add: cleanupMACs.simps)
  next
    case False
    obtain c1 ev where r: "lru_Remove x c (fst p) = (c1, ev)" by (cases "lru_Remove x c (fst p)")
    have e1: "entries c1 = ps"
    proof -
      have "fst p \<notin> fst ` set ps" using ok_distinct [OF c] ps by simp
      then have "filter (\<lambda>q. fst q \<noteq> fst p) ps = ps" by (intro filter_True) (metis image_eqI)
      then show ?thesis using remove_entries [OF c r] ps by simp
    qed
    let ?g = "upd_cache i (c1, ev) g"
    have "macs_ok ok entries ?g" using remove_ok [OF Suc.prems, of "fst p"] r by simp
    from Suc.hyps(1) [of c1, OF _ this] obtain g' c' where
      "cleanupMACs x now i c1 ?g = Some g'" "macs_ok ok entries g'"
      "macs_MACTableTimeout g' = macs_MACTableTimeout g"
      "\<And>j. socketMACs g' j = (if j = i then Some c' else socketMACs ?g j)"
      "entries c' = dropWhile (\<lambda>p. now - snd p > macs_MACTableTimeout g) ps"
      using Suc.hyps(2) ps e1 by (auto simp: table_simps)
    then show ?thesis using False oldest r ps
      by (intro exI [of _ g'] exI [of _ c'])
        (simp add: cleanupMACs.simps [of x now i c] table_simps)
  qed
qed

lemma cleanup_tables_spec:
  assumes "macs_ok ok entries g" and "distinct (keys tables)"
    and "\<And>i co. (i, co) \<in> set tables \<Longrightarrow> co \<noteq> None \<and> socketMACs g i = co"
    and "macs_MACTableTimeout g = T"
  shows "\<exists>g'. cleanup_tables x now tables g = Some (Ret g') \<and> macs_ok ok entries g' \<and>
    (\<forall>j. j \<notin> fst ` set tables \<longrightarrow> socketMACs g' j = socketMACs g j) \<and>
    (\<forall>j c. (j, Some c) \<in> set tables \<longrightarrow> (\<exists>c'. socketMACs g' j = Some c' \<and>
       entries c' = dropWhile (\<lambda>p. now - snd p > T) (entries c)))"
  using assms
proof (induction tables arbitrary: g)
  case (Cons t tables)
  obtain i c where t: "t = (i, Some c)" and i: "socketMACs g i = Some c"
    using Cons.prems(3) [of "fst t" "snd t"] by (cases t) auto
  have fresh: "i \<notin> fst ` set tables" using Cons.prems(2) by (auto simp: t keys_def)
  obtain g1 c1 where g1: "cleanupMACs x now i c g = Some g1" "macs_ok ok entries g1"
    "macs_MACTableTimeout g1 = T" "\<And>j. socketMACs g1 j = (if j = i then Some c1 else socketMACs g j)"
    "entries c1 = dropWhile (\<lambda>p. now - snd p > T) (entries c)"
    using cleanupMACs_spec [OF Cons.prems(1) i, of now] Cons.prems(4) by auto
  have "co \<noteq> None \<and> socketMACs g1 j = co" if jco: "(j, co) \<in> set tables" for j co
    using Cons.prems(3) [of j co] jco fresh g1(4) by (auto simp: image_iff)
  then obtain g' where "cleanup_tables x now tables g1 = Some (Ret g')" "macs_ok ok entries g'"
    and same: "\<And>j. j \<notin> fst ` set tables \<Longrightarrow> socketMACs g' j = socketMACs g1 j"
    and new: "\<And>j c. (j, Some c) \<in> set tables \<Longrightarrow> \<exists>c'. socketMACs g' j = Some c' \<and>
       entries c' = dropWhile (\<lambda>p. now - snd p > T) (entries c)"
    using Cons.IH [OF g1(2) _ _ g1(3)] Cons.prems(2) by (auto simp: t)
  moreover have "\<exists>c'. socketMACs g' j = Some c' \<and>
      entries c' = dropWhile (\<lambda>p. now - snd p > T) (entries c2)"
    if "(j, Some c2) \<in> set (t # tables)" for j c2
    using that new same [OF fresh] g1(4,5) by (auto simp: t)
  moreover have "socketMACs g' j = socketMACs g j" if "j \<notin> fst ` set (t # tables)" for j
    using that same [of j] g1(4) by (auto simp: t)
  ultimately show ?case using g1(1) by (intro exI [of _ g']) (simp add: t)
qed simp

end

text \<open>No client has the nil cache that a failed registration leaves behind.\<close>

definition no_nil :: "'l MACSwitch \<Rightarrow> bool" where
  "no_nil g \<longleftrightarrow> None \<notin> snd ` set (socketTable g)"

lemma no_nil_tables:
  assumes "distinct (keys (socketTable g))" and "no_nil g" and "(i, co) \<in> set (socketTable g)"
  shows "co \<noteq> None \<and> socketMACs g i = co"
proof -
  have "map_of (socketTable g) i = Some co" using assms(1,3) by (simp add: keys_def)
  moreover have "co \<noteq> None" using assms(2,3) by (force simp: no_nil_def)
  ultimately show ?thesis by (auto simp: socketMACs_def)
qed

end
