(* ===== verification/Server_Steps.thy ===== *)
theory Server_Steps
  imports Mac_Table
begin

text \<open>
  The server as a transition system: clients connect, send data messages, are closed; packets
  come in from the server's interface; the configuration is reloaded; the clean-up timer fires.
  Each transition is one of the operations of the model, so the system shows every order in
  which they can follow each other. The invariant of the switches holds in every reachable
  state.
\<close>

section \<open>Frames: what sending leaves alone\<close>

definition addr_of :: "('e, 'l) world \<Rightarrow> sid \<Rightarrow> ip" where
  "addr_of w i = sk_AssignedIP (w_sock w i)"

lemma writePacketFragmented_frame:
  assumes "writePacketFragmented x e s data l = Ret (e', s', err)"
  shows "\<exists>c ad. s' = s\<lparr>sk_lastFragmentID := c, sk_adapter := ad\<rparr>"
proof -
  have "s' = s\<lparr>sk_lastFragmentID := sk_lastFragmentID s', sk_adapter := sk_adapter s'\<rparr>"
    using assms unfolding writePacketFragmented_def Let_def
    by (auto split: if_splits go.splits prod.splits)
  then show ?thesis by blast
qed

definition only_sent :: "socket \<Rightarrow> ('e \<times> socket \<times> go_error option) go \<Rightarrow> bool" where
  "only_sent s r \<longleftrightarrow> (\<forall>e' s' err. r = Ret (e', s', err) \<longrightarrow>
     (\<exists>c ad. s' = s\<lparr>sk_lastFragmentID := c, sk_adapter := ad\<rparr>))"

lemma resendLoop_frame:
  assumes "resendLoop x data e s = Some r"
  shows "only_sent s r"
proof -
  have step: "only_sent s r"
    if IH: "\<And>x data e s r. rec x data e s = Some r \<Longrightarrow> only_sent s r"
      and eq: "(case writePacketFragmented x e s data (MaxDataPayloadLen (sk_adapter s)) of
          Panic \<Rightarrow> Some Panic
        | Ret r \<Rightarrow> if snd (snd r) = Some ErrDataPayloadLimitReduced
            then rec x data (fst r) (fst (snd r)) else Some (Ret r)) = Some r"
    for rec :: "('e, 'l) ext \<Rightarrow> bytes \<Rightarrow> 'e \<Rightarrow> socket \<Rightarrow> ('e \<times> socket \<times> go_error option) run"
      and x :: "('e, 'l) ext" and data and e :: 'e and s and r :: "('e \<times> socket \<times> go_error option) go"
  proof (cases "writePacketFragmented x e s data (MaxDataPayloadLen (sk_adapter s))")
    case (Ret r1)
    obtain e1 s1 err1 where r1: "r1 = (e1, s1, err1)" by (cases r1)
    from writePacketFragmented_frame [OF Ret [unfolded r1]]
    obtain c ad where s1: "s1 = s\<lparr>sk_lastFragmentID := c, sk_adapter := ad\<rparr>" by blast
    show ?thesis
    proof (cases "err1 = Some ErrDataPayloadLimitReduced")
      case True
      then have "only_sent s1 r" using eq Ret r1 IH by simp
      then show ?thesis by (fastforce simp: only_sent_def s1)
    next
      case False
      then show ?thesis using eq Ret r1 s1 by (auto simp: only_sent_def)
    qed
  next
    case Panic
    then show ?thesis using eq by (auto simp: only_sent_def)
  qed
  show ?thesis
  proof (rule resendLoop.raw_induct [of "\<lambda>_ _ _ s r. only_sent s r" "(((x, data), e), s)" r, simplified])
    show "resendLoop x data e s = Some r" by (rule assms)
  qed (rule step)
qed

text \<open>What writing a packet can do to the world: the fields that the switches depend on.\<close>

lemma WritePacket_frame:
  assumes "WritePacket x i data w = Some (Ret (w', err))"
  shows "addr_of w' = addr_of w"
    and "w_handler w' = w_handler w \<or> w_handler w' = unregistered x i w"
proof -
  have unr: "w_handler (UnregisterSocket x i (set_sock i e' s' w)) = w_handler (UnregisterSocket x i w)"
    if "sk_AssignedIP s' = sk_AssignedIP (w_sock w i)" for e' s'
    by (rule UnregisterSocket_cong) (simp_all add: set_sock_def that)
  have "addr_of w' = addr_of w \<and> (w_handler w' = w_handler w \<or> w_handler w' = unregistered x i w)"
  proof (cases "sk_fragmentationEnabled (w_sock w i) \<and> 0 < length data \<and> length data \<le> 65535")
    case True
    then show ?thesis
      using assms resendLoop_frame [of x data "w_env w" "w_sock w i"]
      by (fastforce simp: WritePacket_def Let_def run_return_def run_bind_eq_Ret only_sent_def set_sock_def
          addr_of_def split: if_splits)
  next
    case False
    then show ?thesis
      using assms
      by (auto simp: WritePacket_def Let_def run_return_def set_sock_def addr_of_def fun_eq_iff sock_simps
          unregistered_def unr [unfolded set_sock_def] split: if_splits prod.splits option.splits)
  qed
  then show "addr_of w' = addr_of w"
    and "w_handler w' = w_handler w \<or> w_handler w' = unregistered x i w" by auto
qed

lemma addr_of_simps [simp]:
  "addr_of (CloseError x i err w) = addr_of w"
  "addr_of (sock_close x i b w) = addr_of w"
  "addr_of (UnregisterSocket x i w) = addr_of w"
  "addr_of (set_macs g w) = addr_of w"
  "addr_of (spawn r w) = addr_of w"
  "addr_of (fst (iface_write x d p w)) = addr_of w"
  "addr_of (w\<lparr>w_handler := h\<rparr>) = addr_of w"
  by (simp_all add: addr_of_def fun_eq_iff sock_simps)

lemma data_message_addr: "sk_AssignedIP (fst (data_message now s msg)) = sk_AssignedIP s"
  by (auto simp: data_message_def split: prod.splits option.splits)

section \<open>Transitions\<close>

text \<open>
  A client that is not in the switch: what holds of a socket before \<^verbatim>\<open>Serve\<close>
  registers it.
\<close>

fun absent :: "sid \<Rightarrow> 'l PacketHandler \<Rightarrow> bool" where
  "absent i (IPH g) \<longleftrightarrow> i \<notin> snd ` set (ipTable g)"
| "absent i (MACH g) \<longleftrightarrow> map_of (socketTable g) i = None"

definition not_registered :: "sid \<Rightarrow> ('e, 'l) world \<Rightarrow> bool" where
  "not_registered i w \<longleftrightarrow> (\<forall>h. w_handler w = Some h \<longrightarrow> absent i h)"

text \<open>The switch fields that a configuration reload overwrites.\<close>

fun configure :: "bool \<Rightarrow> bool \<Rightarrow> bool \<Rightarrow> bool \<Rightarrow> int \<Rightarrow> gotime \<Rightarrow> 'l PacketHandler \<Rightarrow> 'l PacketHandler" where
  "configure c2c sp un chg n t (IPH g) = IPH (g\<lparr>ips_AllowClientToClient := c2c\<rparr>)"
| "configure c2c sp un chg n t (MACH g) = MACH (g\<lparr>macs_AllowClientToClient := c2c,
     macs_AllowIPSpoofing := sp, macs_AllowUnknownEtherTypes := un, macs_AllowMACChanging := chg,
     macs_AllowedMACsPerConnection := n, macs_MACTableTimeout := t\<rparr>)"

inductive server_step :: "('e, 'l) ext \<Rightarrow> ('e, 'l) world \<Rightarrow> ('e, 'l) world \<Rightarrow> bool" for x where
  connect: "not_registered i w \<Longrightarrow> server_step x w (upd_sock i (\<lambda>_. s) w)"
| serve: "not_registered i w \<Longrightarrow> server_step x w (RegisterSocket x i w)"
| receive_data: "dataMessageHandler x now i msg w = Some (Ret (w', b)) \<Longrightarrow> server_step x w w'"
| from_interface: "HandlePacket x now None packet w = Some (Ret (w', b)) \<Longrightarrow> server_step x w w'"
| send: "WritePacket x i data w = Some (Ret (w', err)) \<Longrightarrow> server_step x w w'"
| close: "server_step x w (Close x i w)"
| close_error: "server_step x w (CloseError x i err w)"
| reload: "w_handler w = Some h \<Longrightarrow> server_step x w (w\<lparr>w_handler := Some (configure c2c sp un chg n t h)\<rparr>)"
| config_update: "w_handler w = Some (MACH g) \<Longrightarrow> 0 < macs_AllowedMACsPerConnection g \<Longrightarrow>
    ConfigUpdate x g = Ret g' \<Longrightarrow> server_step x w (set_macs g' w)"
| clean_up: "w_handler w = Some (MACH g) \<Longrightarrow> cleanupAllMACs_ready g \<Longrightarrow>
    cleanupAllMACs_round x now g = Some (Ret g') \<Longrightarrow> server_step x w (set_macs g' w)"
| environment: "server_step x w (w\<lparr>w_env := e\<rparr>)"

inductive_cases server_stepE: "server_step x w w'"

definition started :: "('e, 'l) world \<Rightarrow> bool" where
  "started w \<longleftrightarrow> w_handler w = Some (IPH MakeIPSwitch) \<or> w_handler w = Some (MACH MakeMACSwitch)"

inductive reachable :: "('e, 'l) ext \<Rightarrow> ('e, 'l) world \<Rightarrow> bool" for x where
  start: "started w \<Longrightarrow> reachable x w"
| step: "reachable x w \<Longrightarrow> server_step x w w' \<Longrightarrow> reachable x w'"

section \<open>Invariants of the switches\<close>

text \<open>
  A property of a packet handler that its few elementary updates keep is kept by every
  transition of the server, whatever writes, closings and errors a transition consists of.
\<close>

locale switch_invariant =
  fixes x :: "('e, 'l) ext" and I :: "(sid \<Rightarrow> ip) \<Rightarrow> 'l PacketHandler \<Rightarrow> bool"
  assumes unregister_ips: "I a (IPH g) \<Longrightarrow> I a (IPH (ips_UnregisterSocket g (a i) i))"
    and unregister_macs: "I a (MACH m) \<Longrightarrow> I a (MACH (macs_UnregisterSocket x m i))"
    and insert_ips: "I a (IPH g) \<Longrightarrow> I a (IPH (fst (ips_insert g (a i) i)))"
    and register_macs: "I a (MACH m) \<Longrightarrow> map_of (socketTable m) i = None \<Longrightarrow>
      I a (MACH (fst (macs_RegisterSocket x m i)))"
    and refresh: "I a (MACH m) \<Longrightarrow> socketMACs m i = Some c \<Longrightarrow> lru_Contains x c k \<Longrightarrow>
      I a (MACH (upd_cache i (lru_Add x c k t) m))"
    and learn: "I a (MACH m) \<Longrightarrow> socketMACs m i = Some c \<Longrightarrow> macTable m k = None \<Longrightarrow>
      I a (MACH (upd_cache i (lru_Add x c k t) (m\<lparr>macTable := (macTable m)(k \<mapsto> i)\<rparr>)))"
    and connect_inv: "I a h \<Longrightarrow> absent i h \<Longrightarrow> I (a(i := addr)) h"
    and configure_inv: "I a h \<Longrightarrow> I a (configure c2c sp un chg n t h)"
    and update_inv: "I a (MACH m) \<Longrightarrow> 0 < macs_AllowedMACsPerConnection m \<Longrightarrow>
      ConfigUpdate x m = Ret m' \<Longrightarrow> I a (MACH m')"
    and cleanup_inv: "I a (MACH m) \<Longrightarrow> cleanupAllMACs_round x t m = Some (Ret m') \<Longrightarrow> I a (MACH m')"
begin

definition holds :: "('e, 'l) world \<Rightarrow> bool" where
  "holds w \<longleftrightarrow> (\<forall>h. w_handler w = Some h \<longrightarrow> I (addr_of w) h)"

lemma holds_cong:
  fixes w w' :: "('e, 'l) world"
  shows "w_handler w' = w_handler w \<Longrightarrow> addr_of w' = addr_of w \<Longrightarrow> holds w' = holds w"
  by (simp add: holds_def)

lemma unregister_switch_ok:
  assumes "holds w"
  shows "holds (UnregisterSocket x i w)"
proof (cases "w_handler w")
  case (Some h)
  then show ?thesis
    using assms unregister_ips [of "addr_of w" _ i] unregister_macs [of "addr_of w" _ i]
    by (cases h) (auto simp: holds_def UnregisterSocket_def addr_of_def)
qed (simp add: holds_def UnregisterSocket_def)

lemma unregistered_switch_ok:
  assumes "holds w" and "w_handler w' = unregistered x i w" and "addr_of w' = addr_of w"
  shows "holds w'"
proof (cases "sk_hasPacketHandler (w_sock w i)")
  case True
  then show ?thesis
    using assms holds_cong [of w' "UnregisterSocket x i w"] unregister_switch_ok
    by (simp add: unregistered_def)
next
  case False
  then show ?thesis using assms holds_cong [of w' w] by (simp add: unregistered_def)
qed

lemma CloseError_switch_ok: "holds w \<Longrightarrow> holds (CloseError x i err w)"
  by (rule unregistered_switch_ok) (simp_all add: sock_simps)

lemma Close_switch_ok: "holds w \<Longrightarrow> holds (Close x i w)"
  using unregistered_switch_ok [of w "sock_close x i True w" i] by (simp add: Close_def sock_simps)

lemma WritePacket_switch_ok:
  assumes "holds w" and "WritePacket x i data w = Some (Ret (w', err))"
  shows "holds w'"
  using WritePacket_frame [OF assms(2)] assms(1) holds_cong [of w' w] unregistered_switch_ok [of w w' i]
  by auto

lemma write_all_switch_ok:
  "holds w \<Longrightarrow> write_all x is data w = Some (Ret w') \<Longrightarrow> holds w'"
proof (induction "is" arbitrary: w)
  case (Cons i "is")
  then show ?case by (auto simp: run_bind_eq_Ret dest: WritePacket_switch_ok)
qed (simp add: run_return_def)

lemma ips_HandlePacket_switch_ok:
  assumes ok: "holds w" and h: "ips_HandlePacket x g so packet w = Some (Ret (w', b))"
  shows "holds w'"
  using h ok
  by (auto simp: ips_HandlePacket_def ips_broadcastDataMessage_def Let_def run_return_def run_bind_eq_Ret
      split: if_splits option.splits dest: WritePacket_switch_ok write_all_switch_ok)

lemma set_macs_holds: "I (addr_of w) (MACH g) \<Longrightarrow> holds (set_macs g w)"
  by (simp add: holds_def)

lemma setMACFrom_switch_ok:
  assumes g: "w_handler w = Some (MACH g)" and ok: "holds w"
  shows "holds (fst (setMACFrom x now g i msg w))"
proof -
  have m: "I (addr_of w) (MACH g)" using ok g by (simp add: holds_def)
  let ?k = "hwAddrToMAC (MACSource x msg)"
  show ?thesis
  proof (cases "socketMACs g i")
    case (Some c)
    note r = set_macs_holds [OF refresh [OF m Some, of ?k now]]
    note l = set_macs_holds [OF learn [OF m Some, of ?k now]]
    show ?thesis
      using Some ok CloseError_switch_ok [OF ok] r l by (simp add: setMACFrom_def Let_def)
  qed (simp add: setMACFrom_def ok Let_def)
qed

lemma macs_forward_switch_ok:
  assumes ok: "holds w" and h: "macs_forward x g so packet w = Some (Ret (w', b))"
  shows "holds w'"
  using h ok
  by (auto simp: macs_forward_def macs_broadcastDataMessage_def Let_def run_return_def run_bind_eq_Ret
      split: if_splits option.splits dest: WritePacket_switch_ok write_all_switch_ok)

lemma macs_HandlePacket_switch_ok:
  assumes g: "w_handler w = Some (MACH g)" and ok: "holds w"
    and h: "macs_HandlePacket x now g so packet w = Some (Ret (w', b))"
  shows "holds w'"
proof (cases so)
  case None
  then show ?thesis
    using h ok macs_forward_switch_ok [OF ok]
    by (auto simp: macs_HandlePacket_def Let_def run_return_def split: if_splits)
next
  case (Some i)
  obtain w1 r where s: "setMACFrom x now g i packet w = (w1, r)" by (cases "setMACFrom x now g i packet w")
  have ok1: "holds w1" using setMACFrom_switch_ok [OF g ok, of now i packet] s by simp
  show ?thesis
    using h ok ok1 macs_forward_switch_ok [OF ok1] Some s
    by (auto simp: macs_HandlePacket_def Let_def run_return_def split: if_splits bool.splits)
qed

lemma HandlePacket_switch_ok:
  assumes "holds w" and "HandlePacket x now so packet w = Some (Ret (w', b))"
  shows "holds w'"
proof (cases "w_handler w")
  case None
  then show ?thesis using assms by (simp add: HandlePacket_def run_return_def)
next
  case (Some h)
  then show ?thesis
    using assms ips_HandlePacket_switch_ok [OF assms(1)] macs_HandlePacket_switch_ok [OF _ assms(1)]
    by (cases h) (simp_all add: HandlePacket_def)
qed

lemma processPacket_switch_ok:
  assumes ok: "holds w" and h: "processPacket x now i packet w = Some (Ret (w', b))"
  shows "holds w'"
proof -
  have ifw: "holds (fst (iface_write x d p v)) = holds v" for d p v
    by (rule holds_cong) simp_all
  have "holds w'" if "iface_write x d p v = (w', b)" "holds v" for d p v
    using ifw [of d p v] that by simp
  then show ?thesis
    using h ok by (auto simp: processPacket_def run_return_def run_bind_eq_Ret split: if_splits
        dest: HandlePacket_switch_ok)
qed

lemma dataMessageHandler_switch_ok:
  assumes ok: "holds w" and h: "dataMessageHandler x now i msg w = Some (Ret (w', b))"
  shows "holds w'"
proof -
  obtain s' act where d: "data_message now (w_sock w i) msg = (s', act)"
    by (cases "data_message now (w_sock w i) msg")
  have "addr_of (upd_sock i (\<lambda>_. s') w) = addr_of w"
    using data_message_addr [of now "w_sock w i" msg] d by (simp add: addr_of_def fun_eq_iff)
  then have "holds (upd_sock i (\<lambda>_. s') w)"
    using ok holds_cong [of "upd_sock i (\<lambda>_. s') w" w] by simp
  then show ?thesis
    using h d by (cases act) (auto simp: dataMessageHandler_def run_return_def dest: processPacket_switch_ok)
qed

lemma RegisterSocket_switch_ok:
  assumes ok: "holds w"
    and fresh: "\<And>g. w_handler w = Some (MACH g) \<Longrightarrow> map_of (socketTable g) i = None"
  shows "holds (RegisterSocket x i w)"
proof (cases "w_handler w")
  case (Some h)
  show ?thesis
  proof (cases h)
    case (IPH g)
    let ?g = "fst (ips_insert g (addr_of w i) i)"
    have "I (addr_of w) (IPH ?g)" using ok Some IPH by (intro insert_ips) (simp add: holds_def)
    then have "holds (w\<lparr>w_handler := Some (IPH ?g)\<rparr>)" by (simp add: holds_def)
    then show ?thesis
      using Some IPH CloseError_switch_ok
      by (auto simp: RegisterSocket_def ips_RegisterSocket_def Let_def addr_of_def split: prod.splits option.splits)
  next
    case (MACH g)
    have "I (addr_of w) (MACH (fst (macs_RegisterSocket x g i)))"
      using ok Some MACH fresh by (intro register_macs) (simp_all add: holds_def)
    then show ?thesis
      using Some MACH
      by (auto simp: RegisterSocket_def macs_Register_def holds_def split: prod.splits option.splits)
  qed
qed (use ok in \<open>simp add: RegisterSocket_def\<close>)

lemma environment_switch_ok: "holds w \<Longrightarrow> holds (w\<lparr>w_env := e\<rparr>)"
  by (simp add: holds_def addr_of_def [abs_def])

lemma server_step_holds:
  assumes "server_step x w w'" and ok: "holds w"
  shows "holds w'"
  using assms(1)
proof (cases rule: server_step.cases)
  case (serve i)
  have "map_of (socketTable g) i = None" if "w_handler w = Some (MACH g)" for g
    using serve that by (simp add: not_registered_def)
  then show ?thesis unfolding serve by (rule RegisterSocket_switch_ok [OF ok])
next
  case (connect i s)
  have "addr_of w' = (addr_of w)(i := sk_AssignedIP s)"
    unfolding connect(1) by (simp add: addr_of_def fun_eq_iff)
  then show ?thesis
    using ok connect connect_inv [of "addr_of w" _ i] by (auto simp: holds_def not_registered_def)
next
  case (reload h c2c sp un chg n t)
  then show ?thesis using ok configure_inv [of "addr_of w" h c2c sp un chg n t] by (simp add: holds_def)
next
  case (config_update g g')
  then show ?thesis
    using ok update_inv [of "addr_of w" g g'] by (simp add: holds_def)
next
  case (clean_up g now g')
  then show ?thesis
    using ok cleanup_inv [of "addr_of w" g now g'] by (simp add: holds_def)
qed (use ok dataMessageHandler_switch_ok [OF ok] HandlePacket_switch_ok [OF ok] WritePacket_switch_ok [OF ok]
    Close_switch_ok [OF ok] CloseError_switch_ok [OF ok] environment_switch_ok [OF ok] in \<open>simp_all\<close>)

sublocale kept_invariant "server_step x" holds
  by unfold_locales (rule server_step_holds)

lemma reachable_holds:
  assumes "reachable x w" and "\<And>a. I a (IPH MakeIPSwitch)" and "\<And>a. I a (MACH MakeMACSwitch)"
  shows "holds w"
  using assms(1)
proof (induction rule: reachable.induct)
  case (start w)
  then show ?case using assms(2,3) by (auto simp: started_def holds_def)
qed (rule server_step_holds)

end

section \<open>The tables\<close>

definition tables_ok :: "('l \<Rightarrow> bool) \<Rightarrow> ('l \<Rightarrow> (macAddr \<times> gotime) list) \<Rightarrow> (sid \<Rightarrow> ip) \<Rightarrow> 'l PacketHandler \<Rightarrow> bool" where
  "tables_ok ok entries addr h = (case h of IPH g \<Rightarrow> ips_inv addr g | MACH g \<Rightarrow> macs_ok ok entries g)"

lemma tables_ok_simps [simp]:
  "tables_ok ok entries addr (IPH g) = ips_inv addr g"
  "tables_ok ok entries addr (MACH m) = macs_ok ok entries m"
  by (simp_all add: tables_ok_def)

lemma connect_tables_ok:
  assumes "tables_ok ok entries addr h" and "absent i h"
  shows "tables_ok ok entries (addr(i := ip)) h"
proof (cases h)
  case (IPH g)
  have "map_of (ipTable g) k \<noteq> Some i" for k using assms(2) IPH by (force dest: map_of_SomeD)
  then show ?thesis using assms(1) IPH by (auto simp: ips_inv_def)
qed (use assms in simp)

lemma configure_tables_ok:
  "tables_ok ok entries addr h \<Longrightarrow> tables_ok ok entries addr (configure c2c sp un chg n t h)"
  by (cases h) (simp_all add: ips_inv_def macs_ok_def owns_def socketMACs_def)

context lru_cache
begin

lemma ConfigUpdate_spec:
  assumes ok: "macs_ok ok entries g" and nn: "no_nil g" and n: "0 < macs_AllowedMACsPerConnection g"
  shows "\<exists>g'. ConfigUpdate x g = Ret g' \<and> macs_ok ok entries g' \<and>
    (\<forall>i. socketMACs g' i = map_option (\<lambda>c. fst (lru_Resize x c (macs_AllowedMACsPerConnection g))) (socketMACs g i))"
proof -
  have "socketMACs g i = None" if "i \<notin> fst ` set (socketTable g)" for i
    using that by (simp add: socketMACs_def map_of_eq_None_iff [THEN iffD2])
  then show ?thesis
    using resize_tables_spec [OF ok macs_okD(1) [OF ok] no_nil_tables [OF macs_okD(1) [OF ok] nn] refl n]
    unfolding ConfigUpdate_def by fastforce
qed

lemma ConfigUpdate_ok:
  assumes ok: "macs_ok ok entries g" and u: "ConfigUpdate x g = Ret g'" and n: "0 < macs_AllowedMACsPerConnection g"
  shows "macs_ok ok entries g'"
proof -
  have nil: "(i, None) \<notin> set tables" if "resize_tables x tables g0 = Ret g'" for tables g0 i
    using that by (induction x tables g0 rule: resize_tables.induct) auto
  have "no_nil g" using nil u by (force simp: ConfigUpdate_def no_nil_def)
  from ConfigUpdate_spec [OF ok this n] show ?thesis using u by auto
qed

lemma cleanup_round_spec:
  assumes ok: "macs_ok ok entries g" and nn: "no_nil g" and chg: "macs_AllowMACChanging g"
  shows "\<exists>g'. cleanupAllMACs_round x now g = Some (Ret g') \<and> macs_ok ok entries g' \<and>
    (\<forall>i c. socketMACs g i = Some c \<longrightarrow> (\<exists>c'. socketMACs g' i = Some c' \<and>
       entries c' = dropWhile (\<lambda>p. now - snd p > macs_MACTableTimeout g) (entries c)))"
proof -
  let ?g = "g\<lparr>macs_timerArmed := False\<rparr>"
  have sm: "socketMACs ?g = socketMACs g" by (simp add: socketMACs_def fun_eq_iff)
  have ok1: "macs_ok ok entries ?g" using ok by (simp add: macs_ok_def owns_def sm)
  have nn1: "no_nil ?g" using nn by (simp add: no_nil_def)
  have mem: "(i, Some c) \<in> set (socketTable g)" if "socketMACs g i = Some c" for i c
    using that map_of_SomeD [of "socketTable g" i "Some c"] by (simp add: socketMACs_map_of)
  obtain g' where "cleanup_tables x now (socketTable ?g) ?g = Some (Ret g')" "macs_ok ok entries g'"
    and "\<forall>j c. (j, Some c) \<in> set (socketTable ?g) \<longrightarrow> (\<exists>c'. socketMACs g' j = Some c' \<and>
       entries c' = dropWhile (\<lambda>p. now - snd p > macs_MACTableTimeout g) (entries c))"
    using cleanup_tables_spec [OF ok1 macs_okD(1) [OF ok1] no_nil_tables [OF macs_okD(1) [OF ok1] nn1], of _ now]
    by auto
  then show ?thesis using mem chg by (intro exI [of _ g']) (simp add: cleanupAllMACs_round_def)
qed

lemma cleanup_round_ok:
  assumes ok: "macs_ok ok entries g" and u: "cleanupAllMACs_round x now g = Some (Ret g')"
  shows "macs_ok ok entries g'"
proof (cases "macs_AllowMACChanging g")
  case True
  have nil: "(i, None) \<notin> set tables" if "cleanup_tables x now tables g0 = Some (Ret g')" for tables g0 i
    using that by (induction x now tables g0 rule: cleanup_tables.induct) (auto split: option.splits)
  have "no_nil g" using nil u True by (force simp: cleanupAllMACs_round_def no_nil_def)
  from cleanup_round_spec [OF ok this True, of now] show ?thesis using u by auto
next
  case False
  then have "g' = g\<lparr>macs_timerArmed := False\<rparr>" using u by (simp add: cleanupAllMACs_round_def)
  then show ?thesis using ok by (simp add: macs_ok_def owns_def socketMACs_def)
qed

end

sublocale lru_cache \<subseteq> tables: switch_invariant x "tables_ok ok entries"
proof
  show "tables_ok ok entries a (MACH (upd_cache i (lru_Add x c k t) m))"
    if "tables_ok ok entries a (MACH m)" "socketMACs m i = Some c" "lru_Contains x c k" for a m i c k t
  proof -
    have m: "macs_ok ok entries m" using that by simp
    show ?thesis
      using refresh_ok [OF m that(2)] that(3) contains_entries [OF macs_okD(2) [OF m that(2)]] by simp
  qed
  show "tables_ok ok entries (a(i := addr)) h" if "tables_ok ok entries a h" "absent i h" for a i addr h
    using that by (rule connect_tables_ok)
  show "tables_ok ok entries a (configure c2c sp un chg n t h)" if "tables_ok ok entries a h"
    for a h c2c sp un chg n t
    using that by (rule configure_tables_ok)
qed (auto simp: ips_inv_unregister unregister_ok ips_inv_insert register_ok learn_ok
    intro: ConfigUpdate_ok cleanup_round_ok)

context lru_cache
begin

lemma reachable_tables: "reachable x w \<Longrightarrow> tables.holds w"
  by (rule tables.reachable_holds) (simp_all add: macs_ok_make ips_inv_def MakeIPSwitch_def)

lemma reachable_ips: "reachable x w \<Longrightarrow> w_handler w = Some (IPH g) \<Longrightarrow> ips_inv (addr_of w) g"
  using reachable_tables [of w] by (simp add: tables.holds_def)

lemma reachable_macs: "reachable x w \<Longrightarrow> w_handler w = Some (MACH g) \<Longrightarrow> macs_ok ok entries g"
  using reachable_tables [of w] by (simp add: tables.holds_def)

end

end
