(* ===== verification/Commands.thy ===== *)
theory Commands
  imports Shared_Base
begin

text \<open>
  The commands of the control channel (\<^verbatim>\<open>shared/commands\<close>): the parameters of
  each command as the record its struct is, its name, who may send it from which protocol
  version on, and the making of an outgoing command. Their JSON text is in
  \<open>Command_Text\<close>.
\<close>

section \<open>Parameters\<close>

record AddRouteParameters =
  ar_Route :: string

record InitParameters =
  in_Mode :: string
  in_DoIPConfig :: bool
  in_IPAddress :: string
  in_MTU :: int
  in_ServerID :: string
  in_ClientID :: string
  in_EnableFragmentation :: bool

record MessageParameters =
  ms_Type :: string
  ms_Message :: string

record ReplyParameters =
  rp_Ok :: bool
  rp_Message :: string

record SetMTUParameters =
  sm_MTU :: int

record VersionParameters =
  vp_ProtocolVersion :: int
  vp_Version :: string
  vp_EnabledFeatures :: "feature list"

datatype CommandParameters =
    AddRoute AddRouteParameters
  | Init InitParameters
  | Message MessageParameters
  | Reply ReplyParameters
  | SetMTUCmd SetMTUParameters
  | VersionCmd VersionParameters

definition AddRouteCommandName :: string where "AddRouteCommandName = ''add_route''"

definition InitCommandName :: string where "InitCommandName = ''init''"

definition MessageCommandName :: string where "MessageCommandName = ''message''"

definition ReplyCommandName :: string where "ReplyCommandName = ''reply''"

definition SetMTUCommandName :: string where "SetMTUCommandName = ''set_mtu''"

definition VersionCommandName :: string where "VersionCommandName = ''version''"

lemmas command_names = AddRouteCommandName_def InitCommandName_def MessageCommandName_def
  ReplyCommandName_def SetMTUCommandName_def VersionCommandName_def

section \<open>Making a command\<close>

record OutgoingCommand =
  oc_ID :: string
  oc_Command :: string
  oc_Parameters :: CommandParameters

definition makeCommand :: "('e, 'l) ext \<Rightarrow> 'e \<Rightarrow> string \<Rightarrow> string \<Rightarrow> CommandParameters
    \<Rightarrow> 'e \<times> OutgoingCommand \<times> go_error option" where
  "makeCommand x e name cid parameters =
     (let cmd = \<lparr>oc_ID = cid, oc_Command = name, oc_Parameters = parameters\<rparr> in
      if cid = [] then
        (case uuid_NewRandom x e of
           (e', Inl err) \<Rightarrow> (e', cmd, Some (GoErr err))
         | (e', Inr u) \<Rightarrow> (e', cmd\<lparr>oc_ID := u\<rparr>, None))
      else (e, cmd, None))"

section \<open>The methods of each command\<close>

text \<open>\<^verbatim>\<open>shared/commands/add_route.go\<close>.\<close>

definition AddRoute_MakeCommand :: "('e, 'l) ext \<Rightarrow> 'e \<Rightarrow> AddRouteParameters \<Rightarrow> string
    \<Rightarrow> 'e \<times> OutgoingCommand \<times> go_error option" where
  "AddRoute_MakeCommand x e c cid = makeCommand x e AddRouteCommandName cid (AddRoute c)"

definition AddRoute_MinProtocolVersion :: "AddRouteParameters \<Rightarrow> int" where
  "AddRoute_MinProtocolVersion c = 1"

definition AddRoute_ServerCanIssue :: "AddRouteParameters \<Rightarrow> bool" where
  "AddRoute_ServerCanIssue c = True"

definition AddRoute_ClientCanIssue :: "AddRouteParameters \<Rightarrow> bool" where
  "AddRoute_ClientCanIssue c = False"

text \<open>\<^verbatim>\<open>shared/commands/init.go\<close>.\<close>

definition Init_MakeCommand :: "('e, 'l) ext \<Rightarrow> 'e \<Rightarrow> InitParameters \<Rightarrow> string
    \<Rightarrow> 'e \<times> OutgoingCommand \<times> go_error option" where
  "Init_MakeCommand x e c cid = makeCommand x e InitCommandName cid (Init c)"

definition Init_MinProtocolVersion :: "InitParameters \<Rightarrow> int" where
  "Init_MinProtocolVersion c = 1"

definition Init_ServerCanIssue :: "InitParameters \<Rightarrow> bool" where
  "Init_ServerCanIssue c = True"

definition Init_ClientCanIssue :: "InitParameters \<Rightarrow> bool" where
  "Init_ClientCanIssue c = False"

text \<open>\<^verbatim>\<open>shared/commands/message.go\<close>.\<close>

definition Message_MakeCommand :: "('e, 'l) ext \<Rightarrow> 'e \<Rightarrow> MessageParameters \<Rightarrow> string
    \<Rightarrow> 'e \<times> OutgoingCommand \<times> go_error option" where
  "Message_MakeCommand x e c cid = makeCommand x e MessageCommandName cid (Message c)"

definition Message_MinProtocolVersion :: "MessageParameters \<Rightarrow> int" where
  "Message_MinProtocolVersion c = 8"

definition Message_ServerCanIssue :: "MessageParameters \<Rightarrow> bool" where
  "Message_ServerCanIssue c = True"

definition Message_ClientCanIssue :: "MessageParameters \<Rightarrow> bool" where
  "Message_ClientCanIssue c = True"

text \<open>\<^verbatim>\<open>shared/commands/reply.go\<close>.\<close>

definition Reply_MakeCommand :: "('e, 'l) ext \<Rightarrow> 'e \<Rightarrow> ReplyParameters \<Rightarrow> string
    \<Rightarrow> 'e \<times> OutgoingCommand \<times> go_error option" where
  "Reply_MakeCommand x e c cid = makeCommand x e ReplyCommandName cid (Reply c)"

definition Reply_MinProtocolVersion :: "ReplyParameters \<Rightarrow> int" where
  "Reply_MinProtocolVersion c = 0"

definition Reply_ServerCanIssue :: "ReplyParameters \<Rightarrow> bool" where
  "Reply_ServerCanIssue c = True"

definition Reply_ClientCanIssue :: "ReplyParameters \<Rightarrow> bool" where
  "Reply_ClientCanIssue c = True"

text \<open>\<^verbatim>\<open>shared/commands/set_mtu.go\<close>.\<close>

definition SetMTU_MakeCommand :: "('e, 'l) ext \<Rightarrow> 'e \<Rightarrow> SetMTUParameters \<Rightarrow> string
    \<Rightarrow> 'e \<times> OutgoingCommand \<times> go_error option" where
  "SetMTU_MakeCommand x e c cid = makeCommand x e SetMTUCommandName cid (SetMTUCmd c)"

definition SetMTU_MinProtocolVersion :: "SetMTUParameters \<Rightarrow> int" where
  "SetMTU_MinProtocolVersion c = 7"

definition SetMTU_ServerCanIssue :: "SetMTUParameters \<Rightarrow> bool" where
  "SetMTU_ServerCanIssue c = True"

definition SetMTU_ClientCanIssue :: "SetMTUParameters \<Rightarrow> bool" where
  "SetMTU_ClientCanIssue c = False"

text \<open>\<^verbatim>\<open>shared/commands/version.go\<close>.\<close>

definition Version_MakeCommand :: "('e, 'l) ext \<Rightarrow> 'e \<Rightarrow> VersionParameters \<Rightarrow> string
    \<Rightarrow> 'e \<times> OutgoingCommand \<times> go_error option" where
  "Version_MakeCommand x e c cid = makeCommand x e VersionCommandName cid (VersionCmd c)"

definition Version_MinProtocolVersion :: "VersionParameters \<Rightarrow> int" where
  "Version_MinProtocolVersion c = 0"

definition Version_ServerCanIssue :: "VersionParameters \<Rightarrow> bool" where
  "Version_ServerCanIssue c = True"

definition Version_ClientCanIssue :: "VersionParameters \<Rightarrow> bool" where
  "Version_ClientCanIssue c = True"

lemmas command_methods [simp] =
  AddRoute_MakeCommand_def AddRoute_MinProtocolVersion_def AddRoute_ServerCanIssue_def AddRoute_ClientCanIssue_def
  Init_MakeCommand_def Init_MinProtocolVersion_def Init_ServerCanIssue_def Init_ClientCanIssue_def
  Message_MakeCommand_def Message_MinProtocolVersion_def Message_ServerCanIssue_def Message_ClientCanIssue_def
  Reply_MakeCommand_def Reply_MinProtocolVersion_def Reply_ServerCanIssue_def Reply_ClientCanIssue_def
  SetMTU_MakeCommand_def SetMTU_MinProtocolVersion_def SetMTU_ServerCanIssue_def SetMTU_ClientCanIssue_def
  Version_MakeCommand_def Version_MinProtocolVersion_def Version_ServerCanIssue_def Version_ClientCanIssue_def

section \<open>The interface\<close>

text \<open>The calls through \<^verbatim>\<open>CommandParameters\<close>, by the type of the value.\<close>

primrec MinProtocolVersion :: "CommandParameters \<Rightarrow> int" where
  "MinProtocolVersion (AddRoute c) = AddRoute_MinProtocolVersion c"
| "MinProtocolVersion (Init c) = Init_MinProtocolVersion c"
| "MinProtocolVersion (Message c) = Message_MinProtocolVersion c"
| "MinProtocolVersion (Reply c) = Reply_MinProtocolVersion c"
| "MinProtocolVersion (SetMTUCmd c) = SetMTU_MinProtocolVersion c"
| "MinProtocolVersion (VersionCmd c) = Version_MinProtocolVersion c"

primrec ServerCanIssue :: "CommandParameters \<Rightarrow> bool" where
  "ServerCanIssue (AddRoute c) = AddRoute_ServerCanIssue c"
| "ServerCanIssue (Init c) = Init_ServerCanIssue c"
| "ServerCanIssue (Message c) = Message_ServerCanIssue c"
| "ServerCanIssue (Reply c) = Reply_ServerCanIssue c"
| "ServerCanIssue (SetMTUCmd c) = SetMTU_ServerCanIssue c"
| "ServerCanIssue (VersionCmd c) = Version_ServerCanIssue c"

primrec ClientCanIssue :: "CommandParameters \<Rightarrow> bool" where
  "ClientCanIssue (AddRoute c) = AddRoute_ClientCanIssue c"
| "ClientCanIssue (Init c) = Init_ClientCanIssue c"
| "ClientCanIssue (Message c) = Message_ClientCanIssue c"
| "ClientCanIssue (Reply c) = Reply_ClientCanIssue c"
| "ClientCanIssue (SetMTUCmd c) = SetMTU_ClientCanIssue c"
| "ClientCanIssue (VersionCmd c) = Version_ClientCanIssue c"

primrec MakeCommand :: "('e, 'l) ext \<Rightarrow> 'e \<Rightarrow> CommandParameters \<Rightarrow> string
    \<Rightarrow> 'e \<times> OutgoingCommand \<times> go_error option" where
  "MakeCommand x e (AddRoute c) cid = AddRoute_MakeCommand x e c cid"
| "MakeCommand x e (Init c) cid = Init_MakeCommand x e c cid"
| "MakeCommand x e (Message c) cid = Message_MakeCommand x e c cid"
| "MakeCommand x e (Reply c) cid = Reply_MakeCommand x e c cid"
| "MakeCommand x e (SetMTUCmd c) cid = SetMTU_MakeCommand x e c cid"
| "MakeCommand x e (VersionCmd c) cid = Version_MakeCommand x e c cid"

text \<open>The name under which the receiver looks up the handler identifies the parameters.\<close>

lemma MakeCommand_name:
  assumes "MakeCommand x e p cid = (e1, c, err)" and "MakeCommand x e' q cid' = (e2, d, err')"
    and "oc_Command c = oc_Command d"
  shows "MinProtocolVersion p = MinProtocolVersion q \<and> ClientCanIssue p = ClientCanIssue q"
  using assms
  by (cases p; cases q)
    (auto simp: makeCommand_def Let_def command_names split: if_splits prod.splits sum.splits)

lemma MakeCommand_id:
  "cid \<noteq> [] \<Longrightarrow> \<exists>name. MakeCommand x e p cid =
     (e, \<lparr>oc_ID = cid, oc_Command = name, oc_Parameters = p\<rparr>, None)"
  by (cases p) (simp_all add: makeCommand_def Let_def)

end
