(* ===== verification/Socket_Serve.thy ===== *)
theory Socket_Serve
  imports Server_Steps Commands
begin

text \<open>
  How a socket comes up (\<^verbatim>\<open>Socket.Serve\<close> of \<^verbatim>\<open>shared/sockets/base.go\<close>,
  the handlers it installs, and the test in \<^verbatim>\<open>shared/sockets/commands.go\<close> that
  decides whether a command may be sent), and what that means for the
  \<^verbatim>\<open>up\<close> and \<^verbatim>\<open>down\<close> events of the connection.
\<close>

section \<open>Operations\<close>

definition AddCommandHandler :: "socket \<Rightarrow> string \<Rightarrow> CommandHandler \<Rightarrow> socket" where
  "AddCommandHandler s command handler = s\<lparr>sk_handlers := (sk_handlers s)(command \<mapsto> handler)\<rparr>"

definition registerDefaultCommandHandlers :: "socket \<Rightarrow> socket" where
  "registerDefaultCommandHandlers s =
     AddCommandHandler (AddCommandHandler (AddCommandHandler s
       VersionCommandName VersionHandler) ReplyCommandName ReplyHandler) MessageCommandName MessageHandler"

definition wg_Add :: "socket \<Rightarrow> socket" where
  "wg_Add s = s\<lparr>sk_wg := sk_wg s + 1\<rparr>"

text \<open>
  \<^verbatim>\<open>Serve\<close> up to the point where it waits for the adapter, and from there on;
  other goroutines can run in between.
\<close>

definition Serve_start :: "('e, 'l) ext \<Rightarrow> sid \<Rightarrow> ('e, 'l) world \<Rightarrow> ('e, 'l) world" where
  "Serve_start x i w =
     (let w1 = upd_sock i registerDefaultCommandHandlers w;
          w2 = (if sk_hasPacketHandler (w_sock w1 i) then RegisterSocket x i w1 else w1);
          w3 = spawn (PingLoop i) (upd_sock i wg_Add w2)
      in spawn (AdapterServe i) (upd_sock i wg_Add w3))"

definition Serve_ready :: "sid \<Rightarrow> ('e, 'l) world \<Rightarrow> ('e, 'l) world" where
  "Serve_ready i w =
     (let w1 = tryServeIfaceRead i w;
          w2 = spawn (CleanupFragmentsLoop i) w1;
          w3 = spawn (SendDefaultWelcome i) w2
      in if sk_hasEventPusher (w_sock w3 i) \<and> sk_closeChanOpen (w_sock w3 i)
         then push_event i EventUp (upd_sock i (\<lambda>s. s\<lparr>sk_upEventSent := True\<rparr>) w3)
         else w3)"

definition Serve :: "('e, 'l) ext \<Rightarrow> sid \<Rightarrow> ('e, 'l) world \<Rightarrow> ('e, 'l) world" where
  "Serve x i w = Serve_ready i (Serve_start x i w)"

text \<open>The first half of \<^verbatim>\<open>rawMakeAndSendCommand\<close>: may this side send this command?\<close>

definition command_allowed :: "socket \<Rightarrow> CommandParameters \<Rightarrow> go_error option" where
  "command_allowed s parameters =
     (if IsServer (sk_adapter s) \<and> \<not> ServerCanIssue parameters then Some ErrCommandNotSupported
      else if \<not> IsServer (sk_adapter s) \<and> \<not> ClientCanIssue parameters then Some ErrCommandNotSupported
      else if sk_remoteProtocolVersion s < MinProtocolVersion parameters then Some ErrCommandNotSupported
      else None)"

section \<open>Events\<close>

text \<open>What can happen to one socket during its life, in any order.\<close>

datatype life = DoStart | DoReady | DoClose | DoCloseError go_error | DoCloseDone

fun live :: "('e, 'l) ext \<Rightarrow> sid \<Rightarrow> life \<Rightarrow> ('e, 'l) world \<Rightarrow> ('e, 'l) world" where
  "live x i DoStart w = Serve_start x i w"
| "live x i DoReady w = Serve_ready i w"
| "live x i DoClose w = Close x i w"
| "live x i (DoCloseError err) w = CloseError x i err w"
| "live x i DoCloseDone w = closeDone x i w"

definition events_of :: "sid \<Rightarrow> ('e, 'l) world \<Rightarrow> string list" where
  "events_of i w = map snd (filter (\<lambda>p. fst p = i) (w_events w))"

text \<open>
  The state of a socket's events: nothing sent, or up and still open, or both and closed, or
  closed before it was up.
\<close>

definition life_ok :: "sid \<Rightarrow> bool \<Rightarrow> ('e, 'l) world \<Rightarrow> bool" where
  "life_ok i ready w \<longleftrightarrow> sk_hasEventPusher (w_sock w i) \<and>
     (sk_isClosing (w_sock w i) \<longleftrightarrow> \<not> sk_closeChanOpen (w_sock w i)) \<and>
     (if sk_upEventSent (w_sock w i)
      then ready \<and> events_of i w = [EventUp] \<and> sk_closeChanOpen (w_sock w i)
      else events_of i w = [] \<and> (\<not> ready \<or> sk_isClosing (w_sock w i)) \<or>
           events_of i w = [EventUp, EventDown] \<and> ready \<and> sk_isClosing (w_sock w i))"

lemma events_of_simps [simp]:
  "events_of i (upd_sock j f w) = events_of i w"
  "events_of i (spawn g w) = events_of i w"
  "events_of i (push_event j evt w) = events_of i w @ (if j = i then [evt] else [])"
  "events_of i (w\<lparr>w_handler := h\<rparr>) = events_of i w"
  "events_of i (set_macs m w) = events_of i w"
  by (simp_all add: events_of_def)

lemma life_ok_cong:
  assumes "events_of i w' = events_of i w"
    and "sk_hasEventPusher (w_sock w' i) = sk_hasEventPusher (w_sock w i)"
    and "sk_isClosing (w_sock w' i) = sk_isClosing (w_sock w i)"
    and "sk_closeChanOpen (w_sock w' i) = sk_closeChanOpen (w_sock w i)"
    and "sk_upEventSent (w_sock w' i) = sk_upEventSent (w_sock w i)"
  shows "life_ok i r w' = life_ok i r w"
  using assms by (simp add: life_ok_def)

lemma life_ok_sock_close:
  assumes "life_ok i r w"
  shows "life_ok i r (sock_close x j b w)"
proof -
  have e: "events_of i (sock_close x j b w) = events_of i w @
      (if j = i \<and> sk_hasEventPusher (w_sock w j) \<and> sk_upEventSent (w_sock w j) then [EventDown] else [])"
    by (simp add: events_of_def sock_close_events)
  show ?thesis
  proof (cases "j = i")
    case True
    then show ?thesis
      using assms e unfolding life_ok_def by (auto simp: sock_close_sock closed_socket_def split: if_splits)
  next
    case False
    then show ?thesis using assms e life_ok_cong [of i "sock_close x j b w" w r] by (simp add: sock_close_sock)
  qed
qed

lemma life_ok_CloseError: "life_ok i r w \<Longrightarrow> life_ok i r (CloseError x j err w)"
proof -
  assume ok: "life_ok i r w"
  have "life_ok i r (CloseError x j err w) = life_ok i r (sock_close x j False w)"
    by (rule life_ok_cong) (simp_all add: sock_simps events_of_def)
  then show ?thesis using life_ok_sock_close [OF ok] by simp
qed

lemma life_ok_Close: "life_ok i r w \<Longrightarrow> life_ok i r (Close x j w)"
  by (simp add: Close_def life_ok_sock_close)

lemma life_ok_spawn [simp]: "life_ok i r (spawn g w) = life_ok i r w"
  by (simp add: life_ok_def)

lemma life_ok_RegisterSocket: "life_ok i r w \<Longrightarrow> life_ok i r (RegisterSocket x j w)"
proof -
  assume ok: "life_ok i r w"
  have h: "life_ok i r (w\<lparr>w_handler := h\<rparr>)" for h
    using ok life_ok_cong [of i "w\<lparr>w_handler := h\<rparr>" w r] by simp
  have m: "life_ok i r (set_macs g w)" and ms: "life_ok i r (spawn go (set_macs g w))" for g go
    using ok life_ok_cong [of i "set_macs g w" w r] by simp_all
  show ?thesis
    using ok h m ms
    by (auto simp: RegisterSocket_def ips_RegisterSocket_def macs_Register_def Let_def life_ok_CloseError
        split: option.splits PacketHandler.splits prod.splits)
qed

lemma life_ok_upd:
  "life_ok i r w \<Longrightarrow> sk_hasEventPusher (f (w_sock w j)) = sk_hasEventPusher (w_sock w j) \<Longrightarrow>
   sk_isClosing (f (w_sock w j)) = sk_isClosing (w_sock w j) \<Longrightarrow>
   sk_closeChanOpen (f (w_sock w j)) = sk_closeChanOpen (w_sock w j) \<Longrightarrow>
   sk_upEventSent (f (w_sock w j)) = sk_upEventSent (w_sock w j) \<Longrightarrow> life_ok i r (upd_sock j f w)"
  using life_ok_cong [of i "upd_sock j f w" w r] by (cases "j = i") simp_all

lemma life_ok_Serve_start:
  assumes "life_ok i r w"
  shows "life_ok i r (Serve_start x j w)"
proof -
  let ?w1 = "upd_sock j registerDefaultCommandHandlers w"
  let ?w2 = "if sk_hasPacketHandler (w_sock ?w1 j) then RegisterSocket x j ?w1 else ?w1"
  have "life_ok i r ?w1"
    using assms by (rule life_ok_upd) (simp_all add: registerDefaultCommandHandlers_def AddCommandHandler_def)
  then have "life_ok i r ?w2" by (simp add: life_ok_RegisterSocket)
  then have "life_ok i r (upd_sock j wg_Add ?w2)" by (rule life_ok_upd) (simp_all add: wg_Add_def)
  then have "life_ok i r (upd_sock j wg_Add (spawn (PingLoop j) (upd_sock j wg_Add ?w2)))"
    by (intro life_ok_upd) (simp_all add: wg_Add_def)
  then show ?thesis by (simp add: Serve_start_def Let_def)
qed

lemma tryServeIfaceRead_sock:
  "\<exists>n. w_sock (tryServeIfaceRead i w) i = (w_sock w i)\<lparr>sk_wg := n\<rparr>"
  by (cases "w_sock w i") (auto simp: tryServeIfaceRead_def)

lemma life_ok_Serve_ready:
  assumes "life_ok i False w"
  shows "life_ok i True (Serve_ready i w)"
proof -
  obtain n where s: "w_sock (tryServeIfaceRead i w) i = (w_sock w i)\<lparr>sk_wg := n\<rparr>"
    using tryServeIfaceRead_sock by blast
  have e: "events_of i (tryServeIfaceRead i w) = events_of i w"
    by (simp add: tryServeIfaceRead_def)
  have "\<not> sk_upEventSent (w_sock w i)" "events_of i w = []"
    using assms by (auto simp: life_ok_def split: if_splits)
  then show ?thesis
    using assms s e by (auto simp: life_ok_def Serve_ready_def Let_def)
qed

lemma life_ok_run:
  "life_ok i r w \<Longrightarrow> count_list ops DoReady + (if r then 1 else 0) \<le> 1 \<Longrightarrow>
   \<exists>r'. life_ok i r' (fold (live x i) ops w)"
proof (induction ops arbitrary: r w)
  case (Cons op ops)
  show ?case
  proof (cases "op = DoReady")
    case True
    then have "\<not> r" using Cons.prems(2) by auto
    then have "life_ok i True (live x i op w)" using Cons.prems(1) True by (simp add: life_ok_Serve_ready)
    then show ?thesis using Cons.IH [of True "live x i op w"] Cons.prems(2) True by simp
  next
    case False
    have "life_ok i r (closeDone x i w)"
      unfolding closeDone_def using Cons.prems(1) by (intro life_ok_Close life_ok_upd) simp_all
    then have "life_ok i r (live x i op w)"
      using Cons.prems(1) False
      by (cases op) (simp_all add: life_ok_Serve_start life_ok_Close life_ok_CloseError)
    then show ?thesis using Cons.IH [of r "live x i op w"] Cons.prems(2) False by simp
  qed
qed auto

text \<open>
  C33 The event scripts see each connection once: whatever happens to a socket, in whatever order
  \<^verbatim>\<open>Serve\<close> and the closings by the peer, by errors and by finishing goroutines
  come, as long as \<^verbatim>\<open>Serve\<close> is called only once, the \<^verbatim>\<open>up\<close>
  event is pushed at most once and the \<^verbatim>\<open>down\<close> event only after it and at most
  once; a socket that is being closed has sent both or neither.
\<close>

theorem events_balanced:
  assumes "w_sock w i = MakeSocket ad ifc managed True" and "w_events w = []"
    and "count_list ops DoReady \<le> 1" and "w' = fold (live x i) ops w"
  shows "events_of i w' \<in> {[], [EventUp], [EventUp, EventDown]} \<and>
    (sk_isClosing (w_sock w' i) \<longrightarrow> events_of i w' \<noteq> [EventUp])"
proof -
  have "life_ok i False w"
    using assms(1,2) by (simp add: life_ok_def MakeSocket_def events_of_def)
  from life_ok_run [OF this, of ops x] assms(3,4) obtain r' where "life_ok i r' w'" by auto
  then show ?thesis by (auto simp: life_ok_def split: if_splits)
qed

definition example_life :: "(demo_env, list_lru) world" where
  "example_life = fold (live demo_ext 7) [DoStart, DoReady, DoCloseDone, DoClose]
     (example_world (MakeSocket (NewWebSocketAdapter 0 1 True) None False True))"

lemma example_life_closing: "sk_isClosing (w_sock example_life 7)"
  by (simp add: example_life_def Close_def sock_simps closed_socket_def)

theorem events_balanced_witness:
  "events_of 7 example_life \<in> {[], [EventUp], [EventUp, EventDown]} \<and> events_of 7 example_life \<noteq> [EventUp]"
  using events_balanced [OF _ _ _ example_life_def, of "NewWebSocketAdapter 0 1 True" None False] example_life_closing
  by (auto simp: example_world_def)

end
