(* ===== verification/Go_Text.thy ===== *)
theory Go_Text
  imports Wsvpn_Prelude
begin

text \<open>
  The parts of Go's \<^verbatim>\<open>strings\<close>, \<^verbatim>\<open>strconv\<close> and
  \<^verbatim>\<open>unicode/utf8\<close> packages that the program uses on text: splitting and
  joining, decimal numbers, and the decoding of UTF-8. A Go string is a list of bytes, here of
  Isabelle's 8-bit characters.
\<close>

abbreviation chr_code :: "char \<Rightarrow> nat" where
  "chr_code c \<equiv> of_char c"

definition text_bytes :: "string \<Rightarrow> bytes" where
  "text_bytes s = map (\<lambda>c. word_of_nat (chr_code c)) s"

definition bytes_text :: "bytes \<Rightarrow> string" where
  "bytes_text bs = map (\<lambda>b. char_of (unat b)) bs"

lemma bytes_text_bytes [simp]: "bytes_text (text_bytes s) = s"
  by (simp add: bytes_text_def text_bytes_def unat_of_nat_u8 comp_def)

section \<open>strings\<close>

fun join_with :: "'a list \<Rightarrow> 'a list list \<Rightarrow> 'a list" where
  "join_with sep [] = []"
| "join_with sep [s] = s"
| "join_with sep (s # ss) = s @ sep @ join_with sep ss"

lemma join_with_Cons: "join_with sep (s # ss) = (if ss = [] then s else s @ sep @ join_with sep ss)"
  by (cases ss) simp_all

section \<open>strconv\<close>

definition digit_char :: "nat \<Rightarrow> char" where
  "digit_char n = char_of (48 + n)"

definition is_digit :: "char \<Rightarrow> bool" where
  "is_digit c \<longleftrightarrow> 48 \<le> chr_code c \<and> chr_code c \<le> 57"

definition digit_value :: "char \<Rightarrow> nat" where
  "digit_value c = chr_code c - 48"

fun nat_text :: "nat \<Rightarrow> string" where
  "nat_text n = (if n < 10 then [digit_char n] else nat_text (n div 10) @ [digit_char (n mod 10)])"

declare nat_text.simps [simp del]

definition Itoa :: "int \<Rightarrow> string" where
  "Itoa i = (if i < 0 then CHR ''-'' # nat_text (nat (- i)) else nat_text (nat i))"

definition digits_value :: "string \<Rightarrow> nat" where
  "digits_value s = foldl (\<lambda>n c. n * 10 + digit_value c) 0 s"

text \<open>\<^verbatim>\<open>strconv.ParseInt(s, 10, 64)\<close>.\<close>

definition ParseInt :: "string \<Rightarrow> int option" where
  "ParseInt s =
     (let neg = (s \<noteq> [] \<and> hd s = CHR ''-'');
          ds = (if s \<noteq> [] \<and> (hd s = CHR ''-'' \<or> hd s = CHR ''+'') then tl s else s);
          n = int (digits_value ds);
          i = (if neg then - n else n)
      in if ds = [] \<or> \<not> list_all is_digit ds then None
         else if i < - (2 ^ 63) \<or> i \<ge> 2 ^ 63 then None else Some i)"

lemma digit_char_simps [simp]:
  "n < 10 \<Longrightarrow> is_digit (digit_char n)" "n < 10 \<Longrightarrow> digit_value (digit_char n) = n"
  "n < 10 \<Longrightarrow> chr_code (digit_char n) = 48 + n"
  by (simp_all add: is_digit_def digit_value_def digit_char_def)

lemma nat_text_digits: "list_all is_digit (nat_text n)"
  by (induction n rule: nat_text.induct) (subst nat_text.simps, simp)

lemma nat_text_ne: "nat_text n \<noteq> []"
  by (subst nat_text.simps) simp

lemma nat_text_value: "digits_value (nat_text n) = n"
proof (induction n rule: nat_text.induct)
  case (1 n)
  show ?case
  proof (cases "n < 10")
    case True
    then show ?thesis by (subst nat_text.simps) (simp add: digits_value_def)
  next
    case False
    then show ?thesis using 1 by (subst nat_text.simps) (simp add: digits_value_def)
  qed
qed

lemma nat_text_hd: "0 < n \<Longrightarrow> hd (nat_text n) \<noteq> CHR ''0''"
proof (induction n rule: nat_text.induct)
  case (1 n)
  show ?case
  proof (cases "n < 10")
    case True
    have "chr_code (digit_char n) \<noteq> chr_code (CHR ''0'')" using True 1(2) by simp
    then have "digit_char n \<noteq> CHR ''0''" by metis
    then show ?thesis using True by (subst nat_text.simps) simp
  next
    case False
    have "hd (nat_text n) = hd (nat_text (n div 10))"
      using False by (subst nat_text.simps) (simp add: hd_append nat_text_ne)
    then show ?thesis using False 1(1) by simp
  qed
qed

lemma is_digit_not_sign: "is_digit c \<Longrightarrow> c \<noteq> CHR ''-'' \<and> c \<noteq> CHR ''+''"
  by (auto simp: is_digit_def)

lemma ParseInt_Itoa:
  assumes "- (2 ^ 63) \<le> i" and "i < 2 ^ 63"
  shows "ParseInt (Itoa i) = Some i"
proof (cases "i < 0")
  case True
  then show ?thesis
    using assms by (simp add: Itoa_def ParseInt_def nat_text_value nat_text_digits nat_text_ne)
next
  case False
  have "is_digit (hd (nat_text (nat i)))"
    using nat_text_digits [of "nat i"] nat_text_ne [of "nat i"] by (cases "nat_text (nat i)") auto
  then have "hd (nat_text (nat i)) \<noteq> CHR ''-''" "hd (nat_text (nat i)) \<noteq> CHR ''+''"
    using is_digit_not_sign by blast+
  then show ?thesis
    using False assms by (simp add: Itoa_def ParseInt_def nat_text_value nat_text_digits nat_text_ne)
qed

section \<open>unicode/utf8\<close>

definition RuneError :: nat where "RuneError = 0xFFFD"

definition in_range :: "char \<Rightarrow> nat \<Rightarrow> nat \<Rightarrow> bool" where
  "in_range c lo hi \<longleftrightarrow> lo \<le> chr_code c \<and> chr_code c \<le> hi"

text \<open>\<^verbatim>\<open>utf8.EncodeRune\<close>: a surrogate or a number beyond the last code point is
  written as the replacement character.\<close>

definition EncodeRune :: "nat \<Rightarrow> string" where
  "EncodeRune r0 =
     (let r = (if 0xD800 \<le> r0 \<and> r0 \<le> 0xDFFF \<or> r0 > 0x10FFFF then RuneError else r0) in
      if r < 0x80 then [char_of r]
      else if r < 0x800 then [char_of (0xC0 + r div 64), char_of (0x80 + r mod 64)]
      else if r < 0x10000
      then [char_of (0xE0 + r div 4096), char_of (0x80 + r div 64 mod 64), char_of (0x80 + r mod 64)]
      else [char_of (0xF0 + r div 262144), char_of (0x80 + r div 4096 mod 64),
            char_of (0x80 + r div 64 mod 64), char_of (0x80 + r mod 64)])"

text \<open>
  \<^verbatim>\<open>utf8.DecodeRuneInString\<close>: the first code point and its width. A byte that does
  not begin a valid encoding is \<open>RuneError\<close> of width 1.
\<close>

definition DecodeRune :: "string \<Rightarrow> nat \<times> nat" where
  "DecodeRune s = (case s of [] \<Rightarrow> (RuneError, 0) | b0 # s1 \<Rightarrow>
     let c0 = chr_code b0;
         second = (\<lambda>lo hi. s1 \<noteq> [] \<and> in_range (s1 ! 0) lo hi);
         cont = (\<lambda>k. k < length s1 \<and> in_range (s1 ! k) 0x80 0xBF);
         bits = (\<lambda>k. chr_code (s1 ! k) mod 64)
     in if c0 < 0x80 then (c0, 1)
        else if 0xC2 \<le> c0 \<and> c0 \<le> 0xDF \<and> cont 0 then (c0 mod 32 * 64 + bits 0, 2)
        else if 0xE0 \<le> c0 \<and> c0 \<le> 0xEF \<and>
                second (if c0 = 0xE0 then 0xA0 else 0x80) (if c0 = 0xED then 0x9F else 0xBF) \<and> cont 1
        then (c0 mod 16 * 4096 + bits 0 * 64 + bits 1, 3)
        else if 0xF0 \<le> c0 \<and> c0 \<le> 0xF4 \<and>
                second (if c0 = 0xF0 then 0x90 else 0x80) (if c0 = 0xF4 then 0x8F else 0xBF) \<and> cont 1 \<and> cont 2
        then (c0 mod 8 * 262144 + bits 0 * 4096 + bits 1 * 64 + bits 2, 4)
        else (RuneError, 1))"

definition ascii :: "string \<Rightarrow> bool" where
  "ascii s \<longleftrightarrow> list_all (\<lambda>c. chr_code c < 0x80) s"

lemma ascii_simps [simp]:
  "ascii []" "ascii (c # s) \<longleftrightarrow> chr_code c < 0x80 \<and> ascii s" "ascii (s @ t) \<longleftrightarrow> ascii s \<and> ascii t"
  by (auto simp: ascii_def)

lemma ascii_nat_text: "ascii (nat_text n)"
  using nat_text_digits [of n] by (auto simp: ascii_def is_digit_def list_all_iff)

lemma DecodeRune_ascii: "chr_code c < 0x80 \<Longrightarrow> DecodeRune (c # s) = (chr_code c, 1)"
  by (simp add: DecodeRune_def)

lemma DecodeRune_width: "s \<noteq> [] \<Longrightarrow> 0 < snd (DecodeRune s)"
  by (cases s) (simp_all add: DecodeRune_def Let_def)

lemma EncodeRune_ascii: "r < 0x80 \<Longrightarrow> EncodeRune r = [char_of r]"
  by (simp add: EncodeRune_def)

text \<open>Invalid bytes replaced by the replacement character, as \<^verbatim>\<open>encoding/json\<close> does.\<close>

function to_valid_utf8 :: "string \<Rightarrow> string" where
  "to_valid_utf8 s = (if s = [] then [] else
     (case DecodeRune s of (r, n) \<Rightarrow>
        (if r = RuneError \<and> n = 1 then EncodeRune RuneError else take n s) @ to_valid_utf8 (drop n s)))"
  by pat_completeness auto

termination
proof (relation "measure length", goal_cases)
  case (2 s r n)
  then have "0 < n" using DecodeRune_width [of s] by (cases "DecodeRune s") simp
  then show ?case using 2 by simp
qed simp

declare to_valid_utf8.simps [simp del]

lemma to_valid_utf8_ascii: "ascii s \<Longrightarrow> to_valid_utf8 s = s"
proof (induction s)
  case (Cons c s)
  then show ?case
    by (subst to_valid_utf8.simps) (simp add: DecodeRune_ascii RuneError_def)
qed (subst to_valid_utf8.simps, simp)

end
