(* ===== verification/Serialization.thy ===== *)
theory Serialization
  imports Wsvpn_Prelude
begin

text \<open>
  The choice of a command encoding when a connection is opened: the table of encodings in
  \<^verbatim>\<open>shared/commands/serialize.go\<close>, which is filled on first use, the server's
  side in \<^verbatim>\<open>server/upgraders/util.go\<close> and the client's in
  \<^verbatim>\<open>client/connectors/util.go\<close>, with the parts of Go's
  \<^verbatim>\<open>strings\<close> and \<^verbatim>\<open>net/http\<close> they use.
\<close>

section \<open>The standard library\<close>

text \<open>\<^verbatim>\<open>strings.Split\<close> with a separator of one character.\<close>

fun strings_Split :: "string \<Rightarrow> char \<Rightarrow> string list" where
  "strings_Split [] sep = [[]]"
| "strings_Split (c # cs) sep =
     (if c = sep then [] # strings_Split cs sep
      else (case strings_Split cs sep of [] \<Rightarrow> [[c]] | p # ps \<Rightarrow> (c # p) # ps))"

definition strings_Trim :: "string \<Rightarrow> char \<Rightarrow> string" where
  "strings_Trim s c = rev (dropWhile ((=) c) (rev (dropWhile ((=) c) s)))"

fun strings_Join :: "string list \<Rightarrow> string \<Rightarrow> string" where
  "strings_Join [] sep = []"
| "strings_Join [s] sep = s"
| "strings_Join (s # ss) sep = s @ sep @ strings_Join ss sep"

text \<open>
  \<^verbatim>\<open>strings.ToLower\<close> on ASCII letters. The lower case of no other character is
  one of the letters in an encoding's name.
\<close>

definition char_ToLower :: "char \<Rightarrow> char" where
  "char_ToLower c = (if 65 \<le> (of_char c :: nat) \<and> (of_char c :: nat) \<le> 90
     then char_of ((of_char c :: nat) + 32) else c)"

definition strings_ToLower :: "string \<Rightarrow> string" where
  "strings_ToLower s = map char_ToLower s"

type_synonym http_header = "string \<rightharpoonup> string list"

definition header_Get :: "http_header \<Rightarrow> string \<Rightarrow> string" where
  "header_Get h k = (case h k of Some (v # _) \<Rightarrow> v | _ \<Rightarrow> [])"

definition header_Del :: "http_header \<Rightarrow> string \<Rightarrow> http_header" where
  "header_Del h k = h(k := None)"

definition header_Add :: "http_header \<Rightarrow> string \<Rightarrow> string \<Rightarrow> http_header" where
  "header_Add h k v = h(k \<mapsto> (case h k of Some vs \<Rightarrow> vs | None \<Rightarrow> []) @ [v])"

section \<open>The table of encodings\<close>

definition SerializationTypeInvalid :: int where "SerializationTypeInvalid = 0"

definition SerializationTypeJSON :: int where "SerializationTypeJSON = 1"

text \<open>
  The package variables: the three maps, nil (empty) until
  \<^verbatim>\<open>serializationInit\<close> has run.
\<close>

record ser_state =
  serializationTypeMap :: "(string \<times> int) list"
  serializationTypeReverseMap :: "(int \<times> string) list"
  serializationTypePriorityMap :: "(int \<times> int) list"
  serializationInit :: bool

definition ser_start :: ser_state where
  "ser_start = \<lparr>serializationTypeMap = [], serializationTypeReverseMap = [],
     serializationTypePriorityMap = [], serializationInit = False\<rparr>"

definition addSerializationType :: "int \<Rightarrow> string \<Rightarrow> int \<Rightarrow> ser_state \<Rightarrow> ser_state" where
  "addSerializationType stype name priority st = st\<lparr>
     serializationTypeMap := AList.update name stype (serializationTypeMap st),
     serializationTypeReverseMap := AList.update stype name (serializationTypeReverseMap st),
     serializationTypePriorityMap := AList.update stype priority (serializationTypePriorityMap st)\<rparr>"

definition initSerializationTypeMaps :: "ser_state \<Rightarrow> ser_state" where
  "initSerializationTypeMaps st = addSerializationType SerializationTypeJSON ''json'' 1
     (st\<lparr>serializationTypeMap := [], serializationTypeReverseMap := [], serializationTypePriorityMap := []\<rparr>)"

definition initSerializationTypeMapsOnce :: "ser_state \<Rightarrow> ser_state" where
  "initSerializationTypeMapsOnce st =
     (if serializationInit st then st else (initSerializationTypeMaps st)\<lparr>serializationInit := True\<rparr>)"

definition SerializationTypeToString :: "int \<Rightarrow> ser_state \<Rightarrow> ser_state \<times> string" where
  "SerializationTypeToString stype st = (let st1 = initSerializationTypeMapsOnce st in
     (st1, case map_of (serializationTypeReverseMap st1) stype of None \<Rightarrow> [] | Some name \<Rightarrow> name))"

definition SerializationTypePriority :: "int \<Rightarrow> ser_state \<Rightarrow> ser_state \<times> int" where
  "SerializationTypePriority stype st = (let st1 = initSerializationTypeMapsOnce st in
     (st1, case map_of (serializationTypePriorityMap st1) stype of None \<Rightarrow> 0 | Some p \<Rightarrow> p))"

definition SerializationTypeFromString :: "string \<Rightarrow> ser_state \<Rightarrow> ser_state \<times> int" where
  "SerializationTypeFromString name st = (let st1 = initSerializationTypeMapsOnce st in
     (st1, case map_of (serializationTypeMap st1) (strings_ToLower name) of
        None \<Rightarrow> SerializationTypeInvalid | Some stype \<Rightarrow> stype))"

definition GetSupportedSerializationTypes :: "ser_state \<Rightarrow> int list" where
  "GetSupportedSerializationTypes st = map snd (serializationTypeMap st)"

definition GetSupportedSerializationTypeNames :: "ser_state \<Rightarrow> string list" where
  "GetSupportedSerializationTypeNames st = map fst (serializationTypeMap st)"

section \<open>The client's side\<close>

definition SupportedCommandSerializationsHeaderName :: string where
  "SupportedCommandSerializationsHeaderName = ''Supported-Command-Serializations''"

definition CommandSerializationHeaderName :: string where
  "CommandSerializationHeaderName = ''Command-Serialization''"

definition addSupportedSerializationHeader :: "ser_state \<Rightarrow> http_header \<Rightarrow> http_header" where
  "addSupportedSerializationHeader st header =
     header_Add (header_Del header SupportedCommandSerializationsHeaderName)
       SupportedCommandSerializationsHeaderName
       (strings_Join (GetSupportedSerializationTypeNames st) '', '')"

definition readSerializationType :: "http_header \<Rightarrow> ser_state \<Rightarrow> ser_state \<times> int" where
  "readSerializationType header st =
     (let res = header_Get header CommandSerializationHeaderName in
      if res = [] then (st, SerializationTypeJSON)
      else (case SerializationTypeFromString res st of (st1, stype) \<Rightarrow>
        if stype = SerializationTypeInvalid then (st1, SerializationTypeJSON) else (st1, stype)))"

section \<open>The server's side\<close>

fun best_of :: "string list \<Rightarrow> int \<Rightarrow> int \<Rightarrow> ser_state \<Rightarrow> ser_state \<times> int" where
  "best_of [] bestType bestPriority st = (st, bestType)"
| "best_of (serialization # rest) bestType bestPriority st =
     (case SerializationTypeFromString (strings_Trim serialization CHR '' '') st of (st1, stype) \<Rightarrow>
        if stype = SerializationTypeInvalid then best_of rest bestType bestPriority st1
        else (case SerializationTypePriority stype st1 of (st2, priority) \<Rightarrow>
          if priority > bestPriority then best_of rest stype priority st2
          else best_of rest bestType bestPriority st2))"

definition determineBestSerialization :: "http_header \<Rightarrow> ser_state \<Rightarrow> ser_state \<times> int" where
  "determineBestSerialization header st =
     (let res = header_Get header SupportedCommandSerializationsHeaderName in
      if res = [] then (st, SerializationTypeJSON)
      else best_of (strings_Split res CHR '','') SerializationTypeJSON (-1) st)"

definition addSerializationHeader :: "http_header \<Rightarrow> int \<Rightarrow> ser_state \<Rightarrow> ser_state \<times> http_header" where
  "addSerializationHeader headers serializationType st =
     (case SerializationTypeToString serializationType st of (st1, name) \<Rightarrow>
        (st1, header_Add (header_Del headers CommandSerializationHeaderName) CommandSerializationHeaderName name))"

definition handleHTTPSerializationHeaders ::
  "http_header \<Rightarrow> http_header \<Rightarrow> ser_state \<Rightarrow> (ser_state \<times> http_header) \<times> int" where
  "handleHTTPSerializationHeaders w r st =
     (case determineBestSerialization r st of (st1, serializationType) \<Rightarrow>
        (addSerializationHeader w serializationType st1, serializationType))"

section \<open>What is agreed\<close>

definition ser_ready :: ser_state where
  "ser_ready = \<lparr>serializationTypeMap = [(''json'', 1)], serializationTypeReverseMap = [(1, ''json'')],
     serializationTypePriorityMap = [(1, 1)], serializationInit = True\<rparr>"

text \<open>The two states of the package variables.\<close>

definition ser_ok :: "ser_state \<Rightarrow> bool" where
  "ser_ok st \<longleftrightarrow> st = ser_start \<or> st = ser_ready"

lemma init_once: "ser_ok st \<Longrightarrow> initSerializationTypeMapsOnce st = ser_ready"
  by (auto simp: ser_ok_def ser_start_def ser_ready_def initSerializationTypeMapsOnce_def
      initSerializationTypeMaps_def addSerializationType_def SerializationTypeJSON_def)

lemma ser_ok_ready [simp]: "ser_ok ser_ready"
  by (simp add: ser_ok_def)

lemma from_string:
  "ser_ok st \<Longrightarrow> SerializationTypeFromString name st =
     (ser_ready, if strings_ToLower name = ''json'' then 1 else 0)"
  by (simp add: SerializationTypeFromString_def init_once Let_def)
    (simp add: ser_ready_def SerializationTypeInvalid_def)

lemma priority_json: "ser_ok st \<Longrightarrow> SerializationTypePriority 1 st = (ser_ready, 1)"
  by (simp add: SerializationTypePriority_def init_once Let_def) (simp add: ser_ready_def)

lemma to_string_json: "ser_ok st \<Longrightarrow> SerializationTypeToString 1 st = (ser_ready, ''json'')"
  by (simp add: SerializationTypeToString_def init_once Let_def) (simp add: ser_ready_def)

lemma best_of_json:
  "ser_ok st \<Longrightarrow> \<exists>st'. ser_ok st' \<and> best_of ss 1 p st = (st', 1)"
proof (induction ss arbitrary: p st)
  case (Cons s ss)
  have "ser_ok ser_ready" by simp
  then show ?case
    using Cons by (simp add: from_string priority_json SerializationTypeInvalid_def)
qed simp

text \<open>
  Both ends agree on the encoding of commands: whatever the client's request offers (any list
  of names, or nothing), and whether or not either side has used its table before, the type the
  server uses for the connection is the type the client reads from the server's response, and it
  is one both support.
\<close>

theorem encodings_agree:
  assumes "ser_ok server" and "ser_ok client"
    and "handleHTTPSerializationHeaders w request server = ((server', response), stype)"
  shows "snd (readSerializationType response client) = stype \<and> stype = SerializationTypeJSON"
proof -
  obtain st where st: "ser_ok st" "determineBestSerialization request server = (st, 1)"
    using best_of_json [OF assms(1), of "strings_Split (header_Get request SupportedCommandSerializationsHeaderName) CHR '',''" "-1"] assms(1)
    by (cases "header_Get request SupportedCommandSerializationsHeaderName = []")
      (auto simp: determineBestSerialization_def SerializationTypeJSON_def Let_def)
  then have "stype = 1" and "response = header_Add (header_Del w CommandSerializationHeaderName)
      CommandSerializationHeaderName ''json''"
    using assms(3) by (auto simp: handleHTTPSerializationHeaders_def addSerializationHeader_def to_string_json)
  then show ?thesis
    using assms(2) by (simp add: readSerializationType_def header_Get_def header_Add_def header_Del_def
        from_string strings_ToLower_def char_ToLower_def SerializationTypeJSON_def SerializationTypeInvalid_def)
qed

lemma example_handshake:
  "handleHTTPSerializationHeaders Map.empty (addSupportedSerializationHeader ser_ready Map.empty) ser_ready =
    ((ser_ready, header_Add (header_Del Map.empty CommandSerializationHeaderName)
        CommandSerializationHeaderName ''json''), 1)"
proof -
  have "header_Get (addSupportedSerializationHeader ser_ready Map.empty)
      SupportedCommandSerializationsHeaderName = ''json''"
    by (simp add: header_Get_def addSupportedSerializationHeader_def header_Add_def header_Del_def
        GetSupportedSerializationTypeNames_def ser_ready_def)
  moreover have "best_of [''json''] 1 (- 1) ser_ready = (ser_ready, 1)"
    by (simp add: from_string priority_json strings_Trim_def strings_ToLower_def char_ToLower_def
        SerializationTypeInvalid_def)
  ultimately have "determineBestSerialization (addSupportedSerializationHeader ser_ready Map.empty) ser_ready =
      (ser_ready, 1)"
    by (simp add: determineBestSerialization_def SerializationTypeJSON_def)
  then show ?thesis
    by (simp add: handleHTTPSerializationHeaders_def addSerializationHeader_def to_string_json)
qed

theorem encodings_agree_witness:
  "snd (readSerializationType (header_Add (header_Del Map.empty CommandSerializationHeaderName)
      CommandSerializationHeaderName ''json'') ser_start) = 1 \<and> (1 :: int) = SerializationTypeJSON"
proof (rule encodings_agree [OF _ _ example_handshake])
  show "ser_ok ser_ready" "ser_ok ser_start" by (simp_all add: ser_ok_def)
qed

text \<open>
  The first connection of a client offers no encoding: the functions that list the supported
  encodings are the only ones that do not fill the table first, so a client that has just started
  sends an empty \<^verbatim>\<open>Supported-Command-Serializations\<close> header, and the same client
  lists \<^verbatim>\<open>json\<close> once it has read or named an encoding.
\<close>

theorem first_dial_offers_nothing:
  "header_Get (addSupportedSerializationHeader ser_start h) SupportedCommandSerializationsHeaderName = [] \<and>
   header_Get (addSupportedSerializationHeader (fst (SerializationTypeToString stype ser_start)) h)
     SupportedCommandSerializationsHeaderName = ''json''"
proof -
  have "fst (SerializationTypeToString stype ser_start) = ser_ready"
    using init_once [of ser_start] by (simp add: SerializationTypeToString_def Let_def ser_ok_def)
  then show ?thesis
    by (simp add: addSupportedSerializationHeader_def header_Get_def header_Add_def header_Del_def
        GetSupportedSerializationTypeNames_def ser_start_def ser_ready_def)
qed

end
