(* ===== verification/Net_Text.thy ===== *)
theory Net_Text
  imports Net_IP Go_Text Shared_Base Serialization
begin

text \<open>
  Addresses as text: Go's \<^verbatim>\<open>net.IP.String\<close>, \<^verbatim>\<open>net.IPNet.String\<close>
  and \<^verbatim>\<open>net.ParseCIDR\<close>, for both address families, and on top of them
  \<^verbatim>\<open>ParseVPNNet\<close> of \<^verbatim>\<open>shared/vpn_net.go\<close> and the netmask texts of
  \<^verbatim>\<open>shared/util.go\<close>.
\<close>

unbundle bit_operations_syntax

section \<open>Addresses to text\<close>

definition byte_text :: "u8 \<Rightarrow> string" where
  "byte_text b = nat_text (unat b)"

definition dotted :: "bytes \<Rightarrow> string" where
  "dotted bs = join_with ''.'' (map byte_text bs)"

definition hex_char :: "nat \<Rightarrow> char" where
  "hex_char n = (if n < 10 then char_of (48 + n) else char_of (87 + n))"

fun hex_text :: "nat \<Rightarrow> string" where
  "hex_text n = (if n < 16 then [hex_char n] else hex_text (n div 16) @ [hex_char (n mod 16)])"

declare hex_text.simps [simp del]

fun groups :: "bytes \<Rightarrow> nat list" where
  "groups (a # b # bs) = (unat a * 256 + unat b) # groups bs"
| "groups bs = []"

text \<open>The first longest run of at least two zero groups: where it starts and how long it is.\<close>

fun zero_run :: "nat \<Rightarrow> nat list \<Rightarrow> (nat \<times> nat) option" where
  "zero_run i [] = None"
| "zero_run i (g # gs) =
     (let n = length (takeWhile ((=) 0) (g # gs)) in
      case zero_run (Suc i) gs of
        None \<Rightarrow> if 2 \<le> n then Some (i, n) else None
      | Some (j, m) \<Rightarrow> if m \<le> n then Some (i, n) else Some (j, m))"

definition ipv6_text :: "bytes \<Rightarrow> string" where
  "ipv6_text ip = (let gs = groups ip; txt = (\<lambda>gs. join_with '':'' (map hex_text gs)) in
     case zero_run 0 gs of
       None \<Rightarrow> txt gs
     | Some (i, n) \<Rightarrow> txt (take i gs) @ ''::'' @ txt (drop (i + n) gs))"

definition hex_byte :: "u8 \<Rightarrow> string" where
  "hex_byte b = [hex_char (unat b div 16), hex_char (unat b mod 16)]"

definition IP_String :: "ip \<Rightarrow> string" where
  "IP_String ip =
     (if ip = [] then ''<nil>''
      else case To4 ip of Some p4 \<Rightarrow> dotted p4
        | None \<Rightarrow> if length ip = 16 then ipv6_text ip else CHR ''?'' # concat (map hex_byte ip))"

definition networkNumberAndMask :: "ipnet \<Rightarrow> (bytes \<times> bytes) option" where
  "networkNumberAndMask n =
     (case (case To4 (ipnet_IP n) of Some p4 \<Rightarrow> Some p4
            | None \<Rightarrow> if length (ipnet_IP n) = 16 then Some (ipnet_IP n) else None) of
        None \<Rightarrow> None
      | Some ip \<Rightarrow>
          let m = ipnet_Mask n in
          if length m = 4 then (if length ip = 4 then Some (ip, m) else None)
          else if length m = 16 then Some (ip, if length ip = 4 then drop 12 m else m)
          else None)"

definition IPNet_String :: "ipnet \<Rightarrow> string" where
  "IPNet_String n = (case networkNumberAndMask n of
     None \<Rightarrow> ''<nil>''
   | Some (nn, m) \<Rightarrow> (case simpleMaskLength m of
       None \<Rightarrow> IP_String nn @ ''/'' @ concat (map hex_byte m)
     | Some l \<Rightarrow> IP_String nn @ ''/'' @ nat_text l))"

definition IPMaskGetNetMask :: "bytes \<Rightarrow> string" where
  "IPMaskGetNetMask m = IP_String m"

definition IPNetGetNetMask :: "ipnet \<Rightarrow> string" where
  "IPNetGetNetMask n = IPMaskGetNetMask (ipnet_Mask n)"

definition GetNetmask :: "VPNNet \<Rightarrow> string" where
  "GetNetmask r = IPNetGetNetMask (vn_ipNet r)"

section \<open>Text to addresses\<close>

definition parse_field :: "string \<Rightarrow> u8 option" where
  "parse_field s =
     (if s \<noteq> [] \<and> list_all is_digit s \<and> (hd s = CHR ''0'' \<longrightarrow> tl s = []) \<and> digits_value s \<le> 255
      then Some (word_of_nat (digits_value s)) else None)"

fun parse_fields :: "string list \<Rightarrow> bytes option" where
  "parse_fields [] = Some []"
| "parse_fields (s # ss) = (case parse_field s of None \<Rightarrow> None
     | Some b \<Rightarrow> map_option (Cons b) (parse_fields ss))"

definition parseIPv4 :: "string \<Rightarrow> bytes option" where
  "parseIPv4 s = (let fs = strings_Split s CHR ''.'' in if length fs = 4 then parse_fields fs else None)"

definition hex_digit_value :: "char \<Rightarrow> nat option" where
  "hex_digit_value c = (let n = chr_code c in
     if 48 \<le> n \<and> n \<le> 57 then Some (n - 48)
     else if 97 \<le> n \<and> n \<le> 102 then Some (n - 87)
     else if 65 \<le> n \<and> n \<le> 70 then Some (n - 55) else None)"

definition is_hex :: "char \<Rightarrow> bool" where
  "is_hex c \<longleftrightarrow> hex_digit_value c \<noteq> None"

definition group_value :: "string \<Rightarrow> nat" where
  "group_value s = foldl (\<lambda>n c. n * 16 + the (hex_digit_value c)) 0 s"

text \<open>
  The loop over the groups of an IPv6 address: \<open>k\<close> groups may still come, \<open>acc\<close> is
  what has been read and \<open>ellipsis\<close> where the \<^verbatim>\<open>::\<close> was.
\<close>

fun parse_groups :: "nat \<Rightarrow> string \<Rightarrow> bytes \<Rightarrow> nat option \<Rightarrow> (bytes \<times> nat option) option" where
  "parse_groups 0 s acc ellipsis = (if s = [] then Some (acc, ellipsis) else None)"
| "parse_groups (Suc k) s acc ellipsis =
     (let h = takeWhile is_hex s; rest = dropWhile is_hex s in
      if h = [] \<or> length h > 4 then None
      else if rest \<noteq> [] \<and> hd rest = CHR ''.'' then
        (if ellipsis = None \<and> length acc \<noteq> 12 then None
         else if length acc + 4 > 16 then None
         else map_option (\<lambda>p4. (acc @ p4, ellipsis)) (parseIPv4 s))
      else
        let acc1 = acc @ [word_of_nat (group_value h div 256), word_of_nat (group_value h mod 256)] in
        if rest = [] then Some (acc1, ellipsis)
        else if hd rest \<noteq> CHR '':'' \<or> tl rest = [] then None
        else if hd (tl rest) = CHR '':'' then
          (if ellipsis \<noteq> None then None
           else if tl (tl rest) = [] then Some (acc1, Some (length acc1))
           else parse_groups k (tl (tl rest)) acc1 (Some (length acc1)))
        else parse_groups k (tl rest) acc1 ellipsis)"

definition expand_ellipsis :: "bytes \<times> nat option \<Rightarrow> bytes option" where
  "expand_ellipsis r = (case r of
     (acc, None) \<Rightarrow> if length acc = 16 then Some acc else None
   | (acc, Some e) \<Rightarrow> if length acc < 16 then Some (take e acc @ replicate (16 - length acc) 0 @ drop e acc) else None)"

definition parseIPv6 :: "string \<Rightarrow> bytes option" where
  "parseIPv6 s =
     (case (if take 2 s = ''::'' then (if length s = 2 then Some ([], Some 0) else parse_groups 8 (drop 2 s) [] (Some 0))
            else parse_groups 8 s [] None) of
        None \<Rightarrow> None | Some r \<Rightarrow> expand_ellipsis r)"

text \<open>
  \<^verbatim>\<open>netip.ParseAddr\<close>, without zones, which the caller rejects: the first of the
  characters \<^verbatim>\<open>.\<close>, \<^verbatim>\<open>:\<close> and \<^verbatim>\<open>%\<close> decides.
\<close>

definition ParseAddr :: "string \<Rightarrow> bytes option" where
  "ParseAddr s = (case dropWhile (\<lambda>c. c \<notin> set ''.:%'') s of
     [] \<Rightarrow> None
   | c # _ \<Rightarrow> if c = CHR ''.'' then parseIPv4 s
     else if c = CHR '':'' \<and> CHR ''%'' \<notin> set s then parseIPv6 s else None)"

definition CIDRMask :: "nat \<Rightarrow> nat \<Rightarrow> bytes" where
  "CIDRMask ones bits =
     (if (bits = 32 \<or> bits = 128) \<and> ones \<le> bits
      then map (\<lambda>i. if 8 * i + 8 \<le> ones then 0xFF
        else if 8 * i \<ge> ones then 0 else word_of_nat (256 - 2 ^ (8 - (ones - 8 * i)))) [0..<bits div 8]
      else [])"

text \<open>\<^verbatim>\<open>dtoi\<close>: a decimal number below 0xFFFFFF that fills the text.\<close>

definition dtoi :: "string \<Rightarrow> nat option" where
  "dtoi s = (if s \<noteq> [] \<and> list_all is_digit s \<and> digits_value s < 0xFFFFFF then Some (digits_value s) else None)"

definition ParseCIDR :: "string \<Rightarrow> go_error + ip \<times> ipnet" where
  "ParseCIDR s =
     (let err = Inl (GoErr (''invalid CIDR address: '' @ s));
          addr = takeWhile (\<lambda>c. c \<noteq> CHR ''/'') s;
          rest = dropWhile (\<lambda>c. c \<noteq> CHR ''/'') s
      in case rest of [] \<Rightarrow> err | _ # ones \<Rightarrow>
        (case (ParseAddr addr, dtoi ones) of
           (Some ip, Some n) \<Rightarrow>
             if n > 8 * length ip then err
             else let m = CIDRMask n (8 * length ip) in
               Inr (if length ip = 4 then v4InV6Prefix @ ip else ip,
                    \<lparr>ipnet_IP = map2 (AND) ip m, ipnet_Mask = m\<rparr>)
         | _ \<Rightarrow> err))"

definition ParseVPNNet :: "string \<Rightarrow> go_error + VPNNet" where
  "ParseVPNNet rNetStr = (case ParseCIDR rNetStr of
     Inl err \<Rightarrow> Inl err
   | Inr (ip, ipNet) \<Rightarrow> Inr \<lparr>vn_ip = ip, vn_ipNet = ipNet, vn_str = rNetStr\<rparr>)"

section \<open>The round trip of an assigned address\<close>

lemma strings_Split_no_sep: "sep \<notin> set s \<Longrightarrow> strings_Split s sep = [s]"
  by (induction s) auto

lemma strings_Split_append:
  "sep \<notin> set s \<Longrightarrow> strings_Split (s @ sep # rest) sep = s # strings_Split rest sep"
  by (induction s) auto

lemma strings_Split_join:
  "ss \<noteq> [] \<Longrightarrow> (\<forall>s\<in>set ss. sep \<notin> set s) \<Longrightarrow> strings_Split (join_with [sep] ss) sep = ss"
  by (induction ss) (auto simp: join_with_Cons strings_Split_no_sep strings_Split_append)

lemma nat_text_chars: "c \<in> set (nat_text n) \<Longrightarrow> is_digit c"
  using nat_text_digits [of n] by (simp add: list_all_iff)

lemma parse_field_byte_text: "parse_field (byte_text b) = Some b"
proof -
  have z: "hd (nat_text n) = CHR ''0'' \<longrightarrow> tl (nat_text n) = []" for n
  proof (cases "n = 0")
    case True
    then show ?thesis by (subst nat_text.simps) simp
  qed (simp add: nat_text_hd)
  show ?thesis
    using unat_u8_bound [of b] z
    by (simp add: parse_field_def byte_text_def nat_text_ne nat_text_digits nat_text_value word_unat_eq_iff)
qed

lemma parse_fields_byte_text: "parse_fields (map byte_text bs) = Some bs"
  by (induction bs) (simp_all add: parse_field_byte_text)

lemma digit_not: "is_digit c \<Longrightarrow> c \<notin> set ''.:%/''"
  by (auto simp: is_digit_def)

lemma byte_text_no: "c \<in> set ''.:%/'' \<Longrightarrow> c \<notin> set (byte_text b)"
  using nat_text_chars digit_not unfolding byte_text_def by blast

lemma parse_dotted: "length bs = 4 \<Longrightarrow> parseIPv4 (dotted bs) = Some bs"
proof -
  assume l: "length bs = 4"
  have "strings_Split (dotted bs) CHR ''.'' = map byte_text bs"
    unfolding dotted_def using l by (intro strings_Split_join) (auto simp: byte_text_no)
  then show ?thesis using l by (simp add: parseIPv4_def parse_fields_byte_text)
qed

lemma dotted_chars: "set (dotted bs) \<subseteq> insert CHR ''.'' (Collect is_digit)"
proof -
  have "set (join_with ''.'' (map byte_text bs)) \<subseteq> insert CHR ''.'' (Collect is_digit)"
    by (induction bs) (auto simp: join_with_Cons byte_text_def dest: nat_text_chars)
  then show ?thesis by (simp add: dotted_def)
qed

lemma ParseAddr_dotted:
  assumes "length bs = 4"
  shows "ParseAddr (dotted bs) = Some bs"
proof -
  obtain b bs' where bs: "bs = b # bs'" "bs' \<noteq> []" using assms by (cases bs rule: remdups_adj.cases) auto
  have d: "dotted bs = byte_text b @ CHR ''.'' # dotted bs'"
    using bs by (simp add: dotted_def join_with_Cons)
  have "dropWhile (\<lambda>c. c \<notin> set ''.:%'') (byte_text b @ CHR ''.'' # dotted bs') = CHR ''.'' # dotted bs'"
    by (subst dropWhile_append2) (auto simp: byte_text_no)
  then show ?thesis using parse_dotted [OF assms] unfolding ParseAddr_def d by simp
qed

lemma digits_value_bound: "dtoi (nat_text n) = (if n < 0xFFFFFF then Some n else None)"
  by (simp add: dtoi_def nat_text_ne nat_text_digits nat_text_value)

text \<open>The string that the server sends as a client's address.\<close>

definition remoteNetStr :: "ip \<Rightarrow> int \<Rightarrow> string" where
  "remoteNetStr ipClient prefix = IP_String ipClient @ ''/'' @ Itoa prefix"

lemma ParseCIDR_remoteNetStr:
  assumes "length ipClient = 4" and "0 \<le> prefix" and "prefix \<le> 32"
  shows "ParseCIDR (remoteNetStr ipClient prefix) = Inr (v4InV6Prefix @ ipClient,
    \<lparr>ipnet_IP = map2 (AND) ipClient (CIDRMask (nat prefix) 32), ipnet_Mask = CIDRMask (nat prefix) 32\<rparr>)"
proof -
  have s: "remoteNetStr ipClient prefix = dotted ipClient @ CHR ''/'' # nat_text (nat prefix)"
    using assms by (auto simp: remoteNetStr_def IP_String_def To4_def Itoa_def)
  have no: "\<forall>c\<in>set (dotted ipClient). c \<noteq> CHR ''/''"
    using dotted_chars [of ipClient] by (auto simp: is_digit_def)
  have "takeWhile (\<lambda>c. c \<noteq> CHR ''/'') (remoteNetStr ipClient prefix) = dotted ipClient"
    "dropWhile (\<lambda>c. c \<noteq> CHR ''/'') (remoteNetStr ipClient prefix) = CHR ''/'' # nat_text (nat prefix)"
    unfolding s using no by (simp_all add: takeWhile_append2 dropWhile_append2)
  moreover have "nat prefix \<le> 32" "nat prefix < 0xFFFFFF" using assms by simp_all
  ultimately show ?thesis
    using assms(1) by (simp add: ParseCIDR_def ParseAddr_dotted digits_value_bound Let_def)
qed

lemma ParseVPNNet_remoteNetStr:
  assumes "length ipClient = 4" and "0 \<le> prefix" and "prefix \<le> 32"
  shows "ParseVPNNet (remoteNetStr ipClient prefix) = Inr \<lparr>vn_ip = v4InV6Prefix @ ipClient,
    vn_ipNet = \<lparr>ipnet_IP = map2 (AND) ipClient (CIDRMask (nat prefix) 32), ipnet_Mask = CIDRMask (nat prefix) 32\<rparr>,
    vn_str = remoteNetStr ipClient prefix\<rparr>"
  by (simp add: ParseVPNNet_def ParseCIDR_remoteNetStr [OF assms])

text \<open>
  The client gets the address the server assigned: the text of an IPv4 address and a prefix
  length, as the server puts it into the \<^verbatim>\<open>init\<close> command, is read back by
  \<^verbatim>\<open>ParseVPNNet\<close> as the same address, with the mask of that length and the
  subnet that contains the address.
\<close>

theorem assigned_address_roundtrip:
  assumes "length ipClient = 4" and "0 \<le> prefix" and "prefix \<le> 32"
  shows "\<exists>net. ParseVPNNet (remoteNetStr ipClient prefix) = Inr net \<and> To4 (GetRawIP net) = Some ipClient \<and>
    ip_Equal ipClient (GetRawIP net) \<and> ipnet_Mask (GetSubnet net) = CIDRMask (nat prefix) 32 \<and>
    ipnet_IP (GetSubnet net) = map2 (AND) ipClient (CIDRMask (nat prefix) 32) \<and>
    GetRaw net = remoteNetStr ipClient prefix"
  using assms(1) by (simp add: ParseVPNNet_remoteNetStr [OF assms] GetRawIP_def GetSubnet_def GetRaw_def To4_def
      v4InV6Prefix_def ip_Equal_def)

theorem assigned_address_roundtrip_witness:
  "\<exists>net. ParseVPNNet (remoteNetStr [10, 0, 0, 2] 24) = Inr net \<and> To4 (GetRawIP net) = Some [10, 0, 0, 2] \<and>
    ip_Equal [10, 0, 0, 2] (GetRawIP net) \<and> ipnet_Mask (GetSubnet net) = CIDRMask (nat 24) 32 \<and>
    ipnet_IP (GetSubnet net) = map2 (AND) [10, 0, 0, 2] (CIDRMask (nat 24) 32) \<and>
    GetRaw net = remoteNetStr [10, 0, 0, 2] 24"
  by (rule assigned_address_roundtrip) simp_all

lemma cidr_mask_24: "CIDRMask 24 32 = [255, 255, 255, 0]"
  by (simp add: CIDRMask_def upt_rec)

end
