(* ===== verification/Iface_Config.thy ===== *)
theory Iface_Config
  imports Net_Text
begin

text \<open>
  Network interfaces (\<^verbatim>\<open>shared/iface\<close>): the wrapper around the TUN/TAP driver
  and the commands that each platform runs to bring an interface up, give it an address and add
  routes (\<^verbatim>\<open>ifce_linux.go\<close>, \<^verbatim>\<open>ifce_darwin.go\<close>,
  \<^verbatim>\<open>ifce_windows.go\<close>, of which the build picks one). A nil
  \<^verbatim>\<open>net.IP\<close> is the empty list. \<^verbatim>\<open>InitializeWater\<close> is in \<open>Program_Start\<close>.
\<close>

section \<open>State\<close>

datatype platform = Linux | Darwin | Windows

text \<open>The fields of \<^verbatim>\<open>water.Config\<close> that the code sets.\<close>

record WaterConfig =
  wc_DeviceType :: int
  wc_Name :: string
  wc_Persist :: bool
  wc_InterfaceName :: string
  wc_ComponentID :: string

text \<open>
  The driver and the operating system, beside those of \<open>ext\<close>: opening an interface, the
  first free name with a prefix, whether an interface is a TUN device, the index of an interface,
  and reading a packet into a buffer of a given size.
\<close>

record 'e iface_ext =
  water_New :: "'e \<Rightarrow> WaterConfig \<Rightarrow> 'e \<times> (string + ifid)"
  water_FindLowestNetworkInterfaceByPrefix :: "'e \<Rightarrow> string \<Rightarrow> 'e \<times> string"
  if_IsTUN :: "ifid \<Rightarrow> bool"
  net_InterfaceByName :: "'e \<Rightarrow> ifid \<Rightarrow> 'e \<times> (string + int)"
  if_Read :: "'e \<Rightarrow> ifid \<Rightarrow> int \<Rightarrow> 'e \<times> (string + bytes)"

record WaterInterfaceWrapper =
  wi_Interface :: ifid
  wi_netInterface :: "int option"

definition NewInterfaceWrapper :: "ifid \<Rightarrow> WaterInterfaceWrapper" where
  "NewInterfaceWrapper ifc = \<lparr>wi_Interface = ifc, wi_netInterface = None\<rparr>"

record InterfaceConfig =
  ifc_Name :: string
  ifc_Persist :: bool
  ifc_ComponentID :: string
  ifc_OneInterfacePerConnection :: bool

definition wi_Close :: "('e, 'l) ext \<Rightarrow> 'e \<Rightarrow> WaterInterfaceWrapper
    \<Rightarrow> 'e \<times> WaterInterfaceWrapper \<times> go_error option" where
  "wi_Close x e v = (case if_Close x e (wi_Interface v) of
     (e', err) \<Rightarrow> (e', v\<lparr>wi_netInterface := None\<rparr>, map_option GoErr err))"

definition GetNetInterface :: "'e iface_ext \<Rightarrow> 'e \<Rightarrow> WaterInterfaceWrapper
    \<Rightarrow> 'e \<times> WaterInterfaceWrapper \<times> (go_error + int)" where
  "GetNetInterface io e v = (case wi_netInterface v of
     Some n \<Rightarrow> (e, v, Inr n)
   | None \<Rightarrow> (case net_InterfaceByName io e (wi_Interface v) of
       (e', Inl err) \<Rightarrow> (e', v, Inl (GoErr err))
     | (e', Inr n) \<Rightarrow> (e', v\<lparr>wi_netInterface := Some n\<rparr>, Inr n)))"

definition wi_SetMTU :: "('e, 'l) ext \<Rightarrow> 'e \<Rightarrow> WaterInterfaceWrapper \<Rightarrow> int \<Rightarrow> 'e \<times> go_error option" where
  "wi_SetMTU x e v mtu = (case if_SetMTU x e (wi_Interface v) mtu of (e', err) \<Rightarrow> (e', map_option GoErr err))"

section \<open>Opening\<close>

definition getInterfaceNameOrPrefix :: "'e iface_ext \<Rightarrow> 'e \<Rightarrow> InterfaceConfig \<Rightarrow> 'e \<times> string" where
  "getInterfaceNameOrPrefix io e ifaceConfig =
     (if ifc_OneInterfacePerConnection ifaceConfig \<and> ifc_Name ifaceConfig \<noteq> []
      then water_FindLowestNetworkInterfaceByPrefix io e (ifc_Name ifaceConfig)
      else (e, ifc_Name ifaceConfig))"

definition GetPlatformSpecifics_linux :: "'e iface_ext \<Rightarrow> 'e \<Rightarrow> WaterConfig \<Rightarrow> InterfaceConfig \<Rightarrow> 'e \<times> WaterConfig" where
  "GetPlatformSpecifics_linux io e config ifaceConfig =
     (case getInterfaceNameOrPrefix io e ifaceConfig of (e', setName) \<Rightarrow>
        (e', (if setName \<noteq> [] then config\<lparr>wc_Name := setName\<rparr> else config)
               \<lparr>wc_Persist := ifc_Persist ifaceConfig\<rparr>))"

definition GetPlatformSpecifics_darwin :: "'e iface_ext \<Rightarrow> 'e \<Rightarrow> WaterConfig \<Rightarrow> InterfaceConfig \<Rightarrow> 'e \<times> WaterConfig" where
  "GetPlatformSpecifics_darwin io e config ifaceConfig =
     (case getInterfaceNameOrPrefix io e ifaceConfig of (e', setName) \<Rightarrow>
        (e', if setName \<noteq> [] then config\<lparr>wc_Name := setName\<rparr> else config))"

definition GetPlatformSpecifics_windows :: "'e iface_ext \<Rightarrow> 'e \<Rightarrow> WaterConfig \<Rightarrow> InterfaceConfig \<Rightarrow> 'e \<times> WaterConfig" where
  "GetPlatformSpecifics_windows io e config ifaceConfig =
     (case getInterfaceNameOrPrefix io e ifaceConfig of (e', setName) \<Rightarrow>
        (e', (if setName \<noteq> [] then config\<lparr>wc_InterfaceName := setName\<rparr> else config)
               \<lparr>wc_ComponentID := ifc_ComponentID ifaceConfig\<rparr>))"

primrec GetPlatformSpecifics :: "platform \<Rightarrow> 'e iface_ext \<Rightarrow> 'e \<Rightarrow> WaterConfig \<Rightarrow> InterfaceConfig \<Rightarrow> 'e \<times> WaterConfig" where
  "GetPlatformSpecifics Linux = GetPlatformSpecifics_linux"
| "GetPlatformSpecifics Darwin = GetPlatformSpecifics_darwin"
| "GetPlatformSpecifics Windows = GetPlatformSpecifics_windows"

definition VerifyPlatformFlags_windows :: "InterfaceConfig \<Rightarrow> go_error option" where
  "VerifyPlatformFlags_windows ifaceConfig =
     (if ifc_OneInterfacePerConnection ifaceConfig
      then Some (GoErr ''windows can not support one-interface-per-connection'') else None)"

definition VerifyPlatformFlags :: "platform \<Rightarrow> InterfaceConfig \<Rightarrow> go_error option" where
  "VerifyPlatformFlags p ifaceConfig =
     (case p of Windows \<Rightarrow> VerifyPlatformFlags_windows ifaceConfig | _ \<Rightarrow> None)"

section \<open>Routes\<close>

definition inetFamily :: "ip \<Rightarrow> string" where
  "inetFamily i = (if To4 i = None then ''inet6'' else ''inet'')"

definition AddIPRoute_linux :: "('e, 'l) ext \<Rightarrow> 'e \<Rightarrow> ipnet \<Rightarrow> ip \<Rightarrow> 'e \<times> go_error option" where
  "AddIPRoute_linux x e ipNet gateway =
     ExecCmd x e ''ip'' [''route'', ''add'', IPNet_String ipNet, ''via'', IP_String gateway]"

definition AddIPRoute_darwin :: "('e, 'l) ext \<Rightarrow> 'e \<Rightarrow> ipnet \<Rightarrow> ip \<Rightarrow> 'e \<times> go_error option" where
  "AddIPRoute_darwin x e ipNet gateway =
     ExecCmd x e ''route'' [''add'', ''-'' @ inetFamily (ipnet_IP ipNet), ''-net'', IPNet_String ipNet,
       IP_String gateway]"

definition AddIPRoute_windows :: "('e, 'l) ext \<Rightarrow> 'e iface_ext \<Rightarrow> 'e \<Rightarrow> WaterInterfaceWrapper \<Rightarrow> ipnet \<Rightarrow> ip
    \<Rightarrow> 'e \<times> WaterInterfaceWrapper \<times> go_error option" where
  "AddIPRoute_windows x io e v ipNet gateway = (case GetNetInterface io e v of
     (e1, v1, Inl err) \<Rightarrow> (e1, v1, Some err)
   | (e1, v1, Inr index) \<Rightarrow>
       (case ExecCmd x e1 ''route'' [''ADD'', IPNet_String ipNet, IP_String gateway, ''IF'', Itoa index] of
          (e2, err) \<Rightarrow> (e2, v1, err)))"

definition AddIPRoute :: "platform \<Rightarrow> ('e, 'l) ext \<Rightarrow> 'e iface_ext \<Rightarrow> 'e \<Rightarrow> WaterInterfaceWrapper \<Rightarrow> ipnet \<Rightarrow> ip
    \<Rightarrow> 'e \<times> WaterInterfaceWrapper \<times> go_error option" where
  "AddIPRoute p x io e v ipNet gateway = (case p of
     Linux \<Rightarrow> (case AddIPRoute_linux x e ipNet gateway of (e', err) \<Rightarrow> (e', v, err))
   | Darwin \<Rightarrow> (case AddIPRoute_darwin x e ipNet gateway of (e', err) \<Rightarrow> (e', v, err))
   | Windows \<Rightarrow> AddIPRoute_windows x io e v ipNet gateway)"

definition AddInterfaceRoute_linux :: "('e, 'l) ext \<Rightarrow> 'e \<Rightarrow> WaterInterfaceWrapper \<Rightarrow> ipnet \<Rightarrow> 'e \<times> go_error option" where
  "AddInterfaceRoute_linux x e v ipNet =
     ExecCmd x e ''ip'' [''route'', ''add'', IPNet_String ipNet, ''dev'', wi_Interface v]"

definition AddInterfaceRoute_darwin :: "('e, 'l) ext \<Rightarrow> 'e \<Rightarrow> WaterInterfaceWrapper \<Rightarrow> ipnet \<Rightarrow> 'e \<times> go_error option" where
  "AddInterfaceRoute_darwin x e v ipNet =
     ExecCmd x e ''route'' [''add'', ''-'' @ inetFamily (ipnet_IP ipNet), ''-net'', IPNet_String ipNet,
       ''-interface'', wi_Interface v]"

definition IPv4zero :: ip where "IPv4zero = v4InV6Prefix @ [0, 0, 0, 0]"

definition IPv6zero :: ip where "IPv6zero = replicate 16 0"

definition AddInterfaceRoute_windows :: "('e, 'l) ext \<Rightarrow> 'e iface_ext \<Rightarrow> 'e \<Rightarrow> WaterInterfaceWrapper \<Rightarrow> ipnet
    \<Rightarrow> 'e \<times> WaterInterfaceWrapper \<times> go_error option" where
  "AddInterfaceRoute_windows x io e v ipNet =
     AddIPRoute_windows x io e v ipNet (if To4 (ipnet_IP ipNet) \<noteq> None then IPv4zero else IPv6zero)"

definition AddInterfaceRoute :: "platform \<Rightarrow> ('e, 'l) ext \<Rightarrow> 'e iface_ext \<Rightarrow> 'e \<Rightarrow> WaterInterfaceWrapper \<Rightarrow> ipnet
    \<Rightarrow> 'e \<times> WaterInterfaceWrapper \<times> go_error option" where
  "AddInterfaceRoute p x io e v ipNet = (case p of
     Linux \<Rightarrow> (case AddInterfaceRoute_linux x e v ipNet of (e', err) \<Rightarrow> (e', v, err))
   | Darwin \<Rightarrow> (case AddInterfaceRoute_darwin x e v ipNet of (e', err) \<Rightarrow> (e', v, err))
   | Windows \<Rightarrow> AddInterfaceRoute_windows x io e v ipNet)"

text \<open>An error of the route is logged and dropped.\<close>

definition addPeerRoute :: "platform \<Rightarrow> ('e, 'l) ext \<Rightarrow> 'e iface_ext \<Rightarrow> 'e \<Rightarrow> WaterInterfaceWrapper \<Rightarrow> int \<Rightarrow> ip
    \<Rightarrow> 'e \<times> WaterInterfaceWrapper \<times> go_error option" where
  "addPeerRoute p x io e v ipNetSize ipPeer =
     (let ipPeer' = (case To4 ipPeer of Some v4 \<Rightarrow> v4 | None \<Rightarrow> ipPeer) in
      if ipNetSize \<noteq> 8 * int (length ipPeer') then (e, v, None)
      else (case AddInterfaceRoute p x io e v
                   \<lparr>ipnet_IP = ipPeer', ipnet_Mask = CIDRMask (nat ipNetSize) (nat ipNetSize)\<rparr> of
              (e', v', _) \<Rightarrow> (e', v', None)))"

definition addSubnetRoute :: "platform \<Rightarrow> ('e, 'l) ext \<Rightarrow> 'e iface_ext \<Rightarrow> 'e \<Rightarrow> WaterInterfaceWrapper \<Rightarrow> int
    \<Rightarrow> VPNNet option \<Rightarrow> ip \<Rightarrow> 'e \<times> WaterInterfaceWrapper \<times> go_error option" where
  "addSubnetRoute p x io e v ipNetSize ipNet ipPeer = (case ipNet of
     None \<Rightarrow> addPeerRoute p x io e v ipNetSize ipPeer
   | Some net \<Rightarrow> (case AddInterfaceRoute p x io e v (GetSubnet net) of (e', v', _) \<Rightarrow> (e', v', None)))"

section \<open>Configuring\<close>

text \<open>An address that may be nil.\<close>

definition nil_ip :: "ip option \<Rightarrow> ip" where
  "nil_ip i = (case i of None \<Rightarrow> [] | Some a \<Rightarrow> a)"

definition splitSubnet :: "VPNNet option \<Rightarrow> ip \<Rightarrow> int \<times> string" where
  "splitSubnet ipNet ipLocal =
     (let ipNetSize = (case ipNet of None \<Rightarrow> 8 * int (length ipLocal) | Some net \<Rightarrow> GetSize net)
      in (ipNetSize, IP_String ipLocal @ ''/'' @ Itoa ipNetSize))"

definition Configure_linux :: "('e, 'l) ext \<Rightarrow> 'e iface_ext \<Rightarrow> 'e \<Rightarrow> WaterInterfaceWrapper \<Rightarrow> ip \<Rightarrow> VPNNet option \<Rightarrow> ip
    \<Rightarrow> 'e \<times> WaterInterfaceWrapper \<times> go_error option" where
  "Configure_linux x io e v ipLocal ipNet ipPeer =
     (let name = wi_Interface v in
      case ExecCmd x e ''ip'' [''link'', ''set'', ''dev'', name, ''up''] of
        (e1, Some err) \<Rightarrow> (e1, v, Some err)
      | (e1, None) \<Rightarrow>
          if ipLocal = [] then (e1, v, None)
          else (case splitSubnet ipNet ipLocal of (ipNetSize, ipLocalCidr) \<Rightarrow>
            (case (case ExecCmd x e1 ''ip'' [''addr'', ''add'', ''dev'', name, ipLocalCidr, ''peer'', IP_String ipPeer] of
                     (e2, None) \<Rightarrow> (e2, None)
                   | (e2, Some _) \<Rightarrow> ExecCmd x e2 ''ip'' [''addr'', ''add'', ''dev'', name, ipLocalCidr]) of
               (e3, Some err) \<Rightarrow> (e3, v, Some err)
             | (e3, None) \<Rightarrow> addSubnetRoute Linux x io e3 v ipNetSize ipNet ipPeer)))"

definition Configure_darwin :: "('e, 'l) ext \<Rightarrow> 'e iface_ext \<Rightarrow> 'e \<Rightarrow> WaterInterfaceWrapper \<Rightarrow> ip \<Rightarrow> VPNNet option \<Rightarrow> ip
    \<Rightarrow> 'e \<times> WaterInterfaceWrapper \<times> go_error option" where
  "Configure_darwin x io e v ipLocal ipNet ipPeer =
     (let name = wi_Interface v in
      if ipLocal = [] then (case ExecCmd x e ''ifconfig'' [name, ''up''] of (e', err) \<Rightarrow> (e', v, err))
      else (case splitSubnet ipNet ipLocal of (ipNetSize, ipLocalCidr) \<Rightarrow>
        let inetType = inetFamily ipLocal in
        case (if if_IsTUN io name \<and> inetType = ''inet''
              then ExecCmd x e ''ifconfig'' [name, inetType, ipLocalCidr, IP_String ipPeer, ''up'']
              else ExecCmd x e ''ifconfig'' [name, inetType, ipLocalCidr, ''up'']) of
          (e1, Some err) \<Rightarrow> (e1, v, Some err)
        | (e1, None) \<Rightarrow> addSubnetRoute Darwin x io e1 v ipNetSize ipNet ipPeer))"

definition Configure_windows :: "('e, 'l) ext \<Rightarrow> 'e iface_ext \<Rightarrow> 'e \<Rightarrow> WaterInterfaceWrapper \<Rightarrow> ip \<Rightarrow> VPNNet option \<Rightarrow> ip
    \<Rightarrow> 'e \<times> WaterInterfaceWrapper \<times> go_error option" where
  "Configure_windows x io e v ipLocal ipNet ipPeer =
     (let name = wi_Interface v in
      if ipLocal = [] then
        (case ExecCmd x e ''netsh'' [''interface'', ''ip'', ''set'', ''address'', ''source=dhcp'', ''name='' @ name] of
           (e', err) \<Rightarrow> (e', v, err))
      else
        let ipLocal' = (case To4 ipLocal of Some v4 \<Rightarrow> v4 | None \<Rightarrow> ipLocal);
            ipNetSize = fst (splitSubnet ipNet ipLocal')
        in case (if To4 ipLocal \<noteq> None
              then ExecCmd x e ''netsh'' [''interface'', ''ipv4'', ''set'', ''address'', ''store=active'',
                     ''source=static'', ''gateway=none'', ''addr='' @ IP_String ipLocal', ''name='' @ name,
                     ''mask='' @ IPMaskGetNetMask (CIDRMask (nat ipNetSize) (8 * length ipLocal'))]
              else ExecCmd x e ''netsh'' [''interface'', ''ipv6'', ''set'', ''address'', ''store=active'',
                     ''addr='' @ IP_String ipLocal', ''interface='' @ name]) of
          (e1, Some err) \<Rightarrow> (e1, v, Some err)
        | (e1, None) \<Rightarrow> addSubnetRoute Windows x io e1 v ipNetSize ipNet ipPeer)"

primrec Configure :: "platform \<Rightarrow> ('e, 'l) ext \<Rightarrow> 'e iface_ext \<Rightarrow> 'e \<Rightarrow> WaterInterfaceWrapper \<Rightarrow> ip
    \<Rightarrow> VPNNet option \<Rightarrow> ip \<Rightarrow> 'e \<times> WaterInterfaceWrapper \<times> go_error option" where
  "Configure Linux = Configure_linux"
| "Configure Darwin = Configure_darwin"
| "Configure Windows = Configure_windows"

section \<open>Lemmas\<close>

text \<open>No operation changes which interface a wrapper stands for.\<close>

named_theorems iface_kept \<open>the interface of a wrapper after an operation\<close>

lemma GetNetInterface_kept [iface_kept]: "GetNetInterface io e v = (e', v', r) \<Longrightarrow> wi_Interface v' = wi_Interface v"
  by (auto simp: GetNetInterface_def split: option.splits prod.splits sum.splits)

lemma AddIPRoute_windows_kept [iface_kept]:
  "AddIPRoute_windows x io e v n g = (e', v', err) \<Longrightarrow> wi_Interface v' = wi_Interface v"
  by (auto simp: AddIPRoute_windows_def dest: iface_kept split: prod.splits sum.splits)

lemma AddIPRoute_kept [iface_kept]:
  "AddIPRoute p x io e v n g = (e', v', err) \<Longrightarrow> wi_Interface v' = wi_Interface v"
  by (auto simp: AddIPRoute_def dest: iface_kept split: platform.splits prod.splits)

lemma AddInterfaceRoute_kept [iface_kept]:
  "AddInterfaceRoute p x io e v n = (e', v', err) \<Longrightarrow> wi_Interface v' = wi_Interface v"
  by (auto simp: AddInterfaceRoute_def AddInterfaceRoute_windows_def dest: iface_kept split: platform.splits prod.splits)

lemma addSubnetRoute_kept [iface_kept]:
  "addSubnetRoute p x io e v n net peer = (e', v', err) \<Longrightarrow> wi_Interface v' = wi_Interface v"
  by (auto simp: addSubnetRoute_def addPeerRoute_def Let_def dest: iface_kept split: prod.splits option.splits if_splits)

lemma Configure_kept [iface_kept]:
  "Configure p x io e v loc net peer = (e', v', err) \<Longrightarrow> wi_Interface v' = wi_Interface v"
  by (cases p) (auto simp: Configure_linux_def Configure_darwin_def Configure_windows_def Let_def
      dest: iface_kept split: prod.splits option.splits if_splits)

text \<open>A route that cannot be added is not an error.\<close>

lemma addSubnetRoute_no_error: "snd (snd (addSubnetRoute p x io e v n net peer)) = None"
  by (simp add: addSubnetRoute_def addPeerRoute_def Let_def split: prod.splits option.splits)

text \<open>The length of the mask that is made from a length is that length.\<close>

lemma cidr_mask_sizes: "n \<le> 32 \<Longrightarrow> simpleMaskLength (CIDRMask n 32) = Some n"
proof -
  have "list_all (\<lambda>n. simpleMaskLength (CIDRMask n 32) = Some n) [0..<33]" by code_simp
  then show "n \<le> 32 \<Longrightarrow> simpleMaskLength (CIDRMask n 32) = Some n" by (simp add: list_all_iff)
qed

text \<open>A driver whose calls succeed, for the examples.\<close>

definition example_driver :: "demo_env iface_ext" where
  "example_driver = \<lparr>water_New = (\<lambda>e cfg. (e, Inr ''tun0'')),
     water_FindLowestNetworkInterfaceByPrefix = (\<lambda>e s. (e, s @ ''0'')), if_IsTUN = (\<lambda>i. True),
     net_InterfaceByName = (\<lambda>e s. (e, Inr 1)),
     if_Read = (\<lambda>e i n. (e, Inr [69, 0]))\<rparr>"

text \<open>On the example network every command succeeds.\<close>

lemma example_calls:
  "exec_Run demo_ext = (\<lambda>e args. (e, None))" "if_SetMTU demo_ext = (\<lambda>e i n. (e, None))"
  "ExecCmd demo_ext e cmd args = (e, None)" "wi_SetMTU demo_ext e v n = (e, None)"
  by (simp_all add: demo_ext_def with_list_lru_def ExecCmd_def wi_SetMTU_def)

lemma example_configured: "Configure_linux demo_ext io e v loc (Some net) peer = (e, v, None)"
  by (cases "splitSubnet (Some net) loc") (simp add: Configure_linux_def example_calls addSubnetRoute_def
      AddInterfaceRoute_def AddInterfaceRoute_linux_def Let_def)

end
