(* ===== verification/Config_Base.thy ===== *)
theory Config_Base
  imports Socket_State Serialization
begin

text \<open>
  What the configuration of both programs shares: TLS options and the file access they need
  (\<^verbatim>\<open>shared/cli/tls.go\<close>), the ping options (\<^verbatim>\<open>shared/cli/ping.go\<close>), the
  feature options (\<^verbatim>\<open>shared/features\<close>), and the HTTP headers a user can set.
  Reading YAML and PEM is the parameter \<open>os_ext\<close>.
\<close>

section \<open>The operating system and the TLS library\<close>

text \<open>
  \<^verbatim>\<open>os.ReadFile\<close>, \<^verbatim>\<open>os.OpenFile\<close> for appending,
  \<^verbatim>\<open>tls.LoadX509KeyPair\<close> (its result is the certificate),
  \<^verbatim>\<open>CertPool.AppendCertsFromPEM\<close>.
\<close>

record 'e os_ext =
  os_ReadFile :: "'e \<Rightarrow> string \<Rightarrow> 'e \<times> (string + string)"
  os_OpenFile :: "'e \<Rightarrow> string \<Rightarrow> 'e \<times> (string + string)"
  tls_LoadX509KeyPair :: "'e \<Rightarrow> string \<Rightarrow> string \<Rightarrow> 'e \<times> (string + string)"
  x509_AppendCertsFromPEM :: "string \<Rightarrow> bool"

text \<open>A system on which every file holds its own name.\<close>

definition example_os :: "'e os_ext" where
  "example_os = \<lparr>os_ReadFile = (\<lambda>e f. (e, Inr f)), os_OpenFile = (\<lambda>e f. (e, Inr f)),
     tls_LoadX509KeyPair = (\<lambda>e c k. (e, Inr c)), x509_AppendCertsFromPEM = (\<lambda>p. True)\<rparr>"

text \<open>
  The functions that \<^verbatim>\<open>GetConfigForClient\<close> can hold: the one that returns the current
  configuration of the package, and one that calls another and sets the protocols of a copy of
  its result.
\<close>

datatype config_callback = CurrentConfig | WithNextProtos config_callback "string list"

text \<open>The fields of \<^verbatim>\<open>tls.Config\<close> that the code sets.\<close>

record TLSConfig =
  tc_InsecureSkipVerify :: bool
  tc_ServerName :: string
  tc_MinVersion :: u16
  tc_MaxVersion :: u16
  tc_KeyLogWriter :: "string option"
  tc_RootCAs :: "string option"
  tc_Certificates :: "string list"
  tc_ClientCAs :: "string option"
  tc_RequireAndVerifyClientCert :: bool
  tc_GetConfigForClient :: "config_callback option"
  tc_NextProtos :: "string list"

definition empty_TLSConfig :: TLSConfig where
  "empty_TLSConfig = \<lparr>tc_InsecureSkipVerify = False, tc_ServerName = [], tc_MinVersion = 0, tc_MaxVersion = 0,
     tc_KeyLogWriter = None, tc_RootCAs = None, tc_Certificates = [], tc_ClientCAs = None,
     tc_RequireAndVerifyClientCert = False, tc_GetConfigForClient = None, tc_NextProtos = []\<rparr>"

text \<open>
  A call of such a function with \<open>current\<close> as the configuration of the package. The copy of nil is
  nil, whose field cannot be set.
\<close>

primrec GetConfigForClient :: "config_callback \<Rightarrow> TLSConfig option \<Rightarrow> TLSConfig option go" where
  "GetConfigForClient CurrentConfig current = Ret current"
| "GetConfigForClient (WithNextProtos oldConfig protos) current = (case GetConfigForClient oldConfig current of
     Ret (Some cfg) \<Rightarrow> Ret (Some (cfg\<lparr>tc_NextProtos := protos\<rparr>)) | _ \<Rightarrow> Panic)"

record TLSFileConfig =
  tf_MinVersion :: string
  tf_MaxVersion :: string
  tf_KeyLogFile :: string
  tf_Insecure :: bool

definition TLSUseConfig :: "'e os_ext \<Rightarrow> 'e \<Rightarrow> TLSConfig \<Rightarrow> TLSFileConfig \<Rightarrow> 'e \<times> TLSConfig \<times> go_error option" where
  "TLSUseConfig os e tlsConfig fileConfig =
     (let t = tlsConfig\<lparr>tc_MinVersion := TLSVersionNum (tf_MinVersion fileConfig),
                        tc_MaxVersion := TLSVersionNum (tf_MaxVersion fileConfig)\<rparr>
      in if tf_KeyLogFile fileConfig \<noteq> []
         then (case os_OpenFile os e (tf_KeyLogFile fileConfig) of
                 (e', Inl err) \<Rightarrow> (e', t, Some (GoErr err))
               | (e', Inr fh) \<Rightarrow> (e', t\<lparr>tc_KeyLogWriter := Some fh\<rparr>, None))
         else (e, t, None))"

section \<open>Ping\<close>

record PingConfig =
  pc_Interval :: gotime
  pc_Timeout :: gotime

definition MakeDefaultPingConfig :: PingConfig where
  "MakeDefaultPingConfig = \<lparr>pc_Interval = 30 * second, pc_Timeout = 5 * second\<rparr>"

text \<open>\<^verbatim>\<open>PingFlagsSocketConfigurator.ConfigureSocket\<close>.\<close>

definition ConfigureSocket :: "PingConfig \<Rightarrow> socket \<Rightarrow> socket \<times> go_error option" where
  "ConfigureSocket config sock = (ConfigurePing sock (pc_Interval config) (pc_Timeout config), None)"

lemma ConfigureSocket_result [simp]:
  "fst (ConfigureSocket config sock) = ConfigurePing sock (pc_Interval config) (pc_Timeout config)"
  "snd (ConfigureSocket config sock) = None"
  by (simp_all add: ConfigureSocket_def)

section \<open>Headers\<close>

text \<open>
  \<^verbatim>\<open>textproto.CanonicalMIMEHeaderKey\<close>: a key with a byte that is no token is kept,
  otherwise letters after the start and after hyphens become upper case and the others lower
  case.
\<close>

definition is_token :: "char \<Rightarrow> bool" where
  "is_token c \<longleftrightarrow> (let n = (of_char c :: nat) in
     97 \<le> n \<and> n \<le> 122 \<or> 65 \<le> n \<and> n \<le> 90 \<or> 48 \<le> n \<and> n \<le> 57 \<or> n \<in> {33, 35, 36, 37, 38, 39, 42, 43, 45, 46, 94, 95, 96, 124, 126})"

definition char_ToUpper :: "char \<Rightarrow> char" where
  "char_ToUpper c = (if 97 \<le> (of_char c :: nat) \<and> (of_char c :: nat) \<le> 122
     then char_of ((of_char c :: nat) - 32) else c)"

text \<open>\<^verbatim>\<open>strings.ToUpper\<close> on ASCII letters.\<close>

definition strings_ToUpper :: "string \<Rightarrow> string" where
  "strings_ToUpper s = map char_ToUpper s"

fun canonical_chars :: "bool \<Rightarrow> string \<Rightarrow> string" where
  "canonical_chars upper [] = []"
| "canonical_chars upper (c # cs) =
     (if upper then char_ToUpper c else char_ToLower c) # canonical_chars (c = CHR ''-'') cs"

definition CanonicalHeaderKey :: "string \<Rightarrow> string" where
  "CanonicalHeaderKey s = (if list_all is_token s then canonical_chars True s else s)"

definition header_Set :: "http_header \<Rightarrow> string \<Rightarrow> string \<Rightarrow> http_header" where
  "header_Set h k v = h(CanonicalHeaderKey k \<mapsto> [v])"

text \<open>The headers of a configuration file, in any order of their names.\<close>

definition config_headers :: "(string \<times> string list) list \<Rightarrow> http_header" where
  "config_headers hs =
     fold (\<lambda>(name, vals) h. fold (\<lambda>v h. header_Add h (CanonicalHeaderKey name) v) vals h) hs Map.empty"

end
