(* ===== verification/Server_State.thy ===== *)
theory Server_State
  imports Socket_Serve Iface_Config Config_Base
begin

text \<open>
  The \<^verbatim>\<open>Server\<close> object of \<^verbatim>\<open>server/servers/base.go\<close> and the
  small types it holds: authenticators, upgraders, and what the server has to close when it
  ends. Locks, the logger and the error channel itself have no field; whether the channel is
  closed has one.
\<close>

definition MaxConnectionsPerUserKillOldest :: int where "MaxConnectionsPerUserKillOldest = 0"

definition MaxConnectionsPerUserPreventNew :: int where "MaxConnectionsPerUserPreventNew = 1"

text \<open>
  \<^verbatim>\<open>server/authenticators\<close>: an htpasswd file is the third party's object, known
  by a number.
\<close>

datatype authenticator = AllowAllAuthenticator | HtpasswdAuthenticator nat | RadiusAuthenticator string string

text \<open>
  The HTTP/3 server of a \<^verbatim>\<open>WebTransportUpgrader\<close> with the options the code sets; its
  handler is always \<^verbatim>\<open>serveSocket\<close>.
\<close>

record http3_server =
  h3_Addr :: string
  h3_TLSConfig :: TLSConfig
  h3_ApplicationProtocols :: "string list"
  h3_EnableDatagrams :: bool
  h3_EnableStreamResetPartialDelivery :: bool
  h3_KeepAlivePeriod :: gotime

datatype upgrader = WebSocketUpgrader http_header | WebTransportUpgrader http3_server

definition NewWebSocketUpgrader :: upgrader where
  "NewWebSocketUpgrader = WebSocketUpgrader Map.empty"

record QuicServerConfig =
  qs_Addr :: string
  qs_TLSConfig :: TLSConfig

definition NextProtoH3 :: string where "NextProtoH3 = ''h3''"

definition NewWebTransportUpgrader :: "QuicServerConfig \<Rightarrow> upgrader" where
  "NewWebTransportUpgrader quicServer =
     (let tlsConfig = (qs_TLSConfig quicServer)\<lparr>tc_NextProtos := [NextProtoH3]\<rparr>;
          tlsConfig' = (case tc_GetConfigForClient tlsConfig of
              None \<Rightarrow> tlsConfig
            | Some oldConfig \<Rightarrow> tlsConfig\<lparr>tc_GetConfigForClient := Some (WithNextProtos oldConfig [NextProtoH3])\<rparr>)
      in WebTransportUpgrader \<lparr>h3_Addr = qs_Addr quicServer, h3_TLSConfig = tlsConfig',
           h3_ApplicationProtocols = [''wsvpn''], h3_EnableDatagrams = True,
           h3_EnableStreamResetPartialDelivery = True, h3_KeepAlivePeriod = 10 * second\<rparr>)"

text \<open>
  The closers: the main interface, an HTTP server, an upgrader, the adapter of a connection,
  here by the number of its socket.
\<close>

datatype closer = CloseMainIface | CloseHTTPServer | CloseUpgrader upgrader | CloseAdapter sid

datatype serve_error = errNone | ErrNoServeWaitsLeft | ServeError string

text \<open>
  \<^verbatim>\<open>usedSlots\<close> is a \<^verbatim>\<open>map[uint64]bool\<close>,
  \<^verbatim>\<open>authenticatedSockets\<close> maps a user to a slice of sockets, oldest first. The
  packet handler is in the world.
\<close>

record server =
  sv_events :: EventConfigHolder
  sv_VPNNet :: VPNNet
  sv_DoLocalIPConfig :: bool
  sv_DoRemoteIPConfig :: bool
  sv_TLSConfig :: "TLSConfig option"
  sv_ListenAddr :: string
  sv_HTTP3Enabled :: bool
  sv_Authenticator :: "authenticator option"
  sv_Mode :: VPNMode
  sv_SocketConfigurator :: "PingConfig option"
  sv_InterfaceConfig :: "InterfaceConfig option"
  sv_MaxConnectionsPerUser :: int
  sv_MaxConnectionsPerUserMode :: int
  sv_WebsiteDirectory :: string
  sv_APIEnabled :: bool
  sv_APIUsers :: "(string \<times> bool) list"
  sv_PreauthorizeSecret :: string
  sv_headers :: http_header
  sv_upgraders :: "upgrader list"
  sv_usedSlots :: "u64 \<rightharpoonup> bool"
  sv_packetBufferSize :: int
  sv_mtu :: int
  sv_mainIface :: "WaterInterfaceWrapper option"
  sv_serverID :: string
  sv_closers :: "closer list"
  sv_sockets :: "(string \<times> sid) list"
  sv_authenticatedSockets :: "string \<rightharpoonup> sid list"
  sv_serveErrorChannelOpen :: bool
  sv_serveError :: "serve_error option"
  sv_serveWaitGroup :: int
  sv_localFeatures :: "(feature \<times> bool) list"

definition no_subnet :: VPNNet where
  "no_subnet = \<lparr>vn_ip = [], vn_ipNet = \<lparr>ipnet_IP = [], ipnet_Mask = []\<rparr>, vn_str = []\<rparr>"

text \<open>A server before its first configuration: the pointer to its subnet is nil.\<close>

definition NewServer :: server where
  "NewServer = \<lparr>
     sv_events = \<lparr>UpScript = [], DownScript = [], StartupScript = []\<rparr>,
     sv_VPNNet = no_subnet, sv_DoLocalIPConfig = False, sv_DoRemoteIPConfig = False,
     sv_TLSConfig = None, sv_ListenAddr = [], sv_HTTP3Enabled = False, sv_Authenticator = None,
     sv_Mode = VPNModeTUN, sv_SocketConfigurator = None, sv_InterfaceConfig = None,
     sv_MaxConnectionsPerUser = 0, sv_MaxConnectionsPerUserMode = 0, sv_WebsiteDirectory = [],
     sv_APIEnabled = False, sv_APIUsers = [], sv_PreauthorizeSecret = [], sv_headers = Map.empty,
     sv_upgraders = [], sv_usedSlots = Map.empty, sv_packetBufferSize = 0, sv_mtu = 0,
     sv_mainIface = None, sv_serverID = [], sv_closers = [], sv_sockets = [],
     sv_authenticatedSockets = Map.empty, sv_serveErrorChannelOpen = True, sv_serveError = None,
     sv_serveWaitGroup = 0, sv_localFeatures = []\<rparr>"

definition SetServerID :: "server \<Rightarrow> string \<Rightarrow> server" where
  "SetServerID s serverID = s\<lparr>sv_serverID := serverID\<rparr>"

definition addCloser :: "server \<Rightarrow> closer \<Rightarrow> server" where
  "addCloser s c = s\<lparr>sv_closers := sv_closers s @ [c]\<rparr>"

definition server_SetLocalFeature :: "server \<Rightarrow> feature \<Rightarrow> bool \<Rightarrow> server" where
  "server_SetLocalFeature s feature enabled =
     (if \<not> enabled then s\<lparr>sv_localFeatures := AList.delete feature (sv_localFeatures s)\<rparr>
      else s\<lparr>sv_localFeatures := AList.update feature True (sv_localFeatures s)\<rparr>)"

definition websocket_SetHeaders :: "http_header \<Rightarrow> http_header \<Rightarrow> http_header" where
  "websocket_SetHeaders headers header = headers"

definition webtransport_SetHeaders :: "http_header \<Rightarrow> http3_server \<Rightarrow> http3_server" where
  "webtransport_SetHeaders headers server = server"

primrec upgrader_SetHeaders :: "http_header \<Rightarrow> upgrader \<Rightarrow> upgrader" where
  "upgrader_SetHeaders h (WebSocketUpgrader header) = WebSocketUpgrader (websocket_SetHeaders h header)"
| "upgrader_SetHeaders h (WebTransportUpgrader server) = WebTransportUpgrader (webtransport_SetHeaders h server)"

definition setUpgraderHeaders :: "server \<Rightarrow> server" where
  "setUpgraderHeaders s = s\<lparr>sv_upgraders := map (upgrader_SetHeaders (sv_headers s)) (sv_upgraders s)\<rparr>"

definition SetHeaders :: "server \<Rightarrow> http_header \<Rightarrow> server" where
  "SetHeaders s headers = setUpgraderHeaders (s\<lparr>sv_headers := headers\<rparr>)"

text \<open>The first error wins; \<^verbatim>\<open>Serve\<close> waits for the channel to be closed.\<close>

definition setServeError :: "server \<Rightarrow> serve_error option \<Rightarrow> server" where
  "setServeError s err = (case err of
     None \<Rightarrow> s
   | Some e \<Rightarrow> if sv_serveError s \<noteq> None then s
              else s\<lparr>sv_serveError := Some e, sv_serveErrorChannelOpen := False\<rparr>)"

end
