(* ===== verification/Basic_Auth.thy ===== *)
theory Basic_Auth
  imports Go_Text Serialization
begin

text \<open>
  User name and password on their way from the client to the server:
  \<^verbatim>\<open>SetBasicAuthFromUserInfo\<close> of \<^verbatim>\<open>client/clients/auth.go\<close>, and
  of Go's library \<^verbatim>\<open>url.Userinfo.String\<close>, \<^verbatim>\<open>base64.StdEncoding\<close>
  and \<^verbatim>\<open>http.Request.BasicAuth\<close>, which the server's authenticators call.
\<close>

section \<open>net/url\<close>

record Userinfo =
  ui_username :: string
  ui_password :: string
  ui_passwordSet :: bool

text \<open>The bytes that \<^verbatim>\<open>escape(s, encodeUserPassword)\<close> keeps.\<close>

definition url_unescaped :: "char \<Rightarrow> bool" where
  "url_unescaped c \<longleftrightarrow> (let n = chr_code c in
     97 \<le> n \<and> n \<le> 122 \<or> 65 \<le> n \<and> n \<le> 90 \<or> 48 \<le> n \<and> n \<le> 57 \<or> c \<in> set ''-_.~$&+,;='')"

definition upper_hex :: "nat \<Rightarrow> char" where
  "upper_hex n = (if n < 10 then char_of (48 + n) else char_of (55 + n))"

definition url_escape :: "string \<Rightarrow> string" where
  "url_escape s = concat (map (\<lambda>c. if url_unescaped c then [c]
     else [CHR ''%'', upper_hex (chr_code c div 16), upper_hex (chr_code c mod 16)]) s)"

definition Userinfo_String :: "Userinfo \<Rightarrow> string" where
  "Userinfo_String u =
     (if ui_username u \<noteq> [] \<or> ui_passwordSet u
      then url_escape (ui_username u) @
        (if ui_passwordSet u then CHR '':'' # url_escape (ui_password u) else [])
      else [])"

section \<open>encoding/base64\<close>

definition b64_char :: "nat \<Rightarrow> char" where
  "b64_char n = (if n < 26 then char_of (65 + n) else if n < 52 then char_of (71 + n)
     else if n < 62 then char_of (n - 4) else if n = 62 then CHR ''+'' else CHR ''/'')"

definition b64_value :: "char \<Rightarrow> nat option" where
  "b64_value c = (let n = chr_code c in
     if 65 \<le> n \<and> n \<le> 90 then Some (n - 65)
     else if 97 \<le> n \<and> n \<le> 122 then Some (n - 71)
     else if 48 \<le> n \<and> n \<le> 57 then Some (n + 4)
     else if c = CHR ''+'' then Some 62 else if c = CHR ''/'' then Some 63 else None)"

fun base64_EncodeToString :: "string \<Rightarrow> string" where
  "base64_EncodeToString [] = []"
| "base64_EncodeToString [a] =
     [b64_char (chr_code a div 4), b64_char (chr_code a mod 4 * 16), CHR ''='', CHR ''='']"
| "base64_EncodeToString [a, b] =
     [b64_char (chr_code a div 4), b64_char (chr_code a mod 4 * 16 + chr_code b div 16),
      b64_char (chr_code b mod 16 * 4), CHR ''='']"
| "base64_EncodeToString (a # b # c # rest) =
     [b64_char (chr_code a div 4), b64_char (chr_code a mod 4 * 16 + chr_code b div 16),
      b64_char (chr_code b mod 16 * 4 + chr_code c div 64), b64_char (chr_code c mod 64)] @
     base64_EncodeToString rest"

text \<open>The decoder skips line ends; padding may only come at the end.\<close>

fun b64_quanta :: "string \<Rightarrow> string option" where
  "b64_quanta [] = Some []"
| "b64_quanta (a # b # c # d # rest) = (case (b64_value a, b64_value b) of
     (Some p, Some q) \<Rightarrow>
       if c = CHR ''='' then
         (if d = CHR ''='' \<and> rest = [] then Some [char_of (p * 4 + q div 16)] else None)
       else (case b64_value c of
           None \<Rightarrow> None
         | Some r \<Rightarrow>
             if d = CHR ''='' then
               (if rest = [] then Some [char_of (p * 4 + q div 16), char_of (q mod 16 * 16 + r div 4)] else None)
             else (case (b64_value d, b64_quanta rest) of
                 (Some s, Some cs) \<Rightarrow> Some ([char_of (p * 4 + q div 16), char_of (q mod 16 * 16 + r div 4),
                   char_of (r mod 4 * 64 + s)] @ cs)
               | _ \<Rightarrow> None))
   | _ \<Rightarrow> None)"
| "b64_quanta _ = None"

definition base64_DecodeString :: "string \<Rightarrow> string option" where
  "base64_DecodeString s = b64_quanta (filter (\<lambda>c. chr_code c \<noteq> 10 \<and> chr_code c \<noteq> 13) s)"

section \<open>The Authorization header\<close>

definition SetBasicAuthFromUserInfo :: "http_header \<Rightarrow> Userinfo option \<Rightarrow> http_header" where
  "SetBasicAuthFromUserInfo headers userInfo = (case userInfo of
     None \<Rightarrow> headers
   | Some u \<Rightarrow> header_Add headers ''Authorization'' (''Basic '' @ base64_EncodeToString (Userinfo_String u)))"

text \<open>\<^verbatim>\<open>strings.Cut(s, ":")\<close>.\<close>

definition cut_colon :: "string \<Rightarrow> (string \<times> string) option" where
  "cut_colon s = (case dropWhile (\<lambda>c. c \<noteq> CHR '':'') s of
     [] \<Rightarrow> None | _ # rest \<Rightarrow> Some (takeWhile (\<lambda>c. c \<noteq> CHR '':'') s, rest))"

definition BasicAuth :: "http_header \<Rightarrow> (string \<times> string) option" where
  "BasicAuth header =
     (let auth = header_Get header ''Authorization'' in
      if length auth < 6 \<or> strings_ToLower (take 6 auth) \<noteq> ''basic '' then None
      else (case base64_DecodeString (drop 6 auth) of None \<Rightarrow> None | Some cs \<Rightarrow> cut_colon cs))"

section \<open>Lemmas\<close>

lemma chr_code_bound: "chr_code c < 256"
  by (cases c) (simp add: of_char_def horner_sum_simps of_bool_def)

lemma b64_value_char: "n < 64 \<Longrightarrow> b64_value (b64_char n) = Some n"
proof -
  assume n: "n < 64"
  have c: "chr_code (b64_char n) = (if n < 26 then 65 + n else if n < 52 then 71 + n
      else if n < 62 then n - 4 else if n = 62 then 43 else 47)"
    using n by (auto simp: b64_char_def)
  have s: "b64_char 62 = CHR ''+''" "b64_char 63 = CHR ''/''" by (simp_all add: b64_char_def)
  consider "n < 26" | "26 \<le> n" "n < 52" | "52 \<le> n" "n < 62" | "n = 62" | "n = 63" using n by linarith
  then show ?thesis by cases (auto simp: b64_value_def Let_def c s)
qed

lemma b64_char_not: "n < 64 \<Longrightarrow> b64_char n \<noteq> CHR ''='' \<and> chr_code (b64_char n) \<noteq> 10 \<and> chr_code (b64_char n) \<noteq> 13"
proof -
  assume n: "n < 64"
  then have "b64_value (b64_char n) \<noteq> None" by (simp add: b64_value_char)
  then show ?thesis by (auto simp: b64_value_def Let_def split: if_splits)
qed

lemma div_mod_pack: "(m :: nat) < n \<Longrightarrow> (k * n + m) div n = k \<and> (k * n + m) mod n = m"
  by simp

lemma sextet_bounds [simp]:
  "chr_code a div 4 < 64" "chr_code a mod 4 * 16 < 64" "chr_code b mod 16 * 4 < 64"
  "chr_code a mod 4 * 16 + chr_code b div 16 < 64"
  "chr_code b mod 16 * 4 + chr_code c div 64 < 64" "chr_code c mod 64 < 64"
proof -
  have d: "chr_code a div 4 < 64" "chr_code b div 16 < 16" "chr_code c div 64 < 4"
    using chr_code_bound [of a] chr_code_bound [of b] chr_code_bound [of c]
    by (simp_all add: less_mult_imp_div_less)
  have m: "chr_code a mod 4 < 4" "chr_code b mod 16 < 16" by simp_all
  show "chr_code a div 4 < 64" by (rule d)
  show "chr_code a mod 4 * 16 < 64" "chr_code b mod 16 * 4 < 64" "chr_code c mod 64 < 64"
    using m by simp_all
  show "chr_code a mod 4 * 16 + chr_code b div 16 < 64" "chr_code b mod 16 * 4 + chr_code c div 64 < 64"
    using d m by linarith+
qed

lemma byte_of_sextets:
  fixes a b c :: nat
  shows "b < 256 \<Longrightarrow> a div 4 * 4 + (a mod 4 * 16 + b div 16) div 16 = a"
    and "b < 256 \<Longrightarrow> c < 256 \<Longrightarrow> (a mod 4 * 16 + b div 16) mod 16 * 16 + (b mod 16 * 4 + c div 64) div 4 = b"
    and "c < 256 \<Longrightarrow> (b mod 16 * 4 + c div 64) mod 4 * 64 + c mod 64 = c"
    and "b < 256 \<Longrightarrow> (a mod 4 * 16 + b div 16) mod 16 * 16 + b mod 16 * 4 div 4 = b"
    and "a div 4 * 4 + a mod 4 * 16 div 16 = a"
proof -
  have d: "b < 256 \<Longrightarrow> b div 16 < 16" "c < 256 \<Longrightarrow> c div 64 < 4" by (simp_all add: less_mult_imp_div_less)
  show "b < 256 \<Longrightarrow> a div 4 * 4 + (a mod 4 * 16 + b div 16) div 16 = a"
    using d(1) div_mod_pack [of "b div 16" 16 "a mod 4"] by (simp add: div_mult_mod_eq)
  show "b < 256 \<Longrightarrow> c < 256 \<Longrightarrow> (a mod 4 * 16 + b div 16) mod 16 * 16 + (b mod 16 * 4 + c div 64) div 4 = b"
    using d div_mod_pack [of "b div 16" 16 "a mod 4"] div_mod_pack [of "c div 64" 4 "b mod 16"]
    by (simp add: div_mult_mod_eq)
  show "c < 256 \<Longrightarrow> (b mod 16 * 4 + c div 64) mod 4 * 64 + c mod 64 = c"
    using d(2) div_mod_pack [of "c div 64" 4 "b mod 16"] by (simp add: div_mult_mod_eq)
  show "b < 256 \<Longrightarrow> (a mod 4 * 16 + b div 16) mod 16 * 16 + b mod 16 * 4 div 4 = b"
    using d(1) div_mod_pack [of "b div 16" 16 "a mod 4"] by (simp add: div_mult_mod_eq)
  show "a div 4 * 4 + a mod 4 * 16 div 16 = a" by (simp add: div_mult_mod_eq)
qed

lemma b64_quanta_encode: "b64_quanta (base64_EncodeToString s) = Some s"
proof (induction s rule: base64_EncodeToString.induct)
  case (2 a)
  then show ?case by (simp add: b64_value_char byte_of_sextets del: mult_div_mod_eq)
next
  case (3 a b)
  show ?case using chr_code_bound [of b] byte_of_sextets(1) [of "chr_code b" "chr_code a"]
      byte_of_sextets(4) [of "chr_code b" "chr_code a"]
    by (simp add: b64_value_char b64_char_not)
next
  case (4 a b c rest)
  then show ?case using chr_code_bound [of b] chr_code_bound [of c] byte_of_sextets(1) [of "chr_code b" "chr_code a"]
      byte_of_sextets(2) [of "chr_code b" "chr_code c" "chr_code a"] byte_of_sextets(3) [of "chr_code c" "chr_code b"]
    by (simp add: b64_value_char b64_char_not)
qed simp

lemma encode_chars: "list_all (\<lambda>c. chr_code c \<noteq> 10 \<and> chr_code c \<noteq> 13) (base64_EncodeToString s)"
  by (induction s rule: base64_EncodeToString.induct) (simp_all add: b64_char_not)

lemma base64_roundtrip: "base64_DecodeString (base64_EncodeToString s) = Some s"
  using encode_chars [of s] b64_quanta_encode [of s]
  by (simp add: base64_DecodeString_def filter_id_conv list_all_iff)

lemma url_escape_no_colon: "CHR '':'' \<notin> set (url_escape s)"
proof -
  have h: "upper_hex n \<noteq> CHR '':''" if "n < 16" for n
  proof
    assume "upper_hex n = CHR '':''"
    then have "chr_code (upper_hex n) = 58" by simp
    then show False using that by (auto simp: upper_hex_def split: if_splits)
  qed
  have k: "CHR '':'' \<noteq> upper_hex (chr_code c div 16)" "CHR '':'' \<noteq> upper_hex (chr_code c mod 16)" for c :: char
    using chr_code_bound [of c] h [of "chr_code c div 16"] h [of "chr_code c mod 16"]
    by (simp_all add: less_mult_imp_div_less not_sym)
  have u: "\<not> url_unescaped CHR '':''" by code_simp
  show ?thesis by (induction s) (use k u in \<open>auto simp: url_escape_def split: if_splits\<close>)
qed

lemma url_escape_id: "url_escape s = s \<longleftrightarrow> list_all url_unescaped s"
proof -
  have len: "length s \<le> length (url_escape s)" for s
    by (induction s) (auto simp: url_escape_def)
  show ?thesis
  proof (induction s)
    case (Cons c s)
    have keep: "url_escape (c # s) = c # url_escape s" if "url_unescaped c"
      using that by (simp add: url_escape_def)
    have "url_escape (c # s) \<noteq> c # s" if "\<not> url_unescaped c"
    proof
      assume "url_escape (c # s) = c # s"
      then have "length (url_escape (c # s)) = Suc (length s)" by simp
      then show False using that len [of s] by (simp add: url_escape_def)
    qed
    then show ?case using Cons keep by (cases "url_unescaped c") simp_all
  qed (simp add: url_escape_def)
qed

lemma BasicAuth_SetBasicAuth:
  assumes "h ''Authorization'' = None" and "ui_passwordSet u"
  shows "BasicAuth (SetBasicAuthFromUserInfo h (Some u)) =
    Some (url_escape (ui_username u), url_escape (ui_password u))"
proof -
  have g: "header_Get (SetBasicAuthFromUserInfo h (Some u)) ''Authorization'' =
      ''Basic '' @ base64_EncodeToString (Userinfo_String u)"
    using assms(1) by (simp add: SetBasicAuthFromUserInfo_def header_Get_def header_Add_def)
  have no: "\<forall>c\<in>set (url_escape (ui_username u)). c \<noteq> CHR '':''"
    using url_escape_no_colon by metis
  have "cut_colon (Userinfo_String u) = Some (url_escape (ui_username u), url_escape (ui_password u))"
    using assms(2) no by (simp add: cut_colon_def Userinfo_String_def takeWhile_append2 dropWhile_append2)
  moreover have "strings_ToLower ''Basic '' = ''basic ''"
    by code_simp
  ultimately show ?thesis by (simp add: BasicAuth_def g base64_roundtrip)
qed

text \<open>
  C39 What the server sees of a client's credentials: the user name and the password that its
  authenticators get from \<^verbatim>\<open>BasicAuth\<close> are those of the client with the
  escapes of a URL in them, so the login works exactly when neither contains a character that
  is escaped there. A right password with, say, an exclamation mark, a slash or an at sign is
  refused.
\<close>

theorem credentials_arrive_escaped:
  assumes "h ''Authorization'' = None" and "ui_passwordSet u"
  shows "BasicAuth (SetBasicAuthFromUserInfo h (Some u)) =
      Some (url_escape (ui_username u), url_escape (ui_password u)) \<and>
    (BasicAuth (SetBasicAuthFromUserInfo h (Some u)) = Some (ui_username u, ui_password u) \<longleftrightarrow>
      list_all url_unescaped (ui_username u) \<and> list_all url_unescaped (ui_password u))"
  using BasicAuth_SetBasicAuth [of h u] assms by (simp add: url_escape_id)

definition example_user :: Userinfo where
  "example_user = \<lparr>ui_username = ''alice'', ui_password = ''p!w'', ui_passwordSet = True\<rparr>"

theorem credentials_arrive_escaped_witness:
  "BasicAuth (SetBasicAuthFromUserInfo Map.empty (Some example_user)) = Some (''alice'', ''p%21w'')"
proof -
  have "url_escape ''alice'' = ''alice''" "url_escape ''p!w'' = ''p%21w''"
    by code_simp+
  then show ?thesis
    using credentials_arrive_escaped [of Map.empty example_user] by (simp add: example_user_def)
qed

end
