(* ===== verification/Json.thy ===== *)
theory Json
  imports Go_Text
begin

text \<open>
  Go's \<^verbatim>\<open>encoding/json\<close>, as far as the commands of the control channel need it:
  the text of a value, the scanner with its stack of open arrays and objects, and the decoding
  of a value into the fields of a struct, with the error texts that a command's reply carries.
\<close>

section \<open>Values and their text\<close>

text \<open>
  A number is kept as its literal. An object keeps its members in the order of the text, with
  repetitions.
\<close>

datatype json =
    JNull
  | JBool bool
  | JNum string
  | JStr string
  | JArr "json list"
  | JObj "(string \<times> json) list"

definition backslash :: char where "backslash = CHR 0x5C"

definition quote_char :: char where "quote_char = CHR 0x22"

definition hex_digit :: "nat \<Rightarrow> char" where
  "hex_digit n = (if n < 10 then char_of (48 + n) else char_of (87 + n))"

definition json_escape_byte :: "char \<Rightarrow> string" where
  "json_escape_byte c =
     (let n = chr_code c in
      if c = backslash \<or> c = quote_char then [backslash, c]
      else if n = 8 then [backslash, CHR ''b'']
      else if n = 12 then [backslash, CHR ''f'']
      else if n = 10 then [backslash, CHR ''n'']
      else if n = 13 then [backslash, CHR ''r'']
      else if n = 9 then [backslash, CHR ''t'']
      else if n < 0x20 \<or> c = CHR ''<'' \<or> c = CHR ''>'' \<or> c = CHR ''&''
      then [backslash, CHR ''u'', CHR ''0'', CHR ''0'', hex_digit (n div 16), hex_digit (n mod 16)]
      else [c])"

text \<open>\<^verbatim>\<open>appendString\<close> with the escaping of HTML, the default of
  \<^verbatim>\<open>json.Marshal\<close>.\<close>

function json_escape :: "string \<Rightarrow> string" where
  "json_escape s = (case s of [] \<Rightarrow> [] | c # cs \<Rightarrow>
     if chr_code c < 0x80 then json_escape_byte c @ json_escape cs
     else (case DecodeRune s of (r, n) \<Rightarrow>
       if r = RuneError \<and> n = 1 then backslash # ''ufffd'' @ json_escape cs
       else if r = 0x2028 \<or> r = 0x2029
       then backslash # ''u202'' @ [hex_digit (r mod 16)] @ json_escape (drop n s)
       else take n s @ json_escape (drop n s)))"
  by pat_completeness auto

termination
proof (relation "measure length", goal_cases)
  case (4 s c cs r n)
  then have "0 < n" using DecodeRune_width [of s] by (cases "DecodeRune s") simp
  then show ?case using 4 by simp
next
  case (5 s c cs r n)
  then have "0 < n" using DecodeRune_width [of s] by (cases "DecodeRune s") simp
  then show ?case using 5 by simp
qed auto

declare json_escape.simps [simp del]

definition json_string :: "string \<Rightarrow> string" where
  "json_string s = quote_char # json_escape s @ [quote_char]"

fun json_text :: "json \<Rightarrow> string" where
  "json_text JNull = ''null''"
| "json_text (JBool b) = (if b then ''true'' else ''false'')"
| "json_text (JNum lit) = lit"
| "json_text (JStr s) = json_string s"
| "json_text (JArr vs) = CHR ''['' # join_with '','' (map json_text vs) @ '']''"
| "json_text (JObj kvs) =
     CHR ''{'' # join_with '','' (map (\<lambda>kv. json_string (fst kv) @ '':'' @ json_text (snd kv)) kvs) @ ''}''"

section \<open>Scanning\<close>

definition hex_value :: "char \<Rightarrow> nat option" where
  "hex_value c =
     (let n = chr_code c in
      if 48 \<le> n \<and> n \<le> 57 then Some (n - 48)
      else if 97 \<le> n \<and> n \<le> 102 then Some (n - 87)
      else if 65 \<le> n \<and> n \<le> 70 then Some (n - 55)
      else None)"

definition hex4 :: "string \<Rightarrow> nat option" where
  "hex4 s = (case s of [a, b, c, d] \<Rightarrow>
       (case (hex_value a, hex_value b, hex_value c, hex_value d) of
          (Some i, Some j, Some k, Some l) \<Rightarrow> Some (((i * 16 + j) * 16 + k) * 16 + l)
        | _ \<Rightarrow> None)
     | _ \<Rightarrow> None)"

definition unescape_byte :: "char \<Rightarrow> char option" where
  "unescape_byte c =
     (if c = backslash \<or> c = quote_char \<or> c = CHR ''/'' then Some c
      else if c = CHR ''b'' then Some (char_of (8 :: nat))
      else if c = CHR ''f'' then Some (char_of (12 :: nat))
      else if c = CHR ''n'' then Some (char_of (10 :: nat))
      else if c = CHR ''r'' then Some (char_of (13 :: nat))
      else if c = CHR ''t'' then Some (char_of (9 :: nat))
      else None)"

text \<open>The \<^verbatim>\<open>\u\<close> escape at the head of the text, and two of them that form a pair
  of surrogates.\<close>

definition low_surrogate :: "string \<Rightarrow> nat option" where
  "low_surrogate s =
     (if take 2 s = [backslash, CHR ''u''] then
        (case hex4 (take 4 (drop 2 s)) of
           Some r \<Rightarrow> if 0xDC00 \<le> r \<and> r \<le> 0xDFFF then Some r else None
         | None \<Rightarrow> None)
      else None)"

text \<open>
  The rest of a string literal after its opening quote: its value, still with its invalid bytes,
  and the text after the closing quote.
\<close>

function scan_string :: "string \<Rightarrow> (string \<times> string) option" where
  "scan_string s = (case s of [] \<Rightarrow> None | c # cs \<Rightarrow>
     if c = quote_char then Some ([], cs)
     else if c = backslash then (case cs of [] \<Rightarrow> None | e # rest \<Rightarrow>
       if e = CHR ''u'' then (case hex4 (take 4 rest) of None \<Rightarrow> None | Some r \<Rightarrow>
         (case (if 0xD800 \<le> r \<and> r \<le> 0xDBFF then low_surrogate (drop 4 rest) else None) of
            Some l \<Rightarrow> map_option (apfst (append (EncodeRune ((r - 0xD800) * 1024 + (l - 0xDC00) + 0x10000))))
                        (scan_string (drop 10 rest))
          | None \<Rightarrow> map_option (apfst (append (EncodeRune r))) (scan_string (drop 4 rest))))
       else (case unescape_byte e of None \<Rightarrow> None
         | Some b \<Rightarrow> map_option (apfst (Cons b)) (scan_string rest)))
     else if chr_code c < 0x20 then None
     else map_option (apfst (Cons c)) (scan_string cs))"
  by pat_completeness auto

termination
  by (relation "measure length") auto

declare scan_string.simps [simp del]

lemma scan_string_shorter: "scan_string s = Some (v, rest) \<Longrightarrow> length rest < length s"
proof (induction "length s" arbitrary: s v rule: less_induct)
  case less
  then obtain c cs where s: "s = c # cs" by (cases s) (simp_all add: scan_string.simps)
  have IH: "length rest < length s" if "scan_string t = Some (v', rest)" "length t \<le> length cs" for t v'
    using less.hyps [of t v'] that s by simp
  show ?case
  proof (cases "\<exists>t v'. scan_string t = Some (v', rest) \<and> length t \<le> length cs")
    case True
    then show ?thesis using IH by blast
  next
    case False
    then have no: "scan_string t = Some (v', rest) \<Longrightarrow> length t \<le> length cs \<Longrightarrow> R" for t v' R by blast
    have "rest = cs"
      using less.prems unfolding s
      by (subst (asm) scan_string.simps) (auto split: list.splits if_splits option.splits elim!: no)
    then show ?thesis by (simp add: s)
  qed
qed

definition is_number_char :: "char \<Rightarrow> bool" where
  "is_number_char c \<longleftrightarrow> is_digit c \<or> c \<in> set ''+-.eE''"

text \<open>The number grammar: sign, integer part without a leading zero, fraction, exponent.\<close>

definition valid_exponent :: "string \<Rightarrow> bool" where
  "valid_exponent s \<longleftrightarrow> (case s of [] \<Rightarrow> True | c # cs \<Rightarrow>
     c \<in> set ''eE'' \<and>
     (let ds = (if cs \<noteq> [] \<and> hd cs \<in> set ''+-'' then tl cs else cs) in ds \<noteq> [] \<and> list_all is_digit ds))"

definition valid_number :: "string \<Rightarrow> bool" where
  "valid_number s \<longleftrightarrow>
     (let s1 = (if s \<noteq> [] \<and> hd s = CHR ''-'' then tl s else s);
          ip = takeWhile is_digit s1;
          s2 = dropWhile is_digit s1
      in ip \<noteq> [] \<and> (hd ip = CHR ''0'' \<longrightarrow> tl ip = []) \<and>
         (if s2 \<noteq> [] \<and> hd s2 = CHR ''.''
          then takeWhile is_digit (tl s2) \<noteq> [] \<and> valid_exponent (dropWhile is_digit (tl s2))
          else valid_exponent s2))"

datatype jtoken = TLBrace | TRBrace | TLBrack | TRBrack | TColon | TComma | TVal json

definition is_space :: "char \<Rightarrow> bool" where
  "is_space c \<longleftrightarrow> chr_code c \<in> {32, 9, 13, 10}"

definition is_lower :: "char \<Rightarrow> bool" where
  "is_lower c \<longleftrightarrow> 97 \<le> chr_code c \<and> chr_code c \<le> 122"

definition literal_value :: "string \<Rightarrow> json option" where
  "literal_value s = (if s = ''true'' then Some (JBool True) else if s = ''false'' then Some (JBool False)
     else if s = ''null'' then Some JNull else None)"

definition punctuation :: "char \<Rightarrow> jtoken option" where
  "punctuation c =
     (if c = CHR ''{'' then Some TLBrace else if c = CHR ''}'' then Some TRBrace
      else if c = CHR ''['' then Some TLBrack else if c = CHR '']'' then Some TRBrack
      else if c = CHR '':'' then Some TColon else if c = CHR '','' then Some TComma else None)"

function json_lex :: "string \<Rightarrow> jtoken list option" where
  "json_lex s = (case s of [] \<Rightarrow> Some [] | c # cs \<Rightarrow>
     if is_space c then json_lex cs
     else (case punctuation c of
       Some t \<Rightarrow> map_option (Cons t) (json_lex cs)
     | None \<Rightarrow>
         if c = quote_char then (case scan_string cs of None \<Rightarrow> None
           | Some (v, rest) \<Rightarrow> map_option (Cons (TVal (JStr (to_valid_utf8 v)))) (json_lex rest))
         else if is_number_char c then
           (if valid_number (takeWhile is_number_char s)
            then map_option (Cons (TVal (JNum (takeWhile is_number_char s)))) (json_lex (dropWhile is_number_char cs))
            else None)
         else (case literal_value (takeWhile is_lower s) of None \<Rightarrow> None
           | Some v \<Rightarrow> map_option (Cons (TVal v)) (json_lex (dropWhile is_lower cs)))))"
  by pat_completeness auto

termination
  by (relation "measure length")
    (auto simp: length_dropWhile_le le_imp_less_Suc dest: scan_string_shorter)

declare json_lex.simps [simp del]

section \<open>Parsing\<close>

text \<open>
  The scanner's stack: an open array with the elements read so far (last first), an open object,
  and an open object whose key has been read. It holds at most 10000 entries.
\<close>

datatype frame = FArr "json list" | FObj "(string \<times> json) list" | FKey "(string \<times> json) list" string

datatype pstate = PValue | PValueOrEnd | PKeyOrEnd | PKey | PColon | PAfter | PDone json

definition maxNestingDepth :: nat where "maxNestingDepth = 10000"

fun deliver :: "json \<Rightarrow> frame list \<Rightarrow> pstate \<times> frame list" where
  "deliver v [] = (PDone v, [])"
| "deliver v (FArr vs # fs) = (PAfter, FArr (v # vs) # fs)"
| "deliver v (FKey kvs k # fs) = (PAfter, FObj ((k, v) # kvs) # fs)"
| "deliver v (FObj kvs # fs) = (PAfter, FObj kvs # fs)"

definition push_frame :: "pstate \<Rightarrow> frame \<Rightarrow> frame list \<Rightarrow> (pstate \<times> frame list) option" where
  "push_frame p f fs = (if length fs < maxNestingDepth then Some (p, f # fs) else None)"

definition begin_value :: "jtoken \<Rightarrow> frame list \<Rightarrow> (pstate \<times> frame list) option" where
  "begin_value t fs = (case t of
     TVal v \<Rightarrow> Some (deliver v fs)
   | TLBrack \<Rightarrow> push_frame PValueOrEnd (FArr []) fs
   | TLBrace \<Rightarrow> push_frame PKeyOrEnd (FObj []) fs
   | _ \<Rightarrow> None)"

definition begin_key :: "jtoken \<Rightarrow> frame list \<Rightarrow> (pstate \<times> frame list) option" where
  "begin_key t fs = (case (t, fs) of
     (TVal (JStr k), FObj kvs # fs') \<Rightarrow> Some (PColon, FKey kvs k # fs')
   | _ \<Rightarrow> None)"

definition end_value :: "jtoken \<Rightarrow> frame list \<Rightarrow> (pstate \<times> frame list) option" where
  "end_value t fs = (case (t, fs) of
     (TComma, FArr vs # fs') \<Rightarrow> Some (PValue, fs)
   | (TRBrack, FArr vs # fs') \<Rightarrow> Some (deliver (JArr (rev vs)) fs')
   | (TComma, FObj kvs # fs') \<Rightarrow> Some (PKey, fs)
   | (TRBrace, FObj kvs # fs') \<Rightarrow> Some (deliver (JObj (rev kvs)) fs')
   | _ \<Rightarrow> None)"

fun json_step :: "pstate \<Rightarrow> frame list \<Rightarrow> jtoken \<Rightarrow> (pstate \<times> frame list) option" where
  "json_step PValue fs t = begin_value t fs"
| "json_step PValueOrEnd fs t = (if t = TRBrack then end_value t fs else begin_value t fs)"
| "json_step PKeyOrEnd fs t = (if t = TRBrace then end_value t fs else begin_key t fs)"
| "json_step PKey fs t = begin_key t fs"
| "json_step PColon fs t = (if t = TColon then Some (PValue, fs) else None)"
| "json_step PAfter fs t = end_value t fs"
| "json_step (PDone v) fs t = None"

fun json_run :: "pstate \<times> frame list \<Rightarrow> jtoken list \<Rightarrow> (pstate \<times> frame list) option" where
  "json_run st [] = Some st"
| "json_run st (t # ts) = (case json_step (fst st) (snd st) t of None \<Rightarrow> None | Some st' \<Rightarrow> json_run st' ts)"

definition json_parse :: "string \<Rightarrow> json option" where
  "json_parse s = (case json_lex s of None \<Rightarrow> None | Some ts \<Rightarrow>
     (case json_run (PValue, []) ts of Some (PDone v, _) \<Rightarrow> Some v | _ \<Rightarrow> None))"

section \<open>Decoding into a struct\<close>

text \<open>
  The name under which a member's key is looked up when it is not exactly the name of a field:
  letters in upper case, and the two other characters whose upper case is an ASCII letter.
\<close>

fun fold_name :: "string \<Rightarrow> string" where
  "fold_name [] = []"
| "fold_name (c # s) =
     (if chr_code c = 0xC5 \<and> s \<noteq> [] \<and> chr_code (hd s) = 0xBF then CHR ''S'' # fold_name (tl s)
      else if chr_code c = 0xE2 \<and> 2 \<le> length s \<and> chr_code (hd s) = 0x84 \<and> chr_code (hd (tl s)) = 0xAA
      then CHR ''K'' # fold_name (tl (tl s))
      else (if is_lower c then char_of (chr_code c - 32) else c) # fold_name s)"

text \<open>How a value is named in an error, and the error itself.\<close>

primrec json_kind :: "json \<Rightarrow> string" where
  "json_kind JNull = ''null''"
| "json_kind (JBool b) = ''bool''"
| "json_kind (JNum lit) = ''number''"
| "json_kind (JStr s) = ''string''"
| "json_kind (JArr vs) = ''array''"
| "json_kind (JObj kvs) = ''object''"

definition type_error :: "string \<Rightarrow> string \<Rightarrow> string \<Rightarrow> string \<Rightarrow> go_error" where
  "type_error kind struct field type =
     GoErr (''json: cannot unmarshal '' @ kind @ '' into Go struct field '' @ struct @ ''.'' @ field @
       '' of type '' @ type)"

text \<open>
  A field decoder takes the value, the struct's and the field's name, and the field's old
  content. A null leaves the field as it is.
\<close>

definition decode_string :: "json \<Rightarrow> string \<Rightarrow> string \<Rightarrow> string \<Rightarrow> go_error + string" where
  "decode_string v struct field old = (case v of JStr s \<Rightarrow> Inr s | JNull \<Rightarrow> Inr old
     | _ \<Rightarrow> Inl (type_error (json_kind v) struct field ''string''))"

definition decode_bool :: "json \<Rightarrow> string \<Rightarrow> string \<Rightarrow> bool \<Rightarrow> go_error + bool" where
  "decode_bool v struct field old = (case v of JBool b \<Rightarrow> Inr b | JNull \<Rightarrow> Inr old
     | _ \<Rightarrow> Inl (type_error (json_kind v) struct field ''bool''))"

definition decode_int :: "json \<Rightarrow> string \<Rightarrow> string \<Rightarrow> int \<Rightarrow> go_error + int" where
  "decode_int v struct field old = (case v of
       JNum lit \<Rightarrow> (case ParseInt lit of Some i \<Rightarrow> Inr i
         | None \<Rightarrow> Inl (type_error (''number '' @ lit) struct field ''int''))
     | JNull \<Rightarrow> Inr old
     | _ \<Rightarrow> Inl (type_error (json_kind v) struct field ''int''))"

text \<open>
  The elements of a slice of strings; a null element keeps what the slice held at its place. The
  first error is the one that is reported.
\<close>

fun decode_elements :: "json list \<Rightarrow> string \<Rightarrow> string \<Rightarrow> string list \<Rightarrow> go_error + string list" where
  "decode_elements [] struct field old = Inr []"
| "decode_elements (v # vs) struct field old =
     (case decode_string v struct field (case old of [] \<Rightarrow> [] | s # _ \<Rightarrow> s) of
        Inl err \<Rightarrow> Inl err
      | Inr s \<Rightarrow> map_sum id (Cons s) (decode_elements vs struct field (tl old)))"

definition decode_strings :: "json \<Rightarrow> string \<Rightarrow> string \<Rightarrow> string list \<Rightarrow> go_error + string list" where
  "decode_strings v struct field old = (case v of JArr vs \<Rightarrow> decode_elements vs struct field old
     | JNull \<Rightarrow> Inr []
     | _ \<Rightarrow> Inl (type_error (json_kind v) struct field ''[]string''))"

text \<open>A struct is its fields: the name and the decoder that fills it in.\<close>

type_synonym 'r json_fields = "(string \<times> (json \<Rightarrow> 'r \<Rightarrow> go_error + 'r)) list"

definition find_field :: "'r json_fields \<Rightarrow> string \<Rightarrow> (json \<Rightarrow> 'r \<Rightarrow> go_error + 'r) option" where
  "find_field fields k = (case map_of fields k of Some f \<Rightarrow> Some f
     | None \<Rightarrow> map_of (map (\<lambda>(n, f). (fold_name n, f)) fields) (fold_name k))"

fun decode_members :: "'r json_fields \<Rightarrow> (string \<times> json) list \<Rightarrow> 'r \<Rightarrow> go_error + 'r" where
  "decode_members fields [] r = Inr r"
| "decode_members fields ((k, v) # kvs) r = (case find_field fields k of
       None \<Rightarrow> decode_members fields kvs r
     | Some f \<Rightarrow> (case f v r of Inl err \<Rightarrow> Inl err | Inr r' \<Rightarrow> decode_members fields kvs r'))"

definition decode_struct :: "'r json_fields \<Rightarrow> string \<Rightarrow> json \<Rightarrow> 'r \<Rightarrow> go_error + 'r" where
  "decode_struct fields name v r = (case v of
       JObj kvs \<Rightarrow> decode_members fields kvs r
     | JNull \<Rightarrow> Inr r
     | _ \<Rightarrow> Inl (GoErr (''json: cannot unmarshal '' @ json_kind v @ '' into Go value of type commands.'' @ name)))"

end
