(* ===== verification/Server_Auth.thy ===== *)
theory Server_Auth
  imports Server_State Basic_Auth Json
begin

text \<open>
  Who may connect (\<^verbatim>\<open>server/servers/auth.go\<close>,
  \<^verbatim>\<open>server/authenticators\<close>): the certificate of the TLS connection, the
  authenticators, and the tokens that stand for a login made before. The htpasswd file, the
  RADIUS exchange and the signing of tokens are third-party code and parameters.
\<close>

section \<open>Requests and responses\<close>

text \<open>
  The parts of \<^verbatim>\<open>http.Request\<close> that are used; of a TLS connection, the common
  name of the first peer certificate if there is one. A response is its headers, its status once
  it is written, and its body.
\<close>

record request =
  rq_Method :: string
  rq_Path :: string
  rq_Header :: http_header
  rq_Proto :: string
  rq_TLS :: "string option option"

record response =
  rs_Header :: http_header
  rs_status :: "nat option"
  rs_body :: string

definition WriteHeader :: "nat \<Rightarrow> response \<Rightarrow> response" where
  "WriteHeader code w = (case rs_status w of None \<Rightarrow> w\<lparr>rs_status := Some code\<rparr> | Some _ \<Rightarrow> w)"

definition response_Write :: "string \<Rightarrow> response \<Rightarrow> response" where
  "response_Write s w = (let w1 = WriteHeader 200 w in w1\<lparr>rs_body := rs_body w1 @ s\<rparr>)"

definition set_header :: "string \<Rightarrow> string \<Rightarrow> response \<Rightarrow> response" where
  "set_header k v w = w\<lparr>rs_Header := header_Set (rs_Header w) k v\<rparr>"

definition http_Error :: "string \<Rightarrow> nat \<Rightarrow> response \<Rightarrow> response" where
  "http_Error msg code w =
     response_Write (msg @ [char_of (10 :: nat)])
       (WriteHeader code (set_header ''X-Content-Type-Options'' ''nosniff''
         (set_header ''Content-Type'' ''text/plain; charset=utf-8''
           (w\<lparr>rs_Header := header_Del (rs_Header w) ''Content-Length''\<rparr>))))"

section \<open>Authenticators\<close>

datatype AuthResult = AuthOk | AuthFailedDefault | AuthFailedCustom

datatype radius_code = CodeAccessAccept | CodeAccessChallenge | CodeOther

text \<open>
  The third-party calls: opening and asking an htpasswd file, reading the RADIUS options from a
  YAML file, setting the attributes of a packet (which fails on texts that are too long), the
  exchange with the RADIUS server, and signing and reading a token. A token is read at an
  instant, because it expires; reading yields its subject.
\<close>

record 'e auth_ext =
  htpasswd_New :: "'e \<Rightarrow> string \<Rightarrow> 'e \<times> (string + nat)"
  htpasswd_Match :: "nat \<Rightarrow> string \<Rightarrow> string \<Rightarrow> bool"
  radius_LoadFile :: "'e \<Rightarrow> string \<Rightarrow> 'e \<times> (string + string \<times> string)"
  rfc2865_UserName_SetString :: "string \<Rightarrow> string option"
  rfc2865_UserPassword_SetString :: "string \<Rightarrow> string \<Rightarrow> string option"
  radius_Exchange :: "'e \<Rightarrow> string \<Rightarrow> string \<Rightarrow> string \<Rightarrow> string \<Rightarrow> 'e \<times> (string + radius_code)"
  jwt_SignedString :: "string \<Rightarrow> string \<Rightarrow> gotime \<Rightarrow> string + string"
  jwt_ParseWithClaims :: "string \<Rightarrow> string \<Rightarrow> gotime \<Rightarrow> string + (string + string)"
  time_Now :: "'e \<Rightarrow> 'e \<times> gotime"

definition htpasswd_Load :: "'e auth_ext \<Rightarrow> 'e \<Rightarrow> string \<Rightarrow> 'e \<times> (go_error + authenticator)" where
  "htpasswd_Load au e configFile =
     (case htpasswd_New au e (if configFile = [] then ''htpasswd'' else configFile) of
        (e', Inl err) \<Rightarrow> (e', Inl (GoErr err))
      | (e', Inr f) \<Rightarrow> (e', Inr (HtpasswdAuthenticator f)))"

definition radius_Load :: "'e auth_ext \<Rightarrow> 'e \<Rightarrow> string \<Rightarrow> 'e \<times> (go_error + authenticator)" where
  "radius_Load au e configFile = (case radius_LoadFile au e configFile of
     (e', Inl err) \<Rightarrow> (e', Inl (GoErr err))
   | (e', Inr (srv, secret)) \<Rightarrow> (e', Inr (RadiusAuthenticator srv secret)))"

definition respondWWWAuthenticateBasic :: "response \<Rightarrow> response" where
  "respondWWWAuthenticateBasic w = w\<lparr>rs_Header := header_Add (rs_Header w) (CanonicalHeaderKey ''WWW-Authenticate'') ''Basic''\<rparr>"

definition allow_all_Authenticate :: "response \<Rightarrow> response \<times> AuthResult \<times> string" where
  "allow_all_Authenticate w = (w, AuthOk, [])"

definition htpasswd_Authenticate :: "'e auth_ext \<Rightarrow> nat \<Rightarrow> request \<Rightarrow> response \<Rightarrow> response \<times> AuthResult \<times> string" where
  "htpasswd_Authenticate au authFile r w = (case BasicAuth (rq_Header r) of
     None \<Rightarrow> (respondWWWAuthenticateBasic w, AuthFailedDefault, [])
   | Some (username, password) \<Rightarrow>
       if \<not> htpasswd_Match au authFile username password
       then (respondWWWAuthenticateBasic w, AuthFailedDefault, [])
       else (w, AuthOk, username))"

definition radius_Authenticate :: "'e auth_ext \<Rightarrow> string \<Rightarrow> string \<Rightarrow> 'e \<Rightarrow> request \<Rightarrow> response
    \<Rightarrow> 'e \<times> response \<times> AuthResult \<times> string" where
  "radius_Authenticate au srv secret e r w = (case BasicAuth (rq_Header r) of
     None \<Rightarrow> (e, respondWWWAuthenticateBasic w, AuthFailedDefault, [])
   | Some (username, password) \<Rightarrow>
       if rfc2865_UserName_SetString au username \<noteq> None
       then (e, respondWWWAuthenticateBasic w, AuthFailedDefault, [])
       else if rfc2865_UserPassword_SetString au secret password \<noteq> None
       then (e, respondWWWAuthenticateBasic w, AuthFailedDefault, [])
       else (case radius_Exchange au e srv secret username password of
         (e', Inl err) \<Rightarrow> (e', http_Error ''Internal server error'' 500 w, AuthFailedCustom, [])
       | (e', Inr code) \<Rightarrow>
           if code = CodeAccessChallenge
           then (e', http_Error ''Access challenge not implemented'' 401 w, AuthFailedCustom, [])
           else if code \<noteq> CodeAccessAccept
           then (e', respondWWWAuthenticateBasic w, AuthFailedDefault, [])
           else (e', w, AuthOk, username)))"

primrec Authenticate :: "'e auth_ext \<Rightarrow> authenticator \<Rightarrow> 'e \<Rightarrow> request \<Rightarrow> response
    \<Rightarrow> 'e \<times> response \<times> AuthResult \<times> string" where
  "Authenticate au AllowAllAuthenticator e r w = (e, allow_all_Authenticate w)"
| "Authenticate au (HtpasswdAuthenticator f) e r w = (e, htpasswd_Authenticate au f r w)"
| "Authenticate au (RadiusAuthenticator srv secret) e r w = radius_Authenticate au srv secret e r w"

section \<open>The server\<close>

text \<open>What becomes of the answer of the authenticator.\<close>

definition auth_outcome :: "string \<Rightarrow> 'e \<times> response \<times> AuthResult \<times> string \<Rightarrow> 'e \<times> response \<times> bool \<times> string" where
  "auth_outcome tlsUsername answer = (case answer of (e', w', authResult, authUsername) \<Rightarrow>
     if authResult \<noteq> AuthOk
     then (e', if authResult = AuthFailedDefault then http_Error ''Unauthorized'' 401 w' else w', False, [])
     else if authUsername \<noteq> [] \<and> tlsUsername \<noteq> [] \<and> authUsername \<noteq> tlsUsername
     then (e', http_Error ''Mismatch between MTLS CN and authenticator username'' 401 w', False, [])
     else if authUsername = [] then (e', w', True, tlsUsername)
     else (e', w', True, authUsername))"

text \<open>A call through a nil authenticator panics.\<close>

definition handleSocketAuth :: "'e auth_ext \<Rightarrow> server \<Rightarrow> 'e \<Rightarrow> request \<Rightarrow> response
    \<Rightarrow> ('e \<times> response \<times> bool \<times> string) go" where
  "handleSocketAuth au s e r w =
     (let tlsUsername = (case rq_TLS r of Some (Some cn) \<Rightarrow> cn | _ \<Rightarrow> []) in
      if (case sv_TLSConfig s of None \<Rightarrow> False | Some t \<Rightarrow> tc_RequireAndVerifyClientCert t) \<and> tlsUsername = []
      then Ret (e, http_Error ''Mutual TLS required but no certificate given'' 401 w, False, [])
      else (case sv_Authenticator s of
        None \<Rightarrow> Panic
      | Some a \<Rightarrow> Ret (auth_outcome tlsUsername (Authenticate au a e r w))))"

definition handlePreauthorizeToken :: "'e auth_ext \<Rightarrow> server \<Rightarrow> 'e \<Rightarrow> response \<Rightarrow> string
    \<Rightarrow> 'e \<times> response \<times> bool \<times> string" where
  "handlePreauthorizeToken au s e w token = (case time_Now au e of (e', now) \<Rightarrow>
     (case jwt_ParseWithClaims au (sv_PreauthorizeSecret s) token now of
        Inl err \<Rightarrow> (e', http_Error ''Failed to parse JWT'' 400 w, False, [])
      | Inr (Inl err) \<Rightarrow> (e', http_Error ''Failed to read JWT'' 400 w, False, [])
      | Inr (Inr subject) \<Rightarrow> (e', w, True, subject)))"

text \<open>What \<^verbatim>\<open>sendPreauthorizedResponse\<close> marshals.\<close>

datatype preauthorizeResponse = PreauthorizeResponse bool string

fun preauthorize_json :: "preauthorizeResponse \<Rightarrow> json" where
  "preauthorize_json (PreauthorizeResponse success token) =
     JObj [(''success'', JBool success), (''token'', JStr token)]"

definition sendPreauthorizedResponse :: "preauthorizeResponse \<Rightarrow> response \<Rightarrow> response" where
  "sendPreauthorizedResponse resp w =
     response_Write (json_text (preauthorize_json resp)) (WriteHeader 200 (set_header ''Content-Type'' ''application/json'' w))"

definition minute :: gotime where "minute = 60 * second"

text \<open>The second component is what was sent, if it was a success.\<close>

definition handlePreauthorize :: "'e auth_ext \<Rightarrow> server \<Rightarrow> 'e \<Rightarrow> request \<Rightarrow> response
    \<Rightarrow> ('e \<times> response \<times> preauthorizeResponse option) go" where
  "handlePreauthorize au s e r w =
     (if rq_Method r = ''OPTIONS''
      then Ret (e, response_Write ''OK'' (set_header ''Access-Control-Allow-Credentials'' ''true''
             (set_header ''Access-Control-Allow-Headers'' ''Content-Type, Content-Length, Authorization''
               (set_header ''Access-Control-Allow-Methods'' ''POST''
                 (set_header ''Access-Control-Allow-Origin'' ''*'' w)))), None)
      else if rq_Method r \<noteq> ''POST'' then Ret (e, http_Error ''Method not allowed'' 405 w, None)
      else if sv_PreauthorizeSecret s = [] then Ret (e, http_Error ''Preauthorization is not enabled'' 403 w, None)
      else (case handleSocketAuth au s e r w of
        Panic \<Rightarrow> Panic
      | Ret (e1, w1, authOk, authUsername) \<Rightarrow>
          if \<not> authOk then Ret (e1, w1, None)
          else if authUsername = []
          then Ret (e1, sendPreauthorizedResponse (PreauthorizeResponse True []) w1, Some (PreauthorizeResponse True []))
          else (case time_Now au e1 of (e2, now) \<Rightarrow>
            (case jwt_SignedString au (sv_PreauthorizeSecret s) authUsername (now + minute) of
               Inl err \<Rightarrow> Ret (e2, http_Error ''Failed to sign JWT'' 500 w1, None)
             | Inr signedToken \<Rightarrow> Ret (e2, sendPreauthorizedResponse (PreauthorizeResponse True signedToken) w1,
                 Some (PreauthorizeResponse True signedToken))))))"

section \<open>Lemmas\<close>

lemma rs_status_simps [simp]:
  "rs_status (set_header k v w) = rs_status w"
  "rs_status (response_Write s w) = (case rs_status w of None \<Rightarrow> Some 200 | Some c \<Rightarrow> Some c)"
  "rs_status (WriteHeader code w) = (case rs_status w of None \<Rightarrow> Some code | Some c \<Rightarrow> Some c)"
  by (simp_all add: set_header_def response_Write_def WriteHeader_def Let_def split: option.splits)

lemma rs_status_Error [simp]:
  "rs_status (http_Error msg code w) = (case rs_status w of None \<Rightarrow> Some code | Some c \<Rightarrow> Some c)"
  by (simp add: http_Error_def split: option.splits)

section \<open>The contract of an authenticator\<close>

text \<open>
  What \<^verbatim>\<open>Server\<close> relies on: a login that is accepted was accepted for the name that is
  returned, and nothing was written to the client; a failure that the server adds no error to was answered by
  the authenticator. \<open>accepts e e' r name\<close> says for what an authenticator lets a request in.
\<close>

locale auth_contract =
  fixes auth :: "'e \<Rightarrow> request \<Rightarrow> response \<Rightarrow> 'e \<times> response \<times> AuthResult \<times> string"
    and accepts :: "'e \<Rightarrow> 'e \<Rightarrow> request \<Rightarrow> string \<Rightarrow> bool"
  assumes accepted: "auth e r w = (e', w', AuthOk, name) \<Longrightarrow> w' = w \<and> accepts e e' r name"
    and answered: "auth e r w = (e', w', AuthFailedCustom, name) \<Longrightarrow> rs_status w' \<noteq> None"
begin

lemma outcome:
  assumes "auth_outcome tlsUsername (auth e r w) = (e', w', success, user)"
  shows "if success
    then \<exists>name. auth e r w = (e', w', AuthOk, name) \<and> accepts e e' r name \<and> user = (if name = [] then tlsUsername else name) \<and>
      (name = [] \<or> tlsUsername = [] \<or> tlsUsername = name)
    else user = [] \<and> (\<exists>c. rs_status w' = Some c)"
proof -
  obtain e1 w1 res name where n: "auth e r w = (e1, w1, res, name)" by (rule prod_cases4)
  show ?thesis
    using assms n accepted [of e r w e1 w1 name] answered [of e r w e1 w1 name]
    by (cases res) (auto simp: auth_outcome_def split: if_splits option.splits)
qed

end

text \<open>The three authenticators keep it.\<close>

definition password_accepts :: "'e auth_ext \<Rightarrow> nat \<Rightarrow> request \<Rightarrow> string \<Rightarrow> bool" where
  "password_accepts au f r name \<longleftrightarrow> (\<exists>pw. BasicAuth (rq_Header r) = Some (name, pw) \<and> htpasswd_Match au f name pw)"

definition radius_accepts :: "'e auth_ext \<Rightarrow> string \<Rightarrow> string \<Rightarrow> 'e \<Rightarrow> 'e \<Rightarrow> request \<Rightarrow> string \<Rightarrow> bool" where
  "radius_accepts au srv secret e e' r name \<longleftrightarrow> (\<exists>pw. BasicAuth (rq_Header r) = Some (name, pw) \<and>
     radius_Exchange au e srv secret name pw = (e', Inr CodeAccessAccept))"

interpretation allow_all: auth_contract "\<lambda>e r w. (e, allow_all_Authenticate w)" "\<lambda>e e' r name. name = []"
  by unfold_locales (auto simp: allow_all_Authenticate_def)

interpretation htpasswd: auth_contract "\<lambda>e r w. (e, htpasswd_Authenticate au f r w)" "\<lambda>e e' r name. password_accepts au f r name" for au f
  by unfold_locales (auto simp: htpasswd_Authenticate_def password_accepts_def split: option.splits prod.splits if_splits)

interpretation radius: auth_contract "radius_Authenticate au srv secret" "radius_accepts au srv secret" for au srv secret
  by unfold_locales (auto simp: radius_Authenticate_def radius_accepts_def split: option.splits prod.splits sum.splits if_splits)

primrec authenticator_accepts :: "'e auth_ext \<Rightarrow> authenticator \<Rightarrow> 'e \<Rightarrow> 'e \<Rightarrow> request \<Rightarrow> string \<Rightarrow> bool" where
  "authenticator_accepts au AllowAllAuthenticator e e' r name \<longleftrightarrow> name = []"
| "authenticator_accepts au (HtpasswdAuthenticator f) e e' r name \<longleftrightarrow> password_accepts au f r name"
| "authenticator_accepts au (RadiusAuthenticator srv secret) e e' r name \<longleftrightarrow> radius_accepts au srv secret e e' r name"

interpretation any_authenticator: auth_contract "Authenticate au a" "authenticator_accepts au a" for au a
proof
  show "w' = w \<and> authenticator_accepts au a e e' r name" if "Authenticate au a e r w = (e', w', AuthOk, name)" for e r w e' w' name
    using that
    by (cases a; simp only: Authenticate.simps authenticator_accepts.simps)
      (erule allow_all.accepted htpasswd.accepted radius.accepted)+
  show "rs_status w' \<noteq> None" if "Authenticate au a e r w = (e', w', AuthFailedCustom, name)" for e r w e' w' name
    using that
    by (cases a; simp only: Authenticate.simps)
      (erule allow_all.answered htpasswd.answered radius.answered)+
qed

definition cert_name :: "request \<Rightarrow> string" where
  "cert_name r = (case rq_TLS r of Some (Some cn) \<Rightarrow> cn | _ \<Rightarrow> [])"

text \<open>
  C20 Who a connection belongs to: a login succeeds only if the authenticator accepts it -
  with a password file or a RADIUS server, only with a password for this very name - and then
  the user is the name that was authenticated, or the name in the certificate if there is none;
  if there are both they are equal. A login that fails always gets an HTTP error.
\<close>

theorem login_identity:
  assumes "handleSocketAuth au s e r w = Ret (e', w', success, user)" and "rs_status w = None"
  shows "if success
    then \<exists>a name. sv_Authenticator s = Some a \<and> Authenticate au a e r w = (e', w', AuthOk, name) \<and>
      authenticator_accepts au a e e' r name \<and> user = (if name = [] then cert_name r else name) \<and>
      (name = [] \<or> cert_name r = [] \<or> cert_name r = name)
    else user = [] \<and> (\<exists>c. rs_status w' = Some c)"
proof (cases "(case sv_TLSConfig s of None \<Rightarrow> False | Some t \<Rightarrow> tc_RequireAndVerifyClientCert t) \<and> cert_name r = []")
  case True
  then show ?thesis using assms by (auto simp: handleSocketAuth_def cert_name_def [symmetric] Let_def)
next
  case False
  then obtain a where a: "sv_Authenticator s = Some a" "auth_outcome (cert_name r) (Authenticate au a e r w) = (e', w', success, user)"
    using assms(1) by (auto simp: handleSocketAuth_def cert_name_def [symmetric] Let_def split: option.splits)
  show ?thesis
    using any_authenticator.outcome [OF a(2)] a(1) by (simp split: if_splits)
qed

definition example_auth :: "demo_env auth_ext" where
  "example_auth = \<lparr>htpasswd_New = (\<lambda>e f. (e, Inr 0)),
     htpasswd_Match = (\<lambda>f u pw. u = ''alice'' \<and> pw = ''secret''),
     radius_LoadFile = (\<lambda>e f. (e, Inl ''no such file'')),
     rfc2865_UserName_SetString = (\<lambda>u. None), rfc2865_UserPassword_SetString = (\<lambda>k pw. None),
     radius_Exchange = (\<lambda>e srv k u pw. (e, Inl ''timeout'')),
     jwt_SignedString = (\<lambda>k u t. Inr (k @ CHR ''.'' # u)),
     jwt_ParseWithClaims = (\<lambda>k tok now. if take (Suc (length k)) tok = k @ ''.'' then Inr (Inr (drop (Suc (length k)) tok))
       else Inl ''token is malformed''),
     time_Now = (\<lambda>e. (e, 0))\<rparr>"

definition example_alice :: Userinfo where
  "example_alice = \<lparr>ui_username = ''alice'', ui_password = ''secret'', ui_passwordSet = True\<rparr>"

definition example_login :: request where
  "example_login = \<lparr>rq_Method = ''POST'', rq_Path = ''/preauthorize'',
     rq_Header = SetBasicAuthFromUserInfo Map.empty (Some example_alice), rq_Proto = ''HTTP/1.1'', rq_TLS = None\<rparr>"

definition empty_response :: response where
  "empty_response = \<lparr>rs_Header = Map.empty, rs_status = None, rs_body = []\<rparr>"

definition example_auth_server :: server where
  "example_auth_server = NewServer\<lparr>sv_Authenticator := Some (HtpasswdAuthenticator 0), sv_PreauthorizeSecret := ''key''\<rparr>"

lemma example_login_auth: "BasicAuth (rq_Header example_login) = Some (''alice'', ''secret'')"
proof -
  have "url_escape ''alice'' = ''alice''" "url_escape ''secret'' = ''secret''" by code_simp+
  then show ?thesis
    by (simp add: example_login_def BasicAuth_SetBasicAuth example_alice_def)
qed

lemma example_login_run:
  "handleSocketAuth example_auth example_auth_server [] example_login empty_response =
   Ret ([], empty_response, True, ''alice'')"
  using example_login_auth by (simp add: handleSocketAuth_def auth_outcome_def example_auth_server_def NewServer_def htpasswd_Authenticate_def
      example_auth_def example_login_def)

theorem login_identity_witness:
  "\<exists>pw. BasicAuth (rq_Header example_login) = Some (''alice'', pw) \<and> htpasswd_Match example_auth 0 ''alice'' pw"
proof -
  have "cert_name example_login = []" by (simp add: cert_name_def example_login_def)
  then show ?thesis
    using login_identity [OF example_login_run] by (auto simp: empty_response_def example_auth_server_def password_accepts_def)
qed

text \<open>
  A login by token is the login it stands for: if the token library does what it promises -
  a token is read back before it expires with the subject it was signed for - then the token
  that \<^verbatim>\<open>/preauthorize\<close> returns to a user is accepted for a minute, under the same
  secret, and the connection belongs to the user the authenticator had accepted.
\<close>

theorem preauthorized_login:
  assumes "\<And>secret sub expires token now. jwt_SignedString au secret sub expires = Inr token \<Longrightarrow> now < expires \<Longrightarrow>
      jwt_ParseWithClaims au secret token now = Inr (Inr sub)"
    and "handlePreauthorize au s e r w = Ret (e1, w1, Some (PreauthorizeResponse success token))" and "token \<noteq> []"
    and "sv_PreauthorizeSecret s' = sv_PreauthorizeSecret s"
  shows "\<exists>user ea wa t0 eb. handleSocketAuth au s e r w = Ret (ea, wa, True, user) \<and> user \<noteq> [] \<and>
    time_Now au ea = (eb, t0) \<and>
    (\<forall>e2 w2 e3 t. time_Now au e2 = (e3, t) \<longrightarrow> t < t0 + minute \<longrightarrow>
      handlePreauthorizeToken au s' e2 w2 token = (e3, w2, True, user))"
proof -
  obtain ea wa user eb t0 where h: "handleSocketAuth au s e r w = Ret (ea, wa, True, user)" "user \<noteq> []"
    "time_Now au ea = (eb, t0)" and tok: "jwt_SignedString au (sv_PreauthorizeSecret s) user (t0 + minute) = Inr token"
    using assms(2,3)
    by (auto simp: handlePreauthorize_def split: if_splits go.splits prod.splits sum.splits)
  have "handlePreauthorizeToken au s' e2 w2 token = (e3, w2, True, user)"
    if "time_Now au e2 = (e3, t)" "t < t0 + minute" for e2 w2 e3 t
    using that assms(1) [OF tok, of t] assms(4) by (simp add: handlePreauthorizeToken_def)
  then show ?thesis using h by blast
qed

theorem preauthorized_login_witness:
  "\<exists>w1. handlePreauthorize example_auth example_auth_server [] example_login empty_response =
      Ret ([], w1, Some (PreauthorizeResponse True ''key.alice'')) \<and>
    handlePreauthorizeToken example_auth example_auth_server [] empty_response ''key.alice'' = ([], empty_response, True, ''alice'')"
proof -
  have laws: "jwt_SignedString example_auth secret sub expires = Inr token \<Longrightarrow> now < expires \<Longrightarrow>
      jwt_ParseWithClaims example_auth secret token now = Inr (Inr sub)" for secret sub expires token now
    by (auto simp: example_auth_def)
  obtain w1 where p: "handlePreauthorize example_auth example_auth_server [] example_login empty_response =
      Ret ([], w1, Some (PreauthorizeResponse True ''key.alice''))"
    using example_login_run
    by (simp add: handlePreauthorize_def example_login_def) (simp add: example_auth_server_def example_auth_def)
  have "time_Now example_auth e = (e, 0)" "(0 :: gotime) < 0 + minute" for e
    by (simp_all add: example_auth_def minute_def second_def)
  then show ?thesis
    using preauthorized_login [OF laws p] p example_login_run by auto
qed

end
