(* ===== verification/Json_Roundtrip.thy ===== *)
theory Json_Roundtrip
  imports Json
begin

text \<open>
  What \<^verbatim>\<open>json.Marshal\<close> writes is read back as the same value: escaped strings,
  then tokens, then the nesting, for values with ASCII strings and well-formed numbers.
\<close>

section \<open>Strings\<close>

lemma hex_value_digit [simp]: "n < 16 \<Longrightarrow> hex_value (hex_digit n) = Some n"
  by (simp add: hex_value_def hex_digit_def)

lemma chr_code_neq: "chr_code c \<noteq> chr_code d \<Longrightarrow> c \<noteq> d"
  by blast

lemma append_single: "append [c] = Cons c"
  by (rule ext) simp

lemma scan_u:
  "hex4 (take 4 s) = Some r \<Longrightarrow> r < 0xD800 \<Longrightarrow> scan_string (backslash # CHR ''u'' # s) =
     map_option (apfst (append (EncodeRune r))) (scan_string (drop 4 s))"
  by (subst scan_string.simps) (simp add: backslash_def quote_char_def)

lemma scan_escape_byte:
  assumes "chr_code c < 0x80"
  shows "scan_string (json_escape_byte c @ s) = map_option (apfst (Cons c)) (scan_string s)"
proof -
  have sp: "c = char_of n" if "chr_code c = n" for n :: nat using that by auto
  have u: "EncodeRune (chr_code c) = [c]" using assms by (simp add: EncodeRune_ascii)
  have h: "hex4 (take 4 (CHR ''0'' # CHR ''0'' # hex_digit (chr_code c div 16) # hex_digit (chr_code c mod 16) # s)) =
      Some (chr_code c)"
    using assms by (simp add: hex4_def hex_value_def [of "CHR ''0''"])
  consider (q) "c = backslash \<or> c = quote_char"
    | (b) "chr_code c \<in> {8, 9, 10, 12, 13}"
    | (x) "c \<noteq> backslash" "c \<noteq> quote_char" "chr_code c \<notin> {8, 9, 10, 12, 13}"
        "chr_code c < 0x20 \<or> c = CHR ''<'' \<or> c = CHR ''>'' \<or> c = CHR ''&''"
    | (n) "c \<noteq> backslash" "c \<noteq> quote_char" "0x20 \<le> chr_code c" "c \<noteq> CHR ''<''" "c \<noteq> CHR ''>''" "c \<noteq> CHR ''&''"
    by fastforce
  then show ?thesis
  proof cases
    case q
    then show ?thesis
      by (subst scan_string.simps) (auto simp: json_escape_byte_def unescape_byte_def backslash_def quote_char_def)
  next
    case b
    then have ns: "c \<noteq> backslash" "c \<noteq> quote_char" by (auto simp: backslash_def quote_char_def)
    from b have "c = char_of (8 :: nat) \<or> c = char_of (9 :: nat) \<or> c = char_of (10 :: nat) \<or>
        c = char_of (12 :: nat) \<or> c = char_of (13 :: nat)"
      using sp [of 8] sp [of 9] sp [of 10] sp [of 12] sp [of 13] by auto
    then show ?thesis using ns b
      by (subst scan_string.simps)
        (auto simp: json_escape_byte_def unescape_byte_def backslash_def quote_char_def)
  next
    case x
    have "json_escape_byte c @ s =
        backslash # CHR ''u'' # CHR ''0'' # CHR ''0'' # hex_digit (chr_code c div 16) # hex_digit (chr_code c mod 16) # s"
      using x by (auto simp: json_escape_byte_def Let_def)
    then show ?thesis
      using h u assms by (simp add: scan_u append_single)
  next
    case n
    then have "json_escape_byte c = [c]" by (auto simp: json_escape_byte_def Let_def)
    then show ?thesis using n by (subst scan_string.simps) simp
  qed
qed

lemma scan_escape:
  "ascii s \<Longrightarrow> scan_string (json_escape s @ quote_char # rest) = Some (s, rest)"
proof (induction s)
  case Nil
  show ?case by (simp add: json_escape.simps scan_string.simps)
next
  case (Cons c s)
  then show ?case
    by (simp add: json_escape.simps [of "c # s"] scan_escape_byte)
qed

lemma lex_string:
  "ascii s \<Longrightarrow> json_lex (json_string s @ rest) = map_option (Cons (TVal (JStr s))) (json_lex rest)"
  by (subst json_lex.simps)
    (simp add: json_string_def scan_escape [unfolded quote_char_def] to_valid_utf8_ascii is_space_def
      punctuation_def quote_char_def)

section \<open>Tokens\<close>

fun tokens :: "json \<Rightarrow> jtoken list" where
  "tokens (JArr vs) = TLBrack # join_with [TComma] (map tokens vs) @ [TRBrack]"
| "tokens (JObj kvs) = TLBrace #
     join_with [TComma] (map (\<lambda>kv. [TVal (JStr (fst kv)), TColon] @ tokens (snd kv)) kvs) @ [TRBrace]"
| "tokens v = [TVal v]"

text \<open>The values for which the text is exact.\<close>

fun plain :: "json \<Rightarrow> bool" where
  "plain (JNum lit) \<longleftrightarrow> valid_number lit \<and> list_all is_number_char lit \<and> lit \<noteq> []"
| "plain (JStr s) \<longleftrightarrow> ascii s"
| "plain (JArr vs) \<longleftrightarrow> list_all plain vs"
| "plain (JObj kvs) \<longleftrightarrow> list_all (\<lambda>kv. ascii (fst kv) \<and> plain (snd kv)) kvs"
| "plain v \<longleftrightarrow> True"

definition delim :: "string \<Rightarrow> bool" where
  "delim s \<longleftrightarrow> s = [] \<or> hd s \<in> set '',]}''"

lemma delim_simps [simp]: "delim []" "delim (CHR '','' # s)" "delim (CHR '']'' # s)" "delim (CHR ''}'' # s)"
  by (simp_all add: delim_def)

lemma lex_punctuation:
  "punctuation c = Some t \<Longrightarrow> json_lex (c # s) = map_option (Cons t) (json_lex s)"
  by (subst json_lex.simps) (auto simp: punctuation_def is_space_def split: if_splits)

lemma lex_punctuations [simp]:
  "json_lex (CHR ''{'' # s) = map_option (Cons TLBrace) (json_lex s)"
  "json_lex (CHR ''}'' # s) = map_option (Cons TRBrace) (json_lex s)"
  "json_lex (CHR ''['' # s) = map_option (Cons TLBrack) (json_lex s)"
  "json_lex (CHR '']'' # s) = map_option (Cons TRBrack) (json_lex s)"
  "json_lex (CHR '':'' # s) = map_option (Cons TColon) (json_lex s)"
  "json_lex (CHR '','' # s) = map_option (Cons TComma) (json_lex s)"
  by (simp_all add: lex_punctuation punctuation_def)

lemma takeWhile_delim:
  assumes "list_all P s" and "rest \<noteq> [] \<Longrightarrow> \<not> P (hd rest)"
  shows "takeWhile P (s @ rest) = s" and "dropWhile P (s @ rest) = rest"
  using assms by (cases rest; simp add: list_all_iff takeWhile_append dropWhile_append)+

lemma delim_chars: "delim s \<Longrightarrow> s \<noteq> [] \<Longrightarrow> \<not> is_number_char (hd s) \<and> \<not> is_lower (hd s)"
  by (auto simp: delim_def is_number_char_def is_digit_def is_lower_def)

lemma punctuation_None: "punctuation c = None \<longleftrightarrow> c \<notin> set ''{}[]:,''"
  by (simp add: punctuation_def)

lemma number_char_not_other:
  assumes "is_number_char c"
  shows "\<not> is_space c" and "punctuation c = None" and "c \<noteq> quote_char"
proof -
  have n: "chr_code c \<in> {43, 45, 46, 69, 101} \<or> 48 \<le> chr_code c \<and> chr_code c \<le> 57"
    using assms by (auto simp: is_number_char_def is_digit_def)
  show "\<not> is_space c" using n by (auto simp: is_space_def)
  show "punctuation c = None" using n by (auto simp: punctuation_None)
  show "c \<noteq> quote_char" using n by (auto simp: quote_char_def)
qed

lemma lex_number:
  assumes "plain (JNum lit)" and "delim rest"
  shows "json_lex (lit @ rest) = map_option (Cons (TVal (JNum lit))) (json_lex rest)"
proof -
  obtain c cs where lit: "lit = c # cs" using assms(1) by (cases lit) auto
  have d: "rest \<noteq> [] \<Longrightarrow> \<not> is_number_char (hd rest)" using delim_chars [OF assms(2)] by blast
  have "takeWhile is_number_char (lit @ rest) = lit" "dropWhile is_number_char (cs @ rest) = rest"
    using assms(1) lit takeWhile_delim [of is_number_char lit rest, OF _ d]
      takeWhile_delim [of is_number_char cs rest, OF _ d] by simp_all
  then show ?thesis
    using assms(1) lit number_char_not_other [of c] by (subst json_lex.simps) simp
qed

lemma lex_literal:
  assumes "literal_value lit = Some v" and "delim rest"
  shows "json_lex (lit @ rest) = map_option (Cons (TVal v)) (json_lex rest)"
proof -
  have lit: "lit = ''true'' \<or> lit = ''false'' \<or> lit = ''null''"
    using assms(1) by (auto simp: literal_value_def split: if_splits)
  have d: "rest \<noteq> [] \<Longrightarrow> \<not> is_lower (hd rest)" using delim_chars [OF assms(2)] by blast
  have l: "list_all is_lower lit" using lit by (auto simp: is_lower_def)
  have "takeWhile is_lower (lit @ rest) = lit" "dropWhile is_lower (tl lit @ rest) = rest"
    using lit l takeWhile_delim [of is_lower lit rest, OF _ d]
      takeWhile_delim [of is_lower "tl lit" rest, OF _ d] by auto
  then show ?thesis
    using assms(1) lit
    by (subst json_lex.simps)
      (auto simp: is_space_def punctuation_def quote_char_def is_number_char_def is_digit_def)
qed

lemma lex_join:
  assumes "\<And>v rest. v \<in> set vs \<Longrightarrow> delim rest \<Longrightarrow>
      json_lex (txt v @ rest) = map_option (append (tok v)) (json_lex rest)" and "delim rest"
  shows "json_lex (join_with '','' (map txt vs) @ rest) =
    map_option (append (join_with [TComma] (map tok vs))) (json_lex rest)"
  using assms(1)
proof (induction vs)
  case (Cons v vs)
  then show ?case
    using assms(2) by (simp add: join_with_Cons option.map_comp comp_def)
qed (cases "json_lex rest"; simp)

lemma snds_snd: "snd kv \<in> Basic_BNFs.snds kv"
  by (cases kv) simp

lemma lex_text:
  "plain v \<Longrightarrow> delim rest \<Longrightarrow> json_lex (json_text v @ rest) = map_option (append (tokens v)) (json_lex rest)"
proof (induction v arbitrary: rest)
  case (JNum lit)
  then show ?case using lex_number [of lit rest] by simp
next
  case JNull
  then show ?case using lex_literal [of "''null''" JNull rest] by (simp add: literal_value_def)
next
  case (JBool b)
  then show ?case
    using lex_literal [of "''true''" "JBool True" rest] lex_literal [of "''false''" "JBool False" rest]
    by (cases b) (simp_all add: literal_value_def)
next
  case (JStr s)
  then show ?case by (simp add: lex_string)
next
  case (JArr vs)
  have "json_lex (join_with '','' (map json_text vs) @ '']'' @ rest) =
      map_option (append (join_with [TComma] (map tokens vs))) (json_lex ('']'' @ rest))"
    using JArr by (intro lex_join) (auto simp: list_all_iff)
  then show ?case by (simp add: option.map_comp comp_def)
next
  case (JObj kvs)
  have "json_lex (join_with '','' (map (\<lambda>kv. json_string (fst kv) @ '':'' @ json_text (snd kv)) kvs) @ ''}'' @ rest) =
      map_option (append (join_with [TComma] (map (\<lambda>kv. [TVal (JStr (fst kv)), TColon] @ tokens (snd kv)) kvs)))
        (json_lex (''}'' @ rest))"
  proof (intro lex_join)
    fix kv rest'
    assume "kv \<in> set kvs" and "delim rest'"
    then have "json_lex (json_text (snd kv) @ rest') = map_option (append (tokens (snd kv))) (json_lex rest')"
      using JObj.IH [of kv "snd kv" rest'] JObj.prems by (simp add: list_all_iff snds_snd)
    then show "json_lex ((json_string (fst kv) @ '':'' @ json_text (snd kv)) @ rest') =
        map_option (append ([TVal (JStr (fst kv)), TColon] @ tokens (snd kv))) (json_lex rest')"
      using JObj.prems \<open>kv \<in> set kvs\<close>
      by (cases "json_lex rest'") (simp_all add: lex_string list_all_iff)
  qed simp
  then show ?case by (simp add: option.map_comp comp_def)
qed

section \<open>Nesting\<close>

fun depth :: "json \<Rightarrow> nat" where
  "depth (JArr vs) = Suc (foldr max (map depth vs) 0)"
| "depth (JObj kvs) = Suc (foldr max (map (\<lambda>kv. depth (snd kv)) kvs) 0)"
| "depth v = 0"

lemma depth_member: "v \<in> set vs \<Longrightarrow> f v \<le> foldr max (map f vs) (0 :: nat)"
  by (induction vs) auto

lemma json_run_Cons:
  "json_step p fs t = Some st \<Longrightarrow> json_run (p, fs) (t # ts) = json_run st ts"
  by simp

text \<open>What a run over a value's tokens does, before a value is known to have this property.\<close>

definition runs_value :: "json \<Rightarrow> bool" where
  "runs_value v \<longleftrightarrow> (\<forall>p fs ts. length fs + depth v \<le> maxNestingDepth \<longrightarrow> p \<in> {PValue, PValueOrEnd} \<longrightarrow>
     json_run (p, fs) (tokens v @ ts) = json_run (deliver v fs) ts)"

lemma runs_valueD:
  "runs_value v \<Longrightarrow> length fs + depth v \<le> maxNestingDepth \<Longrightarrow> p = PValue \<or> p = PValueOrEnd \<Longrightarrow>
   json_run (p, fs) (tokens v @ ts) = json_run (deliver v fs) ts"
  by (auto simp: runs_value_def)

lemma run_elements:
  assumes "vs \<noteq> []" and "list_all runs_value vs" and "p = PValue \<or> p = PValueOrEnd"
    and "\<forall>v\<in>set vs. Suc (length fs) + depth v \<le> maxNestingDepth"
  shows "json_run (p, FArr acc # fs) (join_with [TComma] (map tokens vs) @ ts) =
    json_run (PAfter, FArr (rev vs @ acc) # fs) ts"
  using assms
proof (induction vs arbitrary: acc p)
  case (Cons v vs)
  have v: "json_run (p, FArr acc # fs) (tokens v @ us) = json_run (PAfter, FArr (v # acc) # fs) us" for us
    using Cons.prems runs_valueD [of v "FArr acc # fs" p us] by simp
  show ?case
  proof (cases "vs = []")
    case False
    then show ?thesis
      using v Cons.prems Cons.IH [of PValue "v # acc"] by (simp add: join_with_Cons end_value_def)
  qed (simp add: v)
qed simp

lemma run_members:
  assumes "kvs \<noteq> []" and "list_all (\<lambda>kv. runs_value (snd kv)) kvs" and "p = PKey \<or> p = PKeyOrEnd"
    and "\<forall>kv\<in>set kvs. Suc (length fs) + depth (snd kv) \<le> maxNestingDepth"
  shows "json_run (p, FObj acc # fs)
      (join_with [TComma] (map (\<lambda>kv. [TVal (JStr (fst kv)), TColon] @ tokens (snd kv)) kvs) @ ts) =
    json_run (PAfter, FObj (rev kvs @ acc) # fs) ts"
  using assms
proof (induction kvs arbitrary: acc p)
  case (Cons kv kvs)
  have v: "json_run (p, FObj acc # fs) (TVal (JStr (fst kv)) # TColon # tokens (snd kv) @ us) =
      json_run (PAfter, FObj (kv # acc) # fs) us" for us
    using Cons.prems runs_valueD [of "snd kv" "FKey acc (fst kv) # fs" PValue us]
    by (auto simp: begin_key_def)
  show ?case
  proof (cases "kvs = []")
    case False
    then show ?thesis
      using v Cons.prems Cons.IH [of PKey "kv # acc"] by (simp add: join_with_Cons end_value_def)
  qed (simp add: v del: json_run.simps)
qed simp

lemma runs_value: "runs_value v"
proof (induction v)
  case (JArr vs)
  have IH: "list_all runs_value vs" using JArr by (simp add: list_all_iff)
  show ?case
    unfolding runs_value_def
  proof (intro allI impI)
    fix p and fs :: "frame list" and ts
    assume d: "length fs + depth (JArr vs) \<le> maxNestingDepth" and p: "p \<in> {PValue, PValueOrEnd}"
    have e: "Suc (length fs) + depth v \<le> maxNestingDepth" if "v \<in> set vs" for v
      using d depth_member [OF that, of depth] by simp
    have "json_step p fs TLBrack = Some (PValueOrEnd, FArr [] # fs)"
      using d p by (auto simp: begin_value_def push_frame_def)
    then show "json_run (p, fs) (tokens (JArr vs) @ ts) = json_run (deliver (JArr vs) fs) ts"
      using run_elements [of vs PValueOrEnd fs "[]" "TRBrack # ts"] IH e
      by (cases "vs = []") (simp_all add: json_run_Cons end_value_def)
  qed
next
  case (JObj kvs)
  have IH: "list_all (\<lambda>kv. runs_value (snd kv)) kvs" using JObj snds_snd by (auto simp: list_all_iff)
  show ?case
    unfolding runs_value_def
  proof (intro allI impI)
    fix p and fs :: "frame list" and ts
    assume d: "length fs + depth (JObj kvs) \<le> maxNestingDepth" and p: "p \<in> {PValue, PValueOrEnd}"
    have e: "Suc (length fs) + depth (snd kv) \<le> maxNestingDepth" if "kv \<in> set kvs" for kv
      using d depth_member [OF that, of "\<lambda>kv. depth (snd kv)"] by simp
    have "json_step p fs TLBrace = Some (PKeyOrEnd, FObj [] # fs)"
      using d p by (auto simp: begin_value_def push_frame_def)
    then show "json_run (p, fs) (tokens (JObj kvs) @ ts) = json_run (deliver (JObj kvs) fs) ts"
      using run_members [of kvs PKeyOrEnd fs "[]" "TRBrace # ts"] IH e
      by (cases "kvs = []") (simp_all add: json_run_Cons end_value_def)
  qed
qed (auto simp: runs_value_def begin_value_def)

lemma parse_text:
  assumes "plain v" and "depth v \<le> maxNestingDepth"
  shows "json_parse (json_text v) = Some v"
proof -
  have "json_lex [] = Some []" by (simp add: json_lex.simps)
  then have "json_lex (json_text v) = Some (tokens v)"
    using lex_text [OF assms(1), of "[]"] by simp
  then show ?thesis
    using runs_valueD [OF runs_value, of "[]" v PValue "[]"] assms(2) by (simp add: json_parse_def)
qed

lemma plain_Itoa: "plain (JNum (Itoa i))"
proof -
  have d: "list_all is_digit (nat_text n)" "nat_text n \<noteq> []" for n
    by (simp_all add: nat_text_digits nat_text_ne)
  have tw: "takeWhile is_digit (nat_text n) = nat_text n" "dropWhile is_digit (nat_text n) = []" for n
    using d(1) [of n] by (simp_all add: list_all_iff takeWhile_eq_all_conv)
  have z: "hd (nat_text n) = CHR ''0'' \<longrightarrow> tl (nat_text n) = []" for n
  proof (cases "n = 0")
    case True
    then show ?thesis by (subst nat_text.simps) simp
  qed (simp add: nat_text_hd)
  have m: "hd (nat_text n) \<noteq> CHR ''-''" for n
    using d [of n] is_digit_not_sign by (cases "nat_text n") auto
  have "list_all is_number_char (nat_text n)" for n
    using d(1) [of n] by (auto simp: list_all_iff is_number_char_def)
  then show ?thesis
    using d z m
    by (simp add: Itoa_def valid_number_def valid_exponent_def is_number_char_def tw Let_def
        del: takeWhile_eq_all_conv dropWhile_eq_Nil_conv)
qed

end
