(* ===== verification/Command_Text.thy ===== *)
theory Command_Text
  imports Commands Serialization Json_Roundtrip
begin

text \<open>
  The text of commands (\<^verbatim>\<open>shared/commands/serialize.go\<close> and the
  \<^verbatim>\<open>json\<close> tags of the command structs): writing an outgoing command, reading an
  incoming one, and reading its parameters into the struct a handler expects.
\<close>

section \<open>Incoming commands\<close>

text \<open>
  \<^verbatim>\<open>Parameters\<close> is a \<^verbatim>\<open>json.RawMessage\<close>, the text of a value; it
  is kept as that value, and as \<open>None\<close> while it is empty.
\<close>

record IncomingCommand =
  ic_ID :: string
  ic_Command :: string
  ic_Parameters :: "json option"

text \<open>A tagged field of a struct.\<close>

definition json_field :: "string \<Rightarrow> string \<Rightarrow> (json \<Rightarrow> string \<Rightarrow> string \<Rightarrow> 'a \<Rightarrow> go_error + 'a)
    \<Rightarrow> ('r \<Rightarrow> 'a) \<Rightarrow> ('a \<Rightarrow> 'r \<Rightarrow> 'r) \<Rightarrow> string \<times> (json \<Rightarrow> 'r \<Rightarrow> go_error + 'r)" where
  "json_field struct name dec get upd =
     (name, \<lambda>v r. map_sum id (\<lambda>a. upd a r) (dec v struct name (get r)))"

definition IncomingCommand_fields :: "IncomingCommand json_fields" where
  "IncomingCommand_fields =
     [json_field ''IncomingCommand'' ''id'' decode_string ic_ID (\<lambda>a. ic_ID_update (\<lambda>_. a)),
      json_field ''IncomingCommand'' ''command'' decode_string ic_Command (\<lambda>a. ic_Command_update (\<lambda>_. a)),
      (''parameters'', \<lambda>v r. Inr (r\<lparr>ic_Parameters := Some v\<rparr>))]"

definition AddRouteParameters_fields :: "AddRouteParameters json_fields" where
  "AddRouteParameters_fields =
     [json_field ''AddRouteParameters'' ''route'' decode_string ar_Route (\<lambda>a. ar_Route_update (\<lambda>_. a))]"

definition InitParameters_fields :: "InitParameters json_fields" where
  "InitParameters_fields =
     [json_field ''InitParameters'' ''mode'' decode_string in_Mode (\<lambda>a. in_Mode_update (\<lambda>_. a)),
      json_field ''InitParameters'' ''do_ip_config'' decode_bool in_DoIPConfig (\<lambda>a. in_DoIPConfig_update (\<lambda>_. a)),
      json_field ''InitParameters'' ''ip_address'' decode_string in_IPAddress (\<lambda>a. in_IPAddress_update (\<lambda>_. a)),
      json_field ''InitParameters'' ''mtu'' decode_int in_MTU (\<lambda>a. in_MTU_update (\<lambda>_. a)),
      json_field ''InitParameters'' ''server_id'' decode_string in_ServerID (\<lambda>a. in_ServerID_update (\<lambda>_. a)),
      json_field ''InitParameters'' ''client_id'' decode_string in_ClientID (\<lambda>a. in_ClientID_update (\<lambda>_. a)),
      json_field ''InitParameters'' ''enable_fragmentation'' decode_bool in_EnableFragmentation
        (\<lambda>a. in_EnableFragmentation_update (\<lambda>_. a))]"

definition MessageParameters_fields :: "MessageParameters json_fields" where
  "MessageParameters_fields =
     [json_field ''MessageParameters'' ''type'' decode_string ms_Type (\<lambda>a. ms_Type_update (\<lambda>_. a)),
      json_field ''MessageParameters'' ''message'' decode_string ms_Message (\<lambda>a. ms_Message_update (\<lambda>_. a))]"

definition ReplyParameters_fields :: "ReplyParameters json_fields" where
  "ReplyParameters_fields =
     [json_field ''ReplyParameters'' ''ok'' decode_bool rp_Ok (\<lambda>a. rp_Ok_update (\<lambda>_. a)),
      json_field ''ReplyParameters'' ''message'' decode_string rp_Message (\<lambda>a. rp_Message_update (\<lambda>_. a))]"

definition SetMTUParameters_fields :: "SetMTUParameters json_fields" where
  "SetMTUParameters_fields =
     [json_field ''SetMTUParameters'' ''mtu'' decode_int sm_MTU (\<lambda>a. sm_MTU_update (\<lambda>_. a))]"

definition VersionParameters_fields :: "VersionParameters json_fields" where
  "VersionParameters_fields =
     [json_field ''VersionParameters'' ''protocol_version'' decode_int vp_ProtocolVersion
        (\<lambda>a. vp_ProtocolVersion_update (\<lambda>_. a)),
      json_field ''VersionParameters'' ''version'' decode_string vp_Version (\<lambda>a. vp_Version_update (\<lambda>_. a)),
      json_field ''VersionParameters'' ''enabled_features'' decode_strings vp_EnabledFeatures
        (\<lambda>a. vp_EnabledFeatures_update (\<lambda>_. a))]"

lemmas field_lists = IncomingCommand_fields_def AddRouteParameters_fields_def InitParameters_fields_def
  MessageParameters_fields_def ReplyParameters_fields_def SetMTUParameters_fields_def
  VersionParameters_fields_def

text \<open>
  \<^verbatim>\<open>DeserializeParameters\<close> fills in the struct it is given: the argument and the
  result are values of the same type of parameters.
\<close>

definition DeserializeParameters :: "IncomingCommand \<Rightarrow> CommandParameters \<Rightarrow> go_error + CommandParameters" where
  "DeserializeParameters c parameters =
     (case ic_Parameters c of
        None \<Rightarrow> Inl (GoErr ''unexpected end of JSON input'')
      | Some v \<Rightarrow> (case parameters of
          AddRoute p \<Rightarrow> map_sum id AddRoute (decode_struct AddRouteParameters_fields ''AddRouteParameters'' v p)
        | Init p \<Rightarrow> map_sum id Init (decode_struct InitParameters_fields ''InitParameters'' v p)
        | Message p \<Rightarrow> map_sum id Message (decode_struct MessageParameters_fields ''MessageParameters'' v p)
        | Reply p \<Rightarrow> map_sum id Reply (decode_struct ReplyParameters_fields ''ReplyParameters'' v p)
        | SetMTUCmd p \<Rightarrow> map_sum id SetMTUCmd (decode_struct SetMTUParameters_fields ''SetMTUParameters'' v p)
        | VersionCmd p \<Rightarrow>
            map_sum id VersionCmd (decode_struct VersionParameters_fields ''VersionParameters'' v p)))"

text \<open>The text of a syntax error is only logged; it is not modelled.\<close>

definition json_Unmarshal_command :: "string \<Rightarrow> go_error + IncomingCommand" where
  "json_Unmarshal_command s = (case json_parse s of
     None \<Rightarrow> Inl (GoErr ''syntax error'')
   | Some v \<Rightarrow> decode_struct IncomingCommand_fields ''IncomingCommand'' v
       \<lparr>ic_ID = [], ic_Command = [], ic_Parameters = None\<rparr>)"

definition DeserializeCommand :: "bytes \<Rightarrow> int \<Rightarrow> go_error + IncomingCommand" where
  "DeserializeCommand message serializationType =
     (if serializationType = SerializationTypeJSON then json_Unmarshal_command (bytes_text message)
      else Inl (GoErr ''unknown serialization type''))"

section \<open>Outgoing commands\<close>

definition json_int :: "int \<Rightarrow> json" where
  "json_int i = JNum (Itoa i)"

primrec parameters_json :: "CommandParameters \<Rightarrow> json" where
  "parameters_json (AddRoute p) = JObj [(''route'', JStr (ar_Route p))]"
| "parameters_json (Init p) = JObj [(''mode'', JStr (in_Mode p)), (''do_ip_config'', JBool (in_DoIPConfig p)),
     (''ip_address'', JStr (in_IPAddress p)), (''mtu'', json_int (in_MTU p)),
     (''server_id'', JStr (in_ServerID p)), (''client_id'', JStr (in_ClientID p)),
     (''enable_fragmentation'', JBool (in_EnableFragmentation p))]"
| "parameters_json (Message p) = JObj [(''type'', JStr (ms_Type p)), (''message'', JStr (ms_Message p))]"
| "parameters_json (Reply p) = JObj [(''ok'', JBool (rp_Ok p)), (''message'', JStr (rp_Message p))]"
| "parameters_json (SetMTUCmd p) = JObj [(''mtu'', json_int (sm_MTU p))]"
| "parameters_json (VersionCmd p) = JObj [(''protocol_version'', json_int (vp_ProtocolVersion p)),
     (''version'', JStr (vp_Version p)), (''enabled_features'', JArr (map JStr (vp_EnabledFeatures p)))]"

definition command_json :: "OutgoingCommand \<Rightarrow> json" where
  "command_json c = JObj [(''id'', JStr (oc_ID c)), (''command'', JStr (oc_Command c)),
     (''parameters'', parameters_json (oc_Parameters c))]"

definition Serialize :: "OutgoingCommand \<Rightarrow> int \<Rightarrow> go_error + bytes" where
  "Serialize c serializationType =
     (if serializationType = SerializationTypeJSON then Inr (text_bytes (json_text (command_json c)))
      else Inl (GoErr ''unknown serialization type''))"

section \<open>Round trip\<close>

text \<open>The zero value of a type of parameters, which each handler declares.\<close>

primrec zero_parameters :: "CommandParameters \<Rightarrow> CommandParameters" where
  "zero_parameters (AddRoute p) = AddRoute \<lparr>ar_Route = []\<rparr>"
| "zero_parameters (Init p) = Init \<lparr>in_Mode = [], in_DoIPConfig = False, in_IPAddress = [], in_MTU = 0,
     in_ServerID = [], in_ClientID = [], in_EnableFragmentation = False\<rparr>"
| "zero_parameters (Message p) = Message \<lparr>ms_Type = [], ms_Message = []\<rparr>"
| "zero_parameters (Reply p) = Reply \<lparr>rp_Ok = False, rp_Message = []\<rparr>"
| "zero_parameters (SetMTUCmd p) = SetMTUCmd \<lparr>sm_MTU = 0\<rparr>"
| "zero_parameters (VersionCmd p) = VersionCmd \<lparr>vp_ProtocolVersion = 0, vp_Version = [], vp_EnabledFeatures = []\<rparr>"

definition int64 :: "int \<Rightarrow> bool" where
  "int64 i \<longleftrightarrow> - (2 ^ 63) \<le> i \<and> i < 2 ^ 63"

text \<open>ASCII strings and numbers that are a Go \<^verbatim>\<open>int\<close>.\<close>

primrec sendable :: "CommandParameters \<Rightarrow> bool" where
  "sendable (AddRoute p) \<longleftrightarrow> ascii (ar_Route p)"
| "sendable (Init p) \<longleftrightarrow> ascii (in_Mode p) \<and> ascii (in_IPAddress p) \<and> int64 (in_MTU p) \<and>
     ascii (in_ServerID p) \<and> ascii (in_ClientID p)"
| "sendable (Message p) \<longleftrightarrow> ascii (ms_Type p) \<and> ascii (ms_Message p)"
| "sendable (Reply p) \<longleftrightarrow> ascii (rp_Message p)"
| "sendable (SetMTUCmd p) \<longleftrightarrow> int64 (sm_MTU p)"
| "sendable (VersionCmd p) \<longleftrightarrow> int64 (vp_ProtocolVersion p) \<and> ascii (vp_Version p) \<and>
     list_all ascii (vp_EnabledFeatures p)"

lemma decode_values [simp]:
  "decode_string (JStr s) struct field old = Inr s"
  "decode_bool (JBool b) struct field oldb = Inr b"
  "int64 i \<Longrightarrow> decode_int (json_int i) struct field oldi = Inr i"
  by (simp_all add: decode_string_def decode_bool_def decode_int_def json_int_def ParseInt_Itoa int64_def)

lemma decode_strings_JStr [simp]: "decode_strings (JArr (map JStr ss)) struct field old = Inr ss"
proof -
  have "decode_elements (map JStr ss) struct field old = Inr ss"
    by (induction ss arbitrary: old) simp_all
  then show ?thesis by (simp add: decode_strings_def)
qed

lemma depth_JStr: "foldr max (map (\<lambda>s. 0) ss) (0 :: nat) = 0"
  by (induction ss) simp_all

lemma plain_parameters: "sendable p \<Longrightarrow> plain (parameters_json p)"
  by (cases p) (simp_all add: json_int_def plain_Itoa list_all_iff del: plain.simps(1))

lemma depth_parameters: "depth (parameters_json p) \<le> 2"
  by (cases p) (simp_all add: json_int_def depth_JStr comp_def)

lemma deserialize_parameters:
  "sendable p \<Longrightarrow> ic_Parameters m = Some (parameters_json p) \<Longrightarrow>
   DeserializeParameters m (zero_parameters p) = Inr p"
  by (cases p) (simp_all add: DeserializeParameters_def decode_struct_def find_field_def json_field_def field_lists)

lemma deserialize_command:
  assumes "sendable (oc_Parameters c)" and "ascii (oc_ID c)" and "ascii (oc_Command c)"
  shows "DeserializeCommand (text_bytes (json_text (command_json c))) SerializationTypeJSON =
    Inr \<lparr>ic_ID = oc_ID c, ic_Command = oc_Command c, ic_Parameters = Some (parameters_json (oc_Parameters c))\<rparr>"
proof -
  have "plain (command_json c)"
    using assms plain_parameters [OF assms(1)] by (simp add: command_json_def)
  moreover have "depth (command_json c) \<le> maxNestingDepth"
    using depth_parameters [of "oc_Parameters c"] by (simp add: command_json_def maxNestingDepth_def)
  ultimately have "json_parse (json_text (command_json c)) = Some (command_json c)" by (rule parse_text)
  then show ?thesis
    by (simp add: DeserializeCommand_def json_Unmarshal_command_def command_json_def decode_struct_def
        find_field_def json_field_def field_lists)
qed

lemma MakeCommand_ascii:
  "MakeCommand x e p cid = (e', c, err) \<Longrightarrow> ascii (oc_Command c) \<and> oc_Parameters c = p"
  by (cases p) (auto simp: makeCommand_def Let_def command_names split: if_splits prod.splits sum.splits)

text \<open>
  C36 A command arrives as it was sent: the text of any command with ASCII strings and numbers in
  the range of Go's \<^verbatim>\<open>int\<close> is read back as a command with the same id and name,
  and the parameters the handler reads from it are the ones the sender gave.
\<close>

theorem command_roundtrip:
  assumes "MakeCommand x e p cid = (e', c, None)" and "sendable p" and "ascii (oc_ID c)"
  shows "\<exists>b m. Serialize c SerializationTypeJSON = Inr b \<and>
    DeserializeCommand b SerializationTypeJSON = Inr m \<and> ic_ID m = oc_ID c \<and>
    ic_Command m = oc_Command c \<and> DeserializeParameters m (zero_parameters p) = Inr p"
  using deserialize_command [of c] deserialize_parameters [OF assms(2)] assms
    MakeCommand_ascii [OF assms(1)]
  by (simp add: Serialize_def)

theorem command_roundtrip_witness:
  "\<exists>b m. Serialize \<lparr>oc_ID = ''i1'', oc_Command = ''set_mtu'', oc_Parameters = SetMTUCmd \<lparr>sm_MTU = 1400\<rparr>\<rparr>
      SerializationTypeJSON = Inr b \<and>
    DeserializeCommand b SerializationTypeJSON = Inr m \<and> ic_ID m = ''i1'' \<and> ic_Command m = ''set_mtu'' \<and>
    DeserializeParameters m (SetMTUCmd \<lparr>sm_MTU = 0\<rparr>) = Inr (SetMTUCmd \<lparr>sm_MTU = 1400\<rparr>)"
  using command_roundtrip [of undefined "()" "SetMTUCmd \<lparr>sm_MTU = 1400\<rparr>" "''i1''" "()"
      "\<lparr>oc_ID = ''i1'', oc_Command = ''set_mtu'', oc_Parameters = SetMTUCmd \<lparr>sm_MTU = 1400\<rparr>\<rparr>"]
  by (simp add: makeCommand_def SetMTUCommandName_def int64_def)

end
