(* ===== verification/Socket_Commands.thy ===== *)
theory Socket_Commands
  imports Socket_Serve Command_Text
begin

text \<open>
  The control channel of a socket (\<^verbatim>\<open>shared/sockets/commands.go\<close>): sending a
  command, handling the text of an incoming one, the handlers that every socket installs and
  the goroutines that send the welcome and an error. The client's own handlers are a parameter
  of the dispatcher, together with the state of type \<open>'c\<close> they keep.
\<close>

section \<open>Sending\<close>

definition rawMakeAndSendCommand :: "('e, 'l) ext \<Rightarrow> sid \<Rightarrow> CommandParameters \<Rightarrow> string \<Rightarrow> ('e, 'l) world
    \<Rightarrow> ('e, 'l) world \<times> go_error option" where
  "rawMakeAndSendCommand x i parameters cid w =
     (let ad = sk_adapter (w_sock w i);
          failed = (\<lambda>e what err. (CloseError x i (GoErr (what @ Error err)) (w\<lparr>w_env := e\<rparr>), Some err)) in
      case command_allowed (w_sock w i) parameters of
        Some err \<Rightarrow> (w, Some err)
      | None \<Rightarrow> (case MakeCommand x (w_env w) parameters cid of
          (e1, cmd, Some err) \<Rightarrow> failed e1 ''error preparing command: '' err
        | (e1, cmd, None) \<Rightarrow> (case Serialize cmd (GetCommandSerializationType ad) of
            Inl err \<Rightarrow> failed e1 ''error serializing command: '' err
          | Inr cmdBytes \<Rightarrow> (case WriteControlMessage x e1 ad cmdBytes of
              (e2, Some err) \<Rightarrow> failed e2 ''error sending command: '' err
            | (e2, None) \<Rightarrow> (w\<lparr>w_env := e2\<rparr>, None)))))"

definition MakeAndSendCommand :: "('e, 'l) ext \<Rightarrow> sid \<Rightarrow> CommandParameters \<Rightarrow> ('e, 'l) world
    \<Rightarrow> ('e, 'l) world \<times> go_error option" where
  "MakeAndSendCommand x i parameters w = rawMakeAndSendCommand x i parameters [] w"

definition SendMessage :: "('e, 'l) ext \<Rightarrow> sid \<Rightarrow> string \<Rightarrow> string \<Rightarrow> ('e, 'l) world
    \<Rightarrow> ('e, 'l) world \<times> go_error option" where
  "SendMessage x i msgType message w =
     MakeAndSendCommand x i (Message \<lparr>ms_Type = msgType, ms_Message = message\<rparr>) w"

definition welcomeParameters :: "socket \<Rightarrow> VersionParameters" where
  "welcomeParameters s = \<lparr>vp_ProtocolVersion = ProtocolVersion, vp_Version = Version,
     vp_EnabledFeatures = localFeaturesArray s\<rparr>"

definition sendDefaultWelcome :: "('e, 'l) ext \<Rightarrow> sid \<Rightarrow> ('e, 'l) world \<Rightarrow> ('e, 'l) world" where
  "sendDefaultWelcome x i w = fst (MakeAndSendCommand x i (VersionCmd (welcomeParameters (w_sock w i))) w)"

text \<open>The goroutine that \<^verbatim>\<open>CloseError\<close> starts.\<close>

definition sendErrorAndClose :: "('e, 'l) ext \<Rightarrow> sid \<Rightarrow> string \<Rightarrow> ('e, 'l) world \<Rightarrow> ('e, 'l) world" where
  "sendErrorAndClose x i text w = close_adapter x i (fst (SendMessage x i ''error'' text w))"

section \<open>Receiving\<close>

definition handle_version :: "sid \<Rightarrow> IncomingCommand \<Rightarrow> ('e, 'l) world \<Rightarrow> ('e, 'l) world \<times> go_error option" where
  "handle_version i command w =
     (case DeserializeParameters command (VersionCmd \<lparr>vp_ProtocolVersion = 0, vp_Version = [], vp_EnabledFeatures = []\<rparr>) of
        Inr (VersionCmd p) \<Rightarrow>
          (upd_sock i (\<lambda>s. handleVersion s (vp_ProtocolVersion p) (vp_EnabledFeatures p)) w, None)
      | Inl err \<Rightarrow> (w, Some err)
      | _ \<Rightarrow> (w, None))"

definition handle_reply :: "IncomingCommand \<Rightarrow> ('e, 'l) world \<Rightarrow> ('e, 'l) world \<times> go_error option" where
  "handle_reply command w =
     (case DeserializeParameters command (Reply \<lparr>rp_Ok = False, rp_Message = []\<rparr>) of
        Inl err \<Rightarrow> (w, Some err) | Inr _ \<Rightarrow> (w, None))"

definition handle_message :: "IncomingCommand \<Rightarrow> ('e, 'l) world \<Rightarrow> ('e, 'l) world \<times> go_error option" where
  "handle_message command w =
     (case DeserializeParameters command (Message \<lparr>ms_Type = [], ms_Message = []\<rparr>) of
        Inl err \<Rightarrow> (w, Some err) | Inr _ \<Rightarrow> (w, None))"

text \<open>The handlers of \<^verbatim>\<open>registerDefaultCommandHandlers\<close>.\<close>

primrec default_handler :: "sid \<Rightarrow> CommandHandler \<Rightarrow> IncomingCommand \<Rightarrow> 'c \<Rightarrow> ('e, 'l) world
    \<Rightarrow> 'c \<times> ('e, 'l) world \<times> go_error option" where
  "default_handler i VersionHandler command c w = (c, handle_version i command w)"
| "default_handler i ReplyHandler command c w = (c, handle_reply command w)"
| "default_handler i MessageHandler command c w = (c, handle_message command w)"
| "default_handler i AddRouteHandler command c w = (c, w, None)"
| "default_handler i InitHandler command c w = (c, w, None)"
| "default_handler i SetMTUHandler command c w = (c, w, None)"

text \<open>The control message handler; \<open>H\<close> runs the handler that is registered.\<close>

definition control_message :: "('e, 'l) ext
    \<Rightarrow> (CommandHandler \<Rightarrow> IncomingCommand \<Rightarrow> 'c \<Rightarrow> ('e, 'l) world \<Rightarrow> 'c \<times> ('e, 'l) world \<times> go_error option)
    \<Rightarrow> sid \<Rightarrow> bytes \<Rightarrow> 'c \<Rightarrow> ('e, 'l) world \<Rightarrow> 'c \<times> ('e, 'l) world \<times> bool" where
  "control_message x H i message c w =
     (case DeserializeCommand message (GetCommandSerializationType (sk_adapter (w_sock w i))) of
        Inl err \<Rightarrow> (c, w, False)
      | Inr command \<Rightarrow>
          (case (case sk_handlers (w_sock w i) (ic_Command command) of
                   None \<Rightarrow> (c, w, Some (GoErr ''unknown command''))
                 | Some handler \<Rightarrow> H handler command c w) of
             (c1, w1, err) \<Rightarrow>
               let replyOk = (err = None);
                   replyStr = (case err of None \<Rightarrow> ''OK'' | Some e \<Rightarrow> Error e);
                   w2 = (if ic_Command command \<noteq> ReplyCommandName
                         then fst (rawMakeAndSendCommand x i (Reply \<lparr>rp_Ok = replyOk, rp_Message = replyStr\<rparr>)
                                (ic_ID command) w1)
                         else w1)
               in (c1, w2, replyOk)))"

section \<open>Lemmas\<close>

text \<open>What sending does to the sockets: nothing, or it closes this one.\<close>

lemma rawMakeAndSendCommand_sock:
  "w_sock (fst (rawMakeAndSendCommand x i p cid w)) j = w_sock w j \<or>
   j = i \<and> w_sock (fst (rawMakeAndSendCommand x i p cid w)) j = closed_socket (w_sock w i)"
  by (auto simp: rawMakeAndSendCommand_def Let_def sock_simps split: option.splits prod.splits sum.splits)

lemma reply_allowed [simp]:
  "0 \<le> sk_remoteProtocolVersion s \<Longrightarrow> command_allowed s (Reply p) = None"
  "0 \<le> sk_remoteProtocolVersion s \<Longrightarrow> command_allowed s (VersionCmd v) = None"
  by (simp_all add: command_allowed_def)

text \<open>A command with a given id goes out as the bytes of its text.\<close>

lemma send_with_id:
  assumes "command_allowed (w_sock w i) p = None" and "cid \<noteq> []" and "sendable p" and "ascii cid"
    and "GetCommandSerializationType (sk_adapter (w_sock w i)) = SerializationTypeJSON"
  shows "\<exists>b r. rawMakeAndSendCommand x i p cid w =
      (case WriteControlMessage x (w_env w) (sk_adapter (w_sock w i)) b of
         (e, None) \<Rightarrow> (w\<lparr>w_env := e\<rparr>, None)
       | (e, Some err) \<Rightarrow> (CloseError x i (GoErr (''error sending command: '' @ Error err)) (w\<lparr>w_env := e\<rparr>), Some err)) \<and>
    DeserializeCommand b SerializationTypeJSON = Inr r \<and> ic_ID r = cid \<and>
    (\<exists>c. MakeCommand x (w_env w) p cid = (w_env w, c, None) \<and> ic_Command r = oc_Command c) \<and>
    DeserializeParameters r (zero_parameters p) = Inr p"
proof -
  obtain name where mk: "MakeCommand x (w_env w) p cid =
      (w_env w, \<lparr>oc_ID = cid, oc_Command = name, oc_Parameters = p\<rparr>, None)"
    using MakeCommand_id [OF assms(2), of x "w_env w" p] by blast
  let ?c = "\<lparr>oc_ID = cid, oc_Command = name, oc_Parameters = p\<rparr>"
  have name: "ascii name" using MakeCommand_ascii [OF mk] by simp
  have d: "DeserializeCommand (text_bytes (json_text (command_json ?c))) SerializationTypeJSON =
      Inr \<lparr>ic_ID = cid, ic_Command = name, ic_Parameters = Some (parameters_json p)\<rparr>"
    using deserialize_command [of ?c] assms(3,4) name by simp
  have s: "Serialize ?c (GetCommandSerializationType (sk_adapter (w_sock w i))) =
      Inr (text_bytes (json_text (command_json ?c)))"
    using assms(5) by (simp add: Serialize_def)
  show ?thesis
    using d s mk assms(1) deserialize_parameters [OF assms(3),
        of "\<lparr>ic_ID = cid, ic_Command = name, ic_Parameters = Some (parameters_json p)\<rparr>"]
    by (intro exI [of _ "text_bytes (json_text (command_json ?c))"]
        exI [of _ "\<lparr>ic_ID = cid, ic_Command = name, ic_Parameters = Some (parameters_json p)\<rparr>"])
      (auto simp: rawMakeAndSendCommand_def split: prod.splits option.splits)
qed

lemma closed_socket_features [simp]:
  "sk_remoteProtocolVersion (closed_socket s) = sk_remoteProtocolVersion s"
  "sk_fragmentationEnabled (closed_socket s) = sk_fragmentationEnabled s"
  by (simp_all add: closed_socket_def)

lemma handleVersion_simps [simp]:
  "sk_isReady (handleVersion s v fs)"
  "sk_remoteProtocolVersion (handleVersion s v fs) = v"
  by (simp_all add: handleVersion_def Let_def setReady_def featureCheck_def)

text \<open>The one message that a reply is.\<close>

lemma reply_sent:
  assumes "cid \<noteq> []" and "ascii cid" and "ascii (case err of None \<Rightarrow> [] | Some e \<Rightarrow> Error e)"
    and "GetCommandSerializationType (sk_adapter (w_sock w i)) = SerializationTypeJSON"
    and "0 \<le> sk_remoteProtocolVersion (w_sock w i)"
  defines "p \<equiv> Reply \<lparr>rp_Ok = (err = None), rp_Message = (case err of None \<Rightarrow> ''OK'' | Some e \<Rightarrow> Error e)\<rparr>"
  shows "\<exists>b r e sent. WriteControlMessage x (w_env w) (sk_adapter (w_sock w i)) b = (e, sent) \<and>
    DeserializeCommand b SerializationTypeJSON = Inr r \<and> ic_ID r = cid \<and> ic_Command r = ''reply'' \<and>
    DeserializeParameters r (Reply \<lparr>rp_Ok = False, rp_Message = []\<rparr>) = Inr p \<and>
    fst (rawMakeAndSendCommand x i p cid w) = (case sent of None \<Rightarrow> w\<lparr>w_env := e\<rparr>
      | Some se \<Rightarrow> CloseError x i (GoErr (''error sending command: '' @ Error se)) (w\<lparr>w_env := e\<rparr>))"
proof -
  have s: "sendable p" using assms(3) by (auto simp: p_def split: option.splits)
  have a: "command_allowed (w_sock w i) p = None" using assms(5) by (simp add: p_def)
  from send_with_id [OF a assms(1) s assms(2,4)] obtain b q k where
    b: "rawMakeAndSendCommand x i p cid w =
      (case WriteControlMessage x (w_env w) (sk_adapter (w_sock w i)) b of
         (e, None) \<Rightarrow> (w\<lparr>w_env := e\<rparr>, None)
       | (e, Some err) \<Rightarrow> (CloseError x i (GoErr (''error sending command: '' @ Error err)) (w\<lparr>w_env := e\<rparr>), Some err))"
    and q: "DeserializeCommand b SerializationTypeJSON = Inr q" "ic_ID q = cid" "DeserializeParameters q (zero_parameters p) = Inr p"
    and k: "MakeCommand x (w_env w) p cid = (w_env w, k, None)" "ic_Command q = oc_Command k"
    by blast
  have "ic_Command q = ''reply''"
    using k by (auto simp: p_def makeCommand_def Let_def ReplyCommandName_def split: if_splits prod.splits sum.splits)
  then show ?thesis
    using b q by (cases "WriteControlMessage x (w_env w) (sk_adapter (w_sock w i)) b")
      (auto simp: p_def split: option.splits intro!: exI [of _ b] exI [of _ q])
qed

section \<open>The version exchange\<close>

text \<open>
  The version exchange on the wire: when the text of one side's \<^verbatim>\<open>version\<close>
  command arrives at the other, that side accepts it, becomes ready, knows the sender's protocol
  version, and fragments packets exactly when both sides have the feature enabled - also when
  its own reply cannot be sent and the socket is closed.
\<close>

theorem version_exchange_on_wire:
  assumes "features_ok a" and "features_ok (w_sock w j)"
    and "MakeCommand x e (VersionCmd (welcomeParameters a)) cid = (e', c, None)"
    and "Serialize c SerializationTypeJSON = Inr msg" and "ascii (oc_ID c)"
    and "list_all ascii (localFeaturesArray a)"
    and "sk_handlers (w_sock w j) ''version'' = Some VersionHandler"
    and "GetCommandSerializationType (sk_adapter (w_sock w j)) = SerializationTypeJSON"
    and "control_message x (default_handler j) j msg st w = (st', w', accepted)"
  shows "accepted \<and> sk_isReady (w_sock w' j) \<and> sk_remoteProtocolVersion (w_sock w' j) = ProtocolVersion \<and>
    (sk_fragmentationEnabled (w_sock w' j) \<longleftrightarrow>
       IsLocalFeature a Fragmentation \<and> IsLocalFeature (w_sock w j) Fragmentation)"
proof -
  let ?v = "VersionCmd (welcomeParameters a)"
  let ?m = "\<lparr>ic_ID = oc_ID c, ic_Command = oc_Command c, ic_Parameters = Some (parameters_json ?v)\<rparr>"
  let ?s = "handleVersion (w_sock w j) ProtocolVersion (localFeaturesArray a)"
  have v: "sendable ?v"
    using assms(6) by (simp add: welcomeParameters_def int64_def ProtocolVersion_def Version_def)
  have c: "ascii (oc_Command c)" "oc_Parameters c = ?v" using MakeCommand_ascii [OF assms(3)] by auto
  have name: "oc_Command c = ''version''"
    using assms(3) by (auto simp: makeCommand_def Let_def VersionCommandName_def split: if_splits prod.splits sum.splits)
  have m: "DeserializeCommand msg SerializationTypeJSON = Inr ?m"
    using deserialize_command [of c] v c assms(4,5) by (simp add: Serialize_def)
  have "DeserializeParameters ?m (VersionCmd \<lparr>vp_ProtocolVersion = 0, vp_Version = [], vp_EnabledFeatures = []\<rparr>) = Inr ?v"
    using deserialize_parameters [OF v, of ?m] by simp
  then have h: "handle_version j ?m w = (upd_sock j (\<lambda>_. ?s) w, None)"
    by (simp add: handle_version_def welcomeParameters_def upd_sock_def)
  obtain p i where w': "accepted" "w' = fst (rawMakeAndSendCommand x j p i (upd_sock j (\<lambda>_. ?s) w))"
    using assms(9) m h name assms(7,8) by (auto simp: control_message_def ReplyCommandName_def Let_def)
  have "w_sock w' j = ?s \<or> w_sock w' j = closed_socket ?s"
    using rawMakeAndSendCommand_sock [of x j p i "upd_sock j (\<lambda>_. ?s) w" j] w'(2) by auto
  moreover have "sk_fragmentationEnabled ?s \<longleftrightarrow>
      IsLocalFeature a Fragmentation \<and> IsLocalFeature (w_sock w j) Fragmentation"
    using version_negotiation [OF assms(2), of ProtocolVersion "localFeaturesArray a"]
      feature_get_in_array [of "sk_localFeatures a" Fragmentation] assms(1)
    by (auto simp: ProtocolVersion_def localFeaturesArray_def IsLocalFeature_def features_ok_def)
  ultimately show ?thesis using w'(1) by auto
qed

definition example_peer :: socket where
  "example_peer = registerDefaultCommandHandlers example_socket"

definition example_hello :: OutgoingCommand where
  "example_hello = \<lparr>oc_ID = ''i1'', oc_Command = ''version'',
     oc_Parameters = VersionCmd (welcomeParameters example_socket)\<rparr>"

lemma example_peer_simps:
  "features_ok example_peer" "sk_handlers example_peer ''version'' = Some VersionHandler"
  "GetCommandSerializationType (sk_adapter example_peer) = SerializationTypeJSON"
  "IsLocalFeature example_peer Fragmentation" "localFeaturesArray example_socket = [Fragmentation]"
  using features_ok_example
  by (simp_all add: example_peer_def registerDefaultCommandHandlers_def AddCommandHandler_def features_ok_def
      example_socket_def MakeSocket_def SetLocalFeature_def NewWebSocketAdapter_def SerializationTypeJSON_def
      IsLocalFeature_def feature_get_def command_names localFeaturesArray_def)

theorem version_exchange_on_wire_witness:
  "\<exists>msg st' w' accepted. Serialize example_hello SerializationTypeJSON = Inr msg \<and>
    control_message demo_ext (default_handler 7) 7 msg () (example_world example_peer) = (st', w', accepted) \<and>
    accepted \<and> sk_isReady (w_sock w' 7) \<and> sk_fragmentationEnabled (w_sock w' 7)"
proof -
  obtain msg where msg: "Serialize example_hello SerializationTypeJSON = Inr msg"
    by (simp add: Serialize_def)
  obtain st' w' accepted where r:
    "control_message demo_ext (default_handler 7) 7 msg () (example_world example_peer) = (st', w', accepted)"
    by (rule prod_cases3)
  have mk: "MakeCommand demo_ext [] (VersionCmd (welcomeParameters example_socket)) ''i1'' = ([], example_hello, None)"
    by (simp add: makeCommand_def example_hello_def VersionCommandName_def)
  have "accepted \<and> sk_isReady (w_sock w' 7) \<and> sk_remoteProtocolVersion (w_sock w' 7) = ProtocolVersion \<and>
      (sk_fragmentationEnabled (w_sock w' 7) \<longleftrightarrow> IsLocalFeature example_socket Fragmentation \<and>
         IsLocalFeature (w_sock (example_world example_peer) 7) Fragmentation)"
    by (rule version_exchange_on_wire [OF features_ok_example _ mk msg _ _ _ _ r])
      (simp_all add: example_world_def example_peer_simps example_hello_def Fragmentation_def)
  moreover have "IsLocalFeature example_socket Fragmentation"
    by (simp add: example_socket_def IsLocalFeature_def SetLocalFeature_def)
  ultimately show ?thesis
    using msg r by (auto simp: example_world_def example_peer_simps)
qed

section \<open>Answers\<close>

text \<open>
  C37 What is answered, and once: a text that is no command changes nothing and gets no answer. A
  command is handled by the handler of its name, and one without a handler fails as an unknown
  command without any other effect. A reply is never answered, so two peers cannot keep each other
  busy. For every other command with an id, over a connection that encodes commands as JSON,
  exactly one control message is written after that, a reply with the same id that says whether
  the command succeeded and carries its error. (The id and the text of the error are ASCII, and the
  peer has not announced a negative protocol version.)
\<close>

theorem commands_answered_once:
  assumes "GetCommandSerializationType (sk_adapter (w_sock w i)) = SerializationTypeJSON"
    and "control_message x H i message c w = (c2, w2, success)"
  shows "case DeserializeCommand message SerializationTypeJSON of
      Inl e \<Rightarrow> c2 = c \<and> w2 = w \<and> \<not> success
    | Inr m \<Rightarrow> (\<exists>w1 err. success = (err = None) \<and>
        (case sk_handlers (w_sock w i) (ic_Command m) of
           None \<Rightarrow> c2 = c \<and> w1 = w \<and> err = Some (GoErr ''unknown command'')
         | Some h \<Rightarrow> H h m c w = (c2, w1, err)) \<and>
        (if ic_Command m = ''reply'' then w2 = w1
         else ic_ID m \<noteq> [] \<and> ascii (ic_ID m) \<and> ascii (case err of None \<Rightarrow> [] | Some e \<Rightarrow> Error e) \<and>
           GetCommandSerializationType (sk_adapter (w_sock w1 i)) = SerializationTypeJSON \<and>
           0 \<le> sk_remoteProtocolVersion (w_sock w1 i) \<longrightarrow>
           (\<exists>b r e sent. WriteControlMessage x (w_env w1) (sk_adapter (w_sock w1 i)) b = (e, sent) \<and>
             DeserializeCommand b SerializationTypeJSON = Inr r \<and> ic_ID r = ic_ID m \<and> ic_Command r = ''reply'' \<and>
             DeserializeParameters r (Reply \<lparr>rp_Ok = False, rp_Message = []\<rparr>) = Inr (Reply \<lparr>rp_Ok = success,
               rp_Message = (case err of None \<Rightarrow> ''OK'' | Some e \<Rightarrow> Error e)\<rparr>) \<and>
             w2 = (case sent of None \<Rightarrow> w1\<lparr>w_env := e\<rparr>
               | Some se \<Rightarrow> CloseError x i (GoErr (''error sending command: '' @ Error se)) (w1\<lparr>w_env := e\<rparr>)))))"
proof (cases "DeserializeCommand message SerializationTypeJSON")
  case (Inl e)
  then show ?thesis using assms by (simp add: control_message_def)
next
  case (Inr m)
  obtain c1 w1 err where h: "(case sk_handlers (w_sock w i) (ic_Command m) of
      None \<Rightarrow> (c, w, Some (GoErr ''unknown command'')) | Some h \<Rightarrow> H h m c w) = (c1, w1, err)"
    by (rule prod_cases3)
  let ?p = "Reply \<lparr>rp_Ok = (err = None), rp_Message = (case err of None \<Rightarrow> ''OK'' | Some e \<Rightarrow> Error e)\<rparr>"
  have r: "c2 = c1" "success = (err = None)"
      "w2 = (if ic_Command m = ''reply'' then w1 else fst (rawMakeAndSendCommand x i ?p (ic_ID m) w1))"
    using assms Inr h by (auto simp: control_message_def Let_def ReplyCommandName_def)
  have "case sk_handlers (w_sock w i) (ic_Command m) of
      None \<Rightarrow> c2 = c \<and> w1 = w \<and> err = Some (GoErr ''unknown command'') | Some h \<Rightarrow> H h m c w = (c2, w1, err)"
    using h r(1) by (auto split: option.splits)
  moreover have "\<exists>b r e sent. WriteControlMessage x (w_env w1) (sk_adapter (w_sock w1 i)) b = (e, sent) \<and>
      DeserializeCommand b SerializationTypeJSON = Inr r \<and> ic_ID r = ic_ID m \<and> ic_Command r = ''reply'' \<and>
      DeserializeParameters r (Reply \<lparr>rp_Ok = False, rp_Message = []\<rparr>) = Inr ?p \<and>
      w2 = (case sent of None \<Rightarrow> w1\<lparr>w_env := e\<rparr>
        | Some se \<Rightarrow> CloseError x i (GoErr (''error sending command: '' @ Error se)) (w1\<lparr>w_env := e\<rparr>))"
    if "ic_Command m \<noteq> ''reply''" "ic_ID m \<noteq> []" "ascii (ic_ID m)" "ascii (case err of None \<Rightarrow> [] | Some e \<Rightarrow> Error e)"
      "GetCommandSerializationType (sk_adapter (w_sock w1 i)) = SerializationTypeJSON"
      "0 \<le> sk_remoteProtocolVersion (w_sock w1 i)"
    using reply_sent [OF that(2-6)] r(3) that(1) by simp
  ultimately show ?thesis using r(2,3) unfolding Inr sum.case by (intro exI [of _ w1] exI [of _ err]) simp
qed

text \<open>A message and an \<^verbatim>\<open>init\<close> command as a peer would send them.\<close>

definition example_message :: OutgoingCommand where
  "example_message = \<lparr>oc_ID = ''i2'', oc_Command = ''message'',
     oc_Parameters = Message \<lparr>ms_Type = ''info'', ms_Message = ''hello''\<rparr>\<rparr>"

definition example_init :: OutgoingCommand where
  "example_init = \<lparr>oc_ID = ''i3'', oc_Command = ''init'',
     oc_Parameters = Init \<lparr>in_Mode = ''TUN'', in_DoIPConfig = True, in_IPAddress = ''10.0.0.2/24'', in_MTU = 1400,
       in_ServerID = [], in_ClientID = [], in_EnableFragmentation = True\<rparr>\<rparr>"

definition command_bytes :: "OutgoingCommand \<Rightarrow> bytes" where
  "command_bytes c = text_bytes (json_text (command_json c))"

definition received :: "OutgoingCommand \<Rightarrow> IncomingCommand" where
  "received c = \<lparr>ic_ID = oc_ID c, ic_Command = oc_Command c, ic_Parameters = Some (parameters_json (oc_Parameters c))\<rparr>"

lemma example_commands_received:
  "DeserializeCommand (command_bytes example_message) SerializationTypeJSON = Inr (received example_message)"
  "DeserializeCommand (command_bytes example_init) SerializationTypeJSON = Inr (received example_init)"
  using deserialize_command [of example_message] deserialize_command [of example_init]
  by (simp_all add: command_bytes_def received_def example_message_def example_init_def int64_def)

lemma example_message_handled:
  "default_handler 7 MessageHandler (received example_message) () w = ((), w, None)"
  using deserialize_parameters [of "oc_Parameters example_message" "received example_message"]
  by (simp add: handle_message_def received_def example_message_def)

theorem commands_answered_once_witness:
  "\<exists>c2 w2 success b r. control_message demo_ext (default_handler 7) 7 (command_bytes example_message) ()
      (example_world example_peer) = (c2, w2, success) \<and> success \<and>
    DeserializeCommand b SerializationTypeJSON = Inr r \<and> ic_ID r = ''i2'' \<and> ic_Command r = ''reply'' \<and>
    DeserializeParameters r (Reply \<lparr>rp_Ok = False, rp_Message = []\<rparr>) =
      Inr (Reply \<lparr>rp_Ok = True, rp_Message = ''OK''\<rparr>)"
proof -
  obtain c2 w2 success where r: "control_message demo_ext (default_handler 7) 7 (command_bytes example_message) ()
      (example_world example_peer) = (c2, w2, success)"
    by (rule prod_cases3)
  have h: "sk_handlers (w_sock (example_world example_peer) 7) (ic_Command (received example_message)) = Some MessageHandler"
    by (simp add: example_world_def example_peer_def registerDefaultCommandHandlers_def AddCommandHandler_def
        command_names received_def example_message_def)
  have g: "GetCommandSerializationType (sk_adapter (w_sock (example_world example_peer) 7)) = SerializationTypeJSON"
    "0 \<le> sk_remoteProtocolVersion (w_sock (example_world example_peer) 7)"
    by (simp_all add: example_world_def example_peer_simps(3))
      (simp add: example_peer_def registerDefaultCommandHandlers_def AddCommandHandler_def example_socket_def
        SetLocalFeature_def MakeSocket_def protocol_consts)
  have m: "ic_ID (received example_message) = ''i2''" "ic_Command (received example_message) = ''message''"
    by (simp_all add: received_def example_message_def)
  from commands_answered_once [OF g(1) r, unfolded example_commands_received(1) sum.case h option.case example_message_handled] m g
  have "success \<and> (\<exists>b r. DeserializeCommand b SerializationTypeJSON = Inr r \<and> ic_ID r = ''i2'' \<and>
      ic_Command r = ''reply'' \<and> DeserializeParameters r (Reply \<lparr>rp_Ok = False, rp_Message = []\<rparr>) =
        Inr (Reply \<lparr>rp_Ok = True, rp_Message = ''OK''\<rparr>))"
    by fastforce
  then show ?thesis using r by blast
qed

text \<open>
  A client cannot configure the server: a command that none of the default handlers is
  registered for - \<^verbatim>\<open>init\<close>, \<^verbatim>\<open>add_route\<close>,
  \<^verbatim>\<open>set_mtu\<close> or any other name - is refused, and no socket is changed by it, other
  than being closed when the refusal cannot be sent.
\<close>

theorem foreign_commands_refused:
  assumes "sk_handlers (w_sock w i) = sk_handlers (registerDefaultCommandHandlers (MakeSocket ad ifc managed pusher))"
    and "DeserializeCommand message (GetCommandSerializationType (sk_adapter (w_sock w i))) = Inr m"
    and "ic_Command m \<notin> {''version'', ''reply'', ''message''}"
    and "control_message x (default_handler i) i message st w = (st', w', success)"
  shows "\<not> success \<and> (\<forall>j. w_sock w' j = w_sock w j \<or> j = i \<and> w_sock w' j = closed_socket (w_sock w i))"
proof -
  have "sk_handlers (w_sock w i) (ic_Command m) = None"
    using assms(1,3) by (simp add: registerDefaultCommandHandlers_def AddCommandHandler_def command_names MakeSocket_def)
  then have "\<not> success" "\<exists>p cid. w' = fst (rawMakeAndSendCommand x i p cid w)"
    using assms(2-4) by (auto simp: control_message_def Let_def ReplyCommandName_def)
  then show ?thesis using rawMakeAndSendCommand_sock [of x i _ _ w] by auto
qed

theorem foreign_commands_refused_witness:
  "\<exists>st' w' success. control_message demo_ext (default_handler 7) 7 (command_bytes example_init) ()
      (example_world example_peer) = (st', w', success) \<and> \<not> success \<and>
    (\<forall>j. w_sock w' j = w_sock (example_world example_peer) j \<or>
       j = 7 \<and> w_sock w' j = closed_socket (w_sock (example_world example_peer) 7))"
proof -
  obtain st' w' success where r: "control_message demo_ext (default_handler 7) 7 (command_bytes example_init) ()
      (example_world example_peer) = (st', w', success)"
    by (rule prod_cases3)
  have "\<not> success \<and> (\<forall>j. w_sock w' j = w_sock (example_world example_peer) j \<or>
       j = 7 \<and> w_sock w' j = closed_socket (w_sock (example_world example_peer) 7))"
  proof (rule foreign_commands_refused [OF _ _ _ r])
    show "DeserializeCommand (command_bytes example_init)
        (GetCommandSerializationType (sk_adapter (w_sock (example_world example_peer) 7))) = Inr (received example_init)"
      using example_commands_received(2) by (simp add: example_world_def example_peer_simps)
    show "sk_handlers (w_sock (example_world example_peer) 7) =
        sk_handlers (registerDefaultCommandHandlers (MakeSocket (NewWebSocketAdapter 0 1 True) None False False))"
      by (simp add: example_world_def example_peer_def example_socket_def SetLocalFeature_def
          registerDefaultCommandHandlers_def AddCommandHandler_def)
  qed (simp add: received_def example_init_def)
  then show ?thesis using r by auto
qed

section \<open>Messages before the version exchange\<close>

text \<open>
  The reason for an early close is never told to the peer: before the version exchange no
  \<^verbatim>\<open>message\<close> command may be sent by either side, so the goroutine to which
  \<^verbatim>\<open>CloseError\<close> hands the error text of a socket whose
  \<^verbatim>\<open>Serve\<close> has not seen the peer's version - a second login that is refused,
  an IP conflict at registration - writes nothing and only closes the connection.
\<close>

theorem early_close_is_silent:
  assumes "sk_remoteProtocolVersion (w_sock w i) = 0" and "w' = CloseError x i err w"
  shows "sk_remoteProtocolVersion (w_sock w' i) = 0 \<and>
    sendErrorAndClose x i (Error err) w' = close_adapter x i w'"
  using assms
  by (simp add: sock_simps sendErrorAndClose_def SendMessage_def MakeAndSendCommand_def
      rawMakeAndSendCommand_def command_allowed_def)

theorem early_close_is_silent_witness:
  "sk_remoteProtocolVersion (w_sock (CloseError demo_ext 7 (GoErr ''IP conflict'') (example_world example_socket)) 7) = 0 \<and>
   sendErrorAndClose demo_ext 7 (Error (GoErr ''IP conflict''))
       (CloseError demo_ext 7 (GoErr ''IP conflict'') (example_world example_socket)) =
     close_adapter demo_ext 7 (CloseError demo_ext 7 (GoErr ''IP conflict'') (example_world example_socket))"
  by (rule early_close_is_silent [OF _ refl])
    (simp add: example_world_def example_socket_def MakeSocket_def SetLocalFeature_def protocol_consts)

end
