(* ===== verification/Server_Config.thy ===== *)
theory Server_Config
  imports Server_Auth Socket_Commands Net_Text
begin

text \<open>
  The configuration of the server: \<^verbatim>\<open>SetMTU\<close> and
  \<^verbatim>\<open>UpdateSocketConfig\<close> of \<^verbatim>\<open>server/servers\<close>, and
  \<^verbatim>\<open>reloadConfig\<close> of \<^verbatim>\<open>server/cli/base.go\<close>, which sets the server
  up and runs again on every SIGHUP. The configuration file is given as the value its YAML text
  has, or the error of reading it.
\<close>

section \<open>The running server\<close>

definition server_UpdateSocketConfig :: "server \<Rightarrow> ('e, 'l) world \<Rightarrow> ('e, 'l) world" where
  "server_UpdateSocketConfig s w = (case sv_SocketConfigurator s of
     None \<Rightarrow> w
   | Some pc \<Rightarrow> fold (\<lambda>(_, i). upd_sock i (\<lambda>k. fst (ConfigureSocket pc k))) (sv_sockets s) w)"

text \<open>The loop of \<^verbatim>\<open>SetMTU\<close> over the sockets, in some order.\<close>

fun set_socket_mtus :: "('e, 'l) ext \<Rightarrow> int \<Rightarrow> sid list \<Rightarrow> ('e, 'l) world \<Rightarrow> ('e, 'l) world \<times> go_error option" where
  "set_socket_mtus x mtu [] w = (w, None)"
| "set_socket_mtus x mtu (i # socks) w =
     (let w1 = upd_sock i (\<lambda>s. SetMTU s mtu) w in
      case (case GetInterfaceIfManaged (w_sock w1 i) of
              None \<Rightarrow> (w1, None)
            | Some ifc \<Rightarrow> (case if_SetMTU x (w_env w1) ifc mtu of (e, err) \<Rightarrow> (w1\<lparr>w_env := e\<rparr>, map_option GoErr err))) of
        (w2, Some err) \<Rightarrow> (w2, Some err)
      | (w2, None) \<Rightarrow> set_socket_mtus x mtu socks (fst (MakeAndSendCommand x i (SetMTUCmd \<lparr>sm_MTU = mtu\<rparr>) w2)))"

definition server_SetMTU :: "('e, 'l) ext \<Rightarrow> int \<Rightarrow> server \<Rightarrow> ('e, 'l) world
    \<Rightarrow> server \<times> ('e, 'l) world \<times> go_error option" where
  "server_SetMTU x mtu s w =
     (if mtu < 500 \<or> mtu > 65535 then (s, w, Some (GoErr ''MTU out of range (500 - 65535)''))
      else if sv_mtu s = mtu then (s, w, None)
      else (case (case sv_mainIface s of
                    None \<Rightarrow> (w, None)
                  | Some v \<Rightarrow> (case wi_SetMTU x (w_env w) v mtu of (e, err) \<Rightarrow> (w\<lparr>w_env := e\<rparr>, err))) of
              (w1, Some err) \<Rightarrow> (s, w1, Some err)
            | (w1, None) \<Rightarrow>
                let s1 = s\<lparr>sv_packetBufferSize := GetPacketBufferSizeByMTU mtu\<rparr> in
                (case set_socket_mtus x mtu (map snd (sv_sockets s1)) w1 of
                   (w2, Some err) \<Rightarrow> (s1, w2, Some err)
                 | (w2, None) \<Rightarrow> (s1\<lparr>sv_mtu := mtu\<rparr>, w2, None))))"

section \<open>The configuration file\<close>

record ServerConfig =
  sc_MTU :: int
  sc_Subnet :: string
  sc_Mode :: string
  sc_AllowClientToClient :: bool
  sc_AllowIPSpoofing :: bool
  sc_AllowUnknownEtherTypes :: bool
  sc_AllowMACChanging :: bool
  sc_AllowedMACsPerConnection :: int
  sc_Features :: "(feature \<times> bool) list"
  sc_IPConfig_Local :: bool
  sc_IPConfig_Remote :: bool
  sc_Ping :: PingConfig
  sc_Interface :: InterfaceConfig
  sc_Scripts :: EventConfig
  sc_Listen :: string
  sc_EnableHTTP3 :: bool
  sc_Headers :: "(string \<times> string list) list"
  sc_TLS_ClientCA :: string
  sc_TLS_Certificate :: string
  sc_TLS_Key :: string
  sc_TLS_Config :: TLSFileConfig
  sc_Authenticator_Type :: string
  sc_Authenticator_Config :: string
  sc_PreauthorizeSecret :: string
  sc_MaxConnectionsPerUser :: int
  sc_MaxConnectionsPerUserMode :: string
  sc_WebsiteDirectory :: string
  sc_API_Enabled :: bool
  sc_API_Users :: "string list"

text \<open>
  What a reload works on: the server, the world, and the variable \<^verbatim>\<open>tlsConfig\<close>
  of the package, which \<^verbatim>\<open>getTLSConfig\<close> hands to every new connection. A stage
  that fails ends the reload and leaves what was changed before it.
\<close>

record ('e, 'l) process =
  pr_server :: server
  pr_world :: "('e, 'l) world"
  pr_tlsConfig :: "TLSConfig option"

type_synonym ('e, 'l) reloaded = "(('e, 'l) process \<times> go_error option) go"

definition and_then :: "('e, 'l) reloaded \<Rightarrow> (('e, 'l) process \<Rightarrow> ('e, 'l) reloaded) \<Rightarrow> ('e, 'l) reloaded" where
  "and_then r f = (case r of Panic \<Rightarrow> Panic | Ret (pr, Some err) \<Rightarrow> Ret (pr, Some err) | Ret (pr, None) \<Rightarrow> f pr)"

definition on_server :: "(server \<Rightarrow> server) \<Rightarrow> ('e, 'l) process \<Rightarrow> ('e, 'l) process" where
  "on_server f pr = pr\<lparr>pr_server := f (pr_server pr)\<rparr>"

fun set_features :: "(feature \<times> bool) list \<Rightarrow> server \<Rightarrow> server \<times> go_error option" where
  "set_features [] s = (s, None)"
| "set_features ((feat, en) # fs) s =
     (if \<not> IsFeatureSupported feat then (s, Some (GoErr (''unknown feature: '' @ feat)))
      else set_features fs (server_SetLocalFeature s feat en))"

definition parse_mode :: "string \<Rightarrow> VPNMode option" where
  "parse_mode m = (let u = strings_ToUpper m in
     if u = ''TAP'' then Some VPNModeTAP else if u = ''TUN'' then Some VPNModeTUN else None)"

definition reload_tunnel :: "ServerConfig \<Rightarrow> bool \<Rightarrow> ('e, 'l) process \<Rightarrow> ('e, 'l) reloaded" where
  "reload_tunnel config initialConfig pr =
     (case ParseVPNNet (sc_Subnet config) of
        Inl err \<Rightarrow> Ret (pr, Some err)
      | Inr newVPNNet \<Rightarrow>
          (let pr1 = on_server (\<lambda>s. (if initialConfig then s\<lparr>sv_VPNNet := newVPNNet\<rparr> else s)
                 \<lparr>sv_WebsiteDirectory := sc_WebsiteDirectory config,
                  sv_SocketConfigurator := Some (sc_Ping config),
                  sv_DoLocalIPConfig := sc_IPConfig_Local config,
                  sv_DoRemoteIPConfig := sc_IPConfig_Remote config\<rparr>) pr
           in case set_features (sc_Features config) (pr_server pr1) of
                (s2, Some err) \<Rightarrow> Ret (pr1\<lparr>pr_server := s2\<rparr>, Some err)
              | (s2, None) \<Rightarrow>
                  (let pr3 = pr1\<lparr>pr_server := s2\<lparr>sv_events := LoadEventConfig (sv_events s2) (sc_Scripts config)\<rparr>\<rparr>
                   in case parse_mode (sc_Mode config) of
                        None \<Rightarrow> Ret (pr3, Some (GoErr ''invalid VPN mode selected''))
                      | Some vpnMode \<Rightarrow>
                          Ret (on_server (\<lambda>s. if initialConfig
                            then s\<lparr>sv_ListenAddr := sc_Listen config, sv_HTTP3Enabled := sc_EnableHTTP3 config, sv_Mode := vpnMode\<rparr>
                            else s) pr3, None))))"

definition reload_http :: "('e, 'l) ext \<Rightarrow> ServerConfig \<Rightarrow> ('e, 'l) process \<Rightarrow> ('e, 'l) reloaded" where
  "reload_http x config pr =
     (let srvHeaders = config_headers (sc_Headers config);
          srvHeaders' = (if header_Get srvHeaders ''Server'' = []
            then header_Set srvHeaders ''Server'' (''wsvpn/'' @ Version) else srvHeaders);
          pr1 = on_server (\<lambda>s. SetHeaders (s\<lparr>sv_APIEnabled := sc_API_Enabled config,
            sv_APIUsers := fold (\<lambda>u m. AList.update u True m) (sc_API_Users config) []\<rparr>) srvHeaders') pr
      in case server_SetMTU x (sc_MTU config) (pr_server pr1) (pr_world pr1) of
           (s, w, err) \<Rightarrow> Ret (pr1\<lparr>pr_server := s, pr_world := w\<rparr>, err))"

definition parse_limit_mode :: "string \<Rightarrow> int \<Rightarrow> int" where
  "parse_limit_mode m old = (if m = ''kill-oldest'' then MaxConnectionsPerUserKillOldest
     else if m = ''prevent-new'' then MaxConnectionsPerUserPreventNew else old)"

text \<open>The packet handler: made by the first configuration, updated by the others.\<close>

definition reload_handler :: "('e, 'l) ext \<Rightarrow> ServerConfig \<Rightarrow> bool \<Rightarrow> ('e, 'l) process \<Rightarrow> ('e, 'l) reloaded" where
  "reload_handler x config initialConfig pr =
     (let w = pr_world pr;
          with_handler = (\<lambda>h. Ret (pr\<lparr>pr_world := w\<lparr>w_handler := Some h\<rparr>\<rparr>, None))
      in if sv_Mode (pr_server pr) = VPNModeTAP
         then (case (if initialConfig then Some (MACH MakeMACSwitch) else w_handler w) of
             Some (MACH g) \<Rightarrow>
               (case ConfigUpdate x (g\<lparr>macs_AllowClientToClient := sc_AllowClientToClient config,
                        macs_AllowIPSpoofing := sc_AllowIPSpoofing config,
                        macs_AllowUnknownEtherTypes := sc_AllowUnknownEtherTypes config,
                        macs_AllowMACChanging := sc_AllowMACChanging config,
                        macs_AllowedMACsPerConnection := sc_AllowedMACsPerConnection config\<rparr>) of
                  Panic \<Rightarrow> Panic
                | Ret g' \<Rightarrow> with_handler (MACH g'))
           | _ \<Rightarrow> Panic)
         else (case (if initialConfig then Some (IPH MakeIPSwitch) else w_handler w) of
             Some (IPH g) \<Rightarrow> with_handler (IPH (g\<lparr>ips_AllowClientToClient := sc_AllowClientToClient config\<rparr>))
           | _ \<Rightarrow> Panic))"

definition reload_interface :: "('e, 'l) ext \<Rightarrow> ServerConfig \<Rightarrow> bool \<Rightarrow> ('e, 'l) process \<Rightarrow> ('e, 'l) reloaded" where
  "reload_interface x config initialConfig pr =
     (let pr1 = on_server (\<lambda>s. s\<lparr>sv_MaxConnectionsPerUser := sc_MaxConnectionsPerUser config,
            sv_MaxConnectionsPerUserMode := parse_limit_mode (sc_MaxConnectionsPerUserMode config)
              (sv_MaxConnectionsPerUserMode s)\<rparr>) pr;
          update = (let pr2 = on_server (\<lambda>s. s\<lparr>sv_InterfaceConfig := Some (sc_Interface config)\<rparr>) pr1 in
            if \<not> ifc_OneInterfacePerConnection (sc_Interface config)
            then reload_handler x config initialConfig pr2 else Ret (pr2, None))
      in if initialConfig then update
         else (case sv_InterfaceConfig (pr_server pr1) of
             None \<Rightarrow> Panic
           | Some ic \<Rightarrow>
               if ifc_OneInterfacePerConnection ic \<noteq> ifc_OneInterfacePerConnection (sc_Interface config)
               then Ret (pr1, None) else update))"

definition load_authenticator :: "'e auth_ext \<Rightarrow> 'e \<Rightarrow> string \<Rightarrow> string \<Rightarrow> 'e \<times> (go_error + authenticator)" where
  "load_authenticator au e kind configFile =
     (let k = strings_ToLower kind in
      if k = ''allow-all'' then (e, Inr AllowAllAuthenticator)
      else if k = ''htpasswd'' then htpasswd_Load au e configFile
      else if k = ''radius'' then radius_Load au e configFile
      else (e, Inl (GoErr ''invalid authenticator selected'')))"

definition reload_authenticator :: "'e auth_ext \<Rightarrow> ServerConfig \<Rightarrow> ('e, 'l) process \<Rightarrow> ('e, 'l) reloaded" where
  "reload_authenticator au config pr =
     (case load_authenticator au (w_env (pr_world pr)) (sc_Authenticator_Type config) (sc_Authenticator_Config config) of
        (e, Inl err) \<Rightarrow> Ret (pr\<lparr>pr_world := (pr_world pr)\<lparr>w_env := e\<rparr>\<rparr>, Some err)
      | (e, Inr a) \<Rightarrow> Ret (on_server (\<lambda>s. s\<lparr>sv_Authenticator := Some a\<rparr>)
            (pr\<lparr>pr_world := (pr_world pr)\<lparr>w_env := e\<rparr>\<rparr>), None))"

text \<open>The TLS options of the file as a \<^verbatim>\<open>tls.Config\<close>.\<close>

definition make_tls :: "'e os_ext \<Rightarrow> ServerConfig \<Rightarrow> 'e \<Rightarrow> 'e \<times> (go_error + TLSConfig)" where
  "make_tls os config e =
     (if sc_TLS_Certificate config = [] \<and> sc_TLS_Key config = []
      then (e, Inl (GoErr ''tls-client-ca requires tls-key and tls-cert''))
      else if sc_TLS_Certificate config = [] \<or> sc_TLS_Key config = []
      then (e, Inl (GoErr ''provide either both tls-key and tls-cert or neither''))
      else (case tls_LoadX509KeyPair os e (sc_TLS_Certificate config) (sc_TLS_Key config) of
        (e1, Inl err) \<Rightarrow> (e1, Inl (GoErr err))
      | (e1, Inr cert) \<Rightarrow>
          let t = empty_TLSConfig\<lparr>tc_Certificates := [cert]\<rparr> in
          (case (if sc_TLS_ClientCA config \<noteq> []
                 then (case os_ReadFile os e1 (sc_TLS_ClientCA config) of
                   (e2, Inl err) \<Rightarrow> (e2, Inl (GoErr err))
                 | (e2, Inr pem) \<Rightarrow>
                     if \<not> x509_AppendCertsFromPEM os pem then (e2, Inl (GoErr ''error reading tls-client-ca PEM''))
                     else (e2, Inr (t\<lparr>tc_ClientCAs := Some pem, tc_RequireAndVerifyClientCert := True\<rparr>)))
                 else (e1, Inr t)) of
             (e2, Inl err) \<Rightarrow> (e2, Inl err)
           | (e2, Inr t2) \<Rightarrow> (case TLSUseConfig os e2 t2 (sc_TLS_Config config) of
               (e3, t3, Some err) \<Rightarrow> (e3, Inl err)
             | (e3, t3, None) \<Rightarrow> (e3, Inr t3)))))"

definition reload_tls :: "'e os_ext \<Rightarrow> ServerConfig \<Rightarrow> bool \<Rightarrow> ('e, 'l) process \<Rightarrow> ('e, 'l) reloaded" where
  "reload_tls os config initialConfig pr =
     (if sc_TLS_Certificate config \<noteq> [] \<or> sc_TLS_Key config \<noteq> [] \<or> sc_TLS_ClientCA config \<noteq> []
      then (case make_tls os config (w_env (pr_world pr)) of
          (e, Inl err) \<Rightarrow> Ret (pr\<lparr>pr_world := (pr_world pr)\<lparr>w_env := e\<rparr>\<rparr>, Some err)
        | (e, Inr t) \<Rightarrow>
            Ret (on_server (\<lambda>s. if sv_TLSConfig s = None \<and> initialConfig
                   then s\<lparr>sv_TLSConfig := Some (empty_TLSConfig\<lparr>tc_GetConfigForClient := Some CurrentConfig\<rparr>)\<rparr> else s)
                 (pr\<lparr>pr_world := (pr_world pr)\<lparr>w_env := e\<rparr>, pr_tlsConfig := Some t\<rparr>), None))
      else Ret (pr, None))"

definition reload_finish :: "ServerConfig \<Rightarrow> ('e, 'l) process \<Rightarrow> ('e, 'l) reloaded" where
  "reload_finish config pr =
     (let pr1 = on_server (\<lambda>s. s\<lparr>sv_PreauthorizeSecret := sc_PreauthorizeSecret config\<rparr>) pr
      in Ret (pr1\<lparr>pr_world := server_UpdateSocketConfig (pr_server pr1) (pr_world pr1)\<rparr>, None))"

definition server_reloadConfig :: "('e, 'l) ext \<Rightarrow> 'e os_ext \<Rightarrow> 'e auth_ext \<Rightarrow> string + ServerConfig \<Rightarrow> bool
    \<Rightarrow> ('e, 'l) process \<Rightarrow> ('e, 'l) reloaded" where
  "server_reloadConfig x os au loaded initialConfig pr = (case loaded of
     Inl err \<Rightarrow> Ret (pr, Some (GoErr err))
   | Inr config \<Rightarrow>
       and_then (and_then (and_then (and_then (and_then
         (reload_tunnel config initialConfig pr)
         (reload_http x config))
         (reload_interface x config initialConfig))
         (reload_authenticator au config))
         (reload_tls os config initialConfig))
         (reload_finish config))"

section \<open>The MTU\<close>

lemma MakeAndSendCommand_buffer [simp]:
  "sk_packetBufferSize (w_sock (fst (MakeAndSendCommand x i p w)) j) = sk_packetBufferSize (w_sock w j)"
  using rawMakeAndSendCommand_sock [of x i p "[]" w j]
  by (auto simp: MakeAndSendCommand_def closed_socket_def)

lemma set_socket_mtus_sizes:
  "set_socket_mtus x mtu socks w = (w', None) \<Longrightarrow>
   sk_packetBufferSize (w_sock w' j) = (if j \<in> set socks then mtu + 82 else sk_packetBufferSize (w_sock w j))"
proof (induction socks arbitrary: w)
  case (Cons i socks)
  let ?w1 = "upd_sock i (\<lambda>s. SetMTU s mtu) w"
  obtain w2 where w2: "set_socket_mtus x mtu socks (fst (MakeAndSendCommand x i (SetMTUCmd \<lparr>sm_MTU = mtu\<rparr>) w2)) = (w', None)"
    "w_sock w2 = w_sock ?w1"
    using Cons.prems by (auto simp: Let_def split: option.splits prod.splits)
  show ?case using Cons.IH [OF w2(1)] w2(2) by (simp add: SetMTU_def GetPacketBufferSizeByMTU_def)
qed simp

text \<open>
  C32 The MTU is the same everywhere after a change: when \<^verbatim>\<open>SetMTU\<close> succeeds with a
  value other than the server's current one, the server, its reader and every connected socket have
  room for packets of exactly this MTU; with the current value it does nothing at all, in any state
  of the sockets. A value out of range, or one that an interface refuses, leaves the server's
  MTU as it was, so that the next attempt is not taken for a repetition; but then setting the old
  value again changes nothing and returns no error, so what a change that failed half way has
  set at the sockets and the reader stays.
\<close>

theorem mtu_everywhere:
  assumes "server_SetMTU x mtu s w = (s', w', err)"
  shows "(err = None \<longrightarrow> 500 \<le> mtu \<and> mtu \<le> 65535 \<and> sv_mtu s' = mtu \<and>
      (mtu \<noteq> sv_mtu s \<longrightarrow> sv_packetBufferSize s' = mtu + 82 \<and>
        (\<forall>(cid, i)\<in>set (sv_sockets s). sk_packetBufferSize (w_sock w' i) = mtu + 82))) \<and>
    (err = None \<and> mtu = sv_mtu s \<longrightarrow> s' = s \<and> w' = w) \<and>
    (err \<noteq> None \<longrightarrow> sv_mtu s' = sv_mtu s) \<and>
    (err \<noteq> None \<and> 500 \<le> sv_mtu s \<and> sv_mtu s \<le> 65535 \<longrightarrow> server_SetMTU x (sv_mtu s) s' w' = (s', w', None)) \<and>
    sv_sockets s' = sv_sockets s"
proof (cases "mtu < 500 \<or> mtu > 65535 \<or> sv_mtu s = mtu")
  case True
  then show ?thesis using assms by (auto simp: server_SetMTU_def split: if_splits)
next
  case False
  obtain w1 e1 where m: "(case sv_mainIface s of None \<Rightarrow> (w, None)
      | Some v \<Rightarrow> (case wi_SetMTU x (w_env w) v mtu of (e, err) \<Rightarrow> (w\<lparr>w_env := e\<rparr>, err))) = (w1, e1)"
    by fastforce
  show ?thesis
  proof (cases e1)
    case (Some a)
    then show ?thesis using assms False m by (auto simp: server_SetMTU_def)
  next
    case None
    obtain w2 e2 where l: "set_socket_mtus x mtu (map snd (sv_sockets s)) w1 = (w2, e2)" by fastforce
    let ?s1 = "s\<lparr>sv_packetBufferSize := GetPacketBufferSizeByMTU mtu\<rparr>"
    have r: "(s', w', err) = (case e2 of Some e \<Rightarrow> (?s1, w2, Some e) | None \<Rightarrow> (?s1\<lparr>sv_mtu := mtu\<rparr>, w2, None))"
      using assms False m None l by (cases e2) (auto simp: server_SetMTU_def Let_def)
    show ?thesis
    proof (cases e2)
      case None
      then have "\<forall>i\<in>snd ` set (sv_sockets s). sk_packetBufferSize (w_sock w2 i) = mtu + 82"
        using set_socket_mtus_sizes [of x mtu "map snd (sv_sockets s)" w1 w2] l by simp
      then show ?thesis using r None False by (auto simp: GetPacketBufferSizeByMTU_def)
    qed (use r False in \<open>simp add: server_SetMTU_def\<close>)
  qed
qed

theorem mtu_everywhere_witness:
  "\<exists>s' w' err. server_SetMTU demo_ext 1400 (NewServer\<lparr>sv_sockets := [(''c'', 7)], sv_mtu := 1300\<rparr>)
      (example_world example_socket) = (s', w', err) \<and>
    err = None \<and> sv_mtu s' = 1400 \<and> sk_packetBufferSize (w_sock w' 7) = 1482"
proof -
  let ?s = "NewServer\<lparr>sv_sockets := [(''c'', 7)], sv_mtu := 1300\<rparr>"
  obtain s' w' err where r: "server_SetMTU demo_ext 1400 ?s (example_world example_socket) = (s', w', err)"
    by (rule prod_cases3)
  have "err = None"
    using r by (auto simp: server_SetMTU_def NewServer_def example_world_def example_socket_def MakeSocket_def
        SetLocalFeature_def GetInterfaceIfManaged_def SetMTU_def Let_def split: prod.splits option.splits)
  then show ?thesis using mtu_everywhere [OF r] r by (auto simp: NewServer_def)
qed

section \<open>What a reload keeps\<close>

text \<open>The kind of the packet handler: \<open>True\<close> for the IP switch.\<close>

definition handler_kind :: "('e, 'l) world \<Rightarrow> bool option" where
  "handler_kind w = map_option (\<lambda>h. case h of IPH _ \<Rightarrow> True | MACH _ \<Rightarrow> False) (w_handler w)"

lemma handler_kind_simps [simp]:
  "handler_kind (upd_sock i f w) = handler_kind w" "handler_kind (w\<lparr>w_env := e\<rparr>) = handler_kind w"
  by (simp_all add: handler_kind_def)

lemma handler_kind_unregistered: "handler_kind (UnregisterSocket x i w) = handler_kind w"
  by (simp add: handler_kind_def UnregisterSocket_def split: option.splits PacketHandler.splits)

lemma handler_kind_CloseError: "handler_kind (CloseError x i err w) = handler_kind w"
  using handler_kind_unregistered [of x i w]
  by (simp add: handler_kind_def CloseError_simps unregistered_def)

lemma handler_kind_send [simp]: "handler_kind (fst (MakeAndSendCommand x i p w)) = handler_kind w"
  by (simp add: MakeAndSendCommand_def rawMakeAndSendCommand_def Let_def handler_kind_CloseError
      split: option.splits prod.splits sum.splits)

lemma handler_kind_mtus: "set_socket_mtus x mtu socks w = (w', err) \<Longrightarrow> handler_kind w' = handler_kind w"
proof (induction socks arbitrary: w)
  case (Cons i socks)
  then show ?case by (auto simp: Let_def split: option.splits prod.splits)
qed simp

text \<open>What a reload must not change, and the handler that fits the mode.\<close>

definition network :: "server \<Rightarrow> VPNNet \<times> VPNMode \<times> string \<times> bool \<times> TLSConfig option \<times> bool option" where
  "network s = (sv_VPNNet s, sv_Mode s, sv_ListenAddr s, sv_HTTP3Enabled s, sv_TLSConfig s,
     map_option ifc_OneInterfacePerConnection (sv_InterfaceConfig s))"

definition handler_fits :: "server \<Rightarrow> ('e, 'l) world \<Rightarrow> bool" where
  "handler_fits s w \<longleftrightarrow> (case sv_InterfaceConfig s of None \<Rightarrow> False
     | Some ic \<Rightarrow> ifc_OneInterfacePerConnection ic \<or> handler_kind w = Some (sv_Mode s \<noteq> VPNModeTAP))"

definition stable :: "server \<Rightarrow> ('e, 'l) process \<Rightarrow> bool" where
  "stable s0 pr \<longleftrightarrow> handler_fits (pr_server pr) (pr_world pr) \<and> network (pr_server pr) = network s0"

text \<open>The clients of the MAC switch whose address cache could not be made.\<close>

definition nils :: "('e, 'l) world \<Rightarrow> sid set" where
  "nils w = (case w_handler w of Some (MACH g) \<Rightarrow> {i. (i, None) \<in> set (socketTable g)} | _ \<Rightarrow> {})"

text \<open>
  A stage of a reload of a server that started as \<open>s0\<close> and whose clients without a cache
  are among \<open>N\<close>: it only panics when there is such a client.
\<close>

definition steady :: "sid set \<Rightarrow> server \<Rightarrow> ('e, 'l) process \<Rightarrow> bool" where
  "steady N s0 pr \<longleftrightarrow> stable s0 pr \<and> nils (pr_world pr) \<subseteq> N"

definition keeps :: "sid set \<Rightarrow> server \<Rightarrow> ('e, 'l) reloaded \<Rightarrow> bool" where
  "keeps N s0 r \<longleftrightarrow> (case r of Panic \<Rightarrow> N \<noteq> {} | Ret (pr, _) \<Rightarrow> steady N s0 pr)"

lemma keeps_Ret [simp]: "keeps N s0 (Ret (pr, err)) \<longleftrightarrow> steady N s0 pr"
  by (simp add: keeps_def)

lemma keeps_and_then:
  assumes "keeps N s0 r" and "\<And>pr. steady N s0 pr \<Longrightarrow> keeps N s0 (f pr)"
  shows "keeps N s0 (and_then r f)"
proof (cases r)
  case (Ret v)
  obtain pr err where v: "v = (pr, err)" by fastforce
  show ?thesis using Ret v assms by (cases err) (simp_all add: and_then_def)
next
  case Panic
  then show ?thesis using assms(1) by (simp add: and_then_def)
qed

lemma nils_simps [simp]:
  "nils (upd_sock i f w) = nils w" "nils (w\<lparr>w_env := e\<rparr>) = nils w"
  by (simp_all add: nils_def)

lemma socketTable_evicted [simp]: "socketTable (fold onMACEvicted ks g) = socketTable g"
  by (induction ks arbitrary: g) (simp_all add: onMACEvicted_def)

lemma nils_unregistered: "nils (UnregisterSocket x i w) \<subseteq> nils w"
  by (auto simp: nils_def UnregisterSocket_def macs_UnregisterSocket_def Let_def AList.delete_eq
      split: option.splits PacketHandler.splits)

lemma nils_CloseError: "nils (CloseError x i err w) \<subseteq> nils w"
  using nils_unregistered [of x i w] by (auto simp: nils_def CloseError_simps unregistered_def split: if_splits)

lemma nils_send: "nils (fst (MakeAndSendCommand x i p w)) \<subseteq> nils w"
  using nils_CloseError [of x i] by (fastforce simp: MakeAndSendCommand_def rawMakeAndSendCommand_def Let_def
      split: option.splits prod.splits sum.splits)

lemma nils_mtus: "set_socket_mtus x mtu socks w = (w', err) \<Longrightarrow> nils w' \<subseteq> nils w"
proof (induction socks arbitrary: w)
  case (Cons i socks)
  then show ?case using nils_send [of x i] by (fastforce simp: Let_def split: option.splits prod.splits)
qed simp

lemma mtus_kept: "set_socket_mtus x mtu socks w = (w', err) \<Longrightarrow> handler_kind w' = handler_kind w \<and> nils w' \<subseteq> nils w"
  using handler_kind_mtus nils_mtus by blast

lemma nil_updated: "(i, None) \<in> set (AList.update j (Some c) tables) \<Longrightarrow> (i, None) \<in> set tables"
  by (induction tables) (auto split: if_splits)

lemma nils_resized: "resize_tables x tables g = Ret g' \<Longrightarrow>
    (i, None) \<in> set (socketTable g') \<Longrightarrow> (i, None) \<in> set (socketTable g)"
proof (induction x tables g rule: resize_tables.induct)
  case (3 x j c tables g)
  then show ?case by (auto simp: upd_cache_def dest: nil_updated)
qed auto

lemma resize_panics: "resize_tables x tables g = Panic \<Longrightarrow> \<exists>i. (i, None) \<in> set tables"
  by (induction x tables g rule: resize_tables.induct) auto

lemma handler_fits_network:
  "handler_fits s w \<longleftrightarrow> (case network s of (_, m, _, _, _, one) \<Rightarrow>
     one = Some True \<or> one = Some False \<and> handler_kind w = Some (m \<noteq> VPNModeTAP))"
  by (auto simp: handler_fits_def network_def split: option.splits)

lemma stable_cong:
  "stable s0 pr \<Longrightarrow> network (pr_server pr') = network (pr_server pr) \<Longrightarrow>
   handler_kind (pr_world pr') = handler_kind (pr_world pr) \<Longrightarrow> stable s0 pr'"
  unfolding stable_def handler_fits_network by metis

lemma steady_cong:
  "steady N s0 pr \<Longrightarrow> network (pr_server pr') = network (pr_server pr) \<Longrightarrow>
   handler_kind (pr_world pr') = handler_kind (pr_world pr) \<Longrightarrow> nils (pr_world pr') \<subseteq> nils (pr_world pr) \<Longrightarrow> steady N s0 pr'"
  unfolding steady_def by (blast intro: stable_cong)

lemma set_features_network: "set_features fs s = (s', err) \<Longrightarrow> network s' = network s"
  by (induction fs s rule: set_features.induct)
    (auto simp: network_def server_SetLocalFeature_def split: if_splits)

lemma network_updates [simp]:
  "network (s\<lparr>sv_WebsiteDirectory := a1\<rparr>) = network s" "network (s\<lparr>sv_SocketConfigurator := a2\<rparr>) = network s"
  "network (s\<lparr>sv_DoLocalIPConfig := a3\<rparr>) = network s" "network (s\<lparr>sv_DoRemoteIPConfig := a4\<rparr>) = network s"
  "network (s\<lparr>sv_events := a5\<rparr>) = network s" "network (s\<lparr>sv_APIEnabled := a6\<rparr>) = network s"
  "network (s\<lparr>sv_APIUsers := a7\<rparr>) = network s" "network (s\<lparr>sv_packetBufferSize := a8\<rparr>) = network s"
  "network (s\<lparr>sv_mtu := a9\<rparr>) = network s" "network (s\<lparr>sv_MaxConnectionsPerUser := a10\<rparr>) = network s"
  "network (s\<lparr>sv_MaxConnectionsPerUserMode := a11\<rparr>) = network s" "network (s\<lparr>sv_Authenticator := a12\<rparr>) = network s"
  "network (s\<lparr>sv_PreauthorizeSecret := a13\<rparr>) = network s" "network (SetHeaders s h) = network s"
  by (simp_all add: network_def SetHeaders_def setUpgraderHeaders_def)

lemma on_server_simps [simp]:
  "pr_server (on_server f pr) = f (pr_server pr)" "pr_world (on_server f pr) = pr_world pr"
  "pr_tlsConfig (on_server f pr) = pr_tlsConfig pr"
  by (simp_all add: on_server_def)

lemma reload_tunnel_keeps: "steady N s0 pr \<Longrightarrow> keeps N s0 (reload_tunnel config False pr)"
  by (auto simp: reload_tunnel_def Let_def dest!: set_features_network elim!: steady_cong
      split: sum.splits prod.splits option.splits)

lemma server_SetMTU_keeps:
  "server_SetMTU x mtu s w = (s', w', err) \<Longrightarrow> network s' = network s \<and> handler_kind w' = handler_kind w \<and> nils w' \<subseteq> nils w"
  by (auto simp: server_SetMTU_def Let_def dest!: mtus_kept split: if_splits prod.splits option.splits)

lemma reload_http_keeps: "steady N s0 pr \<Longrightarrow> keeps N s0 (reload_http x config pr)"
  by (auto simp: reload_http_def Let_def dest!: server_SetMTU_keeps elim!: steady_cong split: prod.splits)

lemma reload_handler_keeps:
  assumes "steady N s0 pr" and "sv_InterfaceConfig (pr_server pr) = Some ic" and "\<not> ifc_OneInterfacePerConnection ic"
  shows "keeps N s0 (reload_handler x config False pr)"
proof -
  have k: "handler_kind (pr_world pr) = Some (sv_Mode (pr_server pr) \<noteq> VPNModeTAP)"
    using assms by (simp add: steady_def stable_def handler_fits_def)
  then obtain h where h: "w_handler (pr_world pr) = Some h" by (auto simp: handler_kind_def)
  have N: "nils (pr_world pr) \<subseteq> N" using assms(1) by (simp add: steady_def)
  show ?thesis
  proof (cases h)
    case (MACH g)
    let ?g = "g\<lparr>macs_AllowClientToClient := sc_AllowClientToClient config, macs_AllowIPSpoofing := sc_AllowIPSpoofing config,
      macs_AllowUnknownEtherTypes := sc_AllowUnknownEtherTypes config, macs_AllowMACChanging := sc_AllowMACChanging config,
      macs_AllowedMACsPerConnection := sc_AllowedMACsPerConnection config\<rparr>"
    have g: "nils (pr_world pr) = {i. (i, None) \<in> set (socketTable ?g)}" using h MACH by (simp add: nils_def)
    show ?thesis
    proof (cases "ConfigUpdate x ?g")
      case Panic
      then have "N \<noteq> {}" using resize_panics [of x "socketTable ?g" ?g] N g by (auto simp: ConfigUpdate_def)
      then show ?thesis using k h MACH Panic by (simp add: reload_handler_def keeps_def Let_def handler_kind_def)
    next
      case (Ret g')
      then have "{i. (i, None) \<in> set (socketTable g')} \<subseteq> N"
        using nils_resized [of x "socketTable ?g" ?g g'] N g by (auto simp: ConfigUpdate_def)
      then show ?thesis
        using k h MACH Ret assms
        by (auto simp: reload_handler_def keeps_def Let_def steady_def stable_def handler_fits_def handler_kind_def nils_def)
    qed
  next
    case (IPH g)
    then show ?thesis
      using k h assms by (auto simp: reload_handler_def Let_def keeps_def steady_def stable_def handler_fits_def
          handler_kind_def nils_def)
  qed
qed

lemma reload_interface_keeps: "steady N s0 pr \<Longrightarrow> keeps N s0 (reload_interface x config False pr)"
proof -
  assume s: "steady N s0 pr"
  then obtain ic where ic: "sv_InterfaceConfig (pr_server pr) = Some ic"
    by (auto simp: steady_def stable_def handler_fits_def split: option.splits)
  let ?pr1 = "on_server (\<lambda>s. s\<lparr>sv_MaxConnectionsPerUser := sc_MaxConnectionsPerUser config,
    sv_MaxConnectionsPerUserMode := parse_limit_mode (sc_MaxConnectionsPerUserMode config) (sv_MaxConnectionsPerUserMode s)\<rparr>) pr"
  let ?pr2 = "on_server (\<lambda>s. s\<lparr>sv_InterfaceConfig := Some (sc_Interface config)\<rparr>) ?pr1"
  have s1: "steady N s0 ?pr1" using s by (rule steady_cong) simp_all
  have s2: "steady N s0 ?pr2" if "ifc_OneInterfacePerConnection ic = ifc_OneInterfacePerConnection (sc_Interface config)"
    using s that ic by (auto simp: steady_def stable_def handler_fits_def network_def)
  show ?thesis
    using s1 s2 ic reload_handler_keeps [of N s0 ?pr2 "sc_Interface config" x config]
    by (auto simp: reload_interface_def Let_def)
qed

lemma reload_authenticator_keeps: "steady N s0 pr \<Longrightarrow> keeps N s0 (reload_authenticator au config pr)"
  by (auto simp: reload_authenticator_def elim!: steady_cong split: prod.splits sum.splits)

lemma reload_tls_keeps: "steady N s0 pr \<Longrightarrow> keeps N s0 (reload_tls os config False pr)"
  by (auto simp: reload_tls_def elim!: steady_cong split: prod.splits sum.splits)

lemma handler_kind_update [simp]: "handler_kind (server_UpdateSocketConfig s w) = handler_kind w"
proof -
  have "handler_kind (fold (\<lambda>(_, i). upd_sock i (f i)) socks w) = handler_kind w" for f and socks :: "(string \<times> sid) list"
    by (induction socks arbitrary: w) auto
  then show ?thesis by (auto simp: server_UpdateSocketConfig_def split: option.splits)
qed

lemma nils_update [simp]: "nils (server_UpdateSocketConfig s w) = nils w"
proof -
  have "nils (fold (\<lambda>(_, i). upd_sock i (f i)) socks w) = nils w" for f and socks :: "(string \<times> sid) list"
    by (induction socks arbitrary: w) auto
  then show ?thesis by (auto simp: server_UpdateSocketConfig_def split: option.splits)
qed

lemma reload_finish_keeps: "steady N s0 pr \<Longrightarrow> keeps N s0 (reload_finish config pr)"
  by (auto simp: reload_finish_def Let_def elim!: steady_cong)

lemmas reload_keeps = reload_tunnel_keeps reload_http_keeps reload_interface_keeps reload_authenticator_keeps
  reload_tls_keeps reload_finish_keeps

lemma reload_stable: "steady N s0 pr \<Longrightarrow> keeps N s0 (server_reloadConfig x os au loaded False pr)"
  by (auto simp: server_reloadConfig_def intro!: keeps_and_then reload_keeps split: sum.splits)

section \<open>The first configuration\<close>

lemma and_then_Panic: "and_then r f = Panic \<longleftrightarrow> r = Panic \<or> (\<exists>pr. r = Ret (pr, None) \<and> f pr = Panic)"
  by (auto simp: and_then_def split: go.splits option.splits prod.splits)

lemma and_then_Ret:
  "and_then r f = Ret (pr', None) \<longleftrightarrow> (\<exists>pr. r = Ret (pr, None) \<and> f pr = Ret (pr', None))"
  by (auto simp: and_then_def split: go.splits option.splits prod.splits)

text \<open>A stage that fails ends the reload: the stages before it ran without an error.\<close>

lemma and_then_cases:
  assumes "and_then r f = Ret (pr', err)"
  obtains (failed) e where "r = Ret (pr', Some e)" "err = Some e" | (went_on) pr1 where "r = Ret (pr1, None)" "f pr1 = Ret (pr', err)"
  using assms by (auto simp: and_then_def split: go.splits option.splits prod.splits)

lemma first_handler:
  assumes "sv_InterfaceConfig (pr_server pr) = Some ic" and "\<not> ifc_OneInterfacePerConnection ic"
  shows "\<exists>pr'. reload_handler x config True pr = Ret (pr', None) \<and> handler_fits (pr_server pr') (pr_world pr') \<and>
    pr_server pr' = pr_server pr \<and> pr_tlsConfig pr' = pr_tlsConfig pr"
  using assms by (simp add: reload_handler_def handler_fits_def handler_kind_def ConfigUpdate_def MakeMACSwitch_def Let_def)

lemma first_interface:
  "\<exists>pr'. reload_interface x config True pr = Ret (pr', None) \<and> handler_fits (pr_server pr') (pr_world pr') \<and>
     sv_TLSConfig (pr_server pr') = sv_TLSConfig (pr_server pr) \<and> pr_tlsConfig pr' = pr_tlsConfig pr"
proof -
  let ?pr1 = "on_server (\<lambda>s. s\<lparr>sv_MaxConnectionsPerUser := sc_MaxConnectionsPerUser config,
    sv_MaxConnectionsPerUserMode := parse_limit_mode (sc_MaxConnectionsPerUserMode config) (sv_MaxConnectionsPerUserMode s)\<rparr>) pr"
  let ?pr2 = "on_server (\<lambda>s. s\<lparr>sv_InterfaceConfig := Some (sc_Interface config)\<rparr>) ?pr1"
  show ?thesis
  proof (cases "ifc_OneInterfacePerConnection (sc_Interface config)")
    case True
    then show ?thesis by (simp add: reload_interface_def handler_fits_def on_server_def Let_def)
  next
    case False
    then have "reload_interface x config True pr = reload_handler x config True ?pr2"
      by (simp add: reload_interface_def Let_def)
    then show ?thesis
      using first_handler [of ?pr2 "sc_Interface config" x config] False by (auto simp: on_server_def)
  qed
qed

lemma reload_stages_total:
  "reload_tunnel config b pr \<noteq> Panic" "reload_http x config pr \<noteq> Panic" "reload_authenticator au config pr \<noteq> Panic"
  "reload_tls os config b pr \<noteq> Panic" "reload_finish config pr \<noteq> Panic"
  by (auto simp: reload_tunnel_def reload_http_def reload_authenticator_def reload_tls_def reload_finish_def Let_def
      split: sum.splits prod.splits option.splits)

lemma first_no_panic: "server_reloadConfig x os au loaded True pr \<noteq> Panic"
proof -
  have "reload_interface x config True pr \<noteq> Panic" for config and pr :: "('a, 'b) process"
    using first_interface [of x config pr] by auto
  then show ?thesis
    by (simp add: server_reloadConfig_def and_then_Panic reload_stages_total split: sum.splits)
qed

lemma reload_tls_True:
  assumes "reload_tls os config True pr = Ret (pr', None)" and "handler_fits (pr_server pr) (pr_world pr)"
  shows "handler_fits (pr_server pr') (pr_world pr') \<and>
    (sc_TLS_ClientCA config \<noteq> [] \<longrightarrow> sv_TLSConfig (pr_server pr) = None \<longrightarrow>
      sv_TLSConfig (pr_server pr') = Some (empty_TLSConfig\<lparr>tc_GetConfigForClient := Some CurrentConfig\<rparr>) \<and>
      (\<exists>t. pr_tlsConfig pr' = Some t \<and> tc_RequireAndVerifyClientCert t))"
proof -
  have m: "tc_RequireAndVerifyClientCert t" if "make_tls os config e = (e', Inr t)" "sc_TLS_ClientCA config \<noteq> []" for e e' t
    using that by (auto simp: make_tls_def TLSUseConfig_def Let_def split: prod.splits sum.splits if_splits option.splits)
  show ?thesis
    using assms by (auto simp: reload_tls_def handler_fits_def m split: prod.splits sum.splits if_splits option.splits)
qed

lemma first_reload:
  assumes "server_reloadConfig x os au (Inr config) True pr = Ret (pr', None)" and "sv_TLSConfig (pr_server pr) = None"
  shows "handler_fits (pr_server pr') (pr_world pr') \<and> (sc_TLS_ClientCA config \<noteq> [] \<longrightarrow>
      sv_TLSConfig (pr_server pr') = Some (empty_TLSConfig\<lparr>tc_GetConfigForClient := Some CurrentConfig\<rparr>) \<and>
      (\<exists>t. pr_tlsConfig pr' = Some t \<and> tc_RequireAndVerifyClientCert t))"
proof -
  obtain pr1 pr2 pr3 pr4 pr5 where
    st: "reload_tunnel config True pr = Ret (pr1, None)" "reload_http x config pr1 = Ret (pr2, None)"
      "reload_interface x config True pr2 = Ret (pr3, None)" "reload_authenticator au config pr3 = Ret (pr4, None)"
      "reload_tls os config True pr4 = Ret (pr5, None)" "reload_finish config pr5 = Ret (pr', None)"
    using assms(1) by (auto simp: server_reloadConfig_def and_then_Ret)
  have "sv_TLSConfig s' = sv_TLSConfig s" if "set_features fs s = (s', None)" for fs s s'
    using set_features_network [OF that] by (simp add: network_def)
  then have t1: "sv_TLSConfig (pr_server pr1) = None"
    using st(1) assms(2) by (fastforce simp: reload_tunnel_def Let_def split: sum.splits prod.splits option.splits)
  have "sv_TLSConfig (pr_server pr2) = None"
    using st(2) t1 server_SetMTU_keeps
    by (fastforce simp: reload_http_def SetHeaders_def setUpgraderHeaders_def network_def Let_def split: prod.splits)
  then have t3: "sv_TLSConfig (pr_server pr3) = None" "handler_fits (pr_server pr3) (pr_world pr3)"
    using first_interface [of x config pr2] st(3) by auto
  then have t4: "sv_TLSConfig (pr_server pr4) = None" "handler_fits (pr_server pr4) (pr_world pr4)"
    using st(4) by (auto simp: reload_authenticator_def handler_fits_def split: prod.splits sum.splits option.splits)
  show ?thesis
    using reload_tls_True [OF st(5) t4(2)] t4(1) st(6)
    by (auto simp: reload_finish_def handler_fits_def Let_def split: option.splits)
qed

section \<open>Properties\<close>

text \<open>
  C30 The packet handler always has the type that the mode demands: the first configuration that
  succeeds makes the IP switch for TUN and the MAC switch for TAP, and every reload, also one
  that fails half way, leaves the mode, the subnet, the address, HTTP/3, the presence of TLS and
  the choice of interfaces as they were, and with them the handler, so that the type assertions
  of \<^verbatim>\<open>reloadConfig\<close> never fail. A reload panics only when, before it, the MAC switch of
  this very process has a client whose address cache could not be made; without such a client, and
  always with an IP switch, it returns.
\<close>

theorem reload_type_safe:
  assumes "if initialConfig then sv_TLSConfig (pr_server pr) = None else handler_fits (pr_server pr) (pr_world pr)"
    and "server_reloadConfig x os au loaded initialConfig pr = r"
  shows "case r of Panic \<Rightarrow> \<not> initialConfig \<and> nils (pr_world pr) \<noteq> {}
    | Ret (pr', err) \<Rightarrow> (err = None \<or> \<not> initialConfig \<longrightarrow> handler_fits (pr_server pr') (pr_world pr')) \<and>
        (\<not> initialConfig \<longrightarrow> network (pr_server pr') = network (pr_server pr))"
proof (cases initialConfig)
  case True
  then show ?thesis
    using assms first_no_panic [of x os au loaded pr] first_reload [of x os au _ pr]
    by (cases loaded) (auto simp: server_reloadConfig_def [of x os au "Inl _"] split: go.splits)
next
  case False
  have st: "steady (nils (pr_world pr)) (pr_server pr) pr" using assms(1) False by (simp add: steady_def stable_def)
  have "keeps (nils (pr_world pr)) (pr_server pr) (server_reloadConfig x os au loaded False pr)" using st by (rule reload_stable)
  then show ?thesis
    using assms(2) False by (auto simp: keeps_def steady_def stable_def split: go.splits)
qed

definition example_config :: ServerConfig where
  "example_config = \<lparr>sc_MTU = 1420, sc_Subnet = ''10.0.0.1/24'', sc_Mode = ''tun'', sc_AllowClientToClient = True,
     sc_AllowIPSpoofing = False, sc_AllowUnknownEtherTypes = False, sc_AllowMACChanging = True,
     sc_AllowedMACsPerConnection = 1, sc_Features = [(Fragmentation, True)], sc_IPConfig_Local = True,
     sc_IPConfig_Remote = True, sc_Ping = MakeDefaultPingConfig,
     sc_Interface = \<lparr>ifc_Name = [], ifc_Persist = False, ifc_ComponentID = [], ifc_OneInterfacePerConnection = False\<rparr>,
     sc_Scripts = \<lparr>ec_Up = [], ec_Down = [], ec_Startup = []\<rparr>, sc_Listen = ''0.0.0.0:9000'', sc_EnableHTTP3 = False,
     sc_Headers = [], sc_TLS_ClientCA = ''ca.pem'', sc_TLS_Certificate = ''tls.pem'', sc_TLS_Key = ''tls.key'',
     sc_TLS_Config = \<lparr>tf_MinVersion = ''1.2'', tf_MaxVersion = [], tf_KeyLogFile = [], tf_Insecure = False\<rparr>,
     sc_Authenticator_Type = ''htpasswd'', sc_Authenticator_Config = [], sc_PreauthorizeSecret = [],
     sc_MaxConnectionsPerUser = 1, sc_MaxConnectionsPerUserMode = ''kill-oldest'', sc_WebsiteDirectory = [],
     sc_API_Enabled = False, sc_API_Users = []\<rparr>"

definition example_process :: "(demo_env, list_lru) process" where
  "example_process = \<lparr>pr_server = NewServer, pr_world = (example_world example_socket)\<lparr>w_handler := None\<rparr>,
     pr_tlsConfig = None\<rparr>"

lemma example_first_from:
  fixes pr :: "(demo_env, list_lru) process"
  assumes "sv_sockets (pr_server pr) = []" and "sv_mainIface (pr_server pr) = None"
    and "sv_TLSConfig (pr_server pr) = None" and "sv_mtu (pr_server pr) = 0"
  shows "\<exists>pr'. server_reloadConfig demo_ext example_os example_auth (Inr example_config) True pr = Ret (pr', None) \<and>
     sv_Authenticator (pr_server pr') = Some (HtpasswdAuthenticator 0)"
proof -
  have "remoteNetStr [10, 0, 0, 1] 24 = ''10.0.0.1/24''" by code_simp
  then obtain net where n: "ParseVPNNet ''10.0.0.1/24'' = Inr net"
    using ParseVPNNet_remoteNetStr [of "[10, 0, 0, 1]" 24] by auto
  have m: "parse_mode ''tun'' = Some VPNModeTUN" by code_simp
  have k: "strings_ToLower ''htpasswd'' = ''htpasswd''" by code_simp
  obtain pr1 where s1: "reload_tunnel example_config True pr = Ret (pr1, None)"
    "sv_sockets (pr_server pr1) = []" "sv_mainIface (pr_server pr1) = None" "sv_TLSConfig (pr_server pr1) = None"
    "sv_mtu (pr_server pr1) = 0"
    using n m assms by (simp add: reload_tunnel_def example_config_def IsFeatureSupported_def server_SetLocalFeature_def Let_def)
  then obtain pr2 where s2: "reload_http demo_ext example_config pr1 = Ret (pr2, None)" "sv_TLSConfig (pr_server pr2) = None"
    by (simp add: reload_http_def example_config_def server_SetMTU_def SetHeaders_def setUpgraderHeaders_def Let_def)
  obtain pr3 where s3: "reload_interface demo_ext example_config True pr2 = Ret (pr3, None)"
    using first_interface [of demo_ext example_config pr2] by blast
  obtain pr4 where s4: "reload_authenticator example_auth example_config pr3 = Ret (pr4, None)"
    "sv_Authenticator (pr_server pr4) = Some (HtpasswdAuthenticator 0)"
    by (simp add: reload_authenticator_def load_authenticator_def example_config_def k htpasswd_Load_def example_auth_def Let_def)
  obtain pr5 where s5: "reload_tls example_os example_config True pr4 = Ret (pr5, None)"
    "sv_Authenticator (pr_server pr5) = Some (HtpasswdAuthenticator 0)"
    using s4(2) by (simp add: reload_tls_def make_tls_def example_config_def example_os_def TLSUseConfig_def Let_def)
  show ?thesis
    using s1(1) s2(1) s3 s4(1) s5 by (simp add: server_reloadConfig_def and_then_def reload_finish_def Let_def)
qed

lemma example_first:
  "\<exists>pr'. server_reloadConfig demo_ext example_os example_auth (Inr example_config) True example_process = Ret (pr', None) \<and>
     sv_Authenticator (pr_server pr') = Some (HtpasswdAuthenticator 0)"
  by (rule example_first_from) (simp_all add: example_process_def NewServer_def)

theorem reload_type_safe_witness:
  "\<exists>pr'. server_reloadConfig demo_ext example_os example_auth (Inr example_config) True example_process = Ret (pr', None) \<and>
     handler_fits (pr_server pr') (pr_world pr')"
proof -
  obtain pr' where r: "server_reloadConfig demo_ext example_os example_auth (Inr example_config) True example_process = Ret (pr', None)"
    using example_first by blast
  have "if True then sv_TLSConfig (pr_server example_process) = None
      else handler_fits (pr_server example_process) (pr_world example_process)"
    by (simp add: example_process_def NewServer_def)
  from reload_type_safe [OF this r] r show ?thesis by simp
qed

text \<open>
  The server's own test for a client certificate never fires: after a configuration with a
  client CA the TLS library demands a certificate, but \<^verbatim>\<open>Server.TLSConfig\<close>, which
  \<^verbatim>\<open>handleSocketAuth\<close> looks at, is the outer configuration that only points to
  the real one. A certificate without a common name is accepted, and then the name that the
  authenticator reports is bound to no certificate at all.
\<close>

theorem certificate_name_not_required:
  assumes "server_reloadConfig x os au (Inr config) True pr = Ret (pr', None)" and "sv_TLSConfig (pr_server pr) = None"
    and "sc_TLS_ClientCA config \<noteq> []" and "rq_TLS r = Some (Some [])"
    and "sv_Authenticator (pr_server pr') = Some a" and "Authenticate au a e r w = (e', w', AuthOk, name)"
  shows "(\<exists>t. pr_tlsConfig pr' = Some t \<and> tc_RequireAndVerifyClientCert t) \<and>
    handleSocketAuth au (pr_server pr') e r w = Ret (e', w', True, name)"
  using first_reload [OF assms(1,2)] assms(3-6)
  by (auto simp: handleSocketAuth_def auth_outcome_def empty_TLSConfig_def Let_def)

theorem certificate_name_not_required_witness:
  "\<exists>pr' t. server_reloadConfig demo_ext example_os example_auth (Inr example_config) True example_process = Ret (pr', None) \<and>
     pr_tlsConfig pr' = Some t \<and> tc_RequireAndVerifyClientCert t \<and>
     handleSocketAuth example_auth (pr_server pr') [] (example_login\<lparr>rq_TLS := Some (Some [])\<rparr>) empty_response =
       Ret ([], empty_response, True, ''alice'')"
proof -
  obtain pr' where r: "server_reloadConfig demo_ext example_os example_auth (Inr example_config) True example_process = Ret (pr', None)"
    and a: "sv_Authenticator (pr_server pr') = Some (HtpasswdAuthenticator 0)"
    using example_first by blast
  have "Authenticate example_auth (HtpasswdAuthenticator 0) [] (example_login\<lparr>rq_TLS := Some (Some [])\<rparr>) empty_response =
      ([], empty_response, AuthOk, ''alice'')"
    using example_login_auth by (simp add: htpasswd_Authenticate_def) (simp add: example_auth_def)
  from certificate_name_not_required [OF r _ _ _ a this] r show ?thesis
    by (auto simp: example_process_def NewServer_def example_config_def)
qed

end
