(* ===== verification/Server_TLS.thy ===== *)
theory Server_TLS
  imports Server_Config
begin

text \<open>
  The TLS configuration that a handshake uses (\<^verbatim>\<open>getTLSConfig\<close> and
  \<^verbatim>\<open>getTLSCert\<close> of \<^verbatim>\<open>server/cli/base.go\<close>, and the
  configuration that \<^verbatim>\<open>NewWebTransportUpgrader\<close> makes of it): the listeners are started
  once, with a configuration that only points to the current one.
\<close>

definition getTLSConfig :: "('e, 'l) process \<Rightarrow> TLSConfig option" where
  "getTLSConfig pr = pr_tlsConfig pr"

definition getTLSCert :: "('e, 'l) process \<Rightarrow> string go" where
  "getTLSCert pr = (case pr_tlsConfig pr of
     None \<Rightarrow> Panic
   | Some t \<Rightarrow> (case tc_Certificates t of [] \<Rightarrow> Panic | cert # _ \<Rightarrow> Ret cert))"

text \<open>
  \<^verbatim>\<open>crypto/tls\<close>: a handshake on a listener with configuration \<open>t\<close> uses what
  \<^verbatim>\<open>GetConfigForClient\<close> returns, if it is set and does not return nil.
\<close>

definition handshake_config :: "TLSConfig \<Rightarrow> ('e, 'l) process \<Rightarrow> TLSConfig go" where
  "handshake_config t pr = (case tc_GetConfigForClient t of
     None \<Rightarrow> Ret t
   | Some f \<Rightarrow> (case GetConfigForClient f (getTLSConfig pr) of
       Panic \<Rightarrow> Panic | Ret None \<Rightarrow> Ret t | Ret (Some cfg) \<Rightarrow> Ret cfg))"

primrec quic_config :: "upgrader \<Rightarrow> TLSConfig option" where
  "quic_config (WebSocketUpgrader h) = None"
| "quic_config (WebTransportUpgrader server) = Some (h3_TLSConfig server)"

definition quic_handshake :: "upgrader \<Rightarrow> ('e, 'l) process \<Rightarrow> TLSConfig go" where
  "quic_handshake u pr = (case quic_config u of None \<Rightarrow> Panic | Some t \<Rightarrow> handshake_config t pr)"

section \<open>Lemmas\<close>

definition wants_tls :: "ServerConfig \<Rightarrow> bool" where
  "wants_tls config \<longleftrightarrow> sc_TLS_Certificate config \<noteq> [] \<or> sc_TLS_Key config \<noteq> [] \<or> sc_TLS_ClientCA config \<noteq> []"

text \<open>
  What a TLS configuration made from the file in the environment \<open>e\<close> holds: the certificate
  and key read now, the client CA read after them, the key log opened last, and the versions.
\<close>

definition tls_of_file :: "'e os_ext \<Rightarrow> ServerConfig \<Rightarrow> 'e \<Rightarrow> TLSConfig \<Rightarrow> bool" where
  "tls_of_file os config e t \<longleftrightarrow>
     (\<exists>e1 e2 cert. tls_LoadX509KeyPair os e (sc_TLS_Certificate config) (sc_TLS_Key config) = (e1, Inr cert) \<and>
        tc_Certificates t = [cert] \<and>
        (if sc_TLS_ClientCA config = []
         then e2 = e1 \<and> tc_ClientCAs t = None \<and> \<not> tc_RequireAndVerifyClientCert t
         else \<exists>pem. os_ReadFile os e1 (sc_TLS_ClientCA config) = (e2, Inr pem) \<and> x509_AppendCertsFromPEM os pem \<and>
                tc_ClientCAs t = Some pem \<and> tc_RequireAndVerifyClientCert t) \<and>
        (if tf_KeyLogFile (sc_TLS_Config config) = [] then tc_KeyLogWriter t = None
         else \<exists>e3 fh. os_OpenFile os e2 (tf_KeyLogFile (sc_TLS_Config config)) = (e3, Inr fh) \<and> tc_KeyLogWriter t = Some fh)) \<and>
     tc_MinVersion t = TLSVersionNum (tf_MinVersion (sc_TLS_Config config)) \<and>
     tc_MaxVersion t = TLSVersionNum (tf_MaxVersion (sc_TLS_Config config))"

text \<open>The stages of a reload that come before the TLS files are read.\<close>

definition reload_before_tls :: "('e, 'l) ext \<Rightarrow> 'e auth_ext \<Rightarrow> ServerConfig \<Rightarrow> bool \<Rightarrow> ('e, 'l) process \<Rightarrow> ('e, 'l) reloaded" where
  "reload_before_tls x au config initialConfig pr =
     and_then (and_then (and_then (reload_tunnel config initialConfig pr) (reload_http x config))
       (reload_interface x config initialConfig)) (reload_authenticator au config)"

lemma TLSUseConfig_fields:
  "TLSUseConfig os e t fc = (e', t', None) \<Longrightarrow> tc_Certificates t' = tc_Certificates t \<and> tc_ClientCAs t' = tc_ClientCAs t \<and>
     tc_RequireAndVerifyClientCert t' = tc_RequireAndVerifyClientCert t \<and>
     (if tf_KeyLogFile fc = [] then tc_KeyLogWriter t' = tc_KeyLogWriter t
      else \<exists>e3 fh. os_OpenFile os e (tf_KeyLogFile fc) = (e3, Inr fh) \<and> tc_KeyLogWriter t' = Some fh) \<and>
     tc_MinVersion t' = TLSVersionNum (tf_MinVersion fc) \<and> tc_MaxVersion t' = TLSVersionNum (tf_MaxVersion fc)"
  by (auto simp: TLSUseConfig_def Let_def split: if_splits prod.splits sum.splits)

lemma make_tls_of_file: "make_tls os config e = (e', Inr t) \<Longrightarrow> tls_of_file os config e t"
  by (auto simp: make_tls_def tls_of_file_def empty_TLSConfig_def Let_def dest!: TLSUseConfig_fields
      split: prod.splits sum.splits if_splits option.splits)

lemma on_server_tls [simp]: "pr_tlsConfig (pr\<lparr>pr_server := s\<rparr>) = pr_tlsConfig pr" "pr_tlsConfig (pr\<lparr>pr_world := w\<rparr>) = pr_tlsConfig pr"
  by simp_all

lemma reload_stages_tls:
  "reload_tunnel config b pr = Ret (pr', err) \<Longrightarrow> pr_tlsConfig pr' = pr_tlsConfig pr"
  "reload_http x config pr = Ret (pr', err) \<Longrightarrow> pr_tlsConfig pr' = pr_tlsConfig pr"
  "reload_interface x config b pr = Ret (pr', err) \<Longrightarrow> pr_tlsConfig pr' = pr_tlsConfig pr"
  "reload_authenticator au config pr = Ret (pr', err) \<Longrightarrow> pr_tlsConfig pr' = pr_tlsConfig pr"
  "reload_finish config pr = Ret (pr', err) \<Longrightarrow> pr_tlsConfig pr' = pr_tlsConfig pr \<and> err = None"
  by (auto simp: reload_tunnel_def reload_http_def reload_interface_def reload_handler_def reload_authenticator_def
      reload_finish_def Let_def split: sum.splits prod.splits option.splits if_splits go.splits PacketHandler.splits)

lemma reload_tls_outcome:
  "reload_tls os config b pr = Ret (pr', err) \<Longrightarrow>
   (if err = None \<and> wants_tls config then \<exists>t. pr_tlsConfig pr' = Some t \<and> tls_of_file os config (w_env (pr_world pr)) t
    else pr_tlsConfig pr' = pr_tlsConfig pr)"
  by (auto simp: reload_tls_def wants_tls_def dest: make_tls_of_file split: prod.splits sum.splits if_splits)

lemma reload_before_tls_keeps: "reload_before_tls x au config b pr = Ret (pr', err) \<Longrightarrow> pr_tlsConfig pr' = pr_tlsConfig pr"
  unfolding reload_before_tls_def by (auto elim!: and_then_cases dest!: reload_stages_tls)

lemma reload_outcome:
  assumes "server_reloadConfig x os au (Inr config) b pr = Ret (pr', err)"
  shows "if err = None \<and> wants_tls config
    then \<exists>t pr1. pr_tlsConfig pr' = Some t \<and> reload_before_tls x au config b pr = Ret (pr1, None) \<and>
      tls_of_file os config (w_env (pr_world pr1)) t
    else pr_tlsConfig pr' = pr_tlsConfig pr"
proof -
  have "and_then (and_then (reload_before_tls x au config b pr) (reload_tls os config b)) (reload_finish config) = Ret (pr', err)"
    using assms by (simp add: server_reloadConfig_def reload_before_tls_def)
  then show ?thesis
  proof (cases rule: and_then_cases)
    case (failed e)
    then show ?thesis using reload_before_tls_keeps [of x au config b pr]
      by (elim and_then_cases) (auto dest!: reload_tls_outcome)
  next
    case (went_on pr2)
    then obtain pr1 where pr1: "reload_before_tls x au config b pr = Ret (pr1, None)"
      "reload_tls os config b pr1 = Ret (pr2, None)" by (auto simp: and_then_Ret)
    then show ?thesis
      using reload_before_tls_keeps [OF pr1(1)] reload_tls_outcome [OF pr1(2)] reload_stages_tls(5) [OF went_on(2)]
      by (auto split: if_splits)
  qed
qed

lemma network_tls: "network s' = network s \<Longrightarrow> sv_TLSConfig s' = sv_TLSConfig s"
  by (simp add: network_def)

lemma reload_stages_outer:
  "reload_tunnel config b pr = Ret (pr', err) \<Longrightarrow> sv_TLSConfig (pr_server pr') = sv_TLSConfig (pr_server pr)"
  "reload_http x config pr = Ret (pr', err) \<Longrightarrow> sv_TLSConfig (pr_server pr') = sv_TLSConfig (pr_server pr)"
  "reload_interface x config b pr = Ret (pr', err) \<Longrightarrow> sv_TLSConfig (pr_server pr') = sv_TLSConfig (pr_server pr)"
  "reload_authenticator au config pr = Ret (pr', err) \<Longrightarrow> sv_TLSConfig (pr_server pr') = sv_TLSConfig (pr_server pr)"
  "reload_finish config pr = Ret (pr', err) \<Longrightarrow> sv_TLSConfig (pr_server pr') = sv_TLSConfig (pr_server pr)"
  by (auto simp: reload_tunnel_def reload_http_def reload_interface_def reload_handler_def reload_authenticator_def
      reload_finish_def SetHeaders_def setUpgraderHeaders_def Let_def
      dest!: set_features_network server_SetMTU_keeps network_tls
      split: sum.splits prod.splits option.splits if_splits go.splits PacketHandler.splits)

definition outer_tls :: TLSConfig where
  "outer_tls = empty_TLSConfig\<lparr>tc_GetConfigForClient := Some CurrentConfig\<rparr>"

lemma reload_tls_outer:
  "reload_tls os config False pr = Ret (pr', err) \<Longrightarrow> sv_TLSConfig (pr_server pr') = sv_TLSConfig (pr_server pr)"
  "reload_tls os config True pr = Ret (pr', None) \<Longrightarrow> sv_TLSConfig (pr_server pr) = None \<Longrightarrow>
   sv_TLSConfig (pr_server pr') = (if wants_tls config then Some outer_tls else None)"
  by (auto simp: reload_tls_def wants_tls_def outer_tls_def split: sum.splits prod.splits if_splits)

lemma reload_keeps_outer:
  assumes "server_reloadConfig x os au (Inr config) False pr = Ret (pr', err)"
  shows "sv_TLSConfig (pr_server pr') = sv_TLSConfig (pr_server pr)"
  using assms unfolding server_reloadConfig_def sum.case
  by (auto elim!: and_then_cases dest!: reload_stages_outer reload_tls_outer(1))

text \<open>The first configuration that turns TLS on leaves a current configuration with a certificate.\<close>

lemma reload_first_outer:
  assumes "server_reloadConfig x os au (Inr config) True pr = Ret (pr', None)" and "sv_TLSConfig (pr_server pr) = None"
  shows "sv_TLSConfig (pr_server pr') = (if wants_tls config then Some outer_tls else None) \<and>
    (wants_tls config \<longrightarrow> (\<exists>t e. pr_tlsConfig pr' = Some t \<and> tls_of_file os config e t))"
proof -
  have "sv_TLSConfig (pr_server pr') = (if wants_tls config then Some outer_tls else None)"
    using assms unfolding server_reloadConfig_def sum.case
    by (clarsimp simp: and_then_Ret dest!: reload_stages_outer) (simp add: reload_tls_outer(2))
  then show ?thesis using reload_outcome [OF assms(1)] by (auto split: if_splits)
qed

section \<open>Properties\<close>

text \<open>
  C31 A renewed certificate is used at once: on a server that listens with TLS, every handshake
  after a reload uses the certificate and key that this reload read, in the environment in which
  the stages before it left the process, the client CA that it read after them, with the demand for
  a client certificate exactly when there is one, the key log and the versions of the file that was
  loaded, on the TCP listener and, with the protocol HTTP/3, on the QUIC listener alike; a reload
  that fails, or one to a file without TLS options, leaves the configuration in use as it was.
\<close>

theorem tls_reload_takes_effect:
  assumes "server_reloadConfig x os au loaded False pr = Ret (pr', err)"
    and "sv_TLSConfig (pr_server pr) = Some t" and "tc_GetConfigForClient t = Some CurrentConfig"
    and "getTLSConfig pr = Some old"
  shows "\<exists>new. getTLSConfig pr' = Some new \<and> sv_TLSConfig (pr_server pr') = Some t \<and>
    handshake_config t pr' = Ret new \<and>
    quic_handshake (NewWebTransportUpgrader \<lparr>qs_Addr = a, qs_TLSConfig = t\<rparr>) pr' = Ret (new\<lparr>tc_NextProtos := [NextProtoH3]\<rparr>) \<and>
    (case loaded of Inl _ \<Rightarrow> new = old
      | Inr config \<Rightarrow> if err = None \<and> wants_tls config
          then \<exists>pr1. reload_before_tls x au config False pr = Ret (pr1, None) \<and> tls_of_file os config (w_env (pr_world pr1)) new
          else new = old)"
proof -
  have h: "handshake_config t pr' = Ret new \<and>
      quic_handshake (NewWebTransportUpgrader \<lparr>qs_Addr = a, qs_TLSConfig = t\<rparr>) pr' = Ret (new\<lparr>tc_NextProtos := [NextProtoH3]\<rparr>)"
    if "getTLSConfig pr' = Some new" for new
    using that assms(3)
    by (simp add: handshake_config_def quic_handshake_def NewWebTransportUpgrader_def Let_def)
  show ?thesis
  proof (cases loaded)
    case (Inl e)
    then show ?thesis using assms h by (simp add: server_reloadConfig_def)
  next
    case (Inr config)
    have r: "server_reloadConfig x os au (Inr config) False pr = Ret (pr', err)" using assms(1) Inr by simp
    show ?thesis
      using reload_outcome [OF r] reload_keeps_outer [OF r] assms(2,4) h Inr
      by (auto simp: getTLSConfig_def split: if_splits)
  qed
qed

definition running_process :: "(demo_env, list_lru) process" where
  "running_process = \<lparr>pr_server = NewServer\<lparr>sv_TLSConfig := Some outer_tls, sv_mtu := 1420,
       sv_InterfaceConfig := Some (sc_Interface example_config)\<rparr>,
     pr_world = (example_world example_socket)\<lparr>w_handler := Some (IPH MakeIPSwitch)\<rparr>,
     pr_tlsConfig = Some (empty_TLSConfig\<lparr>tc_Certificates := [''old.pem'']\<rparr>)\<rparr>"

lemma example_reload:
  "\<exists>pr'. server_reloadConfig demo_ext example_os example_auth (Inr example_config) False running_process = Ret (pr', None)"
proof -
  have "remoteNetStr [10, 0, 0, 1] 24 = ''10.0.0.1/24''" by code_simp
  then obtain net where n: "ParseVPNNet ''10.0.0.1/24'' = Inr net"
    using ParseVPNNet_remoteNetStr [of "[10, 0, 0, 1]" 24] by auto
  have m: "parse_mode ''tun'' = Some VPNModeTUN" by code_simp
  have k: "strings_ToLower ''htpasswd'' = ''htpasswd''" by code_simp
  have net: "network (pr_server running_process) = (no_subnet, VPNModeTUN, [], False, Some outer_tls, Some False)"
    by (simp add: running_process_def network_def NewServer_def example_config_def)
  obtain pr1 where s1: "reload_tunnel example_config False running_process = Ret (pr1, None)"
    using n m by (simp add: reload_tunnel_def example_config_def IsFeatureSupported_def server_SetLocalFeature_def Let_def)
  have st: "steady {} (pr_server running_process) running_process"
    by (simp add: steady_def nils_def stable_def handler_fits_def handler_kind_def running_process_def NewServer_def example_config_def)
  obtain pr2 where s2: "reload_http demo_ext example_config pr1 = Ret (pr2, None)"
    using s1 by (auto simp: reload_tunnel_def reload_http_def running_process_def example_config_def server_SetMTU_def
        SetHeaders_def setUpgraderHeaders_def IsFeatureSupported_def server_SetLocalFeature_def NewServer_def n m Let_def)
  have st2: "steady {} (pr_server running_process) pr2"
    using reload_tunnel_keeps [OF st, of example_config] reload_http_keeps [of _ _ pr1 demo_ext example_config] s1 s2 by simp
  have one: "\<not> ifc_OneInterfacePerConnection (sc_Interface example_config)" by (simp add: example_config_def)
  obtain ic h where ic: "sv_InterfaceConfig (pr_server pr2) = Some ic" "\<not> ifc_OneInterfacePerConnection ic"
    "sv_Mode (pr_server pr2) = VPNModeTUN" "w_handler (pr_world pr2) = Some h" "handler_kind (pr_world pr2) = Some True"
    using st2 net by (auto simp: steady_def stable_def network_def handler_fits_def handler_kind_def split: option.splits)
  then obtain g where "w_handler (pr_world pr2) = Some (IPH g)" by (cases h) (simp_all add: handler_kind_def)
  then obtain pr3 where s3: "reload_interface demo_ext example_config False pr2 = Ret (pr3, None)"
    using ic one by (simp add: reload_interface_def reload_handler_def Let_def)
  obtain pr4 where s4: "reload_authenticator example_auth example_config pr3 = Ret (pr4, None)"
    by (simp add: reload_authenticator_def load_authenticator_def example_config_def k htpasswd_Load_def example_auth_def Let_def)
  obtain pr5 where s5: "reload_tls example_os example_config False pr4 = Ret (pr5, None)"
    by (simp add: reload_tls_def make_tls_def example_config_def example_os_def TLSUseConfig_def Let_def)
  show ?thesis
    using s1 s2 s3 s4 s5 by (simp add: server_reloadConfig_def and_then_def reload_finish_def Let_def)
qed

theorem tls_reload_takes_effect_witness:
  "\<exists>pr' new. server_reloadConfig demo_ext example_os example_auth (Inr example_config) False running_process = Ret (pr', None) \<and>
      handshake_config outer_tls pr' = Ret new \<and> getTLSCert pr' = Ret ''tls.pem'' \<and> tc_RequireAndVerifyClientCert new \<and>
      tc_ClientCAs new \<noteq> None"
proof -
  obtain pr' where r: "server_reloadConfig demo_ext example_os example_auth (Inr example_config) False running_process = Ret (pr', None)"
    using example_reload by blast
  have s: "sv_TLSConfig (pr_server running_process) = Some outer_tls" "tc_GetConfigForClient outer_tls = Some CurrentConfig"
    "getTLSConfig running_process = Some (empty_TLSConfig\<lparr>tc_Certificates := [''old.pem'']\<rparr>)"
    by (simp_all add: running_process_def outer_tls_def getTLSConfig_def)
  have "wants_tls example_config" "sc_TLS_ClientCA example_config \<noteq> []" "sc_TLS_Certificate example_config = ''tls.pem''"
    by (simp_all add: wants_tls_def example_config_def)
  then obtain new where n: "getTLSConfig pr' = Some new" "handshake_config outer_tls pr' = Ret new"
    "tc_Certificates new = [''tls.pem'']" "tc_RequireAndVerifyClientCert new" "tc_ClientCAs new \<noteq> None"
    using tls_reload_takes_effect [OF r s, of "''0.0.0.0:9000''"] by (auto simp: tls_of_file_def example_os_def)
  show ?thesis using n r by (simp add: getTLSCert_def getTLSConfig_def)
qed

end
