(* ===== verification/Switch_Safety.thy ===== *)
theory Switch_Safety
  imports Server_Steps
begin

text \<open>
  The guarantees of the two switches in every state the server can reach: who owns an address,
  what a spoofed packet can do, where packets go, what registering, colliding and closing do,
  and what the periodic clean-up of the MAC tables removes.
\<close>

section \<open>The tables\<close>

text \<open>The owner of a table key, in the switch that is in use.\<close>

definition resolve :: "('e, 'l) world \<Rightarrow> bytes \<Rightarrow> sid option" where
  "resolve w k = (case w_handler w of
     None \<Rightarrow> None
   | Some (IPH g) \<Rightarrow> map_of (ipTable g) k
   | Some (MACH g) \<Rightarrow> macTable g k)"

definition example_client :: socket where
  "example_client = example_receiver\<lparr>sk_hasPacketHandler := True, sk_AssignedIP := [10, 0, 0, 2]\<rparr>"

lemma example_client_simps [simp]:
  "sk_hasPacketHandler example_client" "sk_AssignedIP example_client = [10, 0, 0, 2]"
  "sk_isReady example_client" "\<not> sk_isClosing example_client" "sk_fragmentationEnabled example_client"
  "sk_remoteProtocolVersion example_client = 12" "sk_iface example_client = None"
  "sk_hasEventPusher example_client = False" "sk_closeChanOpen example_client"
  "sk_adapter example_client = WS \<lparr>ws_conn = 0, ws_serializationType = 1, ws_isServer = True\<rparr>"
  by (simp_all add: example_client_def example_receiver_def example_socket_def MakeSocket_def
      SetLocalFeature_def NewWebSocketAdapter_def)

definition example_macs_world :: "(demo_env, list_lru) world" where
  "example_macs_world = (example_world example_client)\<lparr>w_handler := Some (MACH MakeMACSwitch)\<rparr>"

definition example_ips_world :: "(demo_env, list_lru) world" where
  "example_ips_world = (example_world example_client)\<lparr>w_handler := Some (IPH MakeIPSwitch)\<rparr>"

lemma example_worlds_reachable: "reachable x example_macs_world" "reachable x example_ips_world"
  by (auto intro!: reachable.start simp: started_def example_macs_world_def example_ips_world_def)

lemma example_handlers:
  "w_handler example_macs_world = Some (MACH MakeMACSwitch)"
  "w_handler example_ips_world = Some (IPH MakeIPSwitch)"
  by (simp_all add: example_macs_world_def example_ips_world_def)

interpretation ip_table: switch_invariant x "\<lambda>a h. case h of IPH g \<Rightarrow> ips_inv a g | MACH g \<Rightarrow> True" for x
proof
  show "(case configure c2c sp un chg n t h of IPH g \<Rightarrow> ips_inv a g | MACH g \<Rightarrow> True)"
    if "case h of IPH g \<Rightarrow> ips_inv a g | MACH g \<Rightarrow> True" for a c2c sp un chg n t and h :: "'b PacketHandler"
    using that by (cases h) (simp_all add: ips_inv_def)
  show "(case h of IPH g \<Rightarrow> ips_inv (a(i := addr)) g | MACH g \<Rightarrow> True)"
    if "case h of IPH g \<Rightarrow> ips_inv a g | MACH g \<Rightarrow> True" "absent i h" for a i addr and h :: "'b PacketHandler"
    using that connect_tables_ok [of "\<lambda>_. True" "\<lambda>_. []" a h i addr] by (cases h) simp_all
qed (simp_all add: ips_inv_unregister ips_inv_insert)

lemma reachable_ip_table: "reachable x w \<Longrightarrow> w_handler w = Some (IPH g) \<Longrightarrow> ips_inv (addr_of w) g"
  using ip_table.reachable_holds [of x w] by (simp add: ip_table.holds_def ips_inv_def MakeIPSwitch_def)

text \<open>The clean-up timer has fired.\<close>

lemma fold_onMACEvicted_timer [simp]: "macs_timerArmed (fold onMACEvicted ks g) = macs_timerArmed g"
  by (simp add: fold_onMACEvicted)

lemma resize_tables_timer:
  "resize_tables x tables g = Ret g' \<Longrightarrow> macs_timerArmed g' = macs_timerArmed g"
  by (induction x tables g rule: resize_tables.induct) (auto simp: table_simps)

lemma cleanupMACs_timer:
  assumes "cleanupMACs x now i c g = Some g'"
  shows "macs_timerArmed g' = macs_timerArmed g"
proof -
  show ?thesis
  proof (rule cleanupMACs.raw_induct [of "\<lambda>_ _ _ _ g g'. macs_timerArmed g' = macs_timerArmed g"
        "((((x, now), i), c), g)" g', unfolded prod.case])
    show "cleanupMACs x now i c g = Some g'" by (rule assms)
  qed (auto simp: table_simps split: option.splits if_splits prod.splits)
qed

lemma cleanup_tables_timer:
  "cleanup_tables x now tables g = Some (Ret g') \<Longrightarrow> macs_timerArmed g' = macs_timerArmed g"
  by (induction x now tables g rule: cleanup_tables.induct) (auto split: option.splits dest: cleanupMACs_timer)

lemma cleanup_disarms: "cleanupAllMACs_round x now g = Some (Ret g') \<Longrightarrow> \<not> macs_timerArmed g'"
  by (auto simp: cleanupAllMACs_round_def Let_def split: if_splits dest!: cleanup_tables_timer)

interpretation timer: switch_invariant x "\<lambda>a h. case h of IPH g \<Rightarrow> True | MACH g \<Rightarrow> \<not> macs_timerArmed g" for x
proof
  show "(case configure c2c sp un chg n t h of IPH g \<Rightarrow> True | MACH g \<Rightarrow> \<not> macs_timerArmed g)"
    if "case h of IPH g \<Rightarrow> True | MACH g \<Rightarrow> \<not> macs_timerArmed g" for c2c sp un chg n t and h :: "'b PacketHandler"
    using that by (cases h) simp_all
qed (auto simp: table_simps macs_UnregisterSocket_cases macs_RegisterSocket_def ConfigUpdate_def
    resize_tables_timer cleanup_disarms split: option.splits sum.splits)

context lru_cache
begin

lemma owned_card:
  assumes "macs_ok ok entries g"
  shows "card {m. macTable g m = Some i} \<le> (case socketMACs g i of None \<Rightarrow> 0 | Some c \<Rightarrow> cap c)"
proof (cases "socketMACs g i")
  case None
  then show ?thesis using macs_okD(3) [OF assms] by (simp add: owns_def)
next
  case (Some c)
  then have "{m. macTable g m = Some i} = set (map fst (entries c))"
    using macs_okD(3) [OF assms] by (auto simp: owns_def)
  moreover have "length (map fst (entries c)) \<le> cap c"
    using ok_cap [OF macs_okD(2) [OF assms Some]] by simp
  ultimately show ?thesis using Some card_length [of "map fst (entries c)"] by simp
qed

lemma reachable_unregister:
  assumes "reachable x w"
  shows "resolve (UnregisterSocket x i w) k = (if resolve w k = Some i then None else resolve w k)"
proof (cases "w_handler w")
  case (Some h)
  show ?thesis
  proof (cases h)
    case (IPH g)
    from ips.unregister_owner [OF reachable_ips [OF assms Some [unfolded IPH]], of i k] show ?thesis
      by (simp add: resolve_def UnregisterSocket_def Some IPH addr_of_def)
  next
    case (MACH g)
    from macs.unregister_owner [OF reachable_macs [OF assms Some [unfolded MACH]], of i k] show ?thesis
      by (simp add: resolve_def UnregisterSocket_def Some MACH)
  qed
qed (simp add: resolve_def UnregisterSocket_def)

end

text \<open>
  C6 As long as the operations of the MAC switch do not overlap, so that each frame, connection,
  clean-up and configuration is one step, the address table and the caches of the clients say the
  same in every state the server reaches: an address resolves to a client exactly when it is in
  that client's cache, so no two clients share an address, no address is left behind by a client
  that is gone, and a client owns at most as many addresses as its cache has room for. Operations
  that overlap at their lock sections can break this agreement: \<open>Mac_Races\<close> shows how.
\<close>

theorem mac_table_matches_caches:
  assumes "lru_cache x ok cap entries" and "reachable x w" and "w_handler w = Some (MACH g)"
  shows "(macTable g m = Some i \<longleftrightarrow> (\<exists>c. socketMACs g i = Some c \<and> m \<in> fst ` set (entries c))) \<and>
    card {m. macTable g m = Some i} \<le> (case socketMACs g i of None \<Rightarrow> 0 | Some c \<Rightarrow> cap c)"
proof -
  have ok: "macs_ok ok entries g" using assms by (rule lru_cache.reachable_macs)
  show ?thesis
    using macs_okD(3) [OF ok] lru_cache.owned_card [OF assms(1) ok] by (simp add: owns_def)
qed

text \<open>A client that registered and then sent an ARP frame from the address 02:00:00:00:00:07.\<close>

definition example_frame :: bytes where
  "example_frame = replicate 6 255 @ [2, 0, 0, 0, 0, 7] @ [8, 6] @ replicate 28 0"

definition example_switch :: "list_lru MACSwitch" where
  "example_switch = MakeMACSwitch\<lparr>macTable := [[2, 0, 0, 0, 0, 7] \<mapsto> 7],
     socketTable := [(7, Some (1, [([2, 0, 0, 0, 0, 7], 5)]))]\<rparr>"

definition example_learned :: "(demo_env, list_lru) world" where
  "example_learned = example_macs_world\<lparr>w_handler := Some (MACH example_switch)\<rparr>"

lemma example_frame_parts:
  "length example_frame = 42" "take 6 (drop 6 example_frame) = [2, 0, 0, 0, 0, 7]"
  "take 2 (drop 12 example_frame) = [8, 6]" "hwAddrToMAC [2, 0, 0, 0, 0, 7] = [2, 0, 0, 0, 0, 7]"
  "take 6 example_frame = [255, 255, 255, 255, 255, 255]"
  by (simp_all add: example_frame_def hwAddrToMAC_def numeral_eq_Suc)

lemma upd_sock_same: "w_sock w i = s \<Longrightarrow> upd_sock i (\<lambda>_. s) w = w"
  by (cases w) (auto simp: upd_sock_def)

lemma example_learned_sock: "w_sock example_learned = (\<lambda>_. example_client)"
  by (simp add: example_learned_def example_macs_world_def example_world_def)

lemma example_registered: "RegisterSocket demo_ext 7 example_macs_world =
    set_macs (MakeMACSwitch\<lparr>socketTable := [(7, Some (1, []))]\<rparr>) example_macs_world"
  by (simp add: RegisterSocket_def macs_Register_def macs_RegisterSocket_def example_handlers
      ll_new_def MakeMACSwitch_def)

lemma example_learns: "dataMessageHandler demo_ext 5 7 (0b10000000 # example_frame)
    (RegisterSocket demo_ext 7 example_macs_world) = Some (Ret (example_learned, True))"
proof -
  let ?w = "RegisterSocket demo_ext 7 example_macs_world"
  let ?g = "MakeMACSwitch\<lparr>socketTable := [(7, Some (1, []))]\<rparr> :: list_lru MACSwitch"
  have h: "w_handler ?w = Some (MACH ?g)" unfolding example_registered by simp
  have s: "w_sock ?w = (\<lambda>_. example_client)"
    unfolding example_registered by (simp add: example_macs_world_def example_world_def)
  have "data_message 5 example_client (0b10000000 # example_frame) = (example_client, ProcessPacket example_frame)"
    by (rule data_message_single) (simp_all add: accepts_fragments_def protocol_consts example_frame_def)
  moreover have "upd_sock 7 (\<lambda>_. example_client) ?w = ?w"
    by (rule upd_sock_same) (simp add: s)
  moreover have "processPacket demo_ext 5 7 example_frame ?w = Some (Ret (example_learned, True))"
  proof -
    have "setMACFrom demo_ext 5 ?g 7 example_frame ?w = (example_learned, True)"
      by (simp add: Let_def setMACFrom_def example_frame_parts socketMACs_def upd_cache_def ll_add_def lru_put_def
          example_registered example_learned_def example_switch_def set_macs_def MakeMACSwitch_def)
    then have "HandlePacket demo_ext 5 (Some 7) example_frame ?w = Some (Ret (example_learned, False))"
      by (simp add: HandlePacket_def h macs_HandlePacket_def Let_def example_frame_parts EthernetLength_def
          frame_spoofed_def expected_ip_def macs_forward_def macs_of_def example_learned_def
          example_switch_def MakeMACSwitch_def run_return_def)
    then show ?thesis
      using s by (simp add: processPacket_def example_frame_parts iface_write_def run_return_def
          example_learned_sock)
  qed
  ultimately show ?thesis by (simp add: dataMessageHandler_def s)
qed

lemma example_learned_handler: "w_handler example_learned = Some (MACH example_switch)"
  by (simp add: example_learned_def)

lemma example_learned_reachable: "reachable demo_ext example_learned"
proof (rule reachable.step [OF reachable.step])
  show "reachable demo_ext example_macs_world" by (rule example_worlds_reachable)
  show "server_step demo_ext example_macs_world (RegisterSocket demo_ext 7 example_macs_world)"
    by (rule server_step.serve) (simp add: not_registered_def example_handlers MakeMACSwitch_def)
  show "server_step demo_ext (RegisterSocket demo_ext 7 example_macs_world) example_learned"
    using example_learns by (rule server_step.receive_data)
qed

theorem mac_table_matches_caches_witness:
  "(macTable example_switch [2, 0, 0, 0, 0, 7] = Some 7 \<longleftrightarrow>
     (\<exists>c. socketMACs example_switch 7 = Some c \<and> [2, 0, 0, 0, 0, 7] \<in> fst ` set (snd c))) \<and>
   card {m. macTable example_switch m = Some 7} \<le> (case socketMACs example_switch 7 of None \<Rightarrow> 0 | Some c \<Rightarrow> fst c)"
proof (rule mac_table_matches_caches [OF demo_lru_cache example_learned_reachable])
  show "w_handler example_learned = Some (MACH example_switch)" by (simp add: example_learned_def)
qed

section \<open>Spoofed packets\<close>

text \<open>What a packet of a client must look like to get past the IP switch.\<close>

definition ip_packet_ok :: "('e, 'l) ext \<Rightarrow> bytes \<Rightarrow> ip \<Rightarrow> bool" where
  "ip_packet_ok x packet assignedIP \<longleftrightarrow>
     (IPVersion x packet = 4 \<and> 20 \<le> length packet \<or> IPVersion x packet = 6 \<and> 40 \<le> length packet) \<and>
     (\<exists>srcIP destIP. IPSource x packet = Some srcIP \<and> IPDestination x packet = Some destIP \<and>
        ip_Equal srcIP assignedIP)"

text \<open>
  C10 In TUN mode a client cannot send in another's name, or anything but IP: a packet whose
  version or length is wrong, or whose source is not the address the server assigned to this
  client, is dropped by \<^verbatim>\<open>processPacket\<close> without any effect at all - no write to
  the interface, none to another client, no change of state, and the connection stays open.
\<close>

theorem ip_spoofing_dropped:
  assumes "w_handler w = Some (IPH g)" and "sk_hasPacketHandler (w_sock w i)" and "packet \<noteq> []"
    and "\<not> ip_packet_ok x packet (sk_AssignedIP (w_sock w i))"
  shows "processPacket x now i packet w = Some (Ret (w, True))"
proof -
  have "ips_HandlePacket x g (Some i) packet w = run_return (w, True)"
    using assms(3,4) by (cases "IPSource x packet"; cases "IPDestination x packet")
      (auto simp: ips_HandlePacket_def Let_def ips_minLen_def ip_packet_ok_def Suc_le_eq)
  then show ?thesis
    using assms(1-3) by (cases packet) (simp_all add: processPacket_def HandlePacket_def run_return_def)
qed

definition example_packet :: bytes where
  "example_packet = [0x45, 0, 0, 20, 0, 0, 0, 0, 64, 17, 0, 0, 10, 0, 0, 9, 10, 0, 0, 3]"

theorem ip_spoofing_dropped_witness:
  "processPacket demo_ext 5 7 example_packet example_ips_world = Some (Ret (example_ips_world, True))"
proof (rule ip_spoofing_dropped [OF example_handlers(2)])
  show "sk_hasPacketHandler (w_sock example_ips_world 7)"
    by (simp add: example_ips_world_def example_world_def)
  show "\<not> ip_packet_ok demo_ext example_packet (sk_AssignedIP (w_sock example_ips_world 7))"
    by (simp add: ip_packet_ok_def example_packet_def example_ips_world_def example_world_def ip_Equal_def)
qed (simp add: example_packet_def)

text \<open>
  C16 In TAP mode, while IP spoofing is not allowed, an IPv4 or IPv6 frame with a foreign source
  address is not forwarded either: apart from what learning its MAC address does, it has no
  effect - whatever its destination is, nothing is written to the interface or to a client.
\<close>

theorem frame_spoofing_dropped:
  assumes "w_handler w = Some (MACH g)" and "sk_hasPacketHandler (w_sock w i)"
    and "14 \<le> length packet" and "\<not> macs_AllowIPSpoofing g"
    and "MACEthertype x packet = ethertype_IPv4 x \<or> MACEthertype x packet = ethertype_IPv6 x"
    and "IPSource x (drop 14 packet) = Some srcIP" and "\<not> ip_Equal srcIP (sk_AssignedIP (w_sock w i))"
  shows "processPacket x now i packet w = Some (Ret (fst (setMACFrom x now g i packet w), True))"
proof -
  obtain w1 r where s: "setMACFrom x now g i packet w = (w1, r)" by (cases "setMACFrom x now g i packet w")
  have addr: "sk_AssignedIP (w_sock w1 i) = sk_AssignedIP (w_sock w i)"
    using s by (auto simp: setMACFrom_def Let_def sock_simps split: if_splits option.splits)
  have sp: "frame_spoofed x packet (sk_AssignedIP (w_sock w i))"
    using assms(5-7) by (auto simp: frame_spoofed_def expected_ip_def EthernetLength_def)
  have "macs_HandlePacket x now g (Some i) packet w = Some (Ret (w1, True))"
    using assms(3-5) s addr sp
    by (auto simp: macs_HandlePacket_def EthernetLength_def run_return_def Let_def split: bool.splits)
  moreover have "packet \<noteq> []" using assms(3) by auto
  ultimately show ?thesis
    using assms(1,2) s by (cases packet) (simp_all add: processPacket_def HandlePacket_def run_return_def)
qed

definition example_ip_frame :: bytes where
  "example_ip_frame = [2, 0, 0, 0, 0, 9, 2, 0, 0, 0, 0, 7, 8, 0] @ example_packet"

theorem frame_spoofing_dropped_witness:
  "processPacket demo_ext 5 7 example_ip_frame example_learned =
   Some (Ret (fst (setMACFrom demo_ext 5 example_switch 7 example_ip_frame example_learned), True))"
proof (rule frame_spoofing_dropped [where srcIP = "[10, 0, 0, 9]"])
  show "w_handler example_learned = Some (MACH example_switch)" by (simp add: example_learned_def)
  show "sk_hasPacketHandler (w_sock example_learned 7)"
    "\<not> ip_Equal [10, 0, 0, 9] (sk_AssignedIP (w_sock example_learned 7))"
    by (simp_all add: example_learned_def example_macs_world_def example_world_def ip_Equal_def)
qed (simp_all add: example_ip_frame_def example_packet_def example_switch_def MakeMACSwitch_def)

section \<open>Where packets go\<close>

text \<open>
  C13 A unicast packet reaches nobody but its addressee: when the IP switch handles a packet with
  a global unicast destination, it either writes it to one client, the one whose assigned address
  is the destination, or writes it to no client and changes nothing.
\<close>

theorem unicast_only_to_addressee:
  assumes "reachable x w" and "w_handler w = Some (IPH g)" and "IPDestination x packet = Some destIP"
    and "IsGlobalUnicast destIP" and "\<forall>j. valid_ip (sk_AssignedIP (w_sock w j))"
  shows "(\<exists>j. ip_Equal destIP (sk_AssignedIP (w_sock w j)) \<and>
      HandlePacket x now so packet w = run_bind (WritePacket x j packet w) (\<lambda>(w', _). run_return (w', True))) \<or>
    (\<exists>b. HandlePacket x now so packet w = run_return (w, b))"
proof (cases "\<exists>b. HandlePacket x now so packet w = run_return (w, b)")
  case False
  then obtain j where j: "findSocketByIP g destIP = Some j"
    and h: "HandlePacket x now so packet w = run_bind (WritePacket x j packet w) (\<lambda>(w', _). run_return (w', True))"
    using assms(2-4)
    by (auto simp: HandlePacket_def ips_HandlePacket_def Let_def split: if_splits option.splits)
  have "map_of (ipTable g) (ipToIPAddr destIP) = Some j" using j by (simp add: findSocketByIP_def)
  then have "ipToIPAddr destIP = ipToIPAddr (sk_AssignedIP (w_sock w j))"
    using reachable_ip_table [OF assms(1,2)] by (simp add: ips_inv_def addr_of_def)
  moreover have "valid_ip destIP" using assms(4) by (auto simp: IsGlobalUnicast_def valid_ip_def)
  ultimately have "ip_Equal destIP (sk_AssignedIP (w_sock w j))" using assms(5) ip_Equal_iff_key by blast
  then show ?thesis using h by blast
qed simp

definition example_joined :: "(demo_env, list_lru) world" where
  "example_joined = RegisterSocket demo_ext 7 example_ips_world"

definition example_ip_table :: IPSwitch where
  "example_ip_table = MakeIPSwitch\<lparr>ipTable := [(ipToIPAddr [10, 0, 0, 2], 7)]\<rparr>"

lemma example_joined_eq: "example_joined = example_ips_world\<lparr>w_handler := Some (IPH example_ip_table)\<rparr>"
  by (simp add: example_joined_def RegisterSocket_def example_handlers ips_RegisterSocket_def ips_insert_def
      MakeIPSwitch_def example_ip_table_def Let_def example_ips_world_def example_world_def)

lemma example_joined_simps [simp]:
  "w_handler example_joined = Some (IPH example_ip_table)" "w_sock example_joined = (\<lambda>_. example_client)"
  "w_env example_joined = []"
  by (simp_all add: example_joined_eq) (simp_all add: example_ips_world_def example_world_def)

lemma example_joined_reachable: "reachable demo_ext example_joined"
proof (rule reachable.step)
  show "reachable demo_ext example_ips_world" by (rule example_worlds_reachable)
  show "server_step demo_ext example_ips_world example_joined"
    unfolding example_joined_def
    by (rule server_step.serve) (simp add: not_registered_def example_handlers MakeIPSwitch_def)
qed

definition example_reply :: bytes where
  "example_reply = [0x45, 0, 0, 20, 0, 0, 0, 0, 64, 17, 0, 0, 8, 8, 8, 8, 10, 0, 0, 2]"

theorem unicast_only_to_addressee_witness:
  "(\<exists>j. ip_Equal [10, 0, 0, 2] (sk_AssignedIP (w_sock example_joined j)) \<and>
      HandlePacket demo_ext 5 None example_reply example_joined =
        run_bind (WritePacket demo_ext j example_reply example_joined) (\<lambda>(w', _). run_return (w', True))) \<or>
   (\<exists>b. HandlePacket demo_ext 5 None example_reply example_joined = run_return (example_joined, b))"
proof (rule unicast_only_to_addressee [OF example_joined_reachable])
  show "IsGlobalUnicast [10, 0, 0, 2]"
    by (simp add: IsGlobalUnicast_def IPv4bcast_def IsUnspecified_def IPv4zero_def IPv6unspecified_def
        IsLoopback_def IsMulticast_def IsLinkLocalUnicast_def To4_def ip_Equal_def v4InV6Prefix_def)
      (simp add: numeral_eq_Suc)
qed (simp_all add: example_reply_def valid_ip_def)

lemma broadcast_targets_ips:
  assumes "ips_inv addr g"
  shows "distinct (ips_targetList g skip)"
    and "set (ips_targetList g skip) = {j. Some j \<noteq> skip \<and> (\<exists>k. map_of (ipTable g) k = Some j)}"
proof -
  have d: "distinct (map fst (ipTable g))" using assms by (simp add: ips_inv_def keys_def)
  have key: "k = ipToIPAddr (addr j)" if "(k, j) \<in> set (ipTable g)" for k j
    using assms that d by (simp add: ips_inv_def)
  have "inj_on snd (set (ipTable g))" using key by (intro inj_onI) (metis prod.collapse)
  then have "distinct (map snd (ipTable g))" using d by (simp add: distinct_map)
  then show "distinct (ips_targetList g skip)" by (simp add: ips_targetList_def)
  show "set (ips_targetList g skip) = {j. Some j \<noteq> skip \<and> (\<exists>k. map_of (ipTable g) k = Some j)}"
    using d by (force simp: ips_targetList_def)
qed

text \<open>
  A packet to any other destination reaches everybody else once: the broadcast of the IP
  switch writes the packet to every client that owns an address, exactly once each, and never
  back to the client it came from.
\<close>

theorem broadcast_to_all_others:
  assumes "reachable x w" and "w_handler w = Some (IPH g)" and "20 \<le> length packet"
    and "IPVersion x packet = 4" and "IPSource x packet = Some srcIP" and "IPDestination x packet = Some destIP"
    and "\<not> IsGlobalUnicast destIP"
    and "case so of None \<Rightarrow> True | Some i \<Rightarrow>
      ip_Equal srcIP (sk_AssignedIP (w_sock w i)) \<and> ips_AllowClientToClient g"
  shows "\<exists>targets. HandlePacket x now so packet w =
      run_bind (write_all x targets packet w) (\<lambda>w'. run_return (w', True)) \<and> distinct targets \<and>
    set targets = {j. Some j \<noteq> so \<and> (\<exists>k. resolve w k = Some j)}"
proof (intro exI conjI)
  have "packet \<noteq> []" using assms(3) by auto
  then show "HandlePacket x now so packet w =
      run_bind (write_all x (ips_targetList g so) packet w) (\<lambda>w'. run_return (w', True))"
    using assms by (cases so)
      (simp_all add: HandlePacket_def ips_HandlePacket_def ips_minLen_def ips_broadcastDataMessage_def Suc_le_eq)
  show "distinct (ips_targetList g so)"
    using reachable_ip_table [OF assms(1,2)] by (rule broadcast_targets_ips)
  show "set (ips_targetList g so) = {j. Some j \<noteq> so \<and> (\<exists>k. resolve w k = Some j)}"
    unfolding broadcast_targets_ips(2) [OF reachable_ip_table [OF assms(1,2)]]
    by (simp add: resolve_def assms(2))
qed

definition example_broadcast :: bytes where
  "example_broadcast = [0x45, 0, 0, 20, 0, 0, 0, 0, 64, 17, 0, 0, 8, 8, 8, 8, 255, 255, 255, 255]"

theorem broadcast_to_all_others_witness:
  "\<exists>targets. HandlePacket demo_ext 5 None example_broadcast example_joined =
      run_bind (write_all demo_ext targets example_broadcast example_joined) (\<lambda>w'. run_return (w', True)) \<and>
    distinct targets \<and> set targets = {j. Some j \<noteq> None \<and> (\<exists>k. resolve example_joined k = Some j)}"
proof (rule broadcast_to_all_others [OF example_joined_reachable])
  show "\<not> IsGlobalUnicast [255, 255, 255, 255]"
    by (simp add: IsGlobalUnicast_def IPv4bcast_def ip_Equal_def v4InV6Prefix_def numeral_eq_Suc)
qed (simp_all add: example_broadcast_def)

section \<open>Closing, registering, colliding\<close>

lemma closing_frees:
  assumes "lru_cache x ok cap entries" and "reachable x w" and "sk_hasPacketHandler (w_sock w i)"
    and "\<not> sk_isClosing (w_sock w i)" and "w' = CloseError x i err w \<or> w' = Close x i w"
  shows "resolve w' k = (if resolve w k = Some i then None else resolve w k)"
proof -
  have "w_handler w' = w_handler (UnregisterSocket x i w)"
    using assms(3-5) by (auto simp: Close_def sock_simps unregistered_def)
  then have "resolve w' k = resolve (UnregisterSocket x i w) k"
    by (simp add: resolve_def split: option.split PacketHandler.split)
  then show ?thesis using lru_cache.reachable_unregister [OF assms(1,2)] by simp
qed

text \<open>
  A closed client leaves no trace in the switch: in a reachable state, after
  \<^verbatim>\<open>CloseError\<close> or \<^verbatim>\<open>Close\<close> on a socket that uses the switch,
  no IP or MAC address resolves to it any more, every other client keeps its addresses, and the
  socket is closed for good: doing it again changes neither the switch nor the socket.
\<close>

theorem closing_frees_addresses:
  assumes "lru_cache x ok cap entries" and "reachable x w" and "sk_hasPacketHandler (w_sock w i)"
    and "\<not> sk_isClosing (w_sock w i)" and "w' = CloseError x i err w \<or> w' = Close x i w"
  shows "resolve w' k = (if resolve w k = Some i then None else resolve w k) \<and>
    sk_isClosing (w_sock w' i) \<and> (\<forall>j. j \<noteq> i \<longrightarrow> w_sock w' j = w_sock w j) \<and> Close x i w' = w'"
proof -
  have r: "resolve w' k = (if resolve w k = Some i then None else resolve w k)"
    using assms by (rule closing_frees)
  have s: "w_sock w' = (w_sock w)(i := closed_socket (w_sock w i))"
    using assms(4,5) by (auto simp: Close_def sock_simps)
  show ?thesis using r s by (simp add: Close_def)
qed

theorem closing_frees_addresses_witness:
  "resolve (Close demo_ext 7 example_joined) (ipToIPAddr [10, 0, 0, 2]) =
     (if resolve example_joined (ipToIPAddr [10, 0, 0, 2]) = Some 7 then None
      else resolve example_joined (ipToIPAddr [10, 0, 0, 2])) \<and>
   sk_isClosing (w_sock (Close demo_ext 7 example_joined) 7) \<and>
   w_sock (Close demo_ext 7 example_joined) 8 = w_sock example_joined 8 \<and>
   Close demo_ext 7 (Close demo_ext 7 example_joined) = Close demo_ext 7 example_joined"
  using closing_frees_addresses [OF demo_lru_cache example_joined_reachable _ _ disjI2 [OF refl], of 7]
  by simp

text \<open>
  Of two clients with the same address the newer wins: registering a socket makes its address
  resolve to it, the previous owner is closed with the message \<^verbatim>\<open>IP conflict\<close>
  queued for it, and that closing does not take the address away from the new owner again. No
  other address changes hands.
\<close>

theorem ip_conflict_newer_wins:
  assumes "reachable x w" and "w_handler w = Some (IPH g)"
    and "findSocketByIP g (sk_AssignedIP (w_sock w i)) = Some j" and "j \<noteq> i" and "\<not> sk_isClosing (w_sock w j)"
  shows "resolve (RegisterSocket x i w) k =
      (if k = ipToIPAddr (sk_AssignedIP (w_sock w i)) then Some i else resolve w k) \<and>
    sk_isClosing (w_sock (RegisterSocket x i w) j) \<and>
    SendErrorAndClose j ''IP conflict'' \<in> set (w_spawned (RegisterSocket x i w))"
proof -
  let ?a = "sk_AssignedIP (w_sock w i)"
  let ?g = "fst (ips_insert g ?a i)"
  let ?w = "w\<lparr>w_handler := Some (IPH ?g)\<rparr>"
  have t: "map_of (ipTable ?g) = (map_of (ipTable g))(ipToIPAddr ?a \<mapsto> i)"
    by (simp add: ips_insert_def Let_def)
  have old: "map_of (ipTable g) (ipToIPAddr ?a) = Some j" using assms(3) by (simp add: findSocketByIP_def)
  then have "ipToIPAddr (sk_AssignedIP (w_sock w j)) = ipToIPAddr ?a"
    using reachable_ip_table [OF assms(1,2)] by (simp add: ips_inv_def addr_of_def)
  then have u: "ips_UnregisterSocket ?g (sk_AssignedIP (w_sock w j)) j = ?g"
    using t assms(4) by (simp add: ips_UnregisterSocket_def)
  have r: "RegisterSocket x i w = CloseError x j (GoErr ''IP conflict'') ?w"
    using old by (simp add: RegisterSocket_def assms(2) ips_RegisterSocket_def ips_insert_def Let_def)
  have "w_handler (RegisterSocket x i w) = Some (IPH ?g)"
    using u by (simp add: r sock_simps unregistered_def UnregisterSocket_def)
  then show ?thesis
    using assms(2,5) t by (simp add: resolve_def) (simp add: r sock_simps)
qed

theorem ip_conflict_newer_wins_witness:
  "resolve (RegisterSocket demo_ext 8 example_joined) (ipToIPAddr [10, 0, 0, 2]) =
     (if ipToIPAddr [10, 0, 0, 2] = ipToIPAddr (sk_AssignedIP (w_sock example_joined 8)) then Some 8
      else resolve example_joined (ipToIPAddr [10, 0, 0, 2])) \<and>
   sk_isClosing (w_sock (RegisterSocket demo_ext 8 example_joined) 7) \<and>
   SendErrorAndClose 7 ''IP conflict'' \<in> set (w_spawned (RegisterSocket demo_ext 8 example_joined))"
  by (rule ip_conflict_newer_wins [OF example_joined_reachable, of example_ip_table])
    (simp_all add: example_ip_table_def findSocketByIP_def)

text \<open>
  A MAC address cannot be taken over: a frame from an address that another client owns closes
  the client that sent it, with the message \<^verbatim>\<open>MAC collision\<close>, and is dropped.
  The owner keeps this and all its other addresses and its connection.
\<close>

theorem mac_collision_closes_offender:
  assumes "lru_cache x ok cap entries" and "reachable x w" and "w_handler w = Some (MACH g)"
    and "socketMACs g i = Some c" and "macTable g (hwAddrToMAC (MACSource x msg)) = Some j" and "j \<noteq> i"
    and "IsMACUnicast x (MACSource x msg)" and "macs_AllowMACChanging g"
    and "sk_hasPacketHandler (w_sock w i)" and "\<not> sk_isClosing (w_sock w i)"
  shows "\<exists>w'. setMACFrom x now g i msg w = (w', False) \<and> sk_isClosing (w_sock w' i) \<and>
    SendErrorAndClose i ''MAC collision'' \<in> set (w_spawned w') \<and> w_sock w' j = w_sock w j \<and>
    (\<forall>k. resolve w' k = (if resolve w k = Some i then None else resolve w k))"
proof -
  have ok: "macs_ok ok entries g" by (rule lru_cache.reachable_macs [OF assms(1-3)])
  have "owns entries g j (hwAddrToMAC (MACSource x msg))" using macs_okD(3) [OF ok] assms(5) by simp
  moreover have "\<not> owns entries g i (hwAddrToMAC (MACSource x msg))"
    using macs_okD(3) [OF ok, of "hwAddrToMAC (MACSource x msg)" i] assms(5,6) by simp
  ultimately have "\<not> lru_Contains x c (hwAddrToMAC (MACSource x msg))"
    using lru_cache.contains_entries [OF assms(1) macs_okD(2) [OF ok assms(4)]] assms(4) by (simp add: owns_def)
  then have "setMACFrom x now g i msg w = (CloseError x i (GoErr ''MAC collision'') w, False)"
    using assms(4,5,7,8) by (simp add: setMACFrom_def Let_def)
  then show ?thesis
    using assms(6,10) closing_frees [OF assms(1,2,9,10) disjI1 [OF refl]] by (simp add: sock_simps)
qed

definition example_intruder :: "(demo_env, list_lru) world" where
  "example_intruder = RegisterSocket demo_ext 8 example_learned"

definition example_two :: "list_lru MACSwitch" where
  "example_two = example_switch\<lparr>socketTable := [(7, Some (1, [([2, 0, 0, 0, 0, 7], 5)])), (8, Some (1, []))]\<rparr>"

lemma example_intruder_simps:
  "w_handler example_intruder = Some (MACH example_two)" "w_sock example_intruder = (\<lambda>_. example_client)"
  by (simp_all add: example_intruder_def RegisterSocket_def macs_Register_def macs_RegisterSocket_def
      example_learned_def ll_new_def example_switch_def MakeMACSwitch_def example_two_def
      example_macs_world_def example_world_def)

lemma example_intruder_reachable: "reachable demo_ext example_intruder"
proof (rule reachable.step [OF example_learned_reachable])
  show "server_step demo_ext example_learned example_intruder"
    unfolding example_intruder_def
    by (rule server_step.serve) (simp add: not_registered_def example_learned_def example_switch_def)
qed

theorem mac_collision_closes_offender_witness:
  "\<exists>w'. setMACFrom demo_ext 6 example_two 8 example_frame example_intruder = (w', False) \<and>
    sk_isClosing (w_sock w' 8) \<and> SendErrorAndClose 8 ''MAC collision'' \<in> set (w_spawned w') \<and>
    w_sock w' 7 = w_sock example_intruder 7 \<and>
    (\<forall>k. resolve w' k = (if resolve example_intruder k = Some 8 then None else resolve example_intruder k))"
  by (rule mac_collision_closes_offender [OF demo_lru_cache example_intruder_reachable
        example_intruder_simps(1), where c = "(1, [])"])
    (simp_all add: example_intruder_simps example_two_def example_switch_def socketMACs_def
      example_frame_parts MakeMACSwitch_def)

section \<open>The clean-up of the MAC tables\<close>

text \<open>
  A round of the clean-up ends and removes exactly the stale addresses: from every client's
  cache it takes, from the oldest entry on, those not seen for longer than the timeout, and the
  addresses it removes no longer resolve. The only crash left is a client whose cache could not
  be made.
\<close>

theorem cleanup_removes_stale:
  assumes "lru_cache x ok cap entries" and "reachable x w" and "w_handler w = Some (MACH g)"
    and "no_nil g" and "macs_AllowMACChanging g"
  shows "\<exists>g'. cleanupAllMACs_round x now g = Some (Ret g') \<and>
    (\<forall>i c. socketMACs g i = Some c \<longrightarrow> (\<exists>c'. socketMACs g' i = Some c' \<and>
       entries c' = dropWhile (\<lambda>p. now - snd p > macs_MACTableTimeout g) (entries c) \<and>
       (\<forall>m. macTable g' m = Some i \<longleftrightarrow> m \<in> fst ` set (entries c'))))"
proof -
  have ok: "macs_ok ok entries g" by (rule lru_cache.reachable_macs [OF assms(1-3)])
  from lru_cache.cleanup_round_spec [OF assms(1) ok assms(4,5), of now] obtain g' where
    g': "cleanupAllMACs_round x now g = Some (Ret g')" "macs_ok ok entries g'"
    and c: "\<forall>i c. socketMACs g i = Some c \<longrightarrow> (\<exists>c'. socketMACs g' i = Some c' \<and>
       entries c' = dropWhile (\<lambda>p. now - snd p > macs_MACTableTimeout g) (entries c))" by blast
  have m: "\<forall>m. macTable g' m = Some i \<longleftrightarrow> m \<in> fst ` set (entries c')" if "socketMACs g' i = Some c'" for i c'
    using macs_okD(3) [OF g'(2)] that by (simp add: owns_def)
  show ?thesis
  proof (intro exI [of _ g'] conjI allI impI g'(1))
    fix i c assume "socketMACs g i = Some c"
    from c [rule_format, OF this] obtain c' where "socketMACs g' i = Some c'"
      "entries c' = dropWhile (\<lambda>p. now - snd p > macs_MACTableTimeout g) (entries c)" by blast
    then show "\<exists>c'. socketMACs g' i = Some c' \<and>
        entries c' = dropWhile (\<lambda>p. now - snd p > macs_MACTableTimeout g) (entries c) \<and>
        (\<forall>m. macTable g' m = Some i \<longleftrightarrow> m \<in> fst ` set (entries c'))"
      using m by (intro exI [of _ c'] conjI)
  qed
qed

lemma example_no_nil: "no_nil example_switch" "macs_AllowMACChanging example_switch"
  by (simp_all add: no_nil_def example_switch_def MakeMACSwitch_def)

theorem cleanup_removes_stale_witness:
  "\<exists>g'. cleanupAllMACs_round demo_ext (700 * second) example_switch = Some (Ret g') \<and>
    (\<forall>i c. socketMACs example_switch i = Some c \<longrightarrow> (\<exists>c'. socketMACs g' i = Some c' \<and>
       snd c' = dropWhile (\<lambda>p. 700 * second - snd p > macs_MACTableTimeout example_switch) (snd c) \<and>
       (\<forall>m. macTable g' m = Some i \<longleftrightarrow> m \<in> fst ` set (snd c'))))"
  by (rule cleanup_removes_stale [OF demo_lru_cache example_learned_reachable example_learned_handler example_no_nil])

text \<open>
  But it happens once at most: the timer is a one-shot \<^verbatim>\<open>time.Timer\<close> that
  nothing arms again, so after the first round, whatever the server does from then on, there is
  no further round and stale addresses stay.
\<close>

theorem cleanup_runs_once:
  assumes "w_handler w = Some (MACH g)" and "cleanupAllMACs_round x now g = Some (Ret g')"
    and "(server_step x)\<^sup>*\<^sup>* (set_macs g' w) w2" and "w_handler w2 = Some (MACH g2)"
  shows "\<not> cleanupAllMACs_ready g2"
proof -
  have "\<not> macs_timerArmed g'" using cleanup_disarms [OF assms(2)] .
  then have "timer.holds (set_macs g' w)" by (simp add: timer.holds_def)
  from timer.run_keeps [OF assms(3) this] show ?thesis
    using assms(4) by (simp add: timer.holds_def cleanupAllMACs_ready_def)
qed

theorem cleanup_runs_once_witness:
  "\<not> cleanupAllMACs_ready (MakeMACSwitch\<lparr>macs_timerArmed := False\<rparr> :: list_lru MACSwitch)"
proof (rule cleanup_runs_once [OF example_handlers(1), of demo_ext 5 "MakeMACSwitch\<lparr>macs_timerArmed := False\<rparr>"])
  show "cleanupAllMACs_round demo_ext 5 MakeMACSwitch = Some (Ret (MakeMACSwitch\<lparr>macs_timerArmed := False\<rparr>))"
    by (simp add: cleanupAllMACs_round_def MakeMACSwitch_def)
qed (rule rtranclp.rtrancl_refl, simp)

section \<open>Changing the limit\<close>

context lru_cache
begin

lemma cap_after_resize:
  assumes "ok c" and "0 < n"
  shows "int (cap (fst (lru_Resize x c n))) = n"
    and "entries (fst (lru_Resize x c n)) = drop (length (entries c) - nat n) (entries c)"
  using resize_entries [OF assms surjective_pairing] by simp_all

end

text \<open>
  \<^verbatim>\<open>ConfigUpdate\<close> enforces a new limit at once: when the limit is positive and
  every client has a cache, afterwards each client owns at most that many addresses, namely the
  most recently used ones it had.
\<close>

theorem config_update_enforces_limit:
  assumes "lru_cache x ok cap entries" and "reachable x w" and "w_handler w = Some (MACH g)"
    and "no_nil g" and "macs_AllowedMACsPerConnection g = n" and "0 < n"
  shows "\<exists>g'. ConfigUpdate x g = Ret g' \<and>
    (\<forall>i. int (card {m. macTable g' m = Some i}) \<le> n) \<and>
    (\<forall>i c m. socketMACs g i = Some c \<longrightarrow>
       (macTable g' m = Some i \<longleftrightarrow> m \<in> fst ` set (drop (length (entries c) - nat n) (entries c))))"
proof -
  have ok: "macs_ok ok entries g" by (rule lru_cache.reachable_macs [OF assms(1-3)])
  from lru_cache.ConfigUpdate_spec [OF assms(1) ok assms(4)] assms(5,6) obtain g' where
    g': "ConfigUpdate x g = Ret g'" "macs_ok ok entries g'"
    and c: "\<And>i. socketMACs g' i = map_option (\<lambda>c. fst (lru_Resize x c n)) (socketMACs g i)" by auto
  have "int (card {m. macTable g' m = Some i}) \<le> n" for i
  proof (cases "socketMACs g i")
    case None
    then show ?thesis using lru_cache.owned_card [OF assms(1) g'(2), of i] c [of i] assms(6) by simp
  next
    case (Some d)
    then show ?thesis
      using lru_cache.owned_card [OF assms(1) g'(2), of i] c [of i]
        lru_cache.cap_after_resize(1) [OF assms(1) macs_okD(2) [OF ok Some] assms(6)] by simp
  qed
  moreover have "macTable g' m = Some i \<longleftrightarrow> m \<in> fst ` set (drop (length (entries d) - nat n) (entries d))"
    if d: "socketMACs g i = Some d" for i d m
    using macs_okD(3) [OF g'(2), of m i] c [of i] d
      lru_cache.cap_after_resize(2) [OF assms(1) macs_okD(2) [OF ok d] assms(6)] by (simp add: owns_def)
  ultimately show ?thesis using g'(1) by (intro exI [of _ g']) simp
qed

theorem config_update_enforces_limit_witness:
  "\<exists>g'. ConfigUpdate demo_ext example_switch = Ret g' \<and>
    (\<forall>i. int (card {m. macTable g' m = Some i}) \<le> 1) \<and>
    (\<forall>i c m. socketMACs example_switch i = Some c \<longrightarrow>
       (macTable g' m = Some i \<longleftrightarrow> m \<in> fst ` set (drop (length (snd c) - nat 1) (snd c))))"
  by (rule config_update_enforces_limit [OF demo_lru_cache example_learned_reachable
        example_learned_handler example_no_nil(1)])
    (simp_all add: example_switch_def MakeMACSwitch_def)

lemma resize_tables_nil: "None \<in> snd ` set tables \<Longrightarrow> resize_tables x tables g = Panic"
  by (induction x tables g rule: resize_tables.induct) auto

text \<open>
  A limit that is not positive breaks the switch for good: a client that registers under it
  gets an unusable cache, taken for a nil pointer here, \<^verbatim>\<open>UnregisterSocket\<close> does not
  remove it when the client is closed, and from then on every \<^verbatim>\<open>ConfigUpdate\<close>, also one
  that sets a valid limit, crashes the server.
\<close>

theorem bad_limit_breaks_config_update:
  assumes "lru_cache x ok cap entries" and "macs_AllowedMACsPerConnection g \<le> 0"
    and "macs_RegisterSocket x g i = (g', err)"
  shows "err \<noteq> None \<and> macs_UnregisterSocket x g' i = g' \<and>
    ConfigUpdate x (g'\<lparr>macs_AllowedMACsPerConnection := n\<rparr>) = Panic"
proof -
  from lru_cache.new_err [OF assms(1,2)] obtain e where
    "lru_NewWithEvict x (macs_AllowedMACsPerConnection g) = Inl e" by blast
  then have g': "g' = g\<lparr>socketTable := AList.update i None (socketTable g)\<rparr>" "err \<noteq> None"
    using assms(3) by (auto simp: macs_RegisterSocket_def)
  have "map_of (socketTable g') i = Some None" by (simp add: g')
  then have "None \<in> snd ` set (socketTable g')" by (force dest: map_of_SomeD)
  then show ?thesis
    using g' by (simp add: ConfigUpdate_def resize_tables_nil macs_UnregisterSocket_def socketMACs_def)
qed

theorem bad_limit_breaks_config_update_witness:
  "Some (GoErr ''must provide a positive size'') \<noteq> None \<and>
   macs_UnregisterSocket demo_ext (MakeMACSwitch\<lparr>macs_AllowedMACsPerConnection := 0, socketTable := [(7, None)]\<rparr>) 7 =
     MakeMACSwitch\<lparr>macs_AllowedMACsPerConnection := 0, socketTable := [(7, None)]\<rparr> \<and>
   ConfigUpdate demo_ext (MakeMACSwitch\<lparr>macs_AllowedMACsPerConnection := 0, socketTable := [(7, None)]\<rparr>
     \<lparr>macs_AllowedMACsPerConnection := 3\<rparr>) = Panic"
  by (rule bad_limit_breaks_config_update [OF demo_lru_cache, of "MakeMACSwitch\<lparr>macs_AllowedMACsPerConnection := 0\<rparr>"])
    (simp_all add: macs_RegisterSocket_def ll_new_def MakeMACSwitch_def)

end
