(* ===== verification/Server_Sockets.thy ===== *)
theory Server_Sockets
  imports Switch_Safety Server_State
begin

text \<open>
  The connections of the server (\<^verbatim>\<open>server/servers/sockets.go\<close>): the slot and
  with it the IP address a client gets, the limit of connections per user, and the set-up of a
  client's socket. The connection handler runs concurrently for every client; each definition is
  one of its sections under a lock.
\<close>

section \<open>Slots\<close>

text \<open>
  The search loop. It ends by itself only if \<open>maxSlot\<close> is not the largest
  \<^verbatim>\<open>uint64\<close>, so it is a partial function: \<open>None\<close> is a search that never
  ends, \<open>Some None\<close> that all slots are taken.
\<close>

partial_function (option) slotLoop :: "(u64 \<rightharpoonup> bool) \<Rightarrow> u64 \<Rightarrow> u64 \<Rightarrow> u64 option option" where
  "slotLoop usedSlots slot maxSlot =
     (if usedSlots slot = Some True
      then (if slot + 1 > maxSlot then Some None else slotLoop usedSlots (slot + 1) maxSlot)
      else Some (Some slot))"

definition allocSlot :: "('e, 'l) ext \<Rightarrow> server \<Rightarrow> (server \<times> u64 option) run" where
  "allocSlot x sv = (case GetClientSlots x (sv_VPNNet sv) of
     Panic \<Rightarrow> Some Panic
   | Ret n \<Rightarrow> (case slotLoop (sv_usedSlots sv) 1 (n + 1) of
       None \<Rightarrow> None
     | Some None \<Rightarrow> run_return (sv, None)
     | Some (Some slot) \<Rightarrow>
         run_return (sv\<lparr>sv_usedSlots := (sv_usedSlots sv)(slot \<mapsto> True)\<rparr>, Some slot)))"

definition freeSlot :: "u64 \<Rightarrow> server \<Rightarrow> server" where
  "freeSlot slot sv = sv\<lparr>sv_usedSlots := (sv_usedSlots sv)(slot := None)\<rparr>"

text \<open>\<^verbatim>\<open>int(slot) + 1\<close> in 64-bit two's complement.\<close>

definition clientIP :: "('e, 'l) ext \<Rightarrow> server \<Rightarrow> u64 \<Rightarrow> string + ip" where
  "clientIP x sv slot = GetIPAt x (sv_VPNNet sv) (sint (slot + 1))"

section \<open>Connections per user\<close>

text \<open>
  The section that admits a new socket \<open>i\<close>: the new state and whether the connection goes
  on.
\<close>

definition admitSocket :: "('e, 'l) ext \<Rightarrow> string \<Rightarrow> string \<Rightarrow> sid \<Rightarrow> server \<Rightarrow> ('e, 'l) world
    \<Rightarrow> server \<times> ('e, 'l) world \<times> bool" where
  "admitSocket x authUsername clientID i sv w =
     (let maxConns = sv_MaxConnectionsPerUser sv;
          err = GoErr ''maximum connections for user exceeded'';
          store = (\<lambda>sv. sv\<lparr>sv_sockets := AList.update clientID i (sv_sockets sv)\<rparr>);
          add = (\<lambda>userSocks. sv\<lparr>sv_authenticatedSockets :=
                   (sv_authenticatedSockets sv)(authUsername \<mapsto> userSocks @ [i])\<rparr>)
      in if authUsername \<noteq> [] \<and> maxConns > 0 then
           (case sv_authenticatedSockets sv authUsername of
              None \<Rightarrow> (store (add []), w, True)
            | Some userSocks \<Rightarrow>
                if int (length userSocks) \<ge> maxConns then
                  (if sv_MaxConnectionsPerUserMode sv = MaxConnectionsPerUserKillOldest then
                     (store (add (tl userSocks)), CloseError x (hd userSocks) err w, True)
                   else if sv_MaxConnectionsPerUserMode sv = MaxConnectionsPerUserPreventNew then
                     (sv, CloseError x i err w, False)
                   else (store (add userSocks), w, True))
                else (store (add userSocks), w, True))
         else (store sv, w, True))"

text \<open>The deferred section that removes a socket when its connection handler ends.\<close>

definition releaseSocket :: "string \<Rightarrow> string \<Rightarrow> sid \<Rightarrow> server \<Rightarrow> server" where
  "releaseSocket authUsername clientID i sv =
     (let sv1 = sv\<lparr>sv_sockets := AList.delete clientID (sv_sockets sv)\<rparr> in
      if authUsername \<noteq> [] then
        (case sv_authenticatedSockets sv1 authUsername of
           None \<Rightarrow> sv1
         | Some userSocks \<Rightarrow>
             let newSocks = filter (\<lambda>sock. sock \<noteq> i) userSocks in
             sv1\<lparr>sv_authenticatedSockets := (if newSocks = []
               then (sv_authenticatedSockets sv1)(authUsername := None)
               else (sv_authenticatedSockets sv1)(authUsername \<mapsto> newSocks))\<rparr>)
      else sv1)"

text \<open>
  From the features to \<^verbatim>\<open>SetMTU\<close>: what is set on the socket before
  \<^verbatim>\<open>Serve\<close>. The socket configurator, a third party to this function, has changed the
  socket to \<open>conf s\<close>.
\<close>

definition setupSocket :: "server \<Rightarrow> ip \<Rightarrow> bool \<Rightarrow> (socket \<Rightarrow> socket) \<Rightarrow> socket \<Rightarrow> socket" where
  "setupSocket sv ipClient hasHandler conf s =
     (let s1 = fold (\<lambda>(feat, en) s. SetLocalFeature s feat en) (sv_localFeatures sv) s;
          s2 = conf (s1\<lparr>sk_AssignedIP := ipClient\<rparr>);
          s3 = (if hasHandler then SetPacketHandler s2 else s2)
      in SetMTU s3 (sv_mtu sv))"

section \<open>Slot lemmas\<close>

text \<open>The outcome of a search from \<open>lo\<close> to \<open>hi\<close>: the least free slot, or none.\<close>

definition slot_found :: "(u64 \<rightharpoonup> bool) \<Rightarrow> nat \<Rightarrow> nat \<Rightarrow> u64 option \<Rightarrow> bool" where
  "slot_found used lo hi r = (case r of
     None \<Rightarrow> (\<forall>j. lo \<le> unat j \<and> unat j \<le> hi \<longrightarrow> used j = Some True)
   | Some k \<Rightarrow> lo \<le> unat k \<and> unat k \<le> max lo hi \<and> used k \<noteq> Some True \<and>
       (\<forall>j. lo \<le> unat j \<and> unat j < unat k \<longrightarrow> used j = Some True))"

lemma slot_found_step:
  assumes used: "used slot = Some True" and r: "slot_found used (Suc (unat slot)) hi r" and le: "Suc (unat slot) \<le> hi"
  shows "slot_found used (unat slot) hi r"
proof -
  have step: "used j = Some True" if "unat slot \<le> unat j" "Suc (unat slot) \<le> unat j \<Longrightarrow> used j = Some True" for j
  proof (cases "j = slot")
    case False
    then have "unat j \<noteq> unat slot" by (simp add: word_unat_eq_iff)
    then show ?thesis using that by simp
  qed (simp add: used)
  show ?thesis
  proof (cases r)
    case None
    then show ?thesis using r step by (auto simp: slot_found_def)
  next
    case (Some k)
    then have "\<forall>j. unat slot \<le> unat j \<and> unat j < unat k \<longrightarrow> used j = Some True"
      using r step by (auto simp: slot_found_def)
    then show ?thesis using Some r le by (auto simp: slot_found_def)
  qed
qed

lemma slotLoop_spec:
  assumes "unat maxSlot < 2 ^ 64 - 2" and "unat slot \<le> unat maxSlot + 1"
  shows "\<exists>r. slotLoop used slot maxSlot = Some r \<and> slot_found used (unat slot) (unat maxSlot) r"
  using assms
proof (induction "unat maxSlot + 1 - unat slot" arbitrary: slot rule: less_induct)
  case less
  have s1: "unat (slot + 1) = Suc (unat slot)"
    using less.prems by (simp add: unat_word_ariths)
  show ?case
  proof (cases "used slot = Some True")
    case False
    then have "slotLoop used slot maxSlot = Some (Some slot)" by (subst slotLoop.simps) simp
    then show ?thesis using False by (auto simp: slot_found_def)
  next
    case used: True
    show ?thesis
    proof (cases "slot + 1 > maxSlot")
      case True
      then have "unat maxSlot \<le> unat slot" using s1 by (simp add: word_less_nat_alt)
      then have "j = slot" if "unat slot \<le> unat j" "unat j \<le> unat maxSlot" for j
        using that by (simp add: word_unat_eq_iff)
      then have "slot_found used (unat slot) (unat maxSlot) None" using used by (auto simp: slot_found_def)
      moreover have "slotLoop used slot maxSlot = Some None" using used True by (subst slotLoop.simps) simp
      ultimately show ?thesis by blast
    next
      case False
      then have le: "Suc (unat slot) \<le> unat maxSlot" using s1 by (simp add: word_less_nat_alt not_less)
      have "\<exists>r. slotLoop used (slot + 1) maxSlot = Some r \<and> slot_found used (unat (slot + 1)) (unat maxSlot) r"
        using le s1 less.prems by (intro less.hyps) linarith+
      then obtain r where r: "slotLoop used (slot + 1) maxSlot = Some r" "slot_found used (Suc (unat slot)) (unat maxSlot) r"
        unfolding s1 by blast
      moreover have "slotLoop used slot maxSlot = Some r" using used False r(1) by (subst slotLoop.simps) simp
      ultimately show ?thesis using slot_found_step [OF used r(2) le] by blast
    qed
  qed
qed

lemma slotLoop_free:
  assumes "slotLoop used slot maxSlot = Some (Some k)"
  shows "used k \<noteq> Some True"
proof -
  have "case Some k of None \<Rightarrow> True | Some k \<Rightarrow> used k \<noteq> Some True"
  proof (rule slotLoop.raw_induct [where P = "\<lambda>used _ _ r. case r of None \<Rightarrow> True | Some k \<Rightarrow> used k \<noteq> Some True"])
    show "slotLoop used slot maxSlot = Some (Some k)" by (rule assms)
  qed (auto split: if_splits)
  then show ?thesis by simp
qed

lemma unat_minus_small:
  "k \<le> unat n \<Longrightarrow> k < 2 ^ 64 \<Longrightarrow> unat (n - word_of_nat k :: u64) = unat n - k"
  by (simp add: unat_sub word_le_nat_alt unat_of_nat take_bit_nat_eq_self)

text \<open>A subnet of \<open>n\<close> addresses, at least four and not too many to count.\<close>

definition subnet_size :: "('e, 'l) ext \<Rightarrow> server \<Rightarrow> u64 \<Rightarrow> bool" where
  "subnet_size x sv n \<longleftrightarrow> cidr_AddressCount x (vn_ipNet (sv_VPNNet sv)) = Ret n \<and>
     4 \<le> unat n \<and> unat n < 2 ^ 63"

lemma maxSlot_value:
  assumes "subnet_size x sv n"
  shows "GetClientSlots x (sv_VPNNet sv) = Ret (n - 3)" and "unat (n - 3 + 1) = unat n - 2"
proof -
  show "GetClientSlots x (sv_VPNNet sv) = Ret (n - 3)"
    using assms by (simp add: GetClientSlots_def subnet_size_def)
  have "n - 3 + 1 = n - word_of_nat 2" by simp
  moreover have "unat (n - word_of_nat 2) = unat n - 2"
    using assms by (intro unat_minus_small) (simp_all add: subnet_size_def)
  ultimately show "unat (n - 3 + 1) = unat n - 2" by simp
qed

lemma allocSlot_spec:
  assumes n: "subnet_size x sv n"
  shows "\<exists>r. slot_found (sv_usedSlots sv) 1 (unat n - 2) r \<and> allocSlot x sv = Some (Ret (case r of
      None \<Rightarrow> (sv, None)
    | Some k \<Rightarrow> (sv\<lparr>sv_usedSlots := (sv_usedSlots sv)(k \<mapsto> True)\<rparr>, Some k)))"
proof -
  note m = maxSlot_value [OF n]
  have b: "4 \<le> unat n" "unat n < 2 ^ 63" using n by (simp_all add: subnet_size_def)
  have one: "unat (1 :: u64) = 1" by simp
  have "\<exists>r. slotLoop (sv_usedSlots sv) 1 (n - 3 + 1) = Some r \<and>
    slot_found (sv_usedSlots sv) (unat (1 :: u64)) (unat (n - 3 + 1)) r"
    using b by (intro slotLoop_spec) (simp_all only: m(2) one, simp_all)
  then obtain r where r: "slotLoop (sv_usedSlots sv) 1 (n - 3 + 1) = Some r"
    "slot_found (sv_usedSlots sv) 1 (unat n - 2) r"
    unfolding m(2) one by blast
  then show ?thesis
    by (intro exI [of _ r]) (auto simp: allocSlot_def m(1) run_return_def simp del: One_nat_def split: option.splits)
qed

section \<open>Who gets which address\<close>

text \<open>
  The connections that hold a slot, as the handlers of the clients take and return slots in any
  order; everything else may change about the server but its subnet.
\<close>

inductive slots_reachable :: "('e, 'l) ext \<Rightarrow> server \<Rightarrow> (sid \<times> u64) list \<Rightarrow> bool" for x where
  start: "sv_usedSlots sv = Map.empty \<Longrightarrow> slots_reachable x sv []"
| take: "slots_reachable x sv conns \<Longrightarrow> allocSlot x sv = Some (Ret (sv', Some slot)) \<Longrightarrow>
    i \<notin> fst ` set conns \<Longrightarrow> slots_reachable x sv' ((i, slot) # conns)"
| give_back: "slots_reachable x sv conns \<Longrightarrow> (i, slot) \<in> set conns \<Longrightarrow>
    slots_reachable x (freeSlot slot sv) (filter (\<lambda>p. fst p \<noteq> i) conns)"
| other: "slots_reachable x sv conns \<Longrightarrow> sv_usedSlots sv' = sv_usedSlots sv \<Longrightarrow>
    sv_VPNNet sv' = sv_VPNNet sv \<Longrightarrow> slots_reachable x sv' conns"

definition slots_ok :: "server \<Rightarrow> (sid \<times> u64) list \<Rightarrow> bool" where
  "slots_ok sv conns \<longleftrightarrow> distinct (map fst conns) \<and> distinct (map snd conns) \<and>
     (\<forall>s. sv_usedSlots sv s = Some True \<longleftrightarrow> s \<in> snd ` set conns)"

lemma slots_ok_free:
  assumes "slots_ok sv conns" and "(i, slot) \<in> set conns"
  shows "slots_ok (freeSlot slot sv) (filter (\<lambda>p. fst p \<noteq> i) conns)"
proof -
  have d: "inj_on fst (set conns)" "inj_on snd (set conns)"
    using assms(1) by (simp_all add: slots_ok_def distinct_map)
  have eq: "j = i \<longleftrightarrow> s = slot" if "(j, s) \<in> set conns" for j s
    using inj_onD [OF d(1) _ that assms(2)] inj_onD [OF d(2) _ that assms(2)] by auto
  have "s \<in> snd ` set (filter (\<lambda>p. fst p \<noteq> i) conns) \<longleftrightarrow> s \<noteq> slot \<and> s \<in> snd ` set conns" for s
    using eq by (auto simp: image_iff Bex_def)
  moreover have "distinct (map fst (filter (\<lambda>p. fst p \<noteq> i) conns))"
    "distinct (map snd (filter (\<lambda>p. fst p \<noteq> i) conns))"
    using assms(1) by (simp_all add: slots_ok_def distinct_map_filter)
  ultimately show ?thesis
    using assms(1) by (simp add: slots_ok_def freeSlot_def)
qed

lemma slots_reachable_ok:
  assumes "slots_reachable x sv conns" and "subnet_size x sv n"
  shows "slots_ok sv conns \<and> (\<forall>s \<in> snd ` set conns. 1 \<le> unat s \<and> unat s \<le> unat n - 2)"
  using assms
proof (induction rule: slots_reachable.induct)
  case (take sv conns sv' slot i)
  from allocSlot_spec obtain r where
    r: "slot_found (sv_usedSlots sv) 1 (unat n - 2) r" "allocSlot x sv = Some (Ret (case r of
      None \<Rightarrow> (sv, None)
    | Some k \<Rightarrow> (sv\<lparr>sv_usedSlots := (sv_usedSlots sv)(k \<mapsto> True)\<rparr>, Some k)))"
    if "subnet_size x sv n" by blast
  have net: "sv_VPNNet sv' = sv_VPNNet sv"
    using take(2) by (auto simp: allocSlot_def run_return_def split: go.splits option.splits)
  then have n: "subnet_size x sv n" using take.prems by (simp add: subnet_size_def)
  then have b: "4 \<le> unat n" by (simp add: subnet_size_def)
  have k: "r = Some slot" "sv' = sv\<lparr>sv_usedSlots := (sv_usedSlots sv)(slot \<mapsto> True)\<rparr>"
    using r(2) [OF n] take(2) by (auto split: option.splits)
  have "sv_usedSlots sv slot \<noteq> Some True" "1 \<le> unat slot" "unat slot \<le> unat n - 2"
    using r(1) [OF n] b by (auto simp: k(1) slot_found_def)
  then show ?case using take.IH [OF n] take(3) k(2) by (auto simp: slots_ok_def)
next
  case (give_back sv conns i slot)
  have n: "subnet_size x sv n" using give_back.prems by (simp add: subnet_size_def freeSlot_def)
  show ?case using slots_ok_free [of sv conns i slot] give_back.IH [OF n] give_back(2) by auto
next
  case (other sv conns sv')
  then show ?case by (simp add: slots_ok_def subnet_size_def)
qed (simp add: slots_ok_def)

text \<open>Different host numbers give different addresses (\<^verbatim>\<open>cidr.Host\<close>).\<close>

definition hosts_distinct :: "('e, 'l) ext \<Rightarrow> bool" where
  "hosts_distinct x \<longleftrightarrow> (\<forall>net n m a. 0 \<le> n \<longrightarrow> 0 \<le> m \<longrightarrow>
     cidr_Host x net n = Inr a \<longrightarrow> cidr_Host x net m = Inr a \<longrightarrow> n = m)"

lemma signed_small: "(k :: int) < 2 ^ 63 \<Longrightarrow> 0 \<le> k \<Longrightarrow> signed_take_bit 63 k = k"
  by (rule signed_take_bit_int_eq_self) simp_all

lemma sint_slot:
  fixes s :: u64
  assumes "subnet_size x sv n" and "unat s \<le> unat n - 2"
  shows "sint (s + 1) = int (unat s) + 1"
proof -
  have "unat n < 2 ^ 63" "4 \<le> unat n" using assms(1) by (simp_all add: subnet_size_def)
  then have small: "unat s + 1 < 2 ^ 63" using assms(2) by simp
  then have u: "unat (s + 1) = unat s + 1" by (simp add: unat_word_ariths)
  have "sint (s + 1) = signed_take_bit 63 (int (unat (s + 1)))"
    by (simp add: sint_uint)
  also have "\<dots> = int (unat (s + 1))"
    unfolding u
  proof (rule signed_small)
    show "int (unat s + 1) < 2 ^ 63" using small by (simp only: of_nat_less_numeral_power_cancel_iff)
  qed (rule of_nat_0_le_iff)
  finally show ?thesis using u by simp
qed

text \<open>
  C12 No two clients that are connected at the same time have the same address: however
  connections come and go, the slots in use are distinct, and so are the addresses computed from
  them.
\<close>

theorem client_addresses_distinct:
  assumes "slots_reachable x sv conns" and "subnet_size x sv n" and "hosts_distinct x"
    and "(i, s) \<in> set conns" and "(j, t) \<in> set conns" and "i \<noteq> j"
    and "clientIP x sv s = Inr a" and "clientIP x sv t = Inr b"
  shows "s \<noteq> t \<and> a \<noteq> b"
proof -
  note ok = slots_reachable_ok [OF assms(1,2)]
  have "inj_on snd (set conns)" using ok by (simp add: slots_ok_def distinct_map)
  then have st: "s \<noteq> t"
    using inj_onD [of snd "set conns", OF _ _ assms(4,5)] assms(6) by auto
  have bounds: "unat s \<le> unat n - 2" "unat t \<le> unat n - 2" using ok assms(4,5) by force+
  have "int (unat s) + 1 \<noteq> int (unat t) + 1" using st by (simp add: word_uint_eq_iff)
  then have "a \<noteq> b"
    using assms(3,7,8) unfolding hosts_distinct_def clientIP_def GetIPAt_def
      sint_slot [OF assms(2) bounds(1)] sint_slot [OF assms(2) bounds(2)]
    by (metis add_nonneg_nonneg of_nat_0_le_iff zero_le_one)
  then show ?thesis using st by simp
qed

definition example_net :: VPNNet where
  "example_net = \<lparr>vn_ip = [10, 0, 0, 1], vn_ipNet = \<lparr>ipnet_IP = [10, 0, 0, 0], ipnet_Mask = [255, 255, 255, 0]\<rparr>,
     vn_str = ''10.0.0.1/24''\<rparr>"

definition example_server :: "(u64 \<rightharpoonup> bool) \<Rightarrow> server" where
  "example_server used = NewServer\<lparr>sv_VPNNet := example_net, sv_MaxConnectionsPerUser := 1,
     sv_usedSlots := used, sv_mtu := 1420, sv_localFeatures := [(Fragmentation, True)]\<rparr>"

lemma example_subnet: "subnet_size demo_ext (example_server used) 256"
  by (simp add: subnet_size_def)

lemma hosts_distinct_demo: "hosts_distinct demo_ext"
proof -
  have "n = m" if "0 \<le> n" "n < 256" "0 \<le> m" "m < 256" "(word_of_int n :: u8) = word_of_int m" for n m :: int
    using that by (simp add: word_of_int_eq_iff take_bit_int_eq_self)
  then show ?thesis by (auto simp: hosts_distinct_def split: if_splits)
qed

lemma slotLoop_stop: "used slot \<noteq> Some True \<Longrightarrow> slotLoop used slot maxSlot = Some (Some slot)"
  by (subst slotLoop.simps) simp

lemma slotLoop_next:
  assumes "used slot = Some True" and "slot + 1 \<le> maxSlot"
  shows "slotLoop used slot maxSlot = slotLoop used (slot + 1) maxSlot"
  using assms by (subst slotLoop.simps) (simp add: leD)

lemma example_alloc:
  "allocSlot demo_ext (example_server Map.empty) = Some (Ret (example_server [1 \<mapsto> True], Some 1))"
  "allocSlot demo_ext (example_server [1 \<mapsto> True]) =
     Some (Ret (example_server [1 \<mapsto> True, 2 \<mapsto> True], Some 2))"
  by (simp_all add: allocSlot_def GetClientSlots_def example_server_def slotLoop_stop slotLoop_next run_return_def)

lemma example_slots: "slots_reachable demo_ext (example_server [1 \<mapsto> True, 2 \<mapsto> True]) [(8, 2), (7, 1)]"
proof (rule slots_reachable.take [OF slots_reachable.take [OF slots_reachable.start]])
  show "sv_usedSlots (example_server Map.empty) = Map.empty" by (simp add: example_server_def)
qed (rule example_alloc, simp, rule example_alloc, simp)

theorem client_addresses_distinct_witness:
  "(1 :: u64) \<noteq> 2 \<and> ([10, 0, 0, 2] :: ip) \<noteq> [10, 0, 0, 3]"
  by (rule client_addresses_distinct [OF example_slots example_subnet hosts_distinct_demo, of 7 _ 8])
    (simp_all add: clientIP_def GetIPAt_def example_server_def example_net_def)

lemma lowest_slot:
  assumes "subnet_size x sv n"
  shows "(\<exists>k. allocSlot x sv = Some (Ret (sv\<lparr>sv_usedSlots := (sv_usedSlots sv)(k \<mapsto> True)\<rparr>, Some k)) \<and>
       1 \<le> unat k \<and> unat k \<le> unat n - 2 \<and> sv_usedSlots sv k \<noteq> Some True \<and>
       (\<forall>j. 1 \<le> unat j \<and> unat j < unat k \<longrightarrow> sv_usedSlots sv j = Some True)) \<or>
    (allocSlot x sv = Some (Ret (sv, None)) \<and>
       (\<forall>j. 1 \<le> unat j \<and> unat j \<le> unat n - 2 \<longrightarrow> sv_usedSlots sv j = Some True))"
proof -
  from allocSlot_spec [OF assms] obtain r where
    r: "slot_found (sv_usedSlots sv) 1 (unat n - 2) r" "allocSlot x sv = Some (Ret (case r of
      None \<Rightarrow> (sv, None)
    | Some k \<Rightarrow> (sv\<lparr>sv_usedSlots := (sv_usedSlots sv)(k \<mapsto> True)\<rparr>, Some k)))" by blast
  have "4 \<le> unat n" using assms by (simp add: subnet_size_def)
  then show ?thesis using r by (cases r) (auto simp: slot_found_def)
qed

text \<open>
  A new client gets the lowest free slot, and is turned away only when there is none: with
  \<open>n\<close> addresses in the subnet the search over the slots 1 to \<open>n - 2\<close> always ends, takes
  the least one that is not in use and marks it, or finds every one of them in use.
\<close>

theorem lowest_free_slot:
  assumes "subnet_size x sv n"
  shows "(\<exists>k. allocSlot x sv = Some (Ret (sv\<lparr>sv_usedSlots := (sv_usedSlots sv)(k \<mapsto> True)\<rparr>, Some k)) \<and>
       1 \<le> unat k \<and> unat k \<le> unat n - 2 \<and> sv_usedSlots sv k \<noteq> Some True \<and>
       (\<forall>j. 1 \<le> unat j \<and> unat j < unat k \<longrightarrow> sv_usedSlots sv j = Some True)) \<or>
    (allocSlot x sv = Some (Ret (sv, None)) \<and>
       (\<forall>j. 1 \<le> unat j \<and> unat j \<le> unat n - 2 \<longrightarrow> sv_usedSlots sv j = Some True))"
  using assms by (rule lowest_slot)

theorem lowest_free_slot_witness:
  "(\<exists>k. allocSlot demo_ext (example_server [1 \<mapsto> True]) = Some (Ret ((example_server [1 \<mapsto> True])\<lparr>sv_usedSlots :=
         (sv_usedSlots (example_server [1 \<mapsto> True]))(k \<mapsto> True)\<rparr>, Some k)) \<and>
       1 \<le> unat k \<and> unat k \<le> unat (256 :: u64) - 2 \<and> sv_usedSlots (example_server [1 \<mapsto> True]) k \<noteq> Some True \<and>
       (\<forall>j. 1 \<le> unat j \<and> unat j < unat k \<longrightarrow> sv_usedSlots (example_server [1 \<mapsto> True]) j = Some True)) \<or>
    (allocSlot demo_ext (example_server [1 \<mapsto> True]) = Some (Ret (example_server [1 \<mapsto> True], None)) \<and>
       (\<forall>j. 1 \<le> unat j \<and> unat j \<le> unat (256 :: u64) - 2 \<longrightarrow> sv_usedSlots (example_server [1 \<mapsto> True]) j = Some True))"
  by (rule lowest_free_slot [OF example_subnet])

text \<open>
  One slot too many: \<^verbatim>\<open>GetClientSlots\<close> leaves \<open>n - 3\<close> addresses to
  clients, without the network, the server and the broadcast address, but the search admits
  \<open>n - 2\<close> slots. When \<open>n - 3\<close> clients are connected the next one is not turned away
  but gets the address with the last host number, the broadcast address of the subnet.
\<close>

theorem last_client_gets_broadcast:
  assumes "subnet_size x sv n" and "\<forall>j. 1 \<le> unat j \<and> unat j \<le> unat n - 3 \<longrightarrow> sv_usedSlots sv j = Some True"
    and "sv_usedSlots sv (n - 2) \<noteq> Some True"
  shows "\<exists>sv'. GetClientSlots x (sv_VPNNet sv) = Ret (n - 3) \<and> allocSlot x sv = Some (Ret (sv', Some (n - 2))) \<and>
    clientIP x sv' (n - 2) = GetIPAt x (sv_VPNNet sv) (int (unat n) - 1)"
proof -
  have b: "4 \<le> unat n" using assms(1) by (simp add: subnet_size_def)
  have u: "unat (n - 2) = unat n - 2" using maxSlot_value(2) [OF assms(1)] by simp
  have "allocSlot x sv = Some (Ret (sv\<lparr>sv_usedSlots := (sv_usedSlots sv)(n - 2 \<mapsto> True)\<rparr>, Some (n - 2)))"
    using lowest_slot [OF assms(1)]
  proof (elim disjE)
    assume "\<exists>k. allocSlot x sv = Some (Ret (sv\<lparr>sv_usedSlots := (sv_usedSlots sv)(k \<mapsto> True)\<rparr>, Some k)) \<and>
       1 \<le> unat k \<and> unat k \<le> unat n - 2 \<and> sv_usedSlots sv k \<noteq> Some True \<and>
       (\<forall>j. 1 \<le> unat j \<and> unat j < unat k \<longrightarrow> sv_usedSlots sv j = Some True)"
    then obtain k where k: "allocSlot x sv = Some (Ret (sv\<lparr>sv_usedSlots := (sv_usedSlots sv)(k \<mapsto> True)\<rparr>, Some k))"
      "1 \<le> unat k" "unat k \<le> unat n - 2" "sv_usedSlots sv k \<noteq> Some True" by blast
    have "\<not> unat k \<le> unat n - 3" using assms(2) k(2,4) by blast
    then have "unat k = unat (n - 2)" using k(3) u by linarith
    then have "k = n - 2" by (simp only: word_unat_eq_iff)
    then show ?thesis using k(1) by simp
  next
    assume "allocSlot x sv = Some (Ret (sv, None)) \<and>
       (\<forall>j. 1 \<le> unat j \<and> unat j \<le> unat n - 2 \<longrightarrow> sv_usedSlots sv j = Some True)"
    then have "sv_usedSlots sv (n - 2) = Some True" using b u by (auto dest!: spec [of _ "n - 2"])
    then show ?thesis using assms(3) by simp
  qed
  moreover have "sint (n - 2 + 1) = int (unat n) - 1"
    using sint_slot [OF assms(1), of "n - 2"] u b by (simp add: of_nat_diff)
  ultimately show ?thesis
    using maxSlot_value(1) [OF assms(1)] by (simp add: clientIP_def)
qed

theorem last_client_gets_broadcast_witness:
  "\<exists>sv'. GetClientSlots demo_ext (sv_VPNNet (example_server (\<lambda>j. if unat j \<le> 253 then Some True else None))) = Ret (256 - 3) \<and>
    allocSlot demo_ext (example_server (\<lambda>j. if unat j \<le> 253 then Some True else None)) = Some (Ret (sv', Some (256 - 2))) \<and>
    clientIP demo_ext sv' (256 - 2) =
      GetIPAt demo_ext (sv_VPNNet (example_server (\<lambda>j. if unat j \<le> 253 then Some True else None))) (int (unat (256 :: u64)) - 1)"
  by (rule last_client_gets_broadcast [OF example_subnet]) (simp_all add: example_server_def)

section \<open>The limit per user\<close>

text \<open>
  The user lists as connections are admitted and end in any order, each with a socket of its own.
\<close>

inductive users_reachable :: "('e, 'l) ext \<Rightarrow> server \<Rightarrow> bool" for x where
  start: "sv_authenticatedSockets sv = Map.empty \<Longrightarrow> users_reachable x sv"
| admit: "users_reachable x sv \<Longrightarrow> (\<And>u l. sv_authenticatedSockets sv u = Some l \<Longrightarrow> i \<notin> set l) \<Longrightarrow>
    users_reachable x (fst (admitSocket x user cid i sv w))"
| release: "users_reachable x sv \<Longrightarrow> users_reachable x (releaseSocket user cid i sv)"

definition users_ok :: "server \<Rightarrow> bool" where
  "users_ok sv \<longleftrightarrow> (\<forall>u l. sv_authenticatedSockets sv u = Some l \<longrightarrow>
     u \<noteq> [] \<and> l \<noteq> [] \<and> distinct l \<and>
     (sv_MaxConnectionsPerUserMode sv \<in> {0, 1} \<longrightarrow> int (length l) \<le> sv_MaxConnectionsPerUser sv))"

lemma users_ok_add:
  assumes "users_ok sv" and "u \<noteq> []" and "distinct l" and "i \<notin> set l"
    and "sv_MaxConnectionsPerUserMode sv \<in> {0, 1} \<longrightarrow> int (length l) < sv_MaxConnectionsPerUser sv"
  shows "users_ok (sv\<lparr>sv_authenticatedSockets := (sv_authenticatedSockets sv)(u \<mapsto> l @ [i]), sv_sockets := s\<rparr>)"
  using assms by (auto simp: users_ok_def)

lemma users_ok_sockets: "users_ok sv \<Longrightarrow> users_ok (sv\<lparr>sv_sockets := s\<rparr>)"
  by (simp add: users_ok_def)

lemma users_ok_admit:
  assumes ok: "users_ok sv" and fresh: "\<And>u l. sv_authenticatedSockets sv u = Some l \<Longrightarrow> i \<notin> set l"
  shows "users_ok (fst (admitSocket x user cid i sv w))"
proof (cases "user \<noteq> [] \<and> sv_MaxConnectionsPerUser sv > 0")
  case True
  show ?thesis
  proof (cases "sv_authenticatedSockets sv user")
    case None
    then show ?thesis
      using True users_ok_add [OF ok, of user "[]" i] by (simp add: admitSocket_def Let_def)
  next
    case (Some l)
    have l: "distinct l" "l \<noteq> []" "i \<notin> set l"
      "sv_MaxConnectionsPerUserMode sv \<in> {0, 1} \<longrightarrow> int (length l) \<le> sv_MaxConnectionsPerUser sv"
      using ok Some fresh by (auto simp: users_ok_def)
    have tl: "distinct (tl l)" "i \<notin> set (tl l)"
      "sv_MaxConnectionsPerUserMode sv \<in> {0, 1} \<longrightarrow> int (length (tl l)) < sv_MaxConnectionsPerUser sv"
      using l by (cases l; auto)+
    show ?thesis
      using True Some ok l users_ok_add [OF ok, of user l i] users_ok_add [OF ok, of user "tl l" i] tl
      by (auto simp: admitSocket_def Let_def MaxConnectionsPerUserKillOldest_def MaxConnectionsPerUserPreventNew_def)
  qed
qed (use ok in \<open>auto simp: admitSocket_def Let_def intro: users_ok_sockets\<close>)

lemma users_ok_release:
  assumes "users_ok sv"
  shows "users_ok (releaseSocket user cid i sv)"
proof -
  have len: "int (length (filter P l)) \<le> m" if "int (length l) \<le> m" for P m and l :: "sid list"
    using that length_filter_le [of P l] by linarith
  show ?thesis
    using assms by (cases "sv_authenticatedSockets sv user")
      (auto simp: releaseSocket_def users_ok_def Let_def len)
qed

lemma users_reachable_ok: "users_reachable x sv \<Longrightarrow> users_ok sv"
proof (induction rule: users_reachable.induct)
  case (admit sv i user cid w)
  show ?case using admit.IH admit.hyps(2) by (rule users_ok_admit)
next
  case (release sv user cid i)
  show ?case using release.IH by (rule users_ok_release)
qed (simp add: users_ok_def)

text \<open>
  C11 No user has more connections registered than allowed: with either of the two modes, and
  while the limit is not reconfigured, the list of a user's connections, through any sequence of
  logins and disconnects, has at most \<^verbatim>\<open>MaxConnectionsPerUser\<close> entries, all
  different, and is never left empty.
\<close>

theorem user_limit_holds:
  assumes "users_reachable x sv" and "sv_authenticatedSockets sv user = Some conns"
    and "sv_MaxConnectionsPerUserMode sv = MaxConnectionsPerUserKillOldest \<or>
      sv_MaxConnectionsPerUserMode sv = MaxConnectionsPerUserPreventNew"
  shows "int (length conns) \<le> sv_MaxConnectionsPerUser sv \<and> distinct conns \<and> conns \<noteq> []"
  using users_reachable_ok [OF assms(1)] assms(2,3)
  by (auto simp: users_ok_def MaxConnectionsPerUserKillOldest_def MaxConnectionsPerUserPreventNew_def)

theorem user_limit_holds_witness:
  "int (length [7 :: sid]) \<le> sv_MaxConnectionsPerUser
     (fst (admitSocket demo_ext ''bob'' ''c'' 7 (example_server Map.empty) example_joined)) \<and>
   distinct [7 :: sid] \<and> [7 :: sid] \<noteq> []"
proof (rule user_limit_holds)
  show "users_reachable demo_ext (fst (admitSocket demo_ext ''bob'' ''c'' 7 (example_server Map.empty) example_joined))"
    by (rule users_reachable.admit [OF users_reachable.start]) (simp_all add: example_server_def NewServer_def)
  show "sv_authenticatedSockets (fst (admitSocket demo_ext ''bob'' ''c'' 7 (example_server Map.empty) example_joined))
      ''bob'' = Some [7]"
    by (simp add: admitSocket_def Let_def example_server_def NewServer_def)
qed (simp add: admitSocket_def Let_def example_server_def NewServer_def MaxConnectionsPerUserKillOldest_def)

text \<open>
  What happens at the limit: when a user with \<^verbatim>\<open>MaxConnectionsPerUser\<close>
  connections logs in again, the mode \<^verbatim>\<open>kill oldest\<close> closes the user's oldest
  connection and no other and puts the new one last, and the mode
  \<^verbatim>\<open>prevent new\<close> closes the new connection and leaves the old ones and the
  server's tables as they were.
\<close>

theorem login_at_the_limit:
  assumes "user \<noteq> []" and "sv_authenticatedSockets sv user = Some (old # rest)"
    and "int (length (old # rest)) = sv_MaxConnectionsPerUser sv"
  shows "(sv_MaxConnectionsPerUserMode sv = MaxConnectionsPerUserKillOldest \<longrightarrow>
      (\<exists>sv' w'. admitSocket x user cid i sv w = (sv', w', True) \<and>
        sv_authenticatedSockets sv' = (sv_authenticatedSockets sv)(user \<mapsto> rest @ [i]) \<and>
        sk_isClosing (w_sock w' old) \<and> (\<forall>j. j \<noteq> old \<longrightarrow> w_sock w' j = w_sock w j))) \<and>
    (sv_MaxConnectionsPerUserMode sv = MaxConnectionsPerUserPreventNew \<longrightarrow>
      (\<exists>w'. admitSocket x user cid i sv w = (sv, w', False) \<and>
        sk_isClosing (w_sock w' i) \<and> (\<forall>j. j \<noteq> i \<longrightarrow> w_sock w' j = w_sock w j)))"
  using assms
  by (auto simp: admitSocket_def Let_def MaxConnectionsPerUserKillOldest_def
      MaxConnectionsPerUserPreventNew_def sock_simps)

definition full_server :: "int \<Rightarrow> server" where
  "full_server mode = (example_server Map.empty)\<lparr>sv_authenticatedSockets := [''bob'' \<mapsto> [7]],
     sv_MaxConnectionsPerUserMode := mode\<rparr>"

theorem login_at_the_limit_witness:
  "(\<exists>sv' w'. admitSocket demo_ext ''bob'' ''d'' 8 (full_server 0) example_joined = (sv', w', True) \<and>
      sv_authenticatedSockets sv' = (sv_authenticatedSockets (full_server 0))(''bob'' \<mapsto> [] @ [8]) \<and>
      sk_isClosing (w_sock w' 7) \<and> (\<forall>j. j \<noteq> 7 \<longrightarrow> w_sock w' j = w_sock example_joined j)) \<and>
   (\<exists>w'. admitSocket demo_ext ''bob'' ''d'' 8 (full_server 1) example_joined = (full_server 1, w', False) \<and>
      sk_isClosing (w_sock w' 8) \<and> (\<forall>j. j \<noteq> 8 \<longrightarrow> w_sock w' j = w_sock example_joined j))"
proof (rule conjI)
  have full: "sv_authenticatedSockets (full_server m) ''bob'' = Some [7]"
    "int (length [7 :: sid]) = sv_MaxConnectionsPerUser (full_server m)"
    "sv_MaxConnectionsPerUserMode (full_server m) = m" for m
    by (simp_all add: full_server_def example_server_def NewServer_def)
  show "\<exists>sv' w'. admitSocket demo_ext ''bob'' ''d'' 8 (full_server 0) example_joined = (sv', w', True) \<and>
      sv_authenticatedSockets sv' = (sv_authenticatedSockets (full_server 0))(''bob'' \<mapsto> [] @ [8]) \<and>
      sk_isClosing (w_sock w' 7) \<and> (\<forall>j. j \<noteq> 7 \<longrightarrow> w_sock w' j = w_sock example_joined j)"
    by (rule login_at_the_limit [OF _ full(1,2), THEN conjunct1, rule_format])
      (simp_all add: full MaxConnectionsPerUserKillOldest_def)
  show "\<exists>w'. admitSocket demo_ext ''bob'' ''d'' 8 (full_server 1) example_joined = (full_server 1, w', False) \<and>
      sk_isClosing (w_sock w' 8) \<and> (\<forall>j. j \<noteq> 8 \<longrightarrow> w_sock w' j = w_sock example_joined j)"
    by (rule login_at_the_limit [OF _ full(1,2), THEN conjunct2, rule_format])
      (simp_all add: full MaxConnectionsPerUserPreventNew_def)
qed

end
