(* ===== verification/Server_Conn.thy ===== *)
theory Server_Conn
  imports Server_Sockets Server_Config
begin

text \<open>
  The handler of one connection (\<^verbatim>\<open>serveSocket\<close> of
  \<^verbatim>\<open>server/servers/sockets.go\<close>) as a whole: from the request through authentication,
  upgrade, slot, interface and socket to its deferred clean-up, composed of the sections of
  \<open>Server_Sockets\<close>. It is cut where it waits for other goroutines: until
  \<^verbatim>\<open>Serve\<close> has returned, the sending of \<^verbatim>\<open>init\<close> once the socket is
  ready, and the end once the socket is done.
\<close>

section \<open>Upgrading\<close>

text \<open>
  The libraries the handler uses: the upgrade of the HTTP connection by the transports, and the
  files of the web root.
\<close>

record 'e http_ext =
  ws_Upgrade :: "'e \<Rightarrow> http_header \<Rightarrow> request \<Rightarrow> response \<Rightarrow> 'e \<times> response \<times> (string + conn)"
  wt_Upgrade :: "'e \<Rightarrow> request \<Rightarrow> response \<Rightarrow> 'e \<times> response \<times> (string + conn)"
  http_ServeFile :: "'e \<Rightarrow> request \<Rightarrow> string \<Rightarrow> response \<Rightarrow> 'e \<times> response"
  http_addr :: addr_ext

definition websocket_Matches :: "request \<Rightarrow> bool" where
  "websocket_Matches r \<longleftrightarrow> header_Get (rq_Header r) ''Upgrade'' = ''websocket''"

definition webtransport_Matches :: "request \<Rightarrow> bool" where
  "webtransport_Matches r \<longleftrightarrow> rq_Proto r = ''webtransport''"

primrec Matches :: "upgrader \<Rightarrow> request \<Rightarrow> bool" where
  "Matches (WebSocketUpgrader h) r \<longleftrightarrow> websocket_Matches r"
| "Matches (WebTransportUpgrader server) r \<longleftrightarrow> webtransport_Matches r"

definition websocket_Upgrade :: "'e http_ext \<Rightarrow> http_header \<Rightarrow> request \<Rightarrow> response \<Rightarrow> 'e \<Rightarrow> ser_state
    \<Rightarrow> 'e \<times> ser_state \<times> response \<times> (go_error + adapter)" where
  "websocket_Upgrade ht h r w e st =
     (case handleHTTPSerializationHeaders (rs_Header w) (rq_Header r) st of ((st', hdr), serializationType) \<Rightarrow>
        (case ws_Upgrade ht e h r (w\<lparr>rs_Header := hdr\<rparr>) of
           (e', w', Inl err) \<Rightarrow> (e', st', w', Inl (GoErr err))
         | (e', w', Inr cn) \<Rightarrow> (e', st', w', Inr (NewWebSocketAdapter cn serializationType True))))"

definition webtransport_Upgrade :: "'e http_ext \<Rightarrow> request \<Rightarrow> response \<Rightarrow> 'e \<Rightarrow> ser_state
    \<Rightarrow> 'e \<times> ser_state \<times> response \<times> (go_error + adapter)" where
  "webtransport_Upgrade ht r w e st =
     (case handleHTTPSerializationHeaders (rs_Header w) (rq_Header r) st of ((st', hdr), serializationType) \<Rightarrow>
        (case wt_Upgrade ht e r (w\<lparr>rs_Header := hdr\<rparr>) of
           (e', w', Inl err) \<Rightarrow> (e', st', w', Inl (GoErr err))
         | (e', w', Inr cn) \<Rightarrow> (e', st', w', Inr (NewWebTransportAdapter cn serializationType True))))"

primrec Upgrade :: "upgrader \<Rightarrow> 'e http_ext \<Rightarrow> request \<Rightarrow> response \<Rightarrow> 'e \<Rightarrow> ser_state
    \<Rightarrow> 'e \<times> ser_state \<times> response \<times> (go_error + adapter)" where
  "Upgrade (WebSocketUpgrader h) ht = websocket_Upgrade ht h"
| "Upgrade (WebTransportUpgrader server) ht = webtransport_Upgrade ht"

section \<open>The request\<close>

definition rootRoutePreauthorize :: string where "rootRoutePreauthorize = ''/preauthorize''"

definition prefixRoutePreauthorize :: string where "prefixRoutePreauthorize = ''/preauthorize/''"

definition has_prefix :: "string \<Rightarrow> string \<Rightarrow> bool" where
  "has_prefix s p \<longleftrightarrow> take (length p) s = p"

definition add_headers :: "http_header \<Rightarrow> (string \<times> string list) list \<Rightarrow> http_header" where
  "add_headers h hs = fold (\<lambda>(key, vals) h. fold (\<lambda>v h. header_Add h (CanonicalHeaderKey key) v) vals h) hs h"

text \<open>
  What a request comes to: a response was written, a connection was upgraded for a client and its
  user, or the user may see the web pages. \<open>hs\<close> are the server's headers in the order in which the map is
  iterated.
\<close>

datatype request_outcome = Answered | Upgraded string string adapter | WebPage string

definition authenticate_request :: "'e auth_ext \<Rightarrow> server \<Rightarrow> 'e \<Rightarrow> request \<Rightarrow> response
    \<Rightarrow> ('e \<times> response \<times> bool \<times> string) go" where
  "authenticate_request au sv e r w =
     (if sv_PreauthorizeSecret sv \<noteq> [] \<and> has_prefix (rq_Path r) prefixRoutePreauthorize
      then Ret (handlePreauthorizeToken au sv e w (drop (length prefixRoutePreauthorize) (rq_Path r)))
      else handleSocketAuth au sv e r w)"

definition upgrade_request :: "'e http_ext \<Rightarrow> string \<Rightarrow> string \<Rightarrow> server \<Rightarrow> request \<Rightarrow> response \<Rightarrow> 'e \<Rightarrow> ser_state
    \<Rightarrow> 'e \<times> ser_state \<times> response \<times> request_outcome" where
  "upgrade_request ht clientID authUsername sv r w e st =
     (case filter (\<lambda>u. Matches u r) (sv_upgraders sv) of
        [] \<Rightarrow> (e, st, w, WebPage authUsername)
      | u # _ \<Rightarrow> (case Upgrade u ht r w e st of
          (e', st', w', Inl err) \<Rightarrow> (e', st', w', Answered)
        | (e', st', w', Inr ad) \<Rightarrow> (e', st', w', Upgraded clientID authUsername ad)))"

definition serve_request :: "('e, 'l) ext \<Rightarrow> 'e http_ext \<Rightarrow> 'e auth_ext \<Rightarrow> server \<Rightarrow> (string \<times> string list) list \<Rightarrow> request \<Rightarrow> response
    \<Rightarrow> 'e \<Rightarrow> ser_state \<Rightarrow> ('e \<times> ser_state \<times> response \<times> request_outcome) go" where
  "serve_request x ht au sv hs r w e st =
     (case uuid_NewRandom x e of
        (e1, Inl err) \<Rightarrow> Ret (e1, st, http_Error ''Error creating client ID'' 500 w, Answered)
      | (e1, Inr clientID) \<Rightarrow>
          let w1 = w\<lparr>rs_Header := add_headers (rs_Header w) hs\<rparr> in
          if rq_Path r = rootRoutePreauthorize
          then (case handlePreauthorize au sv e1 r w1 of
              Panic \<Rightarrow> Panic | Ret (e2, w2, _) \<Rightarrow> Ret (e2, st, w2, Answered))
          else (case authenticate_request au sv e1 r w1 of
              Panic \<Rightarrow> Panic
            | Ret (e2, w2, authOk, authUsername) \<Rightarrow>
                if \<not> authOk then Ret (e2, st, w2, Answered)
                else Ret (upgrade_request ht clientID authUsername sv r w2 e2 st)))"

section \<open>The connection\<close>

text \<open>What the handler of a connection remembers; \<open>ci_sid\<close> is its socket.\<close>

record conn_info =
  ci_clientID :: string
  ci_username :: string
  ci_sid :: sid
  ci_slot :: u64
  ci_ip :: ip
  ci_iface :: "WaterInterfaceWrapper option"

datatype conn_state = Gone | Connected conn_info

type_synonym ('e, 'l) conn_result = "(server \<times> ('e, 'l) world \<times> conn_state) run"

text \<open>The interface of a connection: its own, or the main interface.\<close>

definition close_wrapper :: "('e, 'l) ext \<Rightarrow> WaterInterfaceWrapper \<Rightarrow> ('e, 'l) world \<Rightarrow> ('e, 'l) world" where
  "close_wrapper x v w = w\<lparr>w_env := fst (wi_Close x (w_env w) v)\<rparr>"

definition open_interface :: "platform \<Rightarrow> ('e, 'l) ext \<Rightarrow> 'e iface_ext \<Rightarrow> server \<Rightarrow> InterfaceConfig \<Rightarrow> ip
    \<Rightarrow> ('e, 'l) world \<Rightarrow> ('e, 'l) world \<times> WaterInterfaceWrapper option" where
  "open_interface p x io sv ic ipClient w =
     (case GetPlatformSpecifics p io (w_env w) \<lparr>wc_DeviceType = ToWaterDeviceType x (sv_Mode sv),
             wc_Name = [], wc_Persist = False, wc_InterfaceName = [], wc_ComponentID = []\<rparr> ic of
        (e1, ifaceConfig) \<Rightarrow> (case water_New io e1 ifaceConfig of
          (e2, Inl err) \<Rightarrow> (w\<lparr>w_env := e2\<rparr>, None)
        | (e2, Inr ifc) \<Rightarrow>
            (case (if sv_DoLocalIPConfig sv
                   then Configure p x io e2 (NewInterfaceWrapper ifc) (nil_ip (GetServerIP x (sv_VPNNet sv))) None ipClient
                   else Configure p x io e2 (NewInterfaceWrapper ifc) [] None []) of
               (e3, v, Some err) \<Rightarrow> (close_wrapper x v (w\<lparr>w_env := e3\<rparr>), None)
             | (e3, v, None) \<Rightarrow> (case wi_SetMTU x e3 v (sv_mtu sv) of
                 (e4, Some err) \<Rightarrow> (close_wrapper x v (w\<lparr>w_env := e4\<rparr>), None)
               | (e4, None) \<Rightarrow> (w\<lparr>w_env := e4\<rparr>, Some v)))))"

text \<open>The deferred calls that are pending once the socket is made, in the order they run.\<close>

definition finish_conn :: "('e, 'l) ext \<Rightarrow> conn_info \<Rightarrow> server \<Rightarrow> ('e, 'l) world \<Rightarrow> server \<times> ('e, 'l) world" where
  "finish_conn x ci sv w =
     (let sv1 = releaseSocket (ci_username ci) (ci_clientID ci) (ci_sid ci) sv;
          w1 = Close x (ci_sid ci) w;
          w2 = (case ci_iface ci of None \<Rightarrow> w1 | Some v \<Rightarrow> close_wrapper x v w1);
          sv2 = freeSlot (ci_slot ci) sv1
      in (sv2, close_adapter x (ci_sid ci) w2))"

definition remote_net :: "server \<Rightarrow> ip \<Rightarrow> string" where
  "remote_net sv ipClient = remoteNetStr ipClient (GetSize (sv_VPNNet sv))"

text \<open>What an event of a connection runs (\<open>w_events\<close> lists the events of each socket in order).\<close>

definition server_doRunEventScript :: "('e, 'l) ext \<Rightarrow> server \<Rightarrow> conn_info \<Rightarrow> ifid \<Rightarrow> string \<Rightarrow> 'e \<Rightarrow> 'e \<times> go_error option" where
  "server_doRunEventScript x sv ci localIface event e =
     RunEventScript x e (sv_events sv) event (remote_net sv (ci_ip ci)) localIface [ci_username ci]"

text \<open>From the making of the socket to \<^verbatim>\<open>Serve\<close>.\<close>

definition connect_socket :: "('e, 'l) ext \<Rightarrow> conn_info \<Rightarrow> ifid \<Rightarrow> server \<Rightarrow> ('e, 'l) world \<Rightarrow> server \<times> ('e, 'l) world \<times> conn_state" where
  "connect_socket x ci ifname sv w =
     (let i = ci_sid ci;
          w1 = upd_sock i (\<lambda>s. (MakeSocket (sk_adapter s) (Some ifname) (ci_iface ci \<noteq> None) True)
                 \<lparr>sk_username := ci_username ci\<rparr>) w
      in case admitSocket x (ci_username ci) (ci_clientID ci) i sv w1 of
           (sv1, w2, False) \<Rightarrow>
             (freeSlot (ci_slot ci) sv1,
              close_adapter x i (let w3 = Close x i w2 in case ci_iface ci of None \<Rightarrow> w3 | Some v \<Rightarrow> close_wrapper x v w3), Gone)
         | (sv1, w2, True) \<Rightarrow>
             let conf = (\<lambda>s. case sv_SocketConfigurator sv1 of None \<Rightarrow> s
                   | Some pc \<Rightarrow> fst (ConfigureSocket pc s))
             in (sv1, Serve x i (upd_sock i (setupSocket sv1 (ci_ip ci) (w_handler w2 \<noteq> None) conf) w2), Connected ci))"

text \<open>
  The handler after an upgrade: \<open>i\<close> is a new socket, whose adapter is the one the upgrade
  returned. A nil main interface is dereferenced for its name.
\<close>

definition accept_conn :: "platform \<Rightarrow> ('e, 'l) ext \<Rightarrow> 'e iface_ext \<Rightarrow> string \<Rightarrow> string \<Rightarrow> sid \<Rightarrow> adapter
    \<Rightarrow> server \<Rightarrow> ('e, 'l) world \<Rightarrow> ('e, 'l) conn_result" where
  "accept_conn p x io clientID authUsername i ad sv w =
     (let w0 = upd_sock i (\<lambda>s. s\<lparr>sk_adapter := ad\<rparr>) w;
          sv0 = addCloser sv (CloseAdapter i)
      in run_bind (allocSlot x sv0) (\<lambda>(sv1, found). case found of
           None \<Rightarrow> run_return (sv1, close_adapter x i w0, Gone)
         | Some slot \<Rightarrow>
             let gone = (\<lambda>w. run_return (freeSlot slot sv1, close_adapter x i w, Gone)) in
             (case clientIP x sv1 slot of
                Inl err \<Rightarrow> gone w0
              | Inr ipClient \<Rightarrow>
                  let ci = \<lparr>ci_clientID = clientID, ci_username = authUsername, ci_sid = i, ci_slot = slot,
                            ci_ip = ipClient, ci_iface = None\<rparr> in
                  (case sv_InterfaceConfig sv1 of
                     None \<Rightarrow> Some Panic
                   | Some ic \<Rightarrow>
                       if ifc_OneInterfacePerConnection ic
                       then (case open_interface p x io sv1 ic ipClient w0 of
                           (w1, None) \<Rightarrow> gone w1
                         | (w1, Some v) \<Rightarrow> run_return (connect_socket x (ci\<lparr>ci_iface := Some v\<rparr>) (wi_Interface v) sv1 w1))
                       else (case sv_mainIface sv1 of
                           None \<Rightarrow> Some Panic
                         | Some v \<Rightarrow> run_return (connect_socket x ci (wi_Interface v) sv1 w0))))))"

text \<open>The command that tells the client its address, once the socket is ready.\<close>

definition send_init :: "('e, 'l) ext \<Rightarrow> conn_info \<Rightarrow> server \<Rightarrow> ('e, 'l) world \<Rightarrow> server \<times> ('e, 'l) world \<times> conn_state" where
  "send_init x ci sv w =
     (case MakeAndSendCommand x (ci_sid ci) (Init \<lparr>in_Mode = ModeToString (sv_Mode sv), in_DoIPConfig = sv_DoRemoteIPConfig sv,
            in_IPAddress = remote_net sv (ci_ip ci), in_MTU = sv_mtu sv, in_ServerID = sv_serverID sv,
            in_ClientID = ci_clientID ci,
            in_EnableFragmentation = IsLocalFeature (w_sock w (ci_sid ci)) Fragmentation\<rparr>) w of
        (w1, None) \<Rightarrow> (sv, w1, Connected ci)
      | (w1, Some err) \<Rightarrow>
          (case finish_conn x ci sv (CloseError x (ci_sid ci) (GoErr (''error sending init command: '' @ Error err)) w1) of
             (sv', w') \<Rightarrow> (sv', w', Gone)))"

section \<open>The traces of a connection\<close>

lemma allocSlot_outcome:
  assumes "allocSlot x sv = Some (Ret (sv1, found))"
  shows "case found of None \<Rightarrow> sv1 = sv
    | Some slot \<Rightarrow> sv1 = sv\<lparr>sv_usedSlots := (sv_usedSlots sv)(slot \<mapsto> True)\<rparr> \<and> sv_usedSlots sv slot \<noteq> Some True"
  using assms by (auto simp: allocSlot_def run_return_def dest: slotLoop_free split: go.splits option.splits)

lemma admitSocket_refused: "admitSocket x user cid i sv w = (sv', w', False) \<Longrightarrow> sv' = sv"
  by (auto simp: admitSocket_def Let_def split: if_splits option.splits)

lemma admitSocket_entered:
  "admitSocket x user cid i sv w = (sv', w', True) \<Longrightarrow> sv_sockets sv' = AList.update cid i (sv_sockets sv) \<and>
     sv_usedSlots sv' = sv_usedSlots sv \<and> sv_closers sv' = sv_closers sv"
  by (auto simp: admitSocket_def Let_def split: if_splits option.splits)

lemma connect_socket_outcome:
  assumes "connect_socket x ci ifname sv w = (sv', w', r)"
  shows "case r of Gone \<Rightarrow> sv' = freeSlot (ci_slot ci) sv
    | Connected ci' \<Rightarrow> ci' = ci \<and> sv_usedSlots sv' = sv_usedSlots sv \<and>
        sv_sockets sv' = AList.update (ci_clientID ci) (ci_sid ci) (sv_sockets sv) \<and> sv_closers sv' = sv_closers sv"
proof -
  let ?w1 = "upd_sock (ci_sid ci) (\<lambda>s. (MakeSocket (sk_adapter s) (Some ifname) (ci_iface ci \<noteq> None) True)
    \<lparr>sk_username := ci_username ci\<rparr>) w"
  obtain sv1 w2 b where a: "admitSocket x (ci_username ci) (ci_clientID ci) (ci_sid ci) sv ?w1 = (sv1, w2, b)"
    by (rule prod_cases3)
  show ?thesis
    using assms a admitSocket_refused [of x "ci_username ci" "ci_clientID ci" "ci_sid ci" sv ?w1 sv1 w2]
      admitSocket_entered [of x "ci_username ci" "ci_clientID ci" "ci_sid ci" sv ?w1 sv1 w2]
    by (cases b) (auto simp: connect_socket_def Let_def)
qed

lemma accept_conn_outcome:
  assumes "accept_conn p x io cid user i ad sv w = Some (Ret (sv', w', r))"
  shows "(\<exists>k. sv_usedSlots sv' = (sv_usedSlots sv)(k := None) \<and> sv_usedSlots sv k \<noteq> Some True \<and> r = Gone \<or>
      sv_usedSlots sv' = sv_usedSlots sv \<and> r = Gone \<or>
      (\<exists>ci. r = Connected ci \<and> ci_clientID ci = cid \<and> ci_username ci = user \<and> ci_sid ci = i \<and> ci_slot ci = k \<and>
        sv_usedSlots sv' = (sv_usedSlots sv)(k \<mapsto> True) \<and> sv_usedSlots sv k \<noteq> Some True \<and>
        clientIP x sv k = Inr (ci_ip ci) \<and> sv_sockets sv' = AList.update cid i (sv_sockets sv))) \<and>
    (r = Gone \<longrightarrow> sv_sockets sv' = sv_sockets sv \<and> sv_authenticatedSockets sv' = sv_authenticatedSockets sv) \<and>
    sv_closers sv' = sv_closers sv @ [CloseAdapter i]"
proof -
  let ?sv0 = "addCloser sv (CloseAdapter i)"
  obtain sv1 found where al: "allocSlot x ?sv0 = Some (Ret (sv1, found))"
    using assms by (auto simp: accept_conn_def run_bind_def Let_def split: option.splits go.splits)
  have sv0: "sv_usedSlots ?sv0 = sv_usedSlots sv" "sv_sockets ?sv0 = sv_sockets sv"
    "sv_authenticatedSockets ?sv0 = sv_authenticatedSockets sv" "sv_closers ?sv0 = sv_closers sv @ [CloseAdapter i]"
    "sv_VPNNet ?sv0 = sv_VPNNet sv"
    by (simp_all add: addCloser_def)
  show ?thesis
  proof (cases found)
    case None
    then show ?thesis
      using assms al allocSlot_outcome [OF al] sv0 by (auto simp: accept_conn_def run_return_def Let_def)
  next
    case (Some slot)
    then have s1: "sv1 = ?sv0\<lparr>sv_usedSlots := (sv_usedSlots sv)(slot \<mapsto> True)\<rparr>" "sv_usedSlots sv slot \<noteq> Some True"
      using allocSlot_outcome [OF al] sv0 by auto
    have ip: "clientIP x sv1 k = clientIP x sv k" for k using s1 sv0 by (simp add: clientIP_def)
    have conn: ?thesis if "connect_socket x ci n sv1 w1 = (sv', w', r)" "ci_slot ci = slot" "ci_clientID ci = cid"
        "ci_username ci = user" "ci_sid ci = i" "clientIP x sv slot = Inr (ci_ip ci)" for ci n w1
      using connect_socket_outcome [OF that(1)] that(2-) s1 sv0
      by (cases r) (auto simp: freeSlot_def intro!: exI [of _ slot])
    show ?thesis
      using assms al Some s1 sv0 ip conn
      by (auto simp: accept_conn_def run_return_def freeSlot_def Let_def split: sum.splits option.splits if_splits prod.splits
          intro!: exI [of _ slot])
  qed
qed

lemma finish_conn_outcome:
  assumes "finish_conn x ci sv w = (sv', w')"
  shows "sv_usedSlots sv' = (sv_usedSlots sv)(ci_slot ci := None) \<and>
    sv_sockets sv' = AList.delete (ci_clientID ci) (sv_sockets sv) \<and> sv_closers sv' = sv_closers sv \<and>
    (\<forall>l. ci_username ci \<noteq> [] \<longrightarrow> sv_authenticatedSockets sv' (ci_username ci) = Some l \<longrightarrow>
       ci_sid ci \<notin> set l \<and> l \<noteq> []) \<and>
    (\<forall>u. u \<noteq> ci_username ci \<longrightarrow> sv_authenticatedSockets sv' u = sv_authenticatedSockets sv u) \<and>
    sk_isClosing (w_sock w' (ci_sid ci))"
proof -
  have "sk_isClosing (w_sock (Close x (ci_sid ci) w) (ci_sid ci))"
    by (simp add: Close_def sock_simps)
  moreover have "w_sock (close_wrapper x v w) = w_sock w" for v and w :: "('a, 'b) world"
    by (simp add: close_wrapper_def)
  ultimately show ?thesis
    using assms by (auto simp: finish_conn_def releaseSocket_def freeSlot_def close_adapter_simps Let_def
        split: if_splits option.splits)
qed

text \<open>
  C17 No connection without a login: a request is upgraded to a connection for a user only if
  the path carries a token that the token library accepts for this user under the server's
  secret, which is then set, or the authenticator lets this user in.
\<close>

theorem upgrade_needs_login:
  assumes "serve_request x ht au sv hs r w e st = Ret (e', st', w', Upgraded cid user ad)"
  shows "rq_Path r \<noteq> rootRoutePreauthorize \<and>
    (if sv_PreauthorizeSecret sv \<noteq> [] \<and> has_prefix (rq_Path r) prefixRoutePreauthorize
     then \<exists>now. jwt_ParseWithClaims au (sv_PreauthorizeSecret sv) (drop (length prefixRoutePreauthorize) (rq_Path r)) now =
       Inr (Inr user)
     else \<exists>ea wa eb wb. handleSocketAuth au sv ea r wa = Ret (eb, wb, True, user)) \<and>
    (\<exists>u \<in> set (sv_upgraders sv). Matches u r)"
proof -
  have up: "user' = user \<and> (\<exists>u \<in> set (sv_upgraders sv). Matches u r)"
    if "upgrade_request ht c user' sv r w2 e2 st = (e', st', w', Upgraded cid user ad)" for c user' w2 e2
    using that
    by (auto simp: upgrade_request_def dest!: filter_eq_ConsD split: list.splits prod.splits sum.splits)
  obtain e1 c ea2 w2 user' where a:
    "authenticate_request au sv e1 r (w\<lparr>rs_Header := add_headers (rs_Header w) hs\<rparr>) = Ret (ea2, w2, True, user')"
    "upgrade_request ht c user' sv r w2 ea2 st = (e', st', w', Upgraded cid user ad)" "rq_Path r \<noteq> rootRoutePreauthorize"
    using assms by (auto simp: serve_request_def Let_def split: prod.splits sum.splits if_splits go.splits)
  have u: "user' = user" and m: "\<exists>u \<in> set (sv_upgraders sv). Matches u r" using up [OF a(2)] by simp_all
  show ?thesis
    using a(1,3) m unfolding u
    by (auto simp: authenticate_request_def handlePreauthorizeToken_def split: if_splits prod.splits sum.splits)
qed

definition example_http :: "demo_env http_ext" where
  "example_http = \<lparr>ws_Upgrade = (\<lambda>e h r w. (e, w, Inr 7)), wt_Upgrade = (\<lambda>e r w. (e, w, Inl ''no session'')),
     http_ServeFile = (\<lambda>e r f w. (e, response_Write f w)),
     http_addr = \<lparr>net_LocalAddr = (\<lambda>c. ''192.0.2.1:9000''), net_RemoteAddr = (\<lambda>c. ''192.0.2.2:4711''),
       net_tlsState = (\<lambda>c. None), session_LocalAddr = (\<lambda>c. ''192.0.2.1:9000''),
       session_RemoteAddr = (\<lambda>c. ''192.0.2.2:4711''), session_tlsState = (\<lambda>c. ''TLS 1.3'')\<rparr>\<rparr>"

definition example_upgrade :: request where
  "example_upgrade = \<lparr>rq_Method = ''GET'', rq_Path = ''/preauthorize/key.alice'',
     rq_Header = Map.empty(''Upgrade'' \<mapsto> [''websocket'']), rq_Proto = ''HTTP/1.1'', rq_TLS = None\<rparr>"

theorem upgrade_needs_login_witness:
  "(\<exists>e' st' w' ad. serve_request demo_ext example_http example_auth
      (example_auth_server\<lparr>sv_upgraders := [WebSocketUpgrader Map.empty]\<rparr>) [] example_upgrade empty_response [] ser_start =
      Ret (e', st', w', Upgraded ''00000000-0000-4000-8000-000000000000'' ''alice'' ad)) \<and>
   (\<exists>now. jwt_ParseWithClaims example_auth ''key'' ''key.alice'' now = Inr (Inr ''alice''))"
proof -
  let ?sv = "example_auth_server\<lparr>sv_upgraders := [WebSocketUpgrader Map.empty]\<rparr>"
  have "header_Get (rq_Header example_upgrade) ''Upgrade'' = ''websocket''"
    by code_simp
  moreover have "has_prefix (rq_Path example_upgrade) prefixRoutePreauthorize"
    "drop (length prefixRoutePreauthorize) (rq_Path example_upgrade) = ''key.alice''"
    "rq_Path example_upgrade \<noteq> rootRoutePreauthorize" "sv_PreauthorizeSecret ?sv = ''key''"
    "sv_upgraders ?sv = [WebSocketUpgrader Map.empty]"
    by (simp_all add: has_prefix_def example_upgrade_def prefixRoutePreauthorize_def rootRoutePreauthorize_def
        example_auth_server_def)
  moreover have "handlePreauthorizeToken example_auth ?sv [] w ''key.alice'' = ([], w, True, ''alice'')" for w
    by (simp add: handlePreauthorizeToken_def example_auth_def example_auth_server_def)
  ultimately have "\<exists>e' st' w' ad. serve_request demo_ext example_http example_auth ?sv [] example_upgrade empty_response [] ser_start =
      Ret (e', st', w', Upgraded ''00000000-0000-4000-8000-000000000000'' ''alice'' ad)"
    by (simp add: serve_request_def authenticate_request_def upgrade_request_def websocket_Upgrade_def websocket_Matches_def
        example_http_def split: prod.split)
  moreover then obtain e' st' w' ad where "serve_request demo_ext example_http example_auth ?sv [] example_upgrade empty_response [] ser_start =
      Ret (e', st', w', Upgraded ''00000000-0000-4000-8000-000000000000'' ''alice'' ad)" by blast
  from upgrade_needs_login [OF this] have "\<exists>now. jwt_ParseWithClaims example_auth ''key'' ''key.alice'' now = Inr (Inr ''alice'')"
    by (simp add: has_prefix_def example_upgrade_def prefixRoutePreauthorize_def example_auth_server_def)
  ultimately show ?thesis by blast
qed

text \<open>
  C18 A connection leaves nothing behind but its closer: if the handler ends before the socket
  serves, the slots and the tables of sockets are as they were; otherwise the socket has taken a
  free slot and entered the table under its client ID, and whatever happened in between, at
  the end its slot is free again, neither table has it any more, and it is closing. The closer
  of its transport, however, stays in the server's list, which grows with every connection.
\<close>

theorem connection_leaves_no_trace:
  assumes run: "accept_conn p x io cid user i ad sv w = Some (Ret (sv1, w1, r))"
    and "\<And>k. sv_usedSlots sv k \<noteq> Some False"
  shows "case r of
      Gone \<Rightarrow> sv_usedSlots sv1 = sv_usedSlots sv \<and> sv_sockets sv1 = sv_sockets sv \<and>
        sv_authenticatedSockets sv1 = sv_authenticatedSockets sv \<and> sv_closers sv1 = sv_closers sv @ [CloseAdapter i]
    | Connected ci \<Rightarrow> sv_usedSlots sv (ci_slot ci) = None \<and> sv_usedSlots sv1 = (sv_usedSlots sv)(ci_slot ci \<mapsto> True) \<and>
        clientIP x sv (ci_slot ci) = Inr (ci_ip ci) \<and> sv_sockets sv1 = AList.update cid i (sv_sockets sv) \<and>
        sv_closers sv1 = sv_closers sv @ [CloseAdapter i] \<and>
        (\<forall>sv2 w2. case finish_conn x ci sv2 w2 of (sv3, w3) \<Rightarrow>
          sv_usedSlots sv3 = (sv_usedSlots sv2)(ci_slot ci := None) \<and> sv_sockets sv3 = AList.delete cid (sv_sockets sv2) \<and>
          (\<forall>l. user \<noteq> [] \<longrightarrow> sv_authenticatedSockets sv3 user = Some l \<longrightarrow> i \<notin> set l \<and> l \<noteq> []) \<and>
          (\<forall>u. u \<noteq> user \<longrightarrow> sv_authenticatedSockets sv3 u = sv_authenticatedSockets sv2 u) \<and>
          sk_isClosing (w_sock w3 i) \<and> sv_closers sv3 = sv_closers sv2)"
proof -
  have none: "sv_usedSlots sv k = None" if "sv_usedSlots sv k \<noteq> Some True" for k
    using that assms(2) [of k] by (cases "sv_usedSlots sv k") auto
  note out = accept_conn_outcome [OF run]
  show ?thesis
  proof (cases r)
    case Gone
    then show ?thesis using out none by (auto simp: fun_upd_idem)
  next
    case (Connected ci)
    have ci: "ci_clientID ci = cid" "ci_username ci = user" "ci_sid ci = i" using out Connected by auto
    have "case finish_conn x ci sv2 w2 of (sv3, w3) \<Rightarrow>
          sv_usedSlots sv3 = (sv_usedSlots sv2)(ci_slot ci := None) \<and> sv_sockets sv3 = AList.delete cid (sv_sockets sv2) \<and>
          (\<forall>l. user \<noteq> [] \<longrightarrow> sv_authenticatedSockets sv3 user = Some l \<longrightarrow> i \<notin> set l \<and> l \<noteq> []) \<and>
          (\<forall>u. u \<noteq> user \<longrightarrow> sv_authenticatedSockets sv3 u = sv_authenticatedSockets sv2 u) \<and>
          sk_isClosing (w_sock w3 i) \<and> sv_closers sv3 = sv_closers sv2" for sv2 w2
    proof -
      obtain sv3 w3 where f: "finish_conn x ci sv2 w2 = (sv3, w3)" by fastforce
      show ?thesis using finish_conn_outcome [OF f] ci by (simp add: f)
    qed
    then show ?thesis using out none Connected by auto
  qed
qed

definition example_conn_server :: server where
  "example_conn_server = (example_server Map.empty)\<lparr>sv_mainIface := Some (NewInterfaceWrapper ''wsvpn0''),
     sv_InterfaceConfig := Some \<lparr>ifc_Name = [], ifc_Persist = False, ifc_ComponentID = [],
       ifc_OneInterfacePerConnection = False\<rparr>\<rparr>"

theorem connection_leaves_no_trace_witness:
  "\<exists>sv1 w1 ci. accept_conn Linux demo_ext example_driver ''c'' ''bob'' 7 (NewWebSocketAdapter 7 1 True) example_conn_server example_joined =
       Some (Ret (sv1, w1, Connected ci)) \<and>
     sv_usedSlots sv1 = [1 \<mapsto> True] \<and> sv_usedSlots (fst (finish_conn demo_ext ci sv1 w1)) = Map.empty"
proof -
  have "\<exists>sv1 w1 ci. accept_conn Linux demo_ext example_driver ''c'' ''bob'' 7 (NewWebSocketAdapter 7 1 True) example_conn_server example_joined =
       Some (Ret (sv1, w1, Connected ci)) \<and> ci_slot ci = 1"
    by (simp add: accept_conn_def allocSlot_def GetClientSlots_def example_conn_server_def example_server_def slotLoop_stop
        run_return_def addCloser_def clientIP_def GetIPAt_def example_net_def connect_socket_def admitSocket_def Let_def
        NewServer_def)
  then obtain sv1 w1 ci where r: "accept_conn Linux demo_ext example_driver ''c'' ''bob'' 7 (NewWebSocketAdapter 7 1 True)
      example_conn_server example_joined = Some (Ret (sv1, w1, Connected ci))" "ci_slot ci = 1" by blast
  have e: "sv_usedSlots example_conn_server = Map.empty" by (simp add: example_conn_server_def example_server_def)
  then have "sv_usedSlots example_conn_server k \<noteq> Some False" for k by simp
  from connection_leaves_no_trace [OF r(1) this] e r(2)
  have c: "sv_usedSlots sv1 = [1 \<mapsto> True]" "case finish_conn demo_ext ci sv1 w1 of (sv3, w3) \<Rightarrow>
      sv_usedSlots sv3 = (sv_usedSlots sv1)(1 := None)"
    by (auto split: prod.splits)
  then have "sv_usedSlots (fst (finish_conn demo_ext ci sv1 w1)) = Map.empty"
    by (auto split: prod.splits)
  then show ?thesis using r(1) c(1) by blast
qed

end
