(* ===== verification/Server_Life.thy ===== *)
theory Server_Life
  imports Server_Conn
begin

text \<open>
  The life of the server (\<^verbatim>\<open>server/servers/listener.go\<close>,
  \<^verbatim>\<open>main_iface.go\<close> and \<^verbatim>\<open>Serve\<close> and \<^verbatim>\<open>Close\<close> of
  \<^verbatim>\<open>base.go\<close>): the listeners and the main interface are started, each in a
  goroutine that reports its end; the first error that is set closes a channel and with it the
  server. The last sections are about these goroutines as they run side by side.
\<close>

section \<open>Interfaces that are read\<close>

text \<open>
  One round of the loop of \<^verbatim>\<open>tryServeIfaceRead\<close>, and of
  \<^verbatim>\<open>serveMainIface\<close>: whether the loop goes on. A buffer of negative size panics.
\<close>

definition iface_read_round :: "('e, 'l) ext \<Rightarrow> 'e iface_ext \<Rightarrow> sid \<Rightarrow> ('e, 'l) world \<Rightarrow> (('e, 'l) world \<times> bool) run" where
  "iface_read_round x io i w =
     (let s = w_sock w i in
      case sk_iface s of
        None \<Rightarrow> Some Panic
      | Some ifc \<Rightarrow>
          if sk_packetBufferSize s < 0 then Some Panic
          else (case if_Read io (w_env w) ifc (sk_packetBufferSize s) of
            (e, Inl err) \<Rightarrow> run_return (closeDone x i (w\<lparr>w_env := e\<rparr>), False)
          | (e, Inr packet) \<Rightarrow>
              if length packet < 1 \<or> int (length packet) \<ge> sk_packetBufferSize s
              then run_return (w\<lparr>w_env := e\<rparr>, True)
              else run_bind (WritePacket x i packet (w\<lparr>w_env := e\<rparr>)) (\<lambda>(w', err). case err of
                  Some _ \<Rightarrow> run_return (closeDone x i w', False)
                | None \<Rightarrow> run_return (w', True))))"

definition main_iface_round :: "('e, 'l) ext \<Rightarrow> 'e iface_ext \<Rightarrow> gotime \<Rightarrow> server \<Rightarrow> ('e, 'l) world
    \<Rightarrow> (('e, 'l) world \<times> bool) run" where
  "main_iface_round x io now s w =
     (case sv_mainIface s of
        None \<Rightarrow> Some Panic
      | Some v \<Rightarrow>
          if sv_packetBufferSize s < 0 then Some Panic
          else (case if_Read io (w_env w) (wi_Interface v) (sv_packetBufferSize s) of
            (e, Inl err) \<Rightarrow> run_return (w\<lparr>w_env := e\<rparr>, False)
          | (e, Inr packet) \<Rightarrow>
              if length packet < 1 \<or> int (length packet) \<ge> sv_packetBufferSize s
              then run_return (w\<lparr>w_env := e\<rparr>, True)
              else if w_handler w = None then Some Panic
              else run_bind (HandlePacket x now None packet (w\<lparr>w_env := e\<rparr>)) (\<lambda>(w', _). run_return (w', True))))"

text \<open>The main interface; the flag is whether \<^verbatim>\<open>ifaceCreationMutex\<close> is left locked.\<close>

definition createMainIface :: "platform \<Rightarrow> ('e, 'l) ext \<Rightarrow> 'e iface_ext \<Rightarrow> InterfaceConfig \<Rightarrow> server \<Rightarrow> ('e, 'l) world
    \<Rightarrow> server \<times> ('e, 'l) world \<times> bool \<times> go_error option" where
  "createMainIface p x io ic s w =
     (case GetPlatformSpecifics p io (w_env w) \<lparr>wc_DeviceType = ToWaterDeviceType x (sv_Mode s),
             wc_Name = [], wc_Persist = False, wc_InterfaceName = [], wc_ComponentID = []\<rparr> ic of
        (e1, ifaceConfig) \<Rightarrow> (case water_New io e1 ifaceConfig of
          (e2, Inl err) \<Rightarrow> (s, w\<lparr>w_env := e2\<rparr>, True, Some (GoErr err))
        | (e2, Inr ifc) \<Rightarrow>
            (case (if sv_DoLocalIPConfig s
                   then Configure p x io e2 (NewInterfaceWrapper ifc) (nil_ip (GetServerIP x (sv_VPNNet s)))
                          (Some (sv_VPNNet s)) (nil_ip (GetServerIP x (sv_VPNNet s)))
                   else Configure p x io e2 (NewInterfaceWrapper ifc) [] None []) of
               (e3, v, Some err) \<Rightarrow> (s\<lparr>sv_mainIface := Some v\<rparr>, w\<lparr>w_env := e3\<rparr>, False, Some err)
             | (e3, v, None) \<Rightarrow> (case wi_SetMTU x e3 v (sv_mtu s) of
                 (e4, err) \<Rightarrow> (s\<lparr>sv_mainIface := Some v\<rparr>, w\<lparr>w_env := e4\<rparr>, False, err)))))"

section \<open>Listening\<close>

text \<open>
  The goroutines of the server: an upgrader and an HTTP server that listen, the reader of the
  main interface, the one that waits for the wait group, and a call of
  \<^verbatim>\<open>Close\<close> from a signal handler.
\<close>

datatype server_task = UpgraderTask upgrader | HTTPTask | MainIfaceTask | WaitTask | CloseTask

definition addUpgrader :: "server \<Rightarrow> upgrader \<Rightarrow> server" where
  "addUpgrader s u = addCloser (s\<lparr>sv_upgraders := sv_upgraders s @ [u]\<rparr>) (CloseUpgrader u)"

definition wait_Add :: "server \<Rightarrow> int \<Rightarrow> server" where
  "wait_Add s n = s\<lparr>sv_serveWaitGroup := sv_serveWaitGroup s + n\<rparr>"

definition listenUpgraders :: "server \<Rightarrow> server \<times> server_task list" where
  "listenUpgraders s =
     (let s1 = setUpgraderHeaders (wait_Add s (int (length (sv_upgraders s))))
      in (s1, map UpgraderTask (sv_upgraders s1)))"

definition listenPlaintext :: "server \<Rightarrow> server \<times> server_task list" where
  "listenPlaintext s =
     (if sv_HTTP3Enabled s then (setServeError s (Some (ServeError ''HTTP/3 requires TLS'')), [])
      else (case listenUpgraders (addUpgrader s NewWebSocketUpgrader) of
        (s1, ts) \<Rightarrow> (wait_Add (addCloser s1 CloseHTTPServer) 1, ts @ [HTTPTask])))"

definition listenEncrypted :: "server \<Rightarrow> (server \<times> server_task list) go" where
  "listenEncrypted s =
     (let tcp = (\<lambda>s1. case listenUpgraders (addUpgrader (addCloser s1 CloseHTTPServer) NewWebSocketUpgrader) of
            (s2, ts) \<Rightarrow> Ret (wait_Add s2 1, ts @ [HTTPTask]))
      in if sv_HTTP3Enabled s
         then (case sv_TLSConfig s of
             None \<Rightarrow> Panic
           | Some t \<Rightarrow> tcp (addUpgrader s (NewWebTransportUpgrader \<lparr>qs_Addr = sv_ListenAddr s, qs_TLSConfig = t\<rparr>)))
         else tcp s)"

text \<open>
  The log line of \<^verbatim>\<open>listen\<close> counts the addresses of the subnet, which panics for
  a subnet that is too large to count.
\<close>

definition listen_tls :: "TLSConfig option \<Rightarrow> server \<Rightarrow> TLSConfig option go" where
  "listen_tls tlsConfig s = (case sv_TLSConfig s of
     None \<Rightarrow> Ret None
   | Some t \<Rightarrow> (case tc_GetConfigForClient t of None \<Rightarrow> Ret (Some t) | Some f \<Rightarrow> GetConfigForClient f tlsConfig))"

definition listen :: "('e, 'l) ext \<Rightarrow> TLSConfig option \<Rightarrow> server \<Rightarrow> (server \<times> server_task list) go" where
  "listen x tlsConfig s =
     (let s1 = s\<lparr>sv_upgraders := []\<rparr> in
      case listen_tls tlsConfig s1 of
        Panic \<Rightarrow> Panic
      | Ret tlsConfigTemp \<Rightarrow> (case GetClientSlots x (sv_VPNNet s1) of
           Panic \<Rightarrow> Panic
         | Ret n \<Rightarrow> if tlsConfigTemp = None then Ret (listenPlaintext s1) else listenEncrypted s1))"

section \<open>Serve and Close\<close>

text \<open>Closing an HTTP server and the WebTransport server; their errors are not looked at.\<close>

record 'e life_ext =
  http_server_Close :: "'e \<Rightarrow> 'e"
  webtransport_server_Close :: "'e \<Rightarrow> 'e"

definition websocket_Close :: "'e \<Rightarrow> 'e" where
  "websocket_Close e = e"

definition webtransport_Close :: "'e life_ext \<Rightarrow> 'e \<Rightarrow> 'e" where
  "webtransport_Close le e = webtransport_server_Close le e"

primrec upgrader_Close :: "'e life_ext \<Rightarrow> 'e \<Rightarrow> upgrader \<Rightarrow> 'e" where
  "upgrader_Close le e (WebSocketUpgrader h) = websocket_Close e"
| "upgrader_Close le e (WebTransportUpgrader server) = webtransport_Close le e"

primrec close_one :: "('e, 'l) ext \<Rightarrow> 'e life_ext \<Rightarrow> closer \<Rightarrow> server \<times> ('e, 'l) world \<Rightarrow> server \<times> ('e, 'l) world" where
  "close_one x le CloseMainIface sw = (case sw of (s, w) \<Rightarrow> (case sv_mainIface s of
     None \<Rightarrow> (s, w)
   | Some v \<Rightarrow> (case wi_Close x (w_env w) v of (e, v', _) \<Rightarrow> (s\<lparr>sv_mainIface := Some v'\<rparr>, w\<lparr>w_env := e\<rparr>))))"
| "close_one x le CloseHTTPServer sw = (case sw of (s, w) \<Rightarrow> (s, w\<lparr>w_env := http_server_Close le (w_env w)\<rparr>))"
| "close_one x le (CloseUpgrader u) sw = (case sw of (s, w) \<Rightarrow> (s, w\<lparr>w_env := upgrader_Close le (w_env w) u\<rparr>))"
| "close_one x le (CloseAdapter i) sw = (case sw of (s, w) \<Rightarrow> (s, close_adapter x i w))"

definition closeAll :: "('e, 'l) ext \<Rightarrow> 'e life_ext \<Rightarrow> server \<times> ('e, 'l) world \<Rightarrow> server \<times> ('e, 'l) world" where
  "closeAll x le sw = (case fold (close_one x le) (sv_closers (fst sw)) sw of (s, w) \<Rightarrow> (s\<lparr>sv_closers := []\<rparr>, w))"

text \<open>\<^verbatim>\<open>Close\<close>, when no other goroutine runs in between.\<close>

definition server_Close :: "('e, 'l) ext \<Rightarrow> 'e life_ext \<Rightarrow> server \<times> ('e, 'l) world \<Rightarrow> server \<times> ('e, 'l) world" where
  "server_Close x le sw = (case closeAll x le sw of (s, w) \<Rightarrow> (setServeError s (Some errNone), w))"

text \<open>
  \<^verbatim>\<open>Serve\<close> until it waits for the channel: the goroutines that now run, or the
  error that it returns at once. A nil interface configuration is dereferenced.
\<close>

definition Serve_main_iface :: "platform \<Rightarrow> ('e, 'l) ext \<Rightarrow> 'e iface_ext \<Rightarrow> InterfaceConfig \<Rightarrow> server \<Rightarrow> ('e, 'l) world
    \<Rightarrow> server \<times> ('e, 'l) world \<times> (go_error + server_task list)" where
  "Serve_main_iface p x io ic s w =
     (if ifc_OneInterfacePerConnection ic then (s, w, Inr [])
      else (case createMainIface p x io ic s w of
        (s', w', _, Some err) \<Rightarrow> (s', w', Inl err)
      | (s', w', _, None) \<Rightarrow> (addCloser (wait_Add s' 1) CloseMainIface, w', Inr [MainIfaceTask])))"

definition mainIfaceName :: "server \<Rightarrow> string" where
  "mainIfaceName s = (case sv_mainIface s of None \<Rightarrow> [] | Some v \<Rightarrow> wi_Interface v)"

definition Serve_begin :: "platform \<Rightarrow> ('e, 'l) ext \<Rightarrow> 'e iface_ext \<Rightarrow> ('e, 'l) process
    \<Rightarrow> (('e, 'l) process \<times> (go_error + server_task list)) go" where
  "Serve_begin p x io pr =
     (case sv_InterfaceConfig (pr_server pr) of
        None \<Rightarrow> Panic
      | Some ic \<Rightarrow> (case VerifyPlatformFlags p ic of
          Some err \<Rightarrow> Ret (pr, Inl err)
        | None \<Rightarrow> (case Serve_main_iface p x io ic (pr_server pr) (pr_world pr) of
             (s, w, Inl err) \<Rightarrow> Ret (pr\<lparr>pr_server := s, pr_world := w\<rparr>, Inl err)
           | (s, w, Inr ts) \<Rightarrow> (case listen x (pr_tlsConfig pr) s of
               Panic \<Rightarrow> Panic
             | Ret (s1, ts1) \<Rightarrow>
                 let e = fst (RunEventScript x (w_env w) (sv_events s1) EventStartup
                           (IPNet_String (GetSubnet (sv_VPNNet s1))) (mainIfaceName s1) [])
                 in Ret (pr\<lparr>pr_server := s1, pr_world := w\<lparr>w_env := e\<rparr>\<rparr>, Inr (ts @ ts1 @ [WaitTask]))))))"

text \<open>And from there on, when the channel is closed.\<close>

definition Serve_end :: "('e, 'l) ext \<Rightarrow> 'e life_ext \<Rightarrow> server \<times> ('e, 'l) world
    \<Rightarrow> (server \<times> ('e, 'l) world) \<times> serve_error option" where
  "Serve_end x le sw = (case closeAll x le sw of (s, w) \<Rightarrow>
     ((s, w), if sv_serveError s = Some errNone then None else sv_serveError s))"

section \<open>Side by side\<close>

text \<open>
  Where a goroutine is: it runs, it is about to call \<^verbatim>\<open>setServeError\<close>, it has
  found no error there and is about to store its own and to close the channel, or it has ended.
  \<^verbatim>\<open>setServeError\<close> takes no lock, so that other goroutines run in between.
\<close>

datatype task_state = Running | Reporting "serve_error option" | Storing serve_error | Ended

record ('e, 'l) serving =
  lf_server :: server
  lf_world :: "('e, 'l) world"
  lf_tasks :: "(server_task \<times> task_state) list"
  lf_crashed :: bool

text \<open>What a goroutine can report, and whether it leaves the wait group when it ends.\<close>

definition own_error :: "serve_error option \<Rightarrow> bool" where
  "own_error err \<longleftrightarrow> err \<noteq> Some errNone \<and> err \<noteq> Some ErrNoServeWaitsLeft"

definition websocket_ListenAndServe_reports :: "serve_error option \<Rightarrow> bool" where
  "websocket_ListenAndServe_reports err \<longleftrightarrow> err = None"

definition webtransport_ListenAndServe_reports :: "serve_error option \<Rightarrow> bool" where
  "webtransport_ListenAndServe_reports err \<longleftrightarrow> own_error err"

primrec upgrader_reports :: "upgrader \<Rightarrow> serve_error option \<Rightarrow> bool" where
  "upgrader_reports (WebSocketUpgrader h) err \<longleftrightarrow> websocket_ListenAndServe_reports err"
| "upgrader_reports (WebTransportUpgrader server) err \<longleftrightarrow> webtransport_ListenAndServe_reports err"

primrec may_report :: "server_task \<Rightarrow> serve_error option \<Rightarrow> bool" where
  "may_report (UpgraderTask u) err \<longleftrightarrow> upgrader_reports u err"
| "may_report HTTPTask err \<longleftrightarrow> own_error err \<and> err \<noteq> None"
| "may_report MainIfaceTask err \<longleftrightarrow> err = Some (ServeError ''main iface closed'')"
| "may_report WaitTask err \<longleftrightarrow> False"
| "may_report CloseTask err \<longleftrightarrow> False"

primrec leaves_group :: "server_task \<Rightarrow> bool" where
  "leaves_group (UpgraderTask u) \<longleftrightarrow> True"
| "leaves_group HTTPTask \<longleftrightarrow> False"
| "leaves_group MainIfaceTask \<longleftrightarrow> True"
| "leaves_group WaitTask \<longleftrightarrow> False"
| "leaves_group CloseTask \<longleftrightarrow> False"

definition set_task :: "nat \<Rightarrow> server_task \<times> task_state \<Rightarrow> ('e, 'l) serving \<Rightarrow> ('e, 'l) serving" where
  "set_task n t s = s\<lparr>lf_tasks := (lf_tasks s)[n := t]\<rparr>"

definition end_task :: "nat \<Rightarrow> server_task \<Rightarrow> ('e, 'l) serving \<Rightarrow> ('e, 'l) serving" where
  "end_task n t s = set_task n (t, Ended)
     (if leaves_group t then s\<lparr>lf_server := wait_Add (lf_server s) (- 1)\<rparr> else s)"

definition check_error :: "nat \<Rightarrow> server_task \<Rightarrow> serve_error option \<Rightarrow> ('e, 'l) serving \<Rightarrow> ('e, 'l) serving" where
  "check_error n t err s = (case err of
     None \<Rightarrow> end_task n t s
   | Some e \<Rightarrow> if sv_serveError (lf_server s) \<noteq> None then end_task n t s else set_task n (t, Storing e) s)"

definition store_error :: "nat \<Rightarrow> server_task \<Rightarrow> serve_error \<Rightarrow> ('e, 'l) serving \<Rightarrow> ('e, 'l) serving" where
  "store_error n t e s =
     (let s1 = s\<lparr>lf_server := (lf_server s)\<lparr>sv_serveError := Some e\<rparr>\<rparr> in
      if \<not> sv_serveErrorChannelOpen (lf_server s1) then s1\<lparr>lf_crashed := True\<rparr>
      else end_task n t (s1\<lparr>lf_server := (lf_server s1)\<lparr>sv_serveErrorChannelOpen := False\<rparr>\<rparr>))"

definition at_task :: "('e, 'l) serving \<Rightarrow> nat \<Rightarrow> server_task \<Rightarrow> task_state \<Rightarrow> bool" where
  "at_task s n t st \<longleftrightarrow> n < length (lf_tasks s) \<and> lf_tasks s ! n = (t, st) \<and> \<not> lf_crashed s"

inductive life_step :: "('e, 'l) ext \<Rightarrow> 'e life_ext \<Rightarrow> ('e, 'l) serving \<Rightarrow> ('e, 'l) serving \<Rightarrow> bool" for x le where
  ends: "at_task s n t Running \<Longrightarrow> may_report t err \<Longrightarrow> life_step x le s (set_task n (t, Reporting err) s)"
| waited: "at_task s n WaitTask Running \<Longrightarrow> sv_serveWaitGroup (lf_server s) \<le> 0 \<Longrightarrow>
    life_step x le s (set_task n (WaitTask, Reporting (Some ErrNoServeWaitsLeft)) s)"
| closes: "at_task s n CloseTask Running \<Longrightarrow> closeAll x le (lf_server s, lf_world s) = (sv, w) \<Longrightarrow>
    life_step x le s (set_task n (CloseTask, Reporting (Some errNone)) (s\<lparr>lf_server := sv, lf_world := w\<rparr>))"
| checks: "at_task s n t (Reporting err) \<Longrightarrow> life_step x le s (check_error n t err s)"
| stores: "at_task s n t (Storing e) \<Longrightarrow> life_step x le s (store_error n t e s)"
| signal: "\<not> lf_crashed s \<Longrightarrow> life_step x le s (s\<lparr>lf_tasks := lf_tasks s @ [(CloseTask, Running)]\<rparr>)"
| connections: "\<not> lf_crashed s \<Longrightarrow> sv_serveError sv = sv_serveError (lf_server s) \<Longrightarrow>
    sv_serveErrorChannelOpen sv = sv_serveErrorChannelOpen (lf_server s) \<Longrightarrow>
    sv_serveWaitGroup sv = sv_serveWaitGroup (lf_server s) \<Longrightarrow> life_step x le s (s\<lparr>lf_server := sv, lf_world := w\<rparr>)"

definition life_start :: "('e, 'l) process \<Rightarrow> server_task list \<Rightarrow> ('e, 'l) serving" where
  "life_start pr ts = \<lparr>lf_server = pr_server pr, lf_world = pr_world pr, lf_tasks = map (\<lambda>t. (t, Running)) ts,
     lf_crashed = False\<rparr>"

section \<open>Lemmas\<close>

definition life_fields :: "server \<Rightarrow> serve_error option \<times> bool \<times> int" where
  "life_fields s = (sv_serveError s, sv_serveErrorChannelOpen s, sv_serveWaitGroup s)"

lemma life_fields_simps [simp]:
  "life_fields (addCloser s c) = life_fields s"
  "life_fields (addUpgrader s u) = life_fields s"
  "life_fields (setUpgraderHeaders s) = life_fields s"
  "life_fields (s\<lparr>sv_closers := cs\<rparr>) = life_fields s"
  "life_fields (s\<lparr>sv_mainIface := m\<rparr>) = life_fields s"
  "life_fields (s\<lparr>sv_upgraders := us\<rparr>) = life_fields s"
  "life_fields (wait_Add s n) = (sv_serveError s, sv_serveErrorChannelOpen s, sv_serveWaitGroup s + n)"
  by (simp_all add: life_fields_def addCloser_def addUpgrader_def setUpgraderHeaders_def wait_Add_def)

lemma close_one_fields: "life_fields (fst (close_one x le c sw)) = life_fields (fst sw)"
  by (cases c; cases sw) (auto split: option.splits prod.splits)

lemma closeAll_fields: "closeAll x le (s, w) = (s', w') \<Longrightarrow> life_fields s' = life_fields s"
proof -
  have "life_fields (fst (fold (close_one x le) cs sw)) = life_fields (fst sw)" for cs sw
    by (induction cs arbitrary: sw) (simp_all add: close_one_fields)
  from this [of "sv_closers s" "(s, w)"] show "closeAll x le (s, w) = (s', w') \<Longrightarrow> life_fields s' = life_fields s"
    by (auto simp: closeAll_def split: prod.splits)
qed

lemma Serve_end_result:
  "snd (Serve_end x le (s, w)) = (if sv_serveError s = Some errNone then None else sv_serveError s)"
proof -
  obtain s' w' where "closeAll x le (s, w) = (s', w')" by fastforce
  then show ?thesis using closeAll_fields [of x le s w s' w'] by (simp add: Serve_end_def life_fields_def)
qed

lemma upgraders_setHeaders [simp]:
  "length (sv_upgraders (setUpgraderHeaders s)) = length (sv_upgraders s)" "sv_upgraders (wait_Add s n) = sv_upgraders s"
  by (simp_all add: setUpgraderHeaders_def wait_Add_def)

definition group_size :: "server_task list \<Rightarrow> int" where
  "group_size ts = int (length (filter leaves_group ts))"

lemma group_size_simps [simp]:
  "group_size [] = 0" "group_size (t # ts) = (if leaves_group t then 1 else 0) + group_size ts"
  "group_size (ts @ ts2) = group_size ts + group_size ts2" "group_size (map UpgraderTask us) = int (length us)"
  by (simp_all add: group_size_def comp_def)

text \<open>What listening starts: with the HTTP server the wait group has one entry too many.\<close>

lemma listenUpgraders_outcome:
  assumes "listenUpgraders s = (s', ts)"
  shows "life_fields s' = (sv_serveError s, sv_serveErrorChannelOpen s, sv_serveWaitGroup s + group_size ts) \<and>
    HTTPTask \<notin> set ts \<and> WaitTask \<notin> set ts \<and> CloseTask \<notin> set ts"
  using assms by (auto simp: listenUpgraders_def Let_def)

lemma listen_outcome:
  assumes "listen x tc s = Ret (s', ts)" and "HTTPTask \<in> set ts"
  shows "life_fields s' = (sv_serveError s, sv_serveErrorChannelOpen s, sv_serveWaitGroup s + group_size ts + 1) \<and> CloseTask \<notin> set ts"
proof -
  have f: "life_fields a = (e, b, c) \<Longrightarrow> sv_serveError a = e \<and> sv_serveErrorChannelOpen a = b \<and> sv_serveWaitGroup a = c" for a e b c
    by (simp add: life_fields_def)
  show ?thesis
    using assms
    by (auto simp: listen_def listenPlaintext_def listenEncrypted_def Let_def addUpgrader_def addCloser_def
        dest!: listenUpgraders_outcome f split: go.splits if_splits prod.splits option.splits)
qed

text \<open>The goroutines that still have to leave the wait group.\<close>

definition in_group :: "server_task \<times> task_state \<Rightarrow> bool" where
  "in_group p \<longleftrightarrow> leaves_group (fst p) \<and> snd p \<noteq> Ended"

lemma length_filter_update:
  "n < length xs \<Longrightarrow> int (length (filter P (xs[n := y]))) =
     int (length (filter P xs)) + (if P y then 1 else 0) - (if P (xs ! n) then 1 else 0)"
proof (induction xs arbitrary: n)
  case (Cons a xs)
  show ?case
  proof (cases n)
    case (Suc m)
    then show ?thesis using Cons.IH [of m] Cons.prems by (simp split: if_splits)
  qed (use Cons.prems in simp)
qed simp

definition error_origin :: "serve_error option \<Rightarrow> server_task \<Rightarrow> bool" where
  "error_origin err t \<longleftrightarrow> err \<noteq> Some ErrNoServeWaitsLeft \<and> (err = Some errNone \<longrightarrow> t = CloseTask)"

fun state_ok :: "server_task \<times> task_state \<Rightarrow> bool" where
  "state_ok (t, Reporting err) = error_origin err t"
| "state_ok (t, Storing e) = error_origin (Some e) t"
| "state_ok (t, st) = True"

lemma upgrader_reports_own: "upgrader_reports u err \<Longrightarrow> own_error err"
  by (cases u) (auto simp: own_error_def websocket_ListenAndServe_reports_def webtransport_ListenAndServe_reports_def)

definition closed_once :: "('e, 'l) serving \<Rightarrow> bool" where
  "closed_once s \<longleftrightarrow> (\<exists>st. (CloseTask, st) \<in> set (lf_tasks s) \<and> st \<noteq> Running)"

definition serving_ok :: "('e, 'l) serving \<Rightarrow> bool" where
  "serving_ok s \<longleftrightarrow> list_all state_ok (lf_tasks s) \<and>
     sv_serveWaitGroup (lf_server s) = int (length (filter in_group (lf_tasks s))) + 1 \<and>
     sv_serveError (lf_server s) \<noteq> Some ErrNoServeWaitsLeft \<and>
     (sv_serveError (lf_server s) = Some errNone \<longrightarrow> closed_once s) \<and>
     (\<not> sv_serveErrorChannelOpen (lf_server s) \<longrightarrow> sv_serveError (lf_server s) \<noteq> None)"

lemma closed_once_set_task:
  assumes "closed_once s" and "at_task s n t st" and "t = CloseTask \<Longrightarrow> st' \<noteq> Running"
  shows "closed_once (set_task n (t, st') s)"
proof -
  obtain c where c: "(CloseTask, c) \<in> set (lf_tasks s)" "c \<noteq> Running" using assms(1) by (auto simp: closed_once_def)
  then obtain k where k: "k < length (lf_tasks s)" "lf_tasks s ! k = (CloseTask, c)" by (auto simp: in_set_conv_nth)
  show ?thesis
  proof (cases "k = n")
    case True
    then have "(CloseTask, st') \<in> set (lf_tasks (set_task n (t, st') s))"
      using assms(2) k by (auto simp: at_task_def set_task_def intro: set_update_memI)
    then show ?thesis using assms(2,3) k True by (auto simp: closed_once_def at_task_def)
  next
    case False
    then have "(CloseTask, c) \<in> set (lf_tasks (set_task n (t, st') s))"
      using k by (auto simp: set_task_def in_set_conv_nth intro!: exI [of _ k])
    then show ?thesis using c by (auto simp: closed_once_def)
  qed
qed

lemma closed_once_task:
  "at_task s n CloseTask st \<Longrightarrow> st' \<noteq> Running \<Longrightarrow> closed_once (set_task n (CloseTask, st') s)"
  by (auto simp: closed_once_def at_task_def set_task_def intro!: exI [of _ st'] set_update_memI)

lemma serving_ok_set_task:
  assumes "serving_ok s" and "at_task s n t st" and "st \<noteq> Ended" and "st' \<noteq> Ended" and "state_ok (t, st')" and "st' \<noteq> Running"
  shows "serving_ok (set_task n (t, st') s)"
proof -
  have "list_all state_ok ((lf_tasks s)[n := (t, st')])"
    using assms(1,5) by (auto simp: serving_ok_def list_all_iff dest: set_update_subset_insert [THEN subsetD])
  moreover have "int (length (filter in_group ((lf_tasks s)[n := (t, st')]))) = int (length (filter in_group (lf_tasks s)))"
    using assms(2-4) by (simp add: length_filter_update at_task_def in_group_def)
  ultimately show ?thesis
    using assms(1) closed_once_set_task [OF _ assms(2)] assms(6) by (simp add: serving_ok_def set_task_def)
qed

lemma serving_ok_end_task:
  assumes "serving_ok s" and "at_task s n t st" and "st \<noteq> Ended"
  shows "serving_ok (end_task n t s)"
proof -
  let ?s = "if leaves_group t then s\<lparr>lf_server := wait_Add (lf_server s) (- 1)\<rparr> else s"
  have "list_all state_ok ((lf_tasks s)[n := (t, Ended)])"
    using assms(1) by (auto simp: serving_ok_def list_all_iff dest: set_update_subset_insert [THEN subsetD])
  moreover have "int (length (filter in_group ((lf_tasks s)[n := (t, Ended)]))) =
      int (length (filter in_group (lf_tasks s))) - (if leaves_group t then 1 else 0)"
    using assms(2,3) by (simp add: length_filter_update at_task_def in_group_def)
  moreover have "closed_once ?s = closed_once s" "at_task ?s n t st" "lf_tasks ?s = lf_tasks s"
    using assms(2) by (auto simp: closed_once_def at_task_def)
  ultimately show ?thesis
    using assms(1) closed_once_set_task [of ?s n t st Ended]
    by (auto simp: serving_ok_def end_task_def set_task_def wait_Add_def)
qed

lemma serving_ok_server:
  assumes "serving_ok s" and "life_fields sv = life_fields (lf_server s)"
  shows "serving_ok (s\<lparr>lf_server := sv, lf_world := w\<rparr>)"
  using assms by (simp add: serving_ok_def life_fields_def closed_once_def)

lemma serving_ok_step:
  assumes "life_step x le s s'" and "serving_ok s"
  shows "serving_ok s'"
  using assms(1)
proof (cases rule: life_step.cases)
  case (ends n t err)
  then have "error_origin err t"
    by (cases t) (auto simp: error_origin_def own_error_def dest: upgrader_reports_own)
  then show ?thesis using ends serving_ok_set_task [OF assms(2)] by simp
next
  case (waited n)
  then show ?thesis using assms(2) by (simp add: serving_ok_def)
next
  case (closes n sv w)
  let ?s = "s\<lparr>lf_server := sv, lf_world := w\<rparr>"
  have "serving_ok ?s" using serving_ok_server [OF assms(2) closeAll_fields [OF closes(3)]] .
  moreover have "at_task ?s n CloseTask Running" using closes(2) by (simp add: at_task_def)
  ultimately show ?thesis
    using closes(1) serving_ok_set_task [of ?s n CloseTask Running "Reporting (Some errNone)"] by (simp add: error_origin_def)
next
  case (checks n t err)
  have "error_origin err t"
    using assms(2) checks(2) by (auto simp: serving_ok_def at_task_def list_all_length dest!: spec [of _ n])
  then show ?thesis
    using checks serving_ok_end_task [OF assms(2) checks(2)] serving_ok_set_task [OF assms(2) checks(2)]
    by (auto simp: check_error_def split: option.splits)
next
  case (stores n t e)
  have o: "error_origin (Some e) t"
    using assms(2) stores(2) by (auto simp: serving_ok_def at_task_def list_all_length dest!: spec [of _ n])
  have c: "closed_once s" if "e = errNone"
    using o that stores(2) by (auto simp: error_origin_def closed_once_def at_task_def intro!: exI [of _ "Storing e"] dest: nth_mem)
  let ?s = "s\<lparr>lf_server := (lf_server s)\<lparr>sv_serveError := Some e\<rparr>\<rparr>"
  have s: "serving_ok (?s\<lparr>lf_server := (lf_server ?s)\<lparr>sv_serveErrorChannelOpen := b\<rparr>\<rparr>)" for b
    using assms(2) o c by (auto simp: serving_ok_def error_origin_def closed_once_def)
  have "serving_ok (?s\<lparr>lf_crashed := True\<rparr>)" using s [of "sv_serveErrorChannelOpen (lf_server ?s)"]
    by (simp add: serving_ok_def closed_once_def)
  moreover have "serving_ok (end_task n t (?s\<lparr>lf_server := (lf_server ?s)\<lparr>sv_serveErrorChannelOpen := False\<rparr>\<rparr>))"
    using stores(2) by (intro serving_ok_end_task [OF s, where st = "Storing e"]) (simp_all add: at_task_def)
  ultimately show ?thesis using stores(1) by (simp add: store_error_def Let_def)
next
  case signal
  then show ?thesis using assms(2) by (auto simp: serving_ok_def closed_once_def in_group_def)
next
  case (connections sv w)
  then show ?thesis using serving_ok_server [OF assms(2)] by (simp add: life_fields_def)
qed

interpretation life_inv: kept_invariant "life_step x le" serving_ok for x le
  by unfold_locales (rule serving_ok_step)

lemma createMainIface_fields: "createMainIface p x io ic s w = (s', w', l, err) \<Longrightarrow> life_fields s' = life_fields s"
  by (auto simp: createMainIface_def split: prod.splits sum.splits option.splits if_splits)

lemma Serve_main_iface_fields:
  assumes "Serve_main_iface p x io ic s w = (s', w', Inr ts)" and "life_fields s = (None, True, 0)"
  shows "life_fields s' = (None, True, group_size ts) \<and> HTTPTask \<notin> set ts"
  using assms
  by (auto simp: Serve_main_iface_def life_fields_def [of s] life_fields_def [of "_ :: server"] addCloser_def wait_Add_def
      dest!: createMainIface_fields split: if_splits prod.splits option.splits)

lemma in_group_running:
  "filter in_group (map (\<lambda>t. (t, Running)) us) = map (\<lambda>t. (t, Running)) (filter leaves_group us)"
  by (induction us) (simp_all add: in_group_def)

lemma Serve_begin_ok:
  assumes "Serve_begin p x io pr = Ret (pr', Inr ts)" and "HTTPTask \<in> set ts"
    and "life_fields (pr_server pr) = (None, True, 0)"
  shows "serving_ok (life_start pr' ts)"
proof -
  obtain ic ts0 s w ts1 where m: "Serve_main_iface p x io ic (pr_server pr) (pr_world pr) = (s, w, Inr ts0)"
    and l: "listen x (pr_tlsConfig pr) s = Ret (pr_server pr', ts1)" "ts = ts0 @ ts1 @ [WaitTask]"
    using assms(1) by (auto simp: Serve_begin_def Let_def split: option.splits prod.splits sum.splits go.splits)
  note f = Serve_main_iface_fields [OF m assms(3)]
  then have "HTTPTask \<in> set ts1" using assms(2) l by auto
  then have "life_fields (pr_server pr') = (None, True, group_size ts + 1)"
    using listen_outcome [OF l(1)] f l(2) by (simp add: life_fields_def)
  then show ?thesis
    by (simp add: serving_ok_def life_start_def closed_once_def list_all_iff group_size_def in_group_running life_fields_def)
qed

section \<open>Guarantees\<close>

text \<open>
  C25 What \<^verbatim>\<open>Serve\<close> returns: however the goroutines of a server that listens run
  side by side, the channel is closed only with an error, nil is returned only if somebody has
  called \<^verbatim>\<open>Close\<close>, and \<^verbatim>\<open>ErrNoServeWaitsLeft\<close> is never
  returned, because the HTTP server enters the wait group and does not leave it.
\<close>

theorem serve_result:
  assumes "Serve_begin p x io pr = Ret (pr', Inr ts)" and "HTTPTask \<in> set ts"
    and "sv_serveError (pr_server pr) = None" and "sv_serveErrorChannelOpen (pr_server pr)"
    and "sv_serveWaitGroup (pr_server pr) = 0"
    and "(life_step x le)\<^sup>*\<^sup>* (life_start pr' ts) s" and "\<not> sv_serveErrorChannelOpen (lf_server s)"
    and "Serve_end x le (lf_server s, lf_world s) = (sw, result)"
  shows "sv_serveError (lf_server s) \<noteq> None \<and> result \<noteq> Some ErrNoServeWaitsLeft \<and>
    (result = None \<longrightarrow> (\<exists>st. (CloseTask, st) \<in> set (lf_tasks s) \<and> st \<noteq> Running))"
proof -
  have "life_fields (pr_server pr) = (None, True, 0)" using assms(3-5) by (simp add: life_fields_def)
  then have ok: "serving_ok s" using life_inv.run_keeps [OF assms(6)] Serve_begin_ok [OF assms(1,2)] by simp
  then show ?thesis
    using assms(7,8) Serve_end_result [of x le "lf_server s" "lf_world s"]
    by (auto simp: serving_ok_def closed_once_def split: if_splits)
qed

lemma run_step:
  "(life_step x le)\<^sup>*\<^sup>* s s1 \<Longrightarrow> life_step x le s1 s2 \<Longrightarrow> (life_step x le)\<^sup>*\<^sup>* s s2"
  by (rule rtranclp.rtrancl_into_rtrancl)

text \<open>The steps by which a goroutine gets its error into \<^verbatim>\<open>setServeError\<close>.\<close>

lemma reports:
  assumes "at_task s n t Running" and "may_report t (Some e)" and "sv_serveError (lf_server s) = None"
  shows "(life_step x le)\<^sup>*\<^sup>* s (set_task n (t, Storing e) s)"
proof -
  let ?s = "set_task n (t, Reporting (Some e)) s"
  have a: "life_step x le s ?s" using assms(1,2) by (rule life_step.ends)
  have "at_task ?s n t (Reporting (Some e))" using assms(1) by (simp add: at_task_def set_task_def)
  from life_step.checks [OF this] have b: "life_step x le ?s (check_error n t (Some e) ?s)" .
  have "check_error n t (Some e) ?s = set_task n (t, Storing e) s"
    using assms(3) by (simp add: check_error_def set_task_def)
  then show ?thesis using a b by (metis r_into_rtranclp rtranclp.rtrancl_into_rtrancl)
qed

definition example_life :: "demo_env life_ext" where
  "example_life = \<lparr>http_server_Close = (\<lambda>e. e), webtransport_server_Close = (\<lambda>e. e)\<rparr>"

definition example_serving :: "(demo_env, list_lru) process" where
  "example_serving = \<lparr>pr_server = (example_server Map.empty)\<lparr>sv_InterfaceConfig := Some \<lparr>ifc_Name = [], ifc_Persist = False,
       ifc_ComponentID = [], ifc_OneInterfacePerConnection = True\<rparr>\<rparr>, pr_world = example_joined, pr_tlsConfig = None\<rparr>"

theorem serve_result_witness:
  "\<exists>pr' ts s sw. Serve_begin Linux demo_ext example_driver example_serving = Ret (pr', Inr ts) \<and>
     (life_step demo_ext example_life)\<^sup>*\<^sup>* (life_start pr' ts) s \<and> \<not> sv_serveErrorChannelOpen (lf_server s) \<and>
     Serve_end demo_ext example_life (lf_server s, lf_world s) = (sw, Some (ServeError ''bind'')) \<and>
     sv_serveError (lf_server s) \<noteq> None \<and> Some (ServeError ''bind'') \<noteq> Some ErrNoServeWaitsLeft"
proof -
  have start: "sv_serveError (pr_server example_serving) = None" "sv_serveErrorChannelOpen (pr_server example_serving)"
    "sv_serveWaitGroup (pr_server example_serving) = 0"
    by (simp_all add: example_serving_def example_server_def NewServer_def)
  obtain pr' where b: "Serve_begin Linux demo_ext example_driver example_serving =
      Ret (pr', Inr [UpgraderTask NewWebSocketUpgrader, HTTPTask, WaitTask])"
    "sv_serveError (pr_server pr') = None" "sv_serveErrorChannelOpen (pr_server pr')"
    by (simp add: Serve_begin_def Serve_main_iface_def example_serving_def example_server_def NewServer_def VerifyPlatformFlags_def
        listen_tls_def NewWebSocketUpgrader_def websocket_SetHeaders_def listen_def GetClientSlots_def example_net_def listenPlaintext_def listenUpgraders_def addUpgrader_def addCloser_def
        setUpgraderHeaders_def wait_Add_def Let_def)
  let ?ts = "[UpgraderTask NewWebSocketUpgrader, HTTPTask, WaitTask]"
  let ?e = "ServeError ''bind''"
  let ?s1 = "set_task 1 (HTTPTask, Storing ?e) (life_start pr' ?ts)"
  let ?s2 = "store_error 1 HTTPTask ?e ?s1"
  have "(life_step demo_ext example_life)\<^sup>*\<^sup>* (life_start pr' ?ts) ?s1"
    by (rule reports) (simp_all add: at_task_def life_start_def own_error_def b)
  moreover have "life_step demo_ext example_life ?s1 ?s2"
    by (rule life_step.stores) (simp add: at_task_def set_task_def life_start_def)
  ultimately have r: "(life_step demo_ext example_life)\<^sup>*\<^sup>* (life_start pr' ?ts) ?s2" by (rule run_step)
  have f: "\<not> sv_serveErrorChannelOpen (lf_server ?s2)" "sv_serveError (lf_server ?s2) = Some ?e"
    using b by (simp_all add: store_error_def end_task_def set_task_def life_start_def Let_def)
  obtain sw where e: "Serve_end demo_ext example_life (lf_server ?s2, lf_world ?s2) = (sw, Some ?e)"
    using f(2) Serve_end_result [of demo_ext example_life "lf_server ?s2" "lf_world ?s2"]
    by (cases "Serve_end demo_ext example_life (lf_server ?s2, lf_world ?s2)") simp
  have "HTTPTask \<in> set ?ts" by simp
  from serve_result [OF b(1) this start r f(1) e] show ?thesis using b(1) r f(1) e by blast
qed

text \<open>
  C38 A shutdown may crash, or fail: when \<^verbatim>\<open>Close\<close> is called while the main
  interface is read, closing the interface ends its reader with an error. If it reports that
  before \<^verbatim>\<open>Close\<close> has set its own, \<^verbatim>\<open>Serve\<close> returns the
  error and not nil; if both find no error yet, both close the channel, and the second of them
  panics.
\<close>

theorem concurrent_shutdown:
  assumes "at_task s n MainIfaceTask Running" and "at_task s m CloseTask Running"
    and "sv_serveError (lf_server s) = None" and "sv_serveErrorChannelOpen (lf_server s)"
  shows "(\<exists>s'. (life_step x le)\<^sup>*\<^sup>* s s' \<and> lf_crashed s') \<and>
    (\<exists>s'. (life_step x le)\<^sup>*\<^sup>* s s' \<and> \<not> lf_crashed s' \<and> \<not> sv_serveErrorChannelOpen (lf_server s') \<and>
       sv_serveError (lf_server s') = Some (ServeError ''main iface closed''))"
proof -
  let ?e = "ServeError ''main iface closed''"
  obtain sv w where c: "closeAll x le (lf_server s, lf_world s) = (sv, w)" by fastforce
  let ?s1 = "set_task m (CloseTask, Reporting (Some errNone)) (s\<lparr>lf_server := sv, lf_world := w\<rparr>)"
  have nm: "n \<noteq> m" using assms(1,2) by (auto simp: at_task_def)
  have sv: "sv_serveError sv = None" "sv_serveErrorChannelOpen sv"
    using closeAll_fields [OF c] assms(3,4) by (simp_all add: life_fields_def)
  have s1: "life_step x le s ?s1" using life_step.closes [OF assms(2) c] .
  have m1: "at_task ?s1 m CloseTask (Reporting (Some errNone))" "at_task ?s1 n MainIfaceTask Running"
    using assms(1,2) nm by (simp_all add: at_task_def set_task_def)
  let ?s2 = "set_task n (MainIfaceTask, Storing ?e) ?s1"
  have s2: "(life_step x le)\<^sup>*\<^sup>* ?s1 ?s2"
    using reports [OF m1(2), where e = ?e] sv by (simp add: set_task_def)
  have "(life_step x le)\<^sup>*\<^sup>* s ?s1" using s1 by (rule r_into_rtranclp)
  then have r2: "(life_step x le)\<^sup>*\<^sup>* s ?s2" using s2 by (rule rtranclp_trans)
  have n2: "at_task ?s2 n MainIfaceTask (Storing ?e)" using m1(2) by (simp add: at_task_def set_task_def)
  have m2: "at_task ?s2 m CloseTask (Reporting (Some errNone))"
    using m1 nm by (simp add: at_task_def set_task_def)
  let ?s3 = "store_error n MainIfaceTask ?e ?s2"
  have s3: "life_step x le ?s2 ?s3" using life_step.stores [OF n2] .
  have f3: "\<not> lf_crashed ?s3" "\<not> sv_serveErrorChannelOpen (lf_server ?s3)" "sv_serveError (lf_server ?s3) = Some ?e"
    using sv assms(1) by (simp_all add: store_error_def end_task_def set_task_def wait_Add_def at_task_def Let_def)
  have failed: "(life_step x le)\<^sup>*\<^sup>* s ?s3"
    using r2 s3 by (rule run_step)
  let ?t2 = "set_task m (CloseTask, Storing errNone) ?s2"
  have "check_error m CloseTask (Some errNone) ?s2 = ?t2"
    using sv by (simp add: check_error_def set_task_def)
  then have t2: "life_step x le ?s2 ?t2" using life_step.checks [OF m2] by simp
  have n3: "at_task ?t2 n MainIfaceTask (Storing ?e)" "at_task ?t2 m CloseTask (Storing errNone)"
    using n2 m2 nm by (simp_all add: at_task_def set_task_def)
  let ?t3 = "store_error n MainIfaceTask ?e ?t2"
  have t3: "life_step x le ?t2 ?t3" using life_step.stores [OF n3(1)] .
  have m3: "at_task ?t3 m CloseTask (Storing errNone)"
    using n3 nm sv by (simp add: at_task_def store_error_def end_task_def set_task_def Let_def)
  have "life_step x le ?t3 (store_error m CloseTask errNone ?t3)" using life_step.stores [OF m3] .
  moreover have "lf_crashed (store_error m CloseTask errNone ?t3)"
    using sv by (simp add: store_error_def end_task_def set_task_def wait_Add_def Let_def)
  moreover have "(life_step x le)\<^sup>*\<^sup>* s ?t3"
    by (rule run_step [OF run_step [OF r2 t2] t3])
  ultimately show ?thesis using failed f3 run_step by blast
qed

definition example_shutdown :: "(demo_env, list_lru) serving" where
  "example_shutdown = life_start example_serving [MainIfaceTask, CloseTask]"

theorem concurrent_shutdown_witness:
  "(\<exists>s'. (life_step demo_ext example_life)\<^sup>*\<^sup>* example_shutdown s' \<and> lf_crashed s') \<and>
    (\<exists>s'. (life_step demo_ext example_life)\<^sup>*\<^sup>* example_shutdown s' \<and> \<not> lf_crashed s' \<and>
       \<not> sv_serveErrorChannelOpen (lf_server s') \<and> sv_serveError (lf_server s') = Some (ServeError ''main iface closed''))"
  by (rule concurrent_shutdown [of _ 0 1])
    (simp_all add: at_task_def example_shutdown_def life_start_def example_serving_def example_server_def NewServer_def)

end
