(* ===== verification/Web.thy ===== *)
theory Web
  imports Server_Conn
begin

text \<open>
  The web pages and the API of the server (\<^verbatim>\<open>server/servers/web.go\<close>,
  \<^verbatim>\<open>web_api.go\<close>) for a request that was not upgraded, of a user who is
  logged in. \<^verbatim>\<open>path.Clean\<close> and \<^verbatim>\<open>path.Join\<close> are those of Go's
  library.
\<close>

section \<open>Paths\<close>

fun split_slash :: "string \<Rightarrow> string list" where
  "split_slash [] = [[]]"
| "split_slash (c # cs) = (if c = CHR ''/'' then [] # split_slash cs
     else (case split_slash cs of seg # segs \<Rightarrow> (c # seg) # segs | [] \<Rightarrow> [[c]]))"

definition rooted :: "string \<Rightarrow> bool" where
  "rooted p \<longleftrightarrow> p \<noteq> [] \<and> hd p = CHR ''/''"

text \<open>\<^verbatim>\<open>path.Clean\<close>: one element after the other, the last one first.\<close>

definition clean_step :: "bool \<Rightarrow> string list \<Rightarrow> string \<Rightarrow> string list" where
  "clean_step r st seg =
     (if seg = [] \<or> seg = ''.'' then st
      else if seg = ''..'' then (case st of [] \<Rightarrow> if r then [] else [''..'']
        | t # ts \<Rightarrow> if t = ''..'' then ''..'' # st else ts)
      else seg # st)"

definition clean_elements :: "string \<Rightarrow> string list" where
  "clean_elements p = rev (foldl (clean_step (rooted p)) [] (split_slash p))"

definition path_text :: "bool \<Rightarrow> string list \<Rightarrow> string" where
  "path_text r elems =
     (let out = (if r then ''/'' else []) @ join_with ''/'' elems in if out = [] then ''.'' else out)"

definition path_Clean :: "string \<Rightarrow> string" where
  "path_Clean p = (if p = [] then ''.'' else path_text (rooted p) (clean_elements p))"

definition path_Join :: "string list \<Rightarrow> string" where
  "path_Join elems =
     (let es = filter (\<lambda>s. s \<noteq> []) elems in if es = [] then [] else path_Clean (join_with ''/'' es))"

section \<open>The API\<close>

record SocketStruct =
  ss_ClientID :: string
  ss_Protocol :: string
  ss_VPNIP :: string
  ss_LocalAddr :: string
  ss_RemoteAddr :: string
  ss_Username :: string

definition socketToJSON :: "'e http_ext \<Rightarrow> string \<Rightarrow> socket \<Rightarrow> SocketStruct" where
  "socketToJSON ht clientID s =
     \<lparr>ss_ClientID = clientID, ss_Protocol = AdapterName (GetAdapter s), ss_VPNIP = IP_String (sk_AssignedIP s),
      ss_LocalAddr = LocalAddr (http_addr ht) s, ss_RemoteAddr = RemoteAddr (http_addr ht) s, ss_Username = sk_username s\<rparr>"

definition socket_json :: "SocketStruct \<Rightarrow> json" where
  "socket_json t = JObj [(''client_id'', JStr (ss_ClientID t)), (''protocol'', JStr (ss_Protocol t)),
     (''vpn_ip'', JStr (ss_VPNIP t)), (''local_addr'', JStr (ss_LocalAddr t)),
     (''remote_addr'', JStr (ss_RemoteAddr t)), (''username'', JStr (ss_Username t))]"

text \<open>An \<^verbatim>\<open>Encoder\<close> ends each value with a newline; these values always encode.\<close>

definition serveJSON :: "json \<Rightarrow> response \<Rightarrow> response" where
  "serveJSON j rw = response_Write (json_text j @ [char_of (10 :: nat)]) (set_header ''Content-Type'' ''application/json'' rw)"

definition apiRouteClients :: string where "apiRouteClients = ''clients''"

definition api_not_implemented :: "response \<Rightarrow> response" where
  "api_not_implemented rw = http_Error ''API method not implemented, yet'' 404 rw"

definition api_clients :: "'e http_ext \<Rightarrow> server \<Rightarrow> request \<Rightarrow> ('e, 'l) world \<Rightarrow> response \<Rightarrow> response" where
  "api_clients ht s r w rw =
     (if rq_Method r \<noteq> ''GET'' then api_not_implemented rw
      else serveJSON (JArr (map (\<lambda>(clientID, i). socket_json (socketToJSON ht clientID (w_sock w i))) (sv_sockets s))) rw)"

definition api_client :: "('e, 'l) ext \<Rightarrow> 'e http_ext \<Rightarrow> server \<Rightarrow> request \<Rightarrow> string \<Rightarrow> ('e, 'l) world \<Rightarrow> response
    \<Rightarrow> ('e, 'l) world \<times> response" where
  "api_client x ht s r clientID w rw = (case map_of (sv_sockets s) clientID of
     None \<Rightarrow> (w, http_Error ''Not found'' 404 rw)
   | Some i \<Rightarrow>
       if rq_Method r = ''GET'' then (w, serveJSON (socket_json (socketToJSON ht clientID (w_sock w i))) rw)
       else if rq_Method r = ''DELETE'' then (Close x i w, http_Error ''OK'' 200 rw)
       else (w, api_not_implemented rw))"

definition serveAPI :: "('e, 'l) ext \<Rightarrow> 'e http_ext \<Rightarrow> server \<Rightarrow> request \<Rightarrow> string \<Rightarrow> ('e, 'l) world \<Rightarrow> response
    \<Rightarrow> ('e, 'l) world \<times> response" where
  "serveAPI x ht s r username w rw =
     (if \<not> sv_APIEnabled s then (w, http_Error ''API not enabled'' 400 rw)
      else if sv_APIUsers s \<noteq> [] \<and> map_of (sv_APIUsers s) username \<noteq> Some True
      then (w, http_Error ''API access not allowed'' 403 rw)
      else (case split_slash (rq_Path r) of
          [_, _, route] \<Rightarrow> if route = apiRouteClients then (w, api_clients ht s r w rw) else (w, api_not_implemented rw)
        | [_, _, route, clientID] \<Rightarrow>
            if route = apiRouteClients then api_client x ht s r clientID w rw else (w, api_not_implemented rw)
        | _ \<Rightarrow> (w, api_not_implemented rw)))"

section \<open>Web pages\<close>

definition website_file :: "server \<Rightarrow> request \<Rightarrow> string" where
  "website_file s r = path_Join [sv_WebsiteDirectory s, path_Clean (rq_Path r)]"

definition serveHTTP :: "('e, 'l) ext \<Rightarrow> 'e http_ext \<Rightarrow> server \<Rightarrow> request \<Rightarrow> string \<Rightarrow> ('e, 'l) world \<Rightarrow> response
    \<Rightarrow> ('e, 'l) world \<times> response" where
  "serveHTTP x ht s r username w rw =
     (if has_prefix (rq_Path r) ''/api'' then serveAPI x ht s r username w rw
      else if sv_WebsiteDirectory s = [] then (w, http_Error ''Website not enabled'' 404 rw)
      else if strings_ToUpper (rq_Method r) \<notin> {''GET'', ''HEAD''}
      then (w, http_Error ''Only GET and HEAD are allowed'' 400 rw)
      else (case http_ServeFile ht (w_env w) r (website_file s r) rw of (e, rw') \<Rightarrow> (w\<lparr>w_env := e\<rparr>, rw')))"

section \<open>Lemmas\<close>

definition plain_element :: "string \<Rightarrow> bool" where
  "plain_element c \<longleftrightarrow> c \<noteq> [] \<and> c \<noteq> ''.'' \<and> c \<noteq> ''..'' \<and> CHR ''/'' \<notin> set c"

lemma plain_element_not_up: "plain_element c \<Longrightarrow> c \<noteq> ''..''"
  by (simp add: plain_element_def)

lemma split_slash_not_Nil [simp]: "split_slash s \<noteq> []"
  by (cases s) (auto split: list.splits)

lemma split_slash_append: "split_slash (a @ CHR ''/'' # b) = split_slash a @ split_slash b"
proof (induction a)
  case (Cons c a)
  then show ?case by (cases "split_slash a") simp_all
qed simp

lemma split_slash_element: "CHR ''/'' \<notin> set c \<Longrightarrow> split_slash c = [c]"
  by (induction c) auto

lemma split_slash_join:
  "list_all plain_element cs \<Longrightarrow> cs \<noteq> [] \<Longrightarrow> split_slash (join_with ''/'' cs) = cs"
proof (induction cs)
  case (Cons c cs)
  then show ?case
    by (cases cs) (simp_all add: plain_element_def split_slash_element split_slash_append)
qed simp

lemma split_slash_elements: "c \<in> set (split_slash s) \<Longrightarrow> CHR ''/'' \<notin> set c"
proof (induction s arbitrary: c)
  case (Cons a s)
  then show ?case by (cases "split_slash s") (auto split: if_splits)
qed simp

lemma clean_plain: "list_all plain_element cs \<Longrightarrow> foldl (clean_step r) st cs = rev cs @ st"
  by (induction cs arbitrary: st) (simp_all add: clean_step_def plain_element_def)

lemma clean_rooted:
  assumes "list_all (\<lambda>c. CHR ''/'' \<notin> set c) segs" and "list_all plain_element st"
  shows "list_all plain_element (foldl (clean_step True) st segs)"
  using assms
proof (induction segs arbitrary: st)
  case (Cons s segs)
  have "list_all plain_element (clean_step True st s)"
    using Cons.prems by (cases st) (auto simp: clean_step_def plain_element_def [of s] dest: plain_element_not_up)
  then show ?case using Cons by simp
qed simp

lemma clean_elements_rooted: "rooted p \<Longrightarrow> list_all plain_element (clean_elements p)"
proof -
  assume r: "rooted p"
  have "list_all (\<lambda>c. CHR ''/'' \<notin> set c) (split_slash p)"
    using split_slash_elements by (auto simp: list_all_iff)
  then have "list_all plain_element (foldl (clean_step True) [] (split_slash p))" by (rule clean_rooted) simp
  then show ?thesis using r by (simp add: clean_elements_def)
qed

lemma clean_elements_below:
  assumes "d \<noteq> []" and "list_all plain_element cs"
  shows "clean_elements (d @ CHR ''/'' # CHR ''/'' # join_with ''/'' cs) = clean_elements d @ cs"
proof -
  have r: "rooted (d @ CHR ''/'' # CHR ''/'' # join_with ''/'' cs) = rooted d"
    using assms(1) by (simp add: rooted_def)
  have empty: "clean_step r st [] = st" for r st by (simp add: clean_step_def)
  have "foldl (clean_step r) st (split_slash (join_with ''/'' cs)) = rev cs @ st" for r st
    using assms(2) clean_plain split_slash_join by (cases "cs = []") (simp_all add: empty)
  then show ?thesis
    by (simp add: clean_elements_def r split_slash_append empty)
qed

section \<open>Guarantees\<close>

text \<open>
  C26 No file outside the website directory is served: for every path that begins with a slash,
  however many dots it has, the file that is served lies below the directory - its cleaned name
  is that of the directory followed by elements that are neither empty nor \<open>.\<close> nor \<open>..\<close>.
\<close>

theorem website_confined:
  assumes "rooted (rq_Path r)" and "sv_WebsiteDirectory s \<noteq> []"
  shows "\<exists>elems. list_all plain_element elems \<and>
    website_file s r = path_text (rooted (sv_WebsiteDirectory s)) (clean_elements (sv_WebsiteDirectory s) @ elems)"
proof -
  let ?d = "sv_WebsiteDirectory s" and ?cs = "clean_elements (rq_Path r)"
  have p: "rq_Path r \<noteq> []" using assms(1) by (simp add: rooted_def)
  have cs: "list_all plain_element ?cs" using clean_elements_rooted [OF assms(1)] .
  have "path_Clean (rq_Path r) = CHR ''/'' # join_with ''/'' ?cs"
    using assms(1) p by (simp add: path_Clean_def path_text_def Let_def)
  then have "website_file s r = path_Clean (?d @ CHR ''/'' # CHR ''/'' # join_with ''/'' ?cs)"
    using assms(2) by (simp add: website_file_def path_Join_def Let_def)
  also have "\<dots> = path_text (rooted ?d) (clean_elements ?d @ ?cs)"
    using assms(2) clean_elements_below [OF assms(2) cs] by (simp add: path_Clean_def) (simp add: rooted_def)
  finally show ?thesis using cs by blast
qed

theorem website_confined_witness:
  "\<exists>elems. list_all plain_element elems \<and>
    website_file (NewServer\<lparr>sv_WebsiteDirectory := ''/srv/www/''\<rparr>) (example_upgrade\<lparr>rq_Path := ''/../..//etc/passwd''\<rparr>) =
      path_text (rooted ''/srv/www/'') (clean_elements ''/srv/www/'' @ elems)"
  using website_confined [of "example_upgrade\<lparr>rq_Path := ''/../..//etc/passwd''\<rparr>" "NewServer\<lparr>sv_WebsiteDirectory := ''/srv/www/''\<rparr>"]
  by (simp add: rooted_def)

text \<open>
  C27 What the API does: a request changes nothing except that \<^verbatim>\<open>DELETE\<close> on a
  client closes exactly the socket of this client, and only if the API is enabled and the user
  is one of the configured users, or none are configured. Whoever is refused gets an error.
\<close>

theorem api_access:
  assumes "serveAPI x ht s r username w rw = (w', rw')" and "rs_status rw = None"
  shows "(w' = w \<or> (\<exists>a b clientID i. sv_APIEnabled s \<and> (sv_APIUsers s = [] \<or> map_of (sv_APIUsers s) username = Some True) \<and>
      rq_Method r = ''DELETE'' \<and> split_slash (rq_Path r) = [a, b, apiRouteClients, clientID] \<and>
      map_of (sv_sockets s) clientID = Some i \<and> w' = Close x i w)) \<and>
    (\<not> sv_APIEnabled s \<longrightarrow> rs_status rw' = Some 400) \<and>
    (sv_APIEnabled s \<and> sv_APIUsers s \<noteq> [] \<and> map_of (sv_APIUsers s) username \<noteq> Some True \<longrightarrow> rs_status rw' = Some 403)"
  using assms
  by (auto simp: serveAPI_def api_client_def split: if_splits list.splits option.splits)

theorem api_access_witness:
  "\<exists>w' rw'. serveAPI demo_ext example_http (NewServer\<lparr>sv_APIEnabled := True, sv_APIUsers := [(''alice'', True)]\<rparr>)
      (example_upgrade\<lparr>rq_Path := ''/api/clients/c'', rq_Method := ''DELETE''\<rparr>) ''mallory'' example_joined empty_response = (w', rw') \<and>
    rs_status rw' = Some 403 \<and> w' = example_joined"
proof -
  let ?s = "NewServer\<lparr>sv_APIEnabled := True, sv_APIUsers := [(''alice'', True)]\<rparr>"
  obtain w' rw' where r: "serveAPI demo_ext example_http ?s (example_upgrade\<lparr>rq_Path := ''/api/clients/c'', rq_Method := ''DELETE''\<rparr>)
      ''mallory'' example_joined empty_response = (w', rw')" by fastforce
  have "rs_status empty_response = None" by (simp add: empty_response_def)
  from api_access [OF r this] r show ?thesis by auto
qed

end
