(* ===== verification/Conn_Mark.thy ===== *)
theory Conn_Mark
  imports Iface_Config
begin

text \<open>
  The firewall mark of a connection (\<^verbatim>\<open>client/clients/connection_linux.go\<close>,
  \<^verbatim>\<open>connection_other.go\<close> and the dialer callback of
  \<^verbatim>\<open>dial.go\<close>): on Linux the socket under a connection gets the option
  \<^verbatim>\<open>SO_MARK\<close>, on the other systems nothing happens.
\<close>

text \<open>
  What the type switch sees of a \<^verbatim>\<open>net.Conn\<close>: a connection that gives access to
  its socket (with the socket's number), a TLS connection around another one, or anything else.
\<close>

datatype net_conn = RawSocket nat | TLSConn net_conn | OtherConn

text \<open>
  \<^verbatim>\<open>conn.SyscallConn()\<close>; \<^verbatim>\<open>RawConn.Control(f)\<close>, which either fails
  or calls \<open>f\<close> with the file descriptor; and \<^verbatim>\<open>unix.SetsockoptInt\<close>.
\<close>

record 'e mark_ext =
  conn_SyscallConn :: "'e \<Rightarrow> nat \<Rightarrow> 'e \<times> string option"
  raw_Control :: "'e \<Rightarrow> nat \<Rightarrow> 'e \<times> (string + nat)"
  unix_SetsockoptInt :: "'e \<Rightarrow> nat \<Rightarrow> int \<Rightarrow> int \<Rightarrow> int \<Rightarrow> 'e \<times> string option"

definition SOL_SOCKET :: int where "SOL_SOCKET = 1"

definition fwmarkIoctl :: int where "fwmarkIoctl = 36"

definition ErrUnknownConnType :: go_error where "ErrUnknownConnType = GoErr ''not a known conn type''"

definition linux_setFirewallMarkRaw :: "'e mark_ext \<Rightarrow> 'e \<Rightarrow> nat \<Rightarrow> int \<Rightarrow> 'e \<times> go_error option" where
  "linux_setFirewallMarkRaw m e s mark =
     (case raw_Control m e s of
        (e1, Inl err) \<Rightarrow> (e1, Some (GoErr err))
      | (e1, Inr fd) \<Rightarrow>
          (case unix_SetsockoptInt m e1 fd SOL_SOCKET fwmarkIoctl mark of (e2, operr) \<Rightarrow> (e2, map_option GoErr operr)))"

primrec linux_setFirewallMark :: "'e mark_ext \<Rightarrow> 'e \<Rightarrow> net_conn \<Rightarrow> int \<Rightarrow> 'e \<times> go_error option" where
  "linux_setFirewallMark m e (RawSocket s) mark =
     (case conn_SyscallConn m e s of
        (e1, Some err) \<Rightarrow> (e1, Some (GoErr err))
      | (e1, None) \<Rightarrow> linux_setFirewallMarkRaw m e1 s mark)"
| "linux_setFirewallMark m e (TLSConn conn) mark = linux_setFirewallMark m e conn mark"
| "linux_setFirewallMark m e OtherConn mark = (e, Some ErrUnknownConnType)"

text \<open>The build for the other systems.\<close>

definition other_setFirewallMark :: "'e \<Rightarrow> net_conn \<Rightarrow> int \<Rightarrow> 'e \<times> go_error option" where
  "other_setFirewallMark e conn mark = (e, None)"

definition other_setFirewallMarkRaw :: "'e \<Rightarrow> nat \<Rightarrow> int \<Rightarrow> 'e \<times> go_error option" where
  "other_setFirewallMarkRaw e s mark = (e, None)"

definition setFirewallMark :: "platform \<Rightarrow> 'e mark_ext \<Rightarrow> 'e \<Rightarrow> net_conn \<Rightarrow> int \<Rightarrow> 'e \<times> go_error option" where
  "setFirewallMark p m e conn mark =
     (if p = Linux then linux_setFirewallMark m e conn mark else other_setFirewallMark e conn mark)"

definition setFirewallMarkRaw :: "platform \<Rightarrow> 'e mark_ext \<Rightarrow> 'e \<Rightarrow> nat \<Rightarrow> int \<Rightarrow> 'e \<times> go_error option" where
  "setFirewallMarkRaw p m e s mark =
     (if p = Linux then linux_setFirewallMarkRaw m e s mark else other_setFirewallMarkRaw e s mark)"

section \<open>The socket that is marked\<close>

primrec bottom_socket :: "net_conn \<Rightarrow> nat option" where
  "bottom_socket (RawSocket s) = Some s"
| "bottom_socket (TLSConn conn) = bottom_socket conn"
| "bottom_socket OtherConn = None"

text \<open>What the kernel promises: an option that was set without an error is set.\<close>

definition sets_mark :: "'e mark_ext \<Rightarrow> ('e \<Rightarrow> nat \<Rightarrow> int) \<Rightarrow> bool" where
  "sets_mark m so_mark \<longleftrightarrow> (\<forall>e s e1 fd v e2. raw_Control m e s = (e1, Inr fd) \<longrightarrow>
     unix_SetsockoptInt m e1 fd SOL_SOCKET fwmarkIoctl v = (e2, None) \<longrightarrow> so_mark e2 s = v)"

lemma linux_mark_raw:
  "sets_mark m so_mark \<Longrightarrow> linux_setFirewallMarkRaw m e s mark = (e', None) \<Longrightarrow> so_mark e' s = mark"
  unfolding sets_mark_def linux_setFirewallMarkRaw_def
  by (force split: prod.splits sum.splits)

lemma linux_mark_bottom:
  "sets_mark m so_mark \<Longrightarrow> linux_setFirewallMark m e conn mark = (e', None) \<Longrightarrow>
   \<exists>s. bottom_socket conn = Some s \<and> so_mark e' s = mark"
  by (induction conn) (auto dest: linux_mark_raw split: prod.splits option.splits)

lemma linux_mark_unknown: "bottom_socket conn = None \<Longrightarrow> linux_setFirewallMark m e conn mark = (e, Some ErrUnknownConnType)"
  by (induction conn) simp_all

end
