(* ===== verification/Program_Start.thy ===== *)
theory Program_Start
  imports Config_Base Conn_Mark
begin

text \<open>
  What both programs do before they connect or listen: the command line
  (\<^verbatim>\<open>shared/cli/flags.go\<close>, the three \<^verbatim>\<open>main.go\<close>), the
  configuration file over the built-in one (\<^verbatim>\<open>shared/config.go\<close> and
  \<^verbatim>\<open>Load\<close>), the texts of \<^verbatim>\<open>shared/log.go\<close> and
  \<^verbatim>\<open>version.go\<close>, and the driver library (\<^verbatim>\<open>InitializeWater\<close>).
\<close>

section \<open>The command line\<close>

text \<open>The options as the \<^verbatim>\<open>flag\<close> package has parsed them, if they were given.\<close>

record flags =
  fl_config :: "string option"
  fl_print_default_config :: "bool option"
  fl_mode :: "string option"

definition LoadFlags :: "string \<Rightarrow> flags \<Rightarrow> string \<times> bool" where
  "LoadFlags configName fl =
     (case fl_config fl of None \<Rightarrow> configName | Some c \<Rightarrow> c,
      case fl_print_default_config fl of None \<Rightarrow> False | Some b \<Rightarrow> b)"

text \<open>The program that is run, with the name of its configuration file; or the panic of \<^verbatim>\<open>main\<close>.\<close>

datatype program = RunClient string bool | RunServer string bool

definition client_main :: "flags \<Rightarrow> program" where
  "client_main fl = (case LoadFlags ''client.yml'' fl of (config, printDefaultConfig) \<Rightarrow> RunClient config printDefaultConfig)"

definition server_main :: "flags \<Rightarrow> program" where
  "server_main fl = (case LoadFlags ''server.yml'' fl of (config, printDefaultConfig) \<Rightarrow> RunServer config printDefaultConfig)"

definition wsvpn_main :: "flags \<Rightarrow> string + program" where
  "wsvpn_main fl =
     (let mode = (case fl_mode fl of None \<Rightarrow> [] | Some m \<Rightarrow> m) in
      case LoadFlags ''MODE.yml'' fl of (config, printDefaultConfig) \<Rightarrow>
        let config' = (if config = ''MODE.yml'' then mode @ ''.yml'' else config) in
        if mode = ''client'' then Inr (RunClient config' printDefaultConfig)
        else if mode = ''server'' then Inr (RunServer config' printDefaultConfig)
        else Inl ''please choose a valid mode: client or server'')"

lemma wsvpn_main_modes:
  "wsvpn_main fl = Inr (RunClient c b) \<longleftrightarrow> fl_mode fl = Some ''client'' \<and>
     (c, b) = (if fl_config fl \<in> {None, Some ''MODE.yml''} then (''client.yml'', snd (LoadFlags [] fl)) else LoadFlags [] fl)"
  "wsvpn_main fl = Inr (RunServer c b) \<longleftrightarrow> fl_mode fl = Some ''server'' \<and>
     (c, b) = (if fl_config fl \<in> {None, Some ''MODE.yml''} then (''server.yml'', snd (LoadFlags [] fl)) else LoadFlags [] fl)"
  by (auto simp: wsvpn_main_def LoadFlags_def Let_def split: option.splits if_splits)

section \<open>Texts\<close>

definition makeLoggerPrefix :: "string \<Rightarrow> string \<Rightarrow> string" where
  "makeLoggerPrefix logType prefix = ''['' @ logType @ ''-'' @ prefix @ ''] ''"

text \<open>The prefix of a new logger, and after \<^verbatim>\<open>UpdateLogger\<close>.\<close>

definition MakeLogger :: "string \<Rightarrow> string \<Rightarrow> string" where
  "MakeLogger logType prefix = makeLoggerPrefix logType (if prefix = [] then ''UNSET'' else prefix)"

definition UpdateLogger :: "string \<Rightarrow> string \<Rightarrow> string" where
  "UpdateLogger logType prefix = makeLoggerPrefix logType prefix"

definition newline :: string where "newline = [char_of (10 :: nat)]"

definition UsageWithVersion :: "string \<Rightarrow> string" where
  "UsageWithVersion arg0 = ''WSVPN version '' @ Version @ newline @ ''Usage of '' @ arg0 @ '':'' @ newline"

definition PrintVersion :: string where
  "PrintVersion = ''Local version is: '' @ Version @ '' (protocol '' @ Itoa ProtocolVersion @ '')''"

section \<open>Configuration files\<close>

text \<open>
  \<^verbatim>\<open>yaml.Decoder.Decode\<close> as a function of the text and the value it decodes into;
  \<open>file_text\<close> opens a file and reads it.
\<close>

definition LoadConfigReader :: "(string \<Rightarrow> 'c \<Rightarrow> string + 'c) \<Rightarrow> string \<Rightarrow> 'c \<Rightarrow> string + 'c" where
  "LoadConfigReader yaml_Decode reader out = yaml_Decode reader out"

definition LoadConfigFile :: "(string \<Rightarrow> 'c \<Rightarrow> string + 'c) \<Rightarrow> ('e \<Rightarrow> string \<Rightarrow> 'e \<times> (string + string)) \<Rightarrow> 'e \<Rightarrow> string \<Rightarrow> 'c
    \<Rightarrow> 'e \<times> (string + 'c)" where
  "LoadConfigFile yaml_Decode file_text e file out = (case file_text e file of
     (e', Inl err) \<Rightarrow> (e', Inl err)
   | (e', Inr reader) \<Rightarrow> (e', LoadConfigReader yaml_Decode reader out))"

text \<open>The body of both functions \<^verbatim>\<open>Load\<close>: the built-in configuration, then the file.\<close>

definition Load_over :: "'c \<Rightarrow> string \<Rightarrow> (string \<Rightarrow> 'c \<Rightarrow> string + 'c) \<Rightarrow> ('e \<Rightarrow> string \<Rightarrow> 'e \<times> (string + string)) \<Rightarrow> 'e \<Rightarrow> string
    \<Rightarrow> 'e \<times> (string + 'c)" where
  "Load_over zero defaultConfig yaml_Decode file_text e file = (case LoadConfigReader yaml_Decode defaultConfig zero of
     Inl err \<Rightarrow> (e, Inl err)
   | Inr out \<Rightarrow> LoadConfigFile yaml_Decode file_text e file out)"

section \<open>The driver library\<close>

record 'e wintun_ext =
  wintunDll :: bytes
  os_Executable :: "'e \<Rightarrow> 'e \<times> (string + string)"
  filepath_Dir :: "string \<Rightarrow> string"
  filepath_Join :: "string \<Rightarrow> string \<Rightarrow> string"
  os_Create :: "'e \<Rightarrow> string \<Rightarrow> 'e \<times> (string + nat)"
  file_Write :: "'e \<Rightarrow> nat \<Rightarrow> bytes \<Rightarrow> 'e \<times> string option"
  file_Close :: "'e \<Rightarrow> nat \<Rightarrow> 'e"

definition linux_InitializeWater :: "'e \<Rightarrow> 'e \<times> go_error option" where
  "linux_InitializeWater e = (e, None)"

definition darwin_InitializeWater :: "'e \<Rightarrow> 'e \<times> go_error option" where
  "darwin_InitializeWater e = (e, None)"

definition windows_InitializeWater :: "'e wintun_ext \<Rightarrow> 'e \<Rightarrow> 'e \<times> go_error option" where
  "windows_InitializeWater wt e =
     (if length (wintunDll wt) < 1 then (e, Some (GoErr ''could not find embedded wintun.dll''))
      else (case os_Executable wt e of
        (e1, Inl err) \<Rightarrow> (e1, Some (GoErr err))
      | (e1, Inr execFileName) \<Rightarrow>
          (case os_Create wt e1 (filepath_Join wt (filepath_Dir wt execFileName) ''wintun.dll'') of
             (e2, Inl err) \<Rightarrow> (e2, Some (GoErr err))
           | (e2, Inr fh) \<Rightarrow> (case file_Write wt e2 fh (wintunDll wt) of
               (e3, err) \<Rightarrow> (file_Close wt e3 fh, map_option GoErr err)))))"

definition InitializeWater :: "platform \<Rightarrow> 'e wintun_ext \<Rightarrow> 'e \<Rightarrow> 'e \<times> go_error option" where
  "InitializeWater p wt e = (case p of
     Linux \<Rightarrow> linux_InitializeWater e | Darwin \<Rightarrow> darwin_InitializeWater e | Windows \<Rightarrow> windows_InitializeWater wt e)"

end
