(* ===== verification/Server_Main.thy ===== *)
theory Server_Main
  imports Server_TLS Server_Life Web Program_Start
begin

text \<open>
  The server program as a whole (\<^verbatim>\<open>Main\<close> of \<^verbatim>\<open>server/cli/base.go\<close>):
  the first configuration, \<^verbatim>\<open>Serve\<close>, and then, in any order, reloads, requests,
  connections and packets. What Go dereferences without a test - the authenticator, the interface
  configuration, the main interface, the packet handler, the current TLS configuration - is
  shown to be there as long as the program runs.
\<close>

section \<open>Main\<close>

definition zero_ServerConfig :: ServerConfig where
  "zero_ServerConfig = \<lparr>sc_MTU = 0, sc_Subnet = [], sc_Mode = [], sc_AllowClientToClient = False,
     sc_AllowIPSpoofing = False, sc_AllowUnknownEtherTypes = False, sc_AllowMACChanging = False,
     sc_AllowedMACsPerConnection = 0, sc_Features = [], sc_IPConfig_Local = False, sc_IPConfig_Remote = False,
     sc_Ping = \<lparr>pc_Interval = 0, pc_Timeout = 0\<rparr>,
     sc_Interface = \<lparr>ifc_Name = [], ifc_Persist = False, ifc_ComponentID = [], ifc_OneInterfacePerConnection = False\<rparr>,
     sc_Scripts = \<lparr>ec_Up = [], ec_Down = [], ec_Startup = []\<rparr>, sc_Listen = [], sc_EnableHTTP3 = False,
     sc_Headers = [], sc_TLS_ClientCA = [], sc_TLS_Certificate = [], sc_TLS_Key = [],
     sc_TLS_Config = \<lparr>tf_MinVersion = [], tf_MaxVersion = [], tf_KeyLogFile = [], tf_Insecure = False\<rparr>,
     sc_Authenticator_Type = [], sc_Authenticator_Config = [], sc_PreauthorizeSecret = [],
     sc_MaxConnectionsPerUser = 0, sc_MaxConnectionsPerUserMode = [], sc_WebsiteDirectory = [],
     sc_API_Enabled = False, sc_API_Users = []\<rparr>"

text \<open>The built-in configuration and the YAML library are parameters.\<close>

record server_files =
  sf_defaultConfig :: string
  sf_Decode :: "string \<Rightarrow> ServerConfig \<Rightarrow> string + ServerConfig"

definition server_Load :: "'e os_ext \<Rightarrow> server_files \<Rightarrow> 'e \<Rightarrow> string \<Rightarrow> 'e \<times> (string + ServerConfig)" where
  "server_Load os sf e file = Load_over zero_ServerConfig (sf_defaultConfig sf) (sf_Decode sf) (os_ReadFile os) e file"

text \<open>\<^verbatim>\<open>reloadConfig\<close> with the reading of its file.\<close>

definition reload_from :: "('e, 'l) ext \<Rightarrow> 'e os_ext \<Rightarrow> 'e auth_ext \<Rightarrow> server_files \<Rightarrow> string \<Rightarrow> bool
    \<Rightarrow> ('e, 'l) process \<Rightarrow> ('e, 'l) reloaded" where
  "reload_from x os au sf configPtr initialConfig pr =
     (case server_Load os sf (w_env (pr_world pr)) configPtr of
        (e, loaded) \<Rightarrow> server_reloadConfig x os au loaded initialConfig (pr\<lparr>pr_world := (pr_world pr)\<lparr>w_env := e\<rparr>\<rparr>))"

text \<open>
  How \<^verbatim>\<open>Main\<close> goes: it prints the built-in configuration, runs into a panic of Go, panics
  with an error after \<^verbatim>\<open>Close\<close>, or waits in \<^verbatim>\<open>Serve\<close> with its goroutines.
\<close>

datatype ('e, 'l) main_state =
    Printed string
  | Crashed
  | Stopped "server \<times> ('e, 'l) world" string
  | Serving "('e, 'l) process" "server_task list"

definition server_panic :: "('e, 'l) ext \<Rightarrow> 'e life_ext \<Rightarrow> ('e, 'l) process \<Rightarrow> string \<Rightarrow> ('e, 'l) main_state" where
  "server_panic x le pr err = Stopped (server_Close x le (pr_server pr, pr_world pr)) err"

definition server_Main_configured :: "platform \<Rightarrow> ('e, 'l) ext \<Rightarrow> 'e iface_ext \<Rightarrow> 'e life_ext
    \<Rightarrow> ('e, 'l) process \<Rightarrow> ('e, 'l) main_state" where
  "server_Main_configured p x io le pr = (case Serve_begin p x io pr of
     Panic \<Rightarrow> Crashed
   | Ret (pr', Inl err) \<Rightarrow> server_panic x le pr' (Error err)
   | Ret (pr', Inr tasks) \<Rightarrow> Serving pr' tasks)"

definition server_Main :: "platform \<Rightarrow> ('e, 'l) ext \<Rightarrow> 'e iface_ext \<Rightarrow> 'e life_ext \<Rightarrow> 'e os_ext \<Rightarrow> 'e auth_ext
    \<Rightarrow> 'e wintun_ext \<Rightarrow> server_files \<Rightarrow> string \<Rightarrow> bool \<Rightarrow> ('e, 'l) world \<Rightarrow> ('e, 'l) main_state" where
  "server_Main p x io le os au wt sf configPtr printDefaultConfig w =
     (if printDefaultConfig then Printed (sf_defaultConfig sf)
      else
        let pr0 = \<lparr>pr_server = NewServer, pr_world = w\<lparr>w_env := fst (InitializeWater p wt (w_env w)), w_handler := None\<rparr>,
              pr_tlsConfig = None\<rparr> in
        (case uuid_NewRandom x (w_env (pr_world pr0)) of
           (e, Inl err) \<Rightarrow> server_panic x le (pr0\<lparr>pr_world := (pr_world pr0)\<lparr>w_env := e\<rparr>\<rparr>) err
         | (e, Inr serverUUID) \<Rightarrow>
             let pr1 = on_server (\<lambda>s. SetServerID s serverUUID) (pr0\<lparr>pr_world := (pr_world pr0)\<lparr>w_env := e\<rparr>\<rparr>) in
             (case reload_from x os au sf configPtr True pr1 of
                Panic \<Rightarrow> Crashed
              | Ret (pr2, Some err) \<Rightarrow> server_panic x le pr2 (Error err)
              | Ret (pr2, None) \<Rightarrow> server_Main_configured p x io le pr2)))"

text \<open>The end: \<^verbatim>\<open>Serve\<close> returns, and the deferred \<^verbatim>\<open>Close\<close> runs.\<close>

definition server_Main_end :: "('e, 'l) ext \<Rightarrow> 'e life_ext \<Rightarrow> ('e, 'l) process \<Rightarrow> (server \<times> ('e, 'l) world) \<times> serve_error option" where
  "server_Main_end x le pr = (case Serve_end x le (pr_server pr, pr_world pr) of (sw, err) \<Rightarrow> (server_Close x le sw, err))"

section \<open>The running program\<close>

text \<open>
  The signal handler reloads; the HTTP servers call the handler of requests; the handler of a
  connection goes through its sections; sockets, switches and timers do what they do.
\<close>

inductive running_step :: "platform \<Rightarrow> ('e, 'l) ext \<Rightarrow> 'e iface_ext \<Rightarrow> 'e http_ext \<Rightarrow> 'e os_ext \<Rightarrow> 'e auth_ext \<Rightarrow> server_files \<Rightarrow> string
    \<Rightarrow> ('e, 'l) process \<Rightarrow> ('e, 'l) process \<Rightarrow> bool" for p x io ht os au sf configPtr where
  sighup: "reload_from x os au sf configPtr False pr = Ret (pr', err) \<Longrightarrow> running_step p x io ht os au sf configPtr pr pr'"
| request: "serve_request x ht au (pr_server pr) hs r rw (w_env (pr_world pr)) st = Ret (e, st', rw', out) \<Longrightarrow>
    running_step p x io ht os au sf configPtr pr (pr\<lparr>pr_world := (pr_world pr)\<lparr>w_env := e\<rparr>\<rparr>)"
| web_page: "serveHTTP x ht (pr_server pr) r user (pr_world pr) rw = (w, rw') \<Longrightarrow>
    running_step p x io ht os au sf configPtr pr (pr\<lparr>pr_world := w\<rparr>)"
| accepted: "accept_conn p x io cid user i ad (pr_server pr) (pr_world pr) = Some (Ret (s, w, c)) \<Longrightarrow>
    running_step p x io ht os au sf configPtr pr (pr\<lparr>pr_server := s, pr_world := w\<rparr>)"
| welcomed: "send_init x ci (pr_server pr) (pr_world pr) = (s, w, c) \<Longrightarrow>
    running_step p x io ht os au sf configPtr pr (pr\<lparr>pr_server := s, pr_world := w\<rparr>)"
| finished: "finish_conn x ci (pr_server pr) (pr_world pr) = (s, w) \<Longrightarrow>
    running_step p x io ht os au sf configPtr pr (pr\<lparr>pr_server := s, pr_world := w\<rparr>)"
| switched: "server_step x (pr_world pr) w \<Longrightarrow> running_step p x io ht os au sf configPtr pr (pr\<lparr>pr_world := w\<rparr>)"

section \<open>What stays\<close>

text \<open>The fields of the server that the handlers of connections never set.\<close>

definition server_core :: "server \<Rightarrow> (VPNNet \<times> VPNMode \<times> string \<times> bool \<times> TLSConfig option \<times> bool option) \<times>
    authenticator option \<times> WaterInterfaceWrapper option" where
  "server_core s = (network s, sv_Authenticator s, sv_mainIface s)"

lemma server_core_simps [simp]:
  "server_core (addCloser s c) = server_core s" "server_core (freeSlot k s) = server_core s"
  "server_core (s\<lparr>sv_usedSlots := u\<rparr>) = server_core s" "server_core (releaseSocket user cid i s) = server_core s"
  "server_core (s\<lparr>sv_upgraders := us\<rparr>) = server_core s" "server_core (wait_Add s n) = server_core s"
  "server_core (setUpgraderHeaders s) = server_core s" "server_core (addUpgrader s up) = server_core s"
  "server_core (setServeError s err) = server_core s"
  by (auto simp: server_core_def network_def addCloser_def freeSlot_def releaseSocket_def wait_Add_def setUpgraderHeaders_def
      addUpgrader_def setServeError_def Let_def split: option.splits)

lemma admitSocket_core: "admitSocket x user cid i s w = (s', w', b) \<Longrightarrow> server_core s' = server_core s \<and> handler_kind w' = handler_kind w"
  by (auto simp: admitSocket_def server_core_def network_def Let_def handler_kind_CloseError split: if_splits option.splits)

lemma handler_kind_world [simp]:
  "handler_kind (spawn gr w) = handler_kind w" "handler_kind (push_event i evt w) = handler_kind w"
  "handler_kind (close_adapter x i w) = handler_kind w" "handler_kind (close_wrapper x v w) = handler_kind w"
  "handler_kind (set_macs m w) = Some False" "handler_kind (w\<lparr>w_handler := Some (IPH g)\<rparr>) = Some True"
  "handler_kind (w\<lparr>w_handler := Some (MACH m)\<rparr>) = Some False"
  by (simp_all add: handler_kind_def close_adapter_def close_wrapper_def)

lemma handler_kind_unreg: "w_handler w' = unregistered x i w \<Longrightarrow> handler_kind w' = handler_kind w"
  using handler_kind_unregistered [of x i w] by (auto simp: handler_kind_def unregistered_def split: if_splits)

lemma handler_kind_Close [simp]: "handler_kind (Close x i w) = handler_kind w"
proof -
  have "handler_kind (sock_close x i True w) = handler_kind w"
    by (rule handler_kind_unreg) (simp add: sock_simps)
  then show ?thesis by (simp add: Close_def)
qed

lemma handler_kind_CloseErr [simp]: "handler_kind (CloseError x i err w) = handler_kind w"
  by (rule handler_kind_CloseError)

lemma handler_kind_Register [simp]: "handler_kind (RegisterSocket x i w) = handler_kind w"
proof (cases "w_handler w")
  case (Some h)
  then show ?thesis
    by (cases h) (auto simp: RegisterSocket_def ips_RegisterSocket_def macs_Register_def handler_kind_def [of w] Let_def
        split: prod.splits option.splits)
qed (simp add: RegisterSocket_def)

lemma handler_kind_Serve [simp]: "handler_kind (Serve x i w) = handler_kind w"
  by (simp add: Serve_def Serve_start_def Serve_ready_def tryServeIfaceRead_def Let_def)

lemma handler_kind_Write: "WritePacket x i data w = Some (Ret (w', err)) \<Longrightarrow> handler_kind w' = handler_kind w"
  using WritePacket_frame(2) [of x i data w w' err] handler_kind_unreg by (auto simp: handler_kind_def)

lemma handler_kind_write_all: "write_all x is data w = Some (Ret w') \<Longrightarrow> handler_kind w' = handler_kind w"
  by (induction "is" arbitrary: w) (auto simp: run_return_def run_bind_eq_Ret dest!: handler_kind_Write)

lemma handler_kind_ips: "ips_HandlePacket x g so packet w = Some (Ret (w', b)) \<Longrightarrow> handler_kind w' = handler_kind w"
  by (auto simp: ips_HandlePacket_def ips_broadcastDataMessage_def Let_def run_return_def run_bind_eq_Ret
      split: if_splits option.splits dest!: handler_kind_Write handler_kind_write_all)

lemma handler_kind_macs:
  assumes g: "w_handler w = Some (MACH g)" and h: "macs_HandlePacket x now g so packet w = Some (Ret (w', b))"
  shows "handler_kind w' = handler_kind w"
proof -
  have k: "handler_kind w = Some False" using g by (simp add: handler_kind_def)
  have learn: "handler_kind (fst (setMACFrom x now g i msg w)) = Some False" for i msg
    using k by (simp add: setMACFrom_def Let_def split: option.splits)
  have fwd: "macs_forward x m so packet v = Some (Ret (w', b)) \<Longrightarrow> handler_kind w' = handler_kind v" for m v
    by (auto simp: macs_forward_def macs_broadcastDataMessage_def Let_def run_return_def run_bind_eq_Ret
        split: if_splits option.splits dest!: handler_kind_Write handler_kind_write_all)
  show ?thesis
  proof (cases so)
    case None
    then show ?thesis
      using h fwd by (auto simp: macs_HandlePacket_def Let_def run_return_def split: if_splits)
  next
    case (Some i)
    obtain w1 r where s: "setMACFrom x now g i packet w = (w1, r)" by fastforce
    show ?thesis
      using h Some s learn [of i packet] fwd [of _ w1] k
      by (auto simp: macs_HandlePacket_def Let_def run_return_def split: if_splits bool.splits)
  qed
qed

lemma handler_kind_HandlePacket: "HandlePacket x now so packet w = Some (Ret (w', b)) \<Longrightarrow> handler_kind w' = handler_kind w"
  by (auto simp: HandlePacket_def run_return_def dest: handler_kind_ips handler_kind_macs
      split: option.splits PacketHandler.splits)

lemma handler_kind_iface_write [simp]: "handler_kind (fst (iface_write x d packet w)) = handler_kind w"
  by (simp add: iface_write_def split: option.splits prod.splits)

lemma handler_kind_data: "dataMessageHandler x now i msg w = Some (Ret (w', b)) \<Longrightarrow> handler_kind w' = handler_kind w"
proof -
  have iw: "iface_write x d packet v = (w', b) \<Longrightarrow> handler_kind w' = handler_kind v" for d packet v
    using handler_kind_iface_write [of x d packet v] by simp
  have pp: "processPacket x now i packet v = Some (Ret (w', b)) \<Longrightarrow> handler_kind w' = handler_kind v" for packet v
    by (auto simp: processPacket_def run_return_def run_bind_eq_Ret split: if_splits dest!: handler_kind_HandlePacket iw)
  show "dataMessageHandler x now i msg w = Some (Ret (w', b)) \<Longrightarrow> handler_kind w' = handler_kind w"
    by (auto simp: dataMessageHandler_def run_return_def split: prod.splits data_action.splits dest: pp)
qed

lemma handler_kind_step: "server_step x w w' \<Longrightarrow> handler_kind w' = handler_kind w"
proof (induction rule: server_step.induct)
  case (reload w h c2c sp un chg n t)
  then show ?case by (cases h) (simp_all add: handler_kind_def)
next
  case (config_update w g g')
  then show ?case by (simp add: handler_kind_def [of w])
next
  case (clean_up w g now g')
  then show ?case by (simp add: handler_kind_def [of w])
qed (auto dest: handler_kind_data handler_kind_HandlePacket handler_kind_Write)

lemma connect_socket_core:
  "connect_socket x ci n s w = (s', w', c) \<Longrightarrow> server_core s' = server_core s \<and> handler_kind w' = handler_kind w"
  by (auto simp: connect_socket_def Let_def dest!: admitSocket_core split: prod.splits bool.splits option.splits)

lemma open_interface_kind: "open_interface p x io s ic ip w = (w', v) \<Longrightarrow> handler_kind w' = handler_kind w"
  by (auto simp: open_interface_def split: prod.splits sum.splits option.splits if_splits)

lemma accept_conn_core:
  assumes "accept_conn p x io cid user i ad s w = Some (Ret (s', w', c))"
  shows "server_core s' = server_core s \<and> handler_kind w' = handler_kind w"
proof -
  obtain s1 found where al: "allocSlot x (addCloser s (CloseAdapter i)) = Some (Ret (s1, found))"
    using assms by (auto simp: accept_conn_def run_bind_def Let_def split: option.splits go.splits)
  have c1: "server_core s1 = server_core s"
    using allocSlot_outcome [OF al] by (auto split: option.splits)
  show ?thesis
    using assms al c1
    by (auto simp: accept_conn_def run_return_def Let_def dest!: open_interface_kind connect_socket_core
        split: sum.splits option.splits if_splits prod.splits)
qed

lemma finish_conn_core:
  "finish_conn x ci s w = (s', w') \<Longrightarrow> server_core s' = server_core s \<and> handler_kind w' = handler_kind w"
  by (auto simp: finish_conn_def Let_def split: option.splits)

lemma send_init_core:
  assumes "send_init x ci s w = (s', w', c)"
  shows "server_core s' = server_core s \<and> handler_kind w' = handler_kind w"
proof -
  have k: "handler_kind w1 = handler_kind w" if "MakeAndSendCommand x i cmd w = (w1, err)" for i cmd w1 err
    using handler_kind_send [of x i cmd w] that by simp
  show ?thesis
    using assms by (auto simp: send_init_def dest!: k finish_conn_core split: prod.splits option.splits)
qed

lemma serveHTTP_kind: "serveHTTP x ht s r user w rw = (w', rw') \<Longrightarrow> handler_kind w' = handler_kind w"
  by (auto simp: serveHTTP_def serveAPI_def api_client_def Let_def split: if_splits list.splits option.splits prod.splits)

section \<open>What the code dereferences\<close>

definition wired :: "('e, 'l) ext \<Rightarrow> ('e, 'l) process \<Rightarrow> bool" where
  "wired x pr \<longleftrightarrow> handler_fits (pr_server pr) (pr_world pr) \<and> sv_Authenticator (pr_server pr) \<noteq> None \<and>
     (case sv_InterfaceConfig (pr_server pr) of None \<Rightarrow> False
      | Some ic \<Rightarrow> ifc_OneInterfacePerConnection ic \<or> sv_mainIface (pr_server pr) \<noteq> None) \<and>
     GetClientSlots x (sv_VPNNet (pr_server pr)) \<noteq> Panic \<and>
     (case sv_TLSConfig (pr_server pr) of None \<Rightarrow> True
      | Some t \<Rightarrow> tc_GetConfigForClient t = Some CurrentConfig \<and> getTLSCert pr \<noteq> Panic)"

lemma wired_core:
  assumes "server_core (pr_server pr') = server_core (pr_server pr)" and "handler_kind (pr_world pr') = handler_kind (pr_world pr)"
    and "pr_tlsConfig pr' = pr_tlsConfig pr"
  shows "wired x pr' = wired x pr"
proof -
  have n: "network (pr_server pr') = network (pr_server pr)" "sv_Authenticator (pr_server pr') = sv_Authenticator (pr_server pr)"
    "sv_mainIface (pr_server pr') = sv_mainIface (pr_server pr)"
    using assms(1) by (simp_all add: server_core_def)
  then have "handler_fits (pr_server pr') (pr_world pr') = handler_fits (pr_server pr) (pr_world pr)"
    using assms(2) by (simp add: handler_fits_network)
  moreover have "sv_VPNNet (pr_server pr') = sv_VPNNet (pr_server pr)" "sv_TLSConfig (pr_server pr') = sv_TLSConfig (pr_server pr)"
    "map_option ifc_OneInterfacePerConnection (sv_InterfaceConfig (pr_server pr')) =
     map_option ifc_OneInterfacePerConnection (sv_InterfaceConfig (pr_server pr))"
    using n(1) by (simp_all add: network_def)
  ultimately show ?thesis
    using n(2,3) assms(3) by (auto simp: wired_def getTLSCert_def split: option.splits)
qed

lemma set_features_core: "set_features fs s = (s', err) \<Longrightarrow> server_core s' = server_core s"
  by (induction fs s rule: set_features.induct)
    (auto simp: server_core_def network_def server_SetLocalFeature_def split: if_splits)

lemma server_SetMTU_core: "server_SetMTU x mtu s w = (s', w', err) \<Longrightarrow> server_core s' = server_core s"
  by (auto simp: server_SetMTU_def server_core_def Let_def split: if_splits prod.splits option.splits)

text \<open>Every stage keeps the main interface, and an authenticator once there is one.\<close>

definition same_wiring :: "server \<Rightarrow> server \<Rightarrow> bool" where
  "same_wiring s s' \<longleftrightarrow> sv_mainIface s' = sv_mainIface s \<and> (sv_Authenticator s \<noteq> None \<longrightarrow> sv_Authenticator s' \<noteq> None)"

lemma same_wiring_trans: "same_wiring s1 s2 \<Longrightarrow> same_wiring s2 s3 \<Longrightarrow> same_wiring s1 s3"
  by (simp add: same_wiring_def)

lemma reload_stages_wiring:
  "reload_tunnel config b pr = Ret (pr', err) \<Longrightarrow> same_wiring (pr_server pr) (pr_server pr')"
  "reload_http x config pr = Ret (pr', err) \<Longrightarrow> same_wiring (pr_server pr) (pr_server pr')"
  "reload_interface x config b pr = Ret (pr', err) \<Longrightarrow> same_wiring (pr_server pr) (pr_server pr')"
  "reload_authenticator au config pr = Ret (pr', err) \<Longrightarrow> same_wiring (pr_server pr) (pr_server pr') \<and>
     (err = None \<longrightarrow> sv_Authenticator (pr_server pr') \<noteq> None)"
  "reload_tls os config b pr = Ret (pr', err) \<Longrightarrow> same_wiring (pr_server pr) (pr_server pr')"
  "reload_finish config pr = Ret (pr', err) \<Longrightarrow> same_wiring (pr_server pr) (pr_server pr')"
  by (auto simp: same_wiring_def server_core_def reload_tunnel_def reload_http_def reload_interface_def reload_handler_def
      reload_authenticator_def reload_tls_def reload_finish_def SetHeaders_def setUpgraderHeaders_def Let_def
      dest!: set_features_core server_SetMTU_core
      split: sum.splits prod.splits option.splits if_splits go.splits PacketHandler.splits)

lemma reload_wiring:
  assumes "server_reloadConfig x os au (Inr config) b pr = Ret (pr', err)"
  shows "same_wiring (pr_server pr) (pr_server pr') \<and> (err = None \<longrightarrow> sv_Authenticator (pr_server pr') \<noteq> None)"
  using assms unfolding server_reloadConfig_def sum.case
  by (auto elim!: and_then_cases dest!: reload_stages_wiring simp: same_wiring_def)

lemma tls_of_file_cert: "tls_of_file os config e t \<Longrightarrow> \<exists>cert. tc_Certificates t = [cert]"
  by (auto simp: tls_of_file_def)

lemma wired_reload:
  assumes w: "wired x pr" and r: "server_reloadConfig x os au loaded False pr = Ret (pr', err)"
  shows "wired x pr'"
proof (cases loaded)
  case (Inl e)
  then show ?thesis using w r by (simp add: server_reloadConfig_def)
next
  case (Inr config)
  have "steady (nils (pr_world pr)) (pr_server pr) pr" using w by (simp add: steady_def stable_def wired_def)
  from reload_stable [OF this, of x os au loaded] r have st: "stable (pr_server pr) pr'" by (simp add: steady_def)
  then have n: "network (pr_server pr') = network (pr_server pr)" and f: "handler_fits (pr_server pr') (pr_world pr')"
    by (simp_all add: stable_def)
  have v: "sv_VPNNet (pr_server pr') = sv_VPNNet (pr_server pr)" "sv_TLSConfig (pr_server pr') = sv_TLSConfig (pr_server pr)"
    "map_option ifc_OneInterfacePerConnection (sv_InterfaceConfig (pr_server pr')) =
     map_option ifc_OneInterfacePerConnection (sv_InterfaceConfig (pr_server pr))"
    using n by (simp_all add: network_def)
  note k = reload_wiring [OF r [unfolded Inr]]
  have cert: "getTLSCert pr \<noteq> Panic \<Longrightarrow> getTLSCert pr' \<noteq> Panic"
    using reload_outcome [OF r [unfolded Inr]] by (auto simp: getTLSCert_def dest!: tls_of_file_cert split: if_splits)
  show ?thesis
    using w f v k cert by (auto simp: wired_def same_wiring_def split: option.splits)
qed

lemma listen_core:
  assumes "listen x tc s = Ret (s', ts)"
  shows "server_core s' = server_core s \<and> GetClientSlots x (sv_VPNNet s) \<noteq> Panic"
proof -
  have up: "listenUpgraders v = (v', us) \<Longrightarrow> server_core v' = server_core v" for v v' us
    by (auto simp: listenUpgraders_def Let_def)
  show ?thesis
    using assms
    by (auto simp: listen_def listenPlaintext_def listenEncrypted_def Let_def dest!: up
        split: go.splits if_splits prod.splits option.splits)
qed

lemma Serve_main_iface_core:
  assumes "Serve_main_iface p x io ic s w = (s', w', Inr ts)"
  shows "network s' = network s \<and> sv_Authenticator s' = sv_Authenticator s \<and> handler_kind w' = handler_kind w \<and>
    (ifc_OneInterfacePerConnection ic \<or> sv_mainIface s' \<noteq> None)"
proof -
  have c: "network s1 = network s \<and> sv_Authenticator s1 = sv_Authenticator s \<and> handler_kind w1 = handler_kind w \<and> sv_mainIface s1 \<noteq> None"
    if "createMainIface p x io ic s w = (s1, w1, b, None)" for s1 w1 b
    using that by (auto simp: createMainIface_def network_def split: prod.splits sum.splits option.splits)
  show ?thesis
    using assms
    by (auto simp: Serve_main_iface_def addCloser_def wait_Add_def network_def dest!: c split: if_splits prod.splits option.splits)
qed

lemma Serve_begin_wired:
  assumes "Serve_begin p x io pr = Ret (pr', Inr ts)" and "handler_fits (pr_server pr) (pr_world pr)"
    and "sv_Authenticator (pr_server pr) \<noteq> None"
    and "case sv_TLSConfig (pr_server pr) of None \<Rightarrow> True
      | Some t \<Rightarrow> tc_GetConfigForClient t = Some CurrentConfig \<and> getTLSCert pr \<noteq> Panic"
  shows "wired x pr'"
proof -
  obtain ic s w ts0 s1 ts1 where st: "sv_InterfaceConfig (pr_server pr) = Some ic"
    "Serve_main_iface p x io ic (pr_server pr) (pr_world pr) = (s, w, Inr ts0)"
    "listen x (pr_tlsConfig pr) s = Ret (s1, ts1)"
    "pr_server pr' = s1" "handler_kind (pr_world pr') = handler_kind w" "pr_tlsConfig pr' = pr_tlsConfig pr"
    using assms(1) by (auto simp: Serve_begin_def Let_def split: option.splits prod.splits sum.splits go.splits)
  have m: "network s = network (pr_server pr)" "sv_Authenticator s = sv_Authenticator (pr_server pr)"
    "handler_kind w = handler_kind (pr_world pr)" "ifc_OneInterfacePerConnection ic \<or> sv_mainIface s \<noteq> None"
    using Serve_main_iface_core [OF st(2)] by simp_all
  have l: "server_core s1 = server_core s" "GetClientSlots x (sv_VPNNet s) \<noteq> Panic" using listen_core [OF st(3)] by simp_all
  have "wired x (pr\<lparr>pr_server := s, pr_world := w\<rparr>)"
    using assms(2-4) m l(2) st(1)
    by (auto simp: wired_def handler_fits_network getTLSCert_def network_def split: option.splits)
  moreover have "wired x pr' = wired x (pr\<lparr>pr_server := s, pr_world := w\<rparr>)"
    by (rule wired_core) (use st l(1) in simp_all)
  ultimately show ?thesis by simp
qed

lemma server_Main_wired:
  assumes "server_Main p x io le os au wt sf configPtr b w = Serving pr tasks"
  shows "wired x pr"
proof -
  obtain pr1 pr2 loaded where st: "server_reloadConfig x os au loaded True pr1 = Ret (pr2, None)"
    "sv_TLSConfig (pr_server pr1) = None" "Serve_begin p x io pr2 = Ret (pr, Inr tasks)"
    using assms
    by (fastforce simp: server_Main_def server_panic_def server_Main_configured_def reload_from_def SetServerID_def NewServer_def
        Let_def split: if_splits prod.splits sum.splits go.splits option.splits)
  then obtain config where c: "loaded = Inr config" by (cases loaded) (auto simp: server_reloadConfig_def)
  note r = st(1) [unfolded c]
  have "case sv_TLSConfig (pr_server pr2) of None \<Rightarrow> True
      | Some t \<Rightarrow> tc_GetConfigForClient t = Some CurrentConfig \<and> getTLSCert pr2 \<noteq> Panic"
    using reload_first_outer [OF r st(2)] by (auto simp: outer_tls_def getTLSCert_def dest!: tls_of_file_cert)
  moreover have "handler_fits (pr_server pr2) (pr_world pr2)" using first_reload [OF r st(2)] by simp
  moreover have "sv_Authenticator (pr_server pr2) \<noteq> None" using reload_wiring [OF r] by simp
  ultimately show ?thesis using Serve_begin_wired [OF st(3)] by blast
qed

lemma reload_from_load:
  "\<exists>e loaded. reload_from x os au sf configPtr b pr =
     server_reloadConfig x os au loaded b (pr\<lparr>pr_world := (pr_world pr)\<lparr>w_env := e\<rparr>\<rparr>)"
  by (auto simp: reload_from_def split: prod.splits)

lemma wired_env [simp]: "wired x (pr\<lparr>pr_world := (pr_world pr)\<lparr>w_env := e\<rparr>\<rparr>) = wired x pr"
  by (rule wired_core) simp_all

lemma wired_step: "running_step p x io ht os au sf configPtr pr pr' \<Longrightarrow> wired x pr \<Longrightarrow> wired x pr'"
proof (induction rule: running_step.induct)
  case (sighup pr pr' err)
  then show ?case using wired_reload reload_from_load by (metis wired_env)
next
  case (web_page pr r user rw w rw')
  then show ?case using wired_core [of "pr\<lparr>pr_world := w\<rparr>" pr x] by (auto dest: serveHTTP_kind)
next
  case (accepted cid user i ad pr s w c)
  then show ?case using wired_core [of "pr\<lparr>pr_server := s, pr_world := w\<rparr>" pr x] by (auto dest: accept_conn_core)
next
  case (welcomed ci pr s w c)
  then show ?case using wired_core [of "pr\<lparr>pr_server := s, pr_world := w\<rparr>" pr x] by (auto dest: send_init_core)
next
  case (finished ci pr s w)
  then show ?case using wired_core [of "pr\<lparr>pr_server := s, pr_world := w\<rparr>" pr x] by (auto dest: finish_conn_core)
next
  case (switched pr w)
  then show ?case using wired_core [of "pr\<lparr>pr_world := w\<rparr>" pr x] by (auto dest: handler_kind_step)
qed simp

interpretation running: kept_invariant "running_step p x io ht os au sf configPtr" "wired x" for p x io ht os au sf configPtr
  by unfold_locales (rule wired_step)

section \<open>No nil is dereferenced\<close>

lemma handleSocketAuth_total: "sv_Authenticator s \<noteq> None \<Longrightarrow> handleSocketAuth au s e r w \<noteq> Panic"
  by (auto simp: handleSocketAuth_def auth_outcome_def Let_def split: prod.splits if_splits)

lemma serve_request_total: "sv_Authenticator s \<noteq> None \<Longrightarrow> serve_request x ht au s hs r w e st \<noteq> Panic"
  using handleSocketAuth_total [of s au]
  by (auto simp: serve_request_def handlePreauthorize_def authenticate_request_def Let_def
      split: prod.splits sum.splits go.splits)

lemma accept_conn_total: "wired x pr \<Longrightarrow> accept_conn p x io cid user i ad (pr_server pr) w \<noteq> Some Panic"
proof -
  assume w: "wired x pr"
  let ?s = "addCloser (pr_server pr) (CloseAdapter i)"
  have n: "GetClientSlots x (sv_VPNNet ?s) \<noteq> Panic" using w by (simp add: wired_def addCloser_def)
  show ?thesis
  proof (cases "allocSlot x ?s")
    case None
    then show ?thesis by (simp add: accept_conn_def Let_def)
  next
    case (Some r)
    then obtain s1 found where r: "r = Ret (s1, found)"
      using n by (cases r) (auto simp: allocSlot_def run_return_def split: go.splits option.splits)
    have "server_core s1 = server_core (pr_server pr)"
      using allocSlot_outcome [OF Some [unfolded r]] by (auto split: option.splits)
    then have c: "map_option ifc_OneInterfacePerConnection (sv_InterfaceConfig s1) =
        map_option ifc_OneInterfacePerConnection (sv_InterfaceConfig (pr_server pr))"
      "sv_mainIface s1 = sv_mainIface (pr_server pr)"
      by (simp_all add: server_core_def network_def)
    then show ?thesis
      using w Some r by (auto simp: accept_conn_def run_return_def wired_def Let_def split: option.splits sum.splits prod.splits)
  qed
qed

lemma wired_tls:
  assumes "wired x pr"
  shows "case sv_TLSConfig (pr_server pr) of None \<Rightarrow> True
     | Some t \<Rightarrow> handshake_config t pr \<noteq> Panic \<and> getTLSCert pr \<noteq> Panic \<and>
         quic_handshake (NewWebTransportUpgrader \<lparr>qs_Addr = a, qs_TLSConfig = t\<rparr>) pr \<noteq> Panic"
proof (cases "sv_TLSConfig (pr_server pr)")
  case (Some t)
  then have t: "tc_GetConfigForClient t = Some CurrentConfig" "getTLSCert pr \<noteq> Panic"
    using assms by (simp_all add: wired_def)
  then obtain cur where "pr_tlsConfig pr = Some cur" by (cases "pr_tlsConfig pr") (simp_all add: getTLSCert_def)
  then show ?thesis
    using t Some by (simp add: handshake_config_def quic_handshake_def NewWebTransportUpgrader_def getTLSConfig_def Let_def)
qed simp

section \<open>Properties\<close>

text \<open>
  C19 The running server never dereferences nil: once \<^verbatim>\<open>Main\<close> serves, through any
  sequence of reloads (that succeed or fail half way, with any files), requests, connections and
  packets, the handler of a request, the handler of a connection and both TLS handshakes find the
  authenticator, the interface, the main interface, the subnet and the certificate they use
  without a test; and no reload dereferences a nil interface or handler: a reload panics only when the
  MAC switch of this very server has, at that moment, a client whose address cache could not be made.
\<close>

theorem running_server_never_panics:
  assumes "server_Main p x io le os au wt sf configPtr printDefaultConfig w0 = Serving pr0 tasks"
    and "(running_step p x io ht os au sf configPtr)\<^sup>*\<^sup>* pr0 pr"
  shows "serve_request x ht au (pr_server pr) hs r rw (w_env (pr_world pr)) st \<noteq> Panic \<and>
    accept_conn p x io cid user i ad (pr_server pr) (pr_world pr) \<noteq> Some Panic \<and>
    (reload_from x os au sf configPtr False pr = Panic \<longrightarrow> nils (pr_world pr) \<noteq> {}) \<and>
    (case sv_TLSConfig (pr_server pr) of None \<Rightarrow> True
     | Some t \<Rightarrow> handshake_config t pr \<noteq> Panic \<and> getTLSCert pr \<noteq> Panic \<and>
         quic_handshake (NewWebTransportUpgrader \<lparr>qs_Addr = a, qs_TLSConfig = t\<rparr>) pr \<noteq> Panic)"
proof -
  have w: "wired x pr" using running.run_keeps [OF assms(2)] server_Main_wired [OF assms(1)] by blast
  have "nils (pr_world pr) \<noteq> {}" if "reload_from x os au sf configPtr False pr = Panic"
  proof -
    obtain e loaded where "reload_from x os au sf configPtr False pr =
        server_reloadConfig x os au loaded False (pr\<lparr>pr_world := (pr_world pr)\<lparr>w_env := e\<rparr>\<rparr>)"
      using reload_from_load [of x os au sf configPtr False pr] by (elim exE) (rule that)
    with that have r: "server_reloadConfig x os au loaded False (pr\<lparr>pr_world := (pr_world pr)\<lparr>w_env := e\<rparr>\<rparr>) = Panic"
      by (rule trans [OF sym, rotated])
    have "steady (nils (pr_world pr)) (pr_server pr) (pr\<lparr>pr_world := (pr_world pr)\<lparr>w_env := e\<rparr>\<rparr>)"
      using w by (simp add: steady_def stable_def wired_def handler_fits_network)
    from reload_stable [OF this, of x os au loaded] show ?thesis unfolding r by (simp add: keeps_def)
  qed
  moreover have "case sv_TLSConfig (pr_server pr) of None \<Rightarrow> True
     | Some t \<Rightarrow> handshake_config t pr \<noteq> Panic \<and> getTLSCert pr \<noteq> Panic \<and>
         quic_handshake (NewWebTransportUpgrader \<lparr>qs_Addr = a, qs_TLSConfig = t\<rparr>) pr \<noteq> Panic"
    by (rule wired_tls [OF w])
  moreover have "serve_request x ht au (pr_server pr) hs r rw (w_env (pr_world pr)) st \<noteq> Panic"
    by (rule serve_request_total) (use w in \<open>simp add: wired_def\<close>)
  ultimately show ?thesis using accept_conn_total [OF w] by blast
qed

definition example_files :: server_files where
  "example_files = \<lparr>sf_defaultConfig = [], sf_Decode = (\<lambda>text c. Inr example_config)\<rparr>"

definition example_wintun :: "demo_env wintun_ext" where
  "example_wintun = \<lparr>wintunDll = [], os_Executable = (\<lambda>e. (e, Inl '''')), filepath_Dir = id, filepath_Join = (@),
     os_Create = (\<lambda>e f. (e, Inl '''')), file_Write = (\<lambda>e f b. (e, None)), file_Close = (\<lambda>e f. e)\<rparr>"

lemma example_main_iface:
  "\<exists>s' w' ts. Serve_main_iface Linux demo_ext example_driver ic s w = (s', w', Inr ts) \<and> sv_TLSConfig s' = sv_TLSConfig s"
proof -
  have "Configure_linux demo_ext io e v [] None [] = (e, v, None)" for io v and e :: demo_env
    by (simp add: Configure_linux_def example_calls Let_def)
  then show ?thesis
    by (simp add: Serve_main_iface_def createMainIface_def GetPlatformSpecifics_linux_def getInterfaceNameOrPrefix_def
        example_driver_def example_configured example_calls addCloser_def wait_Add_def)
qed

lemma example_serves:
  assumes "sv_InterfaceConfig (pr_server pr) = Some ic" and "sv_TLSConfig (pr_server pr) = Some outer_tls"
  shows "\<exists>pr' ts. Serve_begin Linux demo_ext example_driver pr = Ret (pr', Inr ts)"
proof -
  obtain s w ts where m: "Serve_main_iface Linux demo_ext example_driver ic (pr_server pr) (pr_world pr) = (s, w, Inr ts)"
    "sv_TLSConfig s = Some outer_tls"
    using example_main_iface [of ic "pr_server pr" "pr_world pr"] assms(2) by auto
  have "listen demo_ext (pr_tlsConfig pr) s \<noteq> Panic"
    using m(2) by (simp add: listen_def listen_tls_def listenEncrypted_def outer_tls_def GetClientSlots_def case_prod_beta Let_def)
  then obtain s1 ts1 where "listen demo_ext (pr_tlsConfig pr) s = Ret (s1, ts1)"
    by (cases "listen demo_ext (pr_tlsConfig pr) s") auto
  then show ?thesis using assms(1) m by (simp add: Serve_begin_def VerifyPlatformFlags_def Let_def)
qed

theorem running_server_never_panics_witness:
  "\<exists>pr0 tasks. server_Main Linux demo_ext example_driver example_life example_os example_auth example_wintun example_files
      ''server.yml'' False (example_world example_socket) = Serving pr0 tasks \<and>
     serve_request demo_ext example_http example_auth (pr_server pr0) [] example_upgrade empty_response (w_env (pr_world pr0)) ser_start \<noteq> Panic"
proof -
  let ?w = "(example_world example_socket)\<lparr>w_handler := None\<rparr>"
  let ?pr1 = "\<lparr>pr_server = SetServerID NewServer ''00000000-0000-4000-8000-000000000000'', pr_world = ?w, pr_tlsConfig = None\<rparr>"
  have f: "sv_sockets (pr_server ?pr1) = []" "sv_mainIface (pr_server ?pr1) = None" "sv_TLSConfig (pr_server ?pr1) = None"
    "sv_mtu (pr_server ?pr1) = 0"
    by (simp_all add: SetServerID_def NewServer_def)
  obtain pr2 where r: "server_reloadConfig demo_ext example_os example_auth (Inr example_config) True ?pr1 = Ret (pr2, None)"
    using example_first_from [OF f] by blast
  obtain ic where "sv_InterfaceConfig (pr_server pr2) = Some ic"
    using first_reload [OF r f(3)] by (auto simp: handler_fits_def split: option.splits)
  moreover have "sv_TLSConfig (pr_server pr2) = Some outer_tls"
    using reload_first_outer [OF r f(3)] by (simp add: wants_tls_def example_config_def)
  ultimately obtain pr0 tasks where b: "Serve_begin Linux demo_ext example_driver pr2 = Ret (pr0, Inr tasks)"
    using example_serves by blast
  have l: "server_Load example_os example_files e f = (e, Inr example_config)" for e f
    by (simp add: server_Load_def Load_over_def LoadConfigReader_def LoadConfigFile_def example_files_def example_os_def)
  have "server_Main Linux demo_ext example_driver example_life example_os example_auth example_wintun example_files
      ''server.yml'' False (example_world example_socket) = Serving pr0 tasks"
    using r b by (simp add: server_Main_def InitializeWater_def linux_InitializeWater_def reload_from_def l on_server_def
        server_Main_configured_def example_world_def)
  then show ?thesis
    using running_server_never_panics [OF _ rtranclp.rtrancl_refl, of Linux demo_ext example_driver example_life example_os
        example_auth example_wintun example_files "''server.yml''" False "example_world example_socket" pr0 tasks] by blast
qed

end
