(* ===== verification/Client_State.thy ===== *)
theory Client_State
  imports Basic_Auth Conn_Mark Config_Base Socket_Commands
begin

text \<open>
  The client (\<^verbatim>\<open>client/clients\<close>): its state, the choice of a connector and the
  dial (\<^verbatim>\<open>connection.go\<close>, \<^verbatim>\<open>client/connectors\<close>), opening and
  closing a connection (\<^verbatim>\<open>base.go\<close>), and its own command handlers
  (\<^verbatim>\<open>commands.go\<close>). A call of a method on a nil socket panics; the program then
  ends, which \<open>cl_crashed\<close> records.
\<close>

section \<open>State\<close>

record url =
  url_Scheme :: string
  url_User :: "Userinfo option"
  url_Rest :: string

datatype connector = WebSocketConnector | WebTransportConnector

record client =
  cl_events :: EventConfigHolder
  cl_TLSConfig :: TLSConfig
  cl_ProxyURL :: "url option"
  cl_ServerURL :: url
  cl_Headers :: http_header
  cl_FirewallMark :: int
  cl_SetDefaultGateway :: bool
  cl_SocketConfigurator :: "PingConfig option"
  cl_InterfaceConfig :: InterfaceConfig
  cl_AutoReconnectDelay :: gotime
  cl_clientID :: string
  cl_serverID :: string
  cl_mtu :: int
  cl_doIPConfig :: bool
  cl_iface :: "WaterInterfaceWrapper option"
  cl_remoteNet :: "VPNNet option"
  cl_socket :: "sid option"
  cl_adapter :: "sid option"
  cl_connectors :: "string \<rightharpoonup> connector"
  cl_dialer :: bool
  cl_sentUpEvent :: bool
  cl_localFeatures :: "(feature \<times> bool) list"
  cl_serialization :: ser_state
  cl_scripts :: "(string \<times> string \<times> string) list"
  cl_crashed :: bool

text \<open>
  \<open>cl_adapter\<close> is the socket whose adapter it is, because the client makes the socket with the
  same object; \<open>cl_dialer\<close> is whether the dialer that sets the firewall mark is there;
  \<open>cl_serialization\<close> is the table of encodings of the process; \<open>cl_scripts\<close> lists the
  goroutines that \<^verbatim>\<open>doRunEventScript\<close> started, with the arguments they run with.
\<close>

definition NewClient :: client where
  "NewClient = \<lparr>
     cl_events = \<lparr>UpScript = [], DownScript = [], StartupScript = []\<rparr>,
     cl_TLSConfig = empty_TLSConfig,
     cl_ProxyURL = None,
     cl_ServerURL = \<lparr>url_Scheme = [], url_User = None, url_Rest = []\<rparr>,
     cl_Headers = Map.empty,
     cl_FirewallMark = 0,
     cl_SetDefaultGateway = False,
     cl_SocketConfigurator = None,
     cl_InterfaceConfig = \<lparr>ifc_Name = [], ifc_Persist = False, ifc_ComponentID = [],
       ifc_OneInterfacePerConnection = False\<rparr>,
     cl_AutoReconnectDelay = 0,
     cl_clientID = [], cl_serverID = [], cl_mtu = 0, cl_doIPConfig = False,
     cl_iface = None, cl_remoteNet = None, cl_socket = None, cl_adapter = None,
     cl_connectors = Map.empty, cl_dialer = False, cl_sentUpEvent = False, cl_localFeatures = [],
     cl_serialization = ser_start, cl_scripts = [], cl_crashed = False\<rparr>"

definition client_SetLocalFeature :: "client \<Rightarrow> feature \<Rightarrow> bool \<Rightarrow> client" where
  "client_SetLocalFeature c feature enabled =
     (if \<not> enabled then c\<lparr>cl_localFeatures := AList.delete feature (cl_localFeatures c)\<rparr>
      else c\<lparr>cl_localFeatures := AList.update feature True (cl_localFeatures c)\<rparr>)"

definition Reload :: "client \<Rightarrow> client" where
  "Reload c = (if cl_FirewallMark c > 0 then c\<lparr>cl_dialer := True\<rparr> else c\<lparr>cl_dialer := False\<rparr>)"

section \<open>Dialling\<close>

text \<open>
  How the WebSocket library is told to open the connection: by itself, through a proxy, or with
  the dialer of \<^verbatim>\<open>Reload\<close>, which calls a function on every new socket before it connects.
\<close>

datatype 'e net_dial = NetDialDefault | NetDialProxy url | NetDialControl "'e \<Rightarrow> nat \<Rightarrow> 'e \<times> go_error option"

text \<open>
  The libraries that connect. \<open>dl_conn\<close> is what a connection is to the type switch of
  \<open>setFirewallMark\<close>; the WebTransport library opens its QUIC connection with the function it is given.
\<close>

record 'e dial_ext =
  proxy_FromURL :: "url \<Rightarrow> string option"
  ws_Dial :: "'e \<Rightarrow> 'e net_dial \<Rightarrow> TLSConfig \<Rightarrow> http_header \<Rightarrow> url \<Rightarrow> 'e \<times> (string + conn \<times> http_header)"
  wt_Dial :: "'e \<Rightarrow> ('e \<Rightarrow> string \<Rightarrow> TLSConfig \<Rightarrow> 'e \<times> (go_error + nat)) \<Rightarrow> TLSConfig \<Rightarrow> http_header \<Rightarrow> url
    \<Rightarrow> 'e \<times> (string + conn \<times> http_header)"
  net_ResolveUDPAddr :: "'e \<Rightarrow> string \<Rightarrow> 'e \<times> (string + string)"
  net_ListenUDP :: "'e \<Rightarrow> 'e \<times> (string + conn)"
  udp_Close :: "'e \<Rightarrow> conn \<Rightarrow> 'e"
  quic_DialEarly :: "'e \<Rightarrow> conn \<Rightarrow> string \<Rightarrow> TLSConfig \<Rightarrow> 'e \<times> (string + nat)"
  dl_conn :: "conn \<Rightarrow> net_conn"
  dl_mark :: "'e mark_ext"

primrec GetSchemes :: "connector \<Rightarrow> string list" where
  "GetSchemes WebSocketConnector = [''ws'', ''wss'']"
| "GetSchemes WebTransportConnector = [''webtransport'']"

definition registerConnector :: "client \<Rightarrow> connector \<Rightarrow> client" where
  "registerConnector c con =
     c\<lparr>cl_connectors := fold (\<lambda>scheme m. m(scheme \<mapsto> con)) (GetSchemes con) (cl_connectors c)\<rparr>"

definition RegisterDefaultConnectors :: "client \<Rightarrow> client" where
  "RegisterDefaultConnectors c = registerConnector (registerConnector c WebSocketConnector) WebTransportConnector"

definition EnhanceConn :: "platform \<Rightarrow> 'e dial_ext \<Rightarrow> 'e \<Rightarrow> client \<Rightarrow> conn \<Rightarrow> 'e \<times> go_error option" where
  "EnhanceConn p dl e c cn =
     (if cl_FirewallMark c \<le> 0 then (e, None)
      else setFirewallMark p (dl_mark dl) e (dl_conn dl cn) (cl_FirewallMark c))"

definition DialerControlFunc :: "platform \<Rightarrow> 'e dial_ext \<Rightarrow> client \<Rightarrow> 'e \<Rightarrow> nat \<Rightarrow> 'e \<times> go_error option" where
  "DialerControlFunc p dl c e s = setFirewallMarkRaw p (dl_mark dl) e s (cl_FirewallMark c)"

definition GetDialer :: "platform \<Rightarrow> 'e dial_ext \<Rightarrow> client \<Rightarrow> ('e \<Rightarrow> nat \<Rightarrow> 'e \<times> go_error option) option" where
  "GetDialer p dl c = (if cl_dialer c then Some (DialerControlFunc p dl c) else None)"

definition GetProxyURL :: "client \<Rightarrow> url option" where
  "GetProxyURL c = cl_ProxyURL c"

text \<open>\<^verbatim>\<open>GetTLSConfig\<close> and \<^verbatim>\<open>GetHeaders\<close> clone: what is added for a request is not kept.\<close>

definition GetTLSConfig :: "client \<Rightarrow> TLSConfig" where
  "GetTLSConfig c = cl_TLSConfig c"

definition GetHeaders :: "client \<Rightarrow> http_header" where
  "GetHeaders c = cl_Headers c"

definition GetServerURL :: "client \<Rightarrow> url" where
  "GetServerURL c = cl_ServerURL c"

definition dial_websocket :: "platform \<Rightarrow> ('e, 'l) ext \<Rightarrow> 'e dial_ext \<Rightarrow> 'e \<Rightarrow> client \<Rightarrow> 'e \<times> client \<times> (go_error + adapter)" where
  "dial_websocket p x dl e c =
     (case (case GetProxyURL c of
              Some proxy \<Rightarrow> (case proxy_FromURL dl proxy of Some err \<Rightarrow> Inl (GoErr err) | None \<Rightarrow> Inr (NetDialProxy proxy))
            | None \<Rightarrow> (case GetDialer p dl c of Some control \<Rightarrow> Inr (NetDialControl control) | None \<Rightarrow> Inr NetDialDefault)) of
        Inl err \<Rightarrow> (e, c, Inl err)
      | Inr netDial \<Rightarrow>
          (case ws_Dial dl e netDial (GetTLSConfig c)
                  (addSupportedSerializationHeader (cl_serialization c) (GetHeaders c)) (GetServerURL c) of
             (e1, Inl err) \<Rightarrow> (e1, c, Inl (GoErr err))
           | (e1, Inr (cn, respHeaders)) \<Rightarrow>
               (case (if \<not> cl_dialer c then EnhanceConn p dl e1 c cn else (e1, None)) of
                  (e2, Some err) \<Rightarrow> (fst (ws_conn_Close x e2 cn), c, Inl err)
                | (e2, None) \<Rightarrow>
                    (case readSerializationType respHeaders (cl_serialization c) of (st, serializationType) \<Rightarrow>
                       (e2, c\<lparr>cl_serialization := st\<rparr>, Inr (NewWebSocketAdapter cn serializationType False))))))"

text \<open>\<^verbatim>\<open>quicDialerHelper.DialEarly\<close>.\<close>

definition quicDialerHelper_DialEarly :: "platform \<Rightarrow> 'e dial_ext \<Rightarrow> client \<Rightarrow> 'e \<Rightarrow> string \<Rightarrow> TLSConfig
    \<Rightarrow> 'e \<times> (go_error + nat)" where
  "quicDialerHelper_DialEarly p dl c e addr tlsCfg =
     (case net_ResolveUDPAddr dl e addr of
        (e1, Inl err) \<Rightarrow> (e1, Inl (GoErr err))
      | (e1, Inr udpAddr) \<Rightarrow> (case net_ListenUDP dl e1 of
          (e2, Inl err) \<Rightarrow> (e2, Inl (GoErr err))
        | (e2, Inr udpConn) \<Rightarrow> (case EnhanceConn p dl e2 c udpConn of
            (e3, Some err) \<Rightarrow> (udp_Close dl e3 udpConn, Inl err)
          | (e3, None) \<Rightarrow> (case quic_DialEarly dl e3 udpConn udpAddr tlsCfg of
              (e4, Inl err) \<Rightarrow> (e4, Inl (GoErr err))
            | (e4, Inr q) \<Rightarrow> (e4, Inr q)))))"

definition dial_webtransport :: "platform \<Rightarrow> 'e dial_ext \<Rightarrow> 'e \<Rightarrow> client \<Rightarrow> 'e \<times> client \<times> (go_error + adapter)" where
  "dial_webtransport p dl e c =
     (if GetProxyURL c \<noteq> None
      then (e, c, Inl (GoErr ''proxy is not supported for WebTransport at the moment''))
      else (case wt_Dial dl e (quicDialerHelper_DialEarly p dl c) (GetTLSConfig c)
                   (addSupportedSerializationHeader (cl_serialization c) (GetHeaders c))
                   ((GetServerURL c)\<lparr>url_Scheme := ''https''\<rparr>) of
              (e1, Inl err) \<Rightarrow> (e1, c, Inl (GoErr err))
            | (e1, Inr (cn, respHeaders)) \<Rightarrow>
                (case readSerializationType respHeaders (cl_serialization c) of (st, serializationType) \<Rightarrow>
                   (e1, c\<lparr>cl_serialization := st\<rparr>, Inr (NewWebTransportAdapter cn serializationType False)))))"

primrec Dial :: "connector \<Rightarrow> platform \<Rightarrow> ('e, 'l) ext \<Rightarrow> 'e dial_ext \<Rightarrow> 'e \<Rightarrow> client \<Rightarrow> 'e \<times> client \<times> (go_error + adapter)" where
  "Dial WebSocketConnector p x dl e c = dial_websocket p x dl e c"
| "Dial WebTransportConnector p x dl e c = dial_webtransport p dl e c"

definition connectAdapter :: "platform \<Rightarrow> ('e, 'l) ext \<Rightarrow> 'e dial_ext \<Rightarrow> sid \<Rightarrow> client \<Rightarrow> ('e, 'l) world
    \<Rightarrow> client \<times> ('e, 'l) world \<times> go_error option" where
  "connectAdapter p x dl i c w =
     (let scheme = strings_ToLower (url_Scheme (cl_ServerURL c)) in
      case cl_connectors c scheme of
        None \<Rightarrow> (c, w, Some (GoErr (''invalid protocol: '' @ scheme)))
      | Some con \<Rightarrow> (case Dial con p x dl (w_env w) c of
          (e, c1, Inl err) \<Rightarrow> (c1, w\<lparr>w_env := e\<rparr>, Some err)
        | (e, c1, Inr ad) \<Rightarrow>
            (c1\<lparr>cl_adapter := Some i\<rparr>, upd_sock i (\<lambda>s. s\<lparr>sk_adapter := ad\<rparr>) (w\<lparr>w_env := e\<rparr>), None)))"

end
