(* ===== verification/Client.thy ===== *)
theory Client
  imports Client_State
begin

text \<open>
  What the client does with a connection (\<^verbatim>\<open>client/clients/base.go\<close>,
  \<^verbatim>\<open>commands.go\<close>, \<^verbatim>\<open>mtu.go\<close>): its handlers of the commands
  \<^verbatim>\<open>init\<close>, \<^verbatim>\<open>add_route\<close> and \<^verbatim>\<open>set_mtu\<close>, serving,
  closing and reconnecting, and its event scripts over the whole life of the program.
\<close>

section \<open>Closing and serving\<close>

definition client_doRunEventScript :: "string \<Rightarrow> client \<Rightarrow> client" where
  "client_doRunEventScript event c =
     (let ifaceName = (case cl_iface c of None \<Rightarrow> [] | Some v \<Rightarrow> wi_Interface v);
          remoteNetStr = (case cl_remoteNet c of None \<Rightarrow> [] | Some net \<Rightarrow> GetRaw net)
      in c\<lparr>cl_scripts := cl_scripts c @ [(event, remoteNetStr, ifaceName)]\<rparr>)"

definition closeInternal :: "('e, 'l) ext \<Rightarrow> client \<Rightarrow> ('e, 'l) world \<Rightarrow> client \<times> ('e, 'l) world" where
  "closeInternal x c w =
     (let c1 = (if cl_sentUpEvent c then (client_doRunEventScript EventDown c)\<lparr>cl_sentUpEvent := False\<rparr> else c);
          w1 = (case cl_socket c1 of None \<Rightarrow> w | Some i \<Rightarrow> Close x i w);
          c2 = c1\<lparr>cl_socket := None\<rparr>;
          w2 = (case cl_adapter c2 of None \<Rightarrow> w1 | Some i \<Rightarrow> close_adapter x i w1);
          c3 = c2\<lparr>cl_adapter := None\<rparr>
      in (case cl_iface c3 of
            None \<Rightarrow> (c3, w2)
          | Some v \<Rightarrow> (c3\<lparr>cl_iface := None\<rparr>, w2\<lparr>w_env := fst (wi_Close x (w_env w2) v)\<rparr>)))"

definition client_Close :: "('e, 'l) ext \<Rightarrow> client \<Rightarrow> ('e, 'l) world \<Rightarrow> client \<times> ('e, 'l) world" where
  "client_Close x c w = closeInternal x (c\<lparr>cl_AutoReconnectDelay := 0\<rparr>) w"

text \<open>The configurator is the one that sets the ping times, and never fails.\<close>

definition client_UpdateSocketConfig :: "client \<Rightarrow> ('e, 'l) world \<Rightarrow> ('e, 'l) world \<times> go_error option" where
  "client_UpdateSocketConfig c w = (case (cl_socket c, cl_SocketConfigurator c) of
     (Some i, Some config) \<Rightarrow> (upd_sock i (\<lambda>s. fst (ConfigureSocket config s)) w, snd (ConfigureSocket config (w_sock w i)))
   | _ \<Rightarrow> (w, None))"

definition registerCommandHandlers :: "socket \<Rightarrow> socket" where
  "registerCommandHandlers s =
     AddCommandHandler (AddCommandHandler (AddCommandHandler s
       AddRouteCommandName AddRouteHandler) InitCommandName InitHandler) SetMTUCommandName SetMTUHandler"

definition client_Serve :: "platform \<Rightarrow> ('e, 'l) ext \<Rightarrow> 'e dial_ext \<Rightarrow> sid \<Rightarrow> client \<Rightarrow> ('e, 'l) world
    \<Rightarrow> client \<times> ('e, 'l) world \<times> go_error option" where
  "client_Serve p x dl i c w = (case connectAdapter p x dl i c w of
     (c1, w1, Some err) \<Rightarrow> (c1, w1, Some err)
   | (c1, w1, None) \<Rightarrow>
       let w2 = upd_sock i (\<lambda>s. MakeSocket (sk_adapter s) None True False) w1;
           c2 = c1\<lparr>cl_socket := Some i\<rparr>
       in (case client_UpdateSocketConfig c2 w2 of
             (w3, Some err) \<Rightarrow> (c2, w3, Some err)
           | (w3, None) \<Rightarrow>
               let w4 = upd_sock i registerCommandHandlers w3;
                   w5 = upd_sock i (\<lambda>s. fold (\<lambda>(feat, en) s. SetLocalFeature s feat en) (cl_localFeatures c2) s) w4
               in (c2, Serve x i w5, None)))"

text \<open>
  One round of \<^verbatim>\<open>ServeLoop\<close> up to \<^verbatim>\<open>Wait\<close>, and whether there is
  another one after it.
\<close>

definition serve_round :: "platform \<Rightarrow> ('e, 'l) ext \<Rightarrow> 'e dial_ext \<Rightarrow> sid \<Rightarrow> client \<Rightarrow> ('e, 'l) world
    \<Rightarrow> client \<times> ('e, 'l) world" where
  "serve_round p x dl i c w =
     (case closeInternal x c w of (c1, w1) \<Rightarrow>
        (case client_Serve p x dl i c1 w1 of (c2, w2, _) \<Rightarrow> (c2, w2)))"

definition reconnects :: "client \<Rightarrow> bool" where
  "reconnects c \<longleftrightarrow> cl_AutoReconnectDelay c \<noteq> 0"

section \<open>Commands\<close>

definition client_SetMTU :: "('e, 'l) ext \<Rightarrow> int \<Rightarrow> client \<Rightarrow> ('e, 'l) world
    \<Rightarrow> client \<times> ('e, 'l) world \<times> go_error option" where
  "client_SetMTU x mtu c w =
     (let c1 = c\<lparr>cl_mtu := mtu\<rparr>;
          w1 = (case cl_socket c1 of None \<Rightarrow> w | Some i \<Rightarrow> upd_sock i (\<lambda>s. SetMTU s mtu) w)
      in (case cl_iface c1 of
            None \<Rightarrow> (c1, w1, None)
          | Some v \<Rightarrow> (case wi_SetMTU x (w_env w1) v mtu of (e, err) \<Rightarrow> (c1, w1\<lparr>w_env := e\<rparr>, err))))"

definition handle_add_route :: "platform \<Rightarrow> ('e, 'l) ext \<Rightarrow> 'e iface_ext \<Rightarrow> IncomingCommand \<Rightarrow> client
    \<Rightarrow> ('e, 'l) world \<Rightarrow> client \<times> ('e, 'l) world \<times> go_error option" where
  "handle_add_route p x io command c w =
     (case DeserializeParameters command (AddRoute \<lparr>ar_Route = []\<rparr>) of
        Inl err \<Rightarrow> (c, w, Some err)
      | Inr (AddRoute parameters) \<Rightarrow>
          (case (cl_iface c, cl_remoteNet c) of
             (Some v, Some net) \<Rightarrow>
               (case ParseCIDR (ar_Route parameters) of
                  Inl err \<Rightarrow> (c, w, Some err)
                | Inr (_, routeNet) \<Rightarrow>
                    (case AddIPRoute p x io (w_env w) v routeNet (nil_ip (GetServerIP x net)) of
                       (e, v', _) \<Rightarrow> (c\<lparr>cl_iface := Some v'\<rparr>, w\<lparr>w_env := e\<rparr>, None)))
           | _ \<Rightarrow> (c, w, Some (GoErr ''cannot addroute before init'')))
      | _ \<Rightarrow> (c, w, None))"

text \<open>The end of the \<^verbatim>\<open>init\<close> handler: the interface is ready.\<close>

definition default_route :: ipnet where
  "default_route = \<lparr>ipnet_IP = v4InV6Prefix @ [0, 0, 0, 0], ipnet_Mask = [0, 0, 0, 0]\<rparr>"

definition init_online :: "platform \<Rightarrow> ('e, 'l) ext \<Rightarrow> 'e iface_ext \<Rightarrow> sid \<Rightarrow> VPNNet \<Rightarrow> WaterInterfaceWrapper
    \<Rightarrow> client \<Rightarrow> ('e, 'l) world \<Rightarrow> client \<times> ('e, 'l) world \<times> go_error option" where
  "init_online p x io i net v c w =
     (case SetInterface i (wi_Interface v) w of
        (w1, Some err) \<Rightarrow> (c, w1, Some err)
      | (w1, None) \<Rightarrow>
          (case (if cl_SetDefaultGateway c
                 then (case AddIPRoute p x io (w_env w1) v default_route (nil_ip (GetServerIP x net)) of
                         (e, v', _) \<Rightarrow> (e, v'))
                 else (w_env w1, v)) of
             (e, v') \<Rightarrow>
               ((client_doRunEventScript EventUp (c\<lparr>cl_iface := Some v'\<rparr>))\<lparr>cl_sentUpEvent := True\<rparr>,
                w1\<lparr>w_env := e\<rparr>, None)))"

text \<open>Its middle: opening and configuring the interface.\<close>

definition init_interface :: "platform \<Rightarrow> ('e, 'l) ext \<Rightarrow> 'e iface_ext \<Rightarrow> sid \<Rightarrow> InitParameters \<Rightarrow> VPNNet
    \<Rightarrow> client \<Rightarrow> ('e, 'l) world \<Rightarrow> client \<times> ('e, 'l) world \<times> go_error option" where
  "init_interface p x io i parameters net c w =
     (case GetPlatformSpecifics p io (w_env w) \<lparr>wc_DeviceType = ToWaterDeviceType x (VPNModeFromString (in_Mode parameters)),
             wc_Name = [], wc_Persist = False, wc_InterfaceName = [], wc_ComponentID = []\<rparr> (cl_InterfaceConfig c) of
        (e1, ifconfig) \<Rightarrow> (case water_New io e1 ifconfig of
          (e2, Inl err) \<Rightarrow> (c, w\<lparr>w_env := e2\<rparr>, Some (GoErr err))
        | (e2, Inr ifc) \<Rightarrow>
            (case (if cl_doIPConfig c
                   then Configure p x io e2 (NewInterfaceWrapper ifc) (GetRawIP net) (Some net) (nil_ip (GetServerIP x net))
                   else Configure p x io e2 (NewInterfaceWrapper ifc) [] None []) of
               (e3, v, Some err) \<Rightarrow> (c\<lparr>cl_iface := Some v\<rparr>, w\<lparr>w_env := e3\<rparr>, Some err)
             | (e3, v, None) \<Rightarrow>
                 (case client_SetMTU x (in_MTU parameters) (c\<lparr>cl_iface := Some v\<rparr>) (w\<lparr>w_env := e3\<rparr>) of
                    (c1, w1, Some err) \<Rightarrow> (c1, w1, Some err)
                  | (c1, w1, None) \<Rightarrow> init_online p x io i net v c1 w1))))"

definition zero_init :: InitParameters where
  "zero_init = \<lparr>in_Mode = [], in_DoIPConfig = False, in_IPAddress = [], in_MTU = 0, in_ServerID = [],
     in_ClientID = [], in_EnableFragmentation = False\<rparr>"

definition init_ids :: "InitParameters \<Rightarrow> client \<Rightarrow> client" where
  "init_ids parameters c =
     (let c1 = (if in_ClientID parameters \<noteq> [] then c\<lparr>cl_clientID := in_ClientID parameters\<rparr> else c)
      in if in_ServerID parameters \<noteq> [] then c1\<lparr>cl_serverID := in_ServerID parameters\<rparr> else c1)"

definition handle_init :: "platform \<Rightarrow> ('e, 'l) ext \<Rightarrow> 'e iface_ext \<Rightarrow> IncomingCommand \<Rightarrow> client
    \<Rightarrow> ('e, 'l) world \<Rightarrow> (client \<times> ('e, 'l) world \<times> go_error option) go" where
  "handle_init p x io command c w =
     (case DeserializeParameters command (Init zero_init) of
        Inl err \<Rightarrow> Ret (c, w, Some err)
      | Inr (Init parameters) \<Rightarrow>
          (let c2 = init_ids parameters c
           in case cl_socket c2 of
                None \<Rightarrow> Panic
              | Some i \<Rightarrow>
                  let w1 = upd_sock i (\<lambda>s. HandleInitPacketFragmentation s (in_EnableFragmentation parameters)) w in
                  (case ParseVPNNet (in_IPAddress parameters) of
                     Inl err \<Rightarrow> Ret (c2\<lparr>cl_remoteNet := None\<rparr>, w1, Some err)
                   | Inr net \<Rightarrow>
                       Ret (init_interface p x io i parameters net
                              (c2\<lparr>cl_remoteNet := Some net, cl_doIPConfig := in_DoIPConfig parameters\<rparr>)
                              (upd_sock i (\<lambda>s. s\<lparr>sk_AssignedIP := GetRawIP net\<rparr>) w1))))
      | _ \<Rightarrow> Ret (c, w, None))"

definition handle_set_mtu :: "('e, 'l) ext \<Rightarrow> IncomingCommand \<Rightarrow> client \<Rightarrow> ('e, 'l) world
    \<Rightarrow> client \<times> ('e, 'l) world \<times> go_error option" where
  "handle_set_mtu x command c w =
     (case DeserializeParameters command (SetMTUCmd \<lparr>sm_MTU = 0\<rparr>) of
        Inl err \<Rightarrow> (c, w, Some err)
      | Inr (SetMTUCmd parameters) \<Rightarrow> client_SetMTU x (sm_MTU parameters) c w
      | _ \<Rightarrow> (c, w, None))"

text \<open>The handlers of a client's socket, for the dispatcher of \<open>Socket_Commands\<close>.\<close>

definition crash :: "client \<Rightarrow> ('e, 'l) world \<Rightarrow> (client \<times> ('e, 'l) world \<times> go_error option) go
    \<Rightarrow> client \<times> ('e, 'l) world \<times> go_error option" where
  "crash c w r = (case r of Ret v \<Rightarrow> v | Panic \<Rightarrow> (c\<lparr>cl_crashed := True\<rparr>, w, None))"

definition client_handler :: "platform \<Rightarrow> ('e, 'l) ext \<Rightarrow> 'e iface_ext \<Rightarrow> sid \<Rightarrow> CommandHandler
    \<Rightarrow> IncomingCommand \<Rightarrow> client \<Rightarrow> ('e, 'l) world \<Rightarrow> client \<times> ('e, 'l) world \<times> go_error option" where
  "client_handler p x io i h command c w = (case h of
     AddRouteHandler \<Rightarrow> handle_add_route p x io command c w
   | InitHandler \<Rightarrow> crash c w (handle_init p x io command c w)
   | SetMTUHandler \<Rightarrow> handle_set_mtu x command c w
   | _ \<Rightarrow> default_handler i h command c w)"

end
