(* ===== verification/Client_Config.thy ===== *)
theory Client_Config
  imports Client
begin

text \<open>
  The configuration of the client: \<^verbatim>\<open>reloadConfig\<close> of
  \<^verbatim>\<open>client/cli/base.go\<close>, which runs at the start and on every SIGHUP. The file is
  given as the value its YAML text has; parsing of URLs is a parameter.
\<close>

record ClientConfig =
  cc_SetDefaultGateway :: bool
  cc_Ping :: PingConfig
  cc_Features :: "(feature \<times> bool) list"
  cc_Interface :: InterfaceConfig
  cc_FirewallMark :: int
  cc_Scripts :: EventConfig
  cc_Server :: string
  cc_Headers :: "(string \<times> string list) list"
  cc_Proxy :: string
  cc_AuthFile :: string
  cc_AutoReconnectDelay :: gotime
  cc_TLS_CA :: string
  cc_TLS_Certificate :: string
  cc_TLS_Key :: string
  cc_TLS_ServerName :: string
  cc_TLS_Config :: TLSFileConfig

text \<open>\<^verbatim>\<open>strings.Trim(s, cutset)\<close>.\<close>

definition trim_set :: "char set \<Rightarrow> string \<Rightarrow> string" where
  "trim_set cs s = rev (dropWhile (\<lambda>c. c \<in> cs) (rev (dropWhile (\<lambda>c. c \<in> cs) s)))"

definition blanks :: "char set" where
  "blanks = {char_of (13 :: nat), char_of (10 :: nat), char_of (9 :: nat), CHR '' ''}"

definition parse_auth_file :: "string \<Rightarrow> Userinfo" where
  "parse_auth_file authData =
     (let authDataStr = trim_set blanks authData in
      case cut_colon authDataStr of
        Some (user, pw) \<Rightarrow> \<lparr>ui_username = user, ui_password = pw, ui_passwordSet = True\<rparr>
      | None \<Rightarrow> \<lparr>ui_username = authDataStr, ui_password = [], ui_passwordSet = False\<rparr>)"

definition load_userinfo :: "'e os_ext \<Rightarrow> 'e \<Rightarrow> ClientConfig \<Rightarrow> url \<Rightarrow> 'e \<times> (go_error + Userinfo option \<times> url)" where
  "load_userinfo os e config dest =
     (if cc_AuthFile config \<noteq> []
      then (case os_ReadFile os e (cc_AuthFile config) of
              (e', Inl err) \<Rightarrow> (e', Inl (GoErr err))
            | (e', Inr authData) \<Rightarrow> (e', Inr (Some (parse_auth_file authData), dest)))
      else (e, Inr (url_User dest, dest\<lparr>url_User := None\<rparr>)))"

definition client_headers :: "ClientConfig \<Rightarrow> Userinfo option \<Rightarrow> http_header" where
  "client_headers config userInfo =
     (let h = SetBasicAuthFromUserInfo (config_headers (cc_Headers config)) userInfo in
      if header_Get h ''User-Agent'' = [] then header_Set h ''User-Agent'' (''wsvpn/'' @ Version) else h)"

text \<open>The TLS options; what was set before an error stays.\<close>

definition client_tls :: "'e os_ext \<Rightarrow> ClientConfig \<Rightarrow> 'e \<Rightarrow> TLSConfig \<Rightarrow> 'e \<times> TLSConfig \<times> go_error option" where
  "client_tls os config e t =
     (case TLSUseConfig os e (t\<lparr>tc_InsecureSkipVerify := tf_Insecure (cc_TLS_Config config),
                               tc_ServerName := cc_TLS_ServerName config\<rparr>) (cc_TLS_Config config) of
        (e1, t1, Some err) \<Rightarrow> (e1, t1, Some err)
      | (e1, t1, None) \<Rightarrow>
          (case (if cc_TLS_CA config \<noteq> []
                 then (case os_ReadFile os e1 (cc_TLS_CA config) of
                         (e2, Inl err) \<Rightarrow> (e2, t1, Some (GoErr err))
                       | (e2, Inr pem) \<Rightarrow>
                           if \<not> x509_AppendCertsFromPEM os pem then (e2, t1, Some (GoErr ''error loading root CA file''))
                           else (e2, t1\<lparr>tc_RootCAs := Some pem\<rparr>, None))
                 else (e1, t1, None)) of
             (e2, t2, Some err) \<Rightarrow> (e2, t2, Some err)
           | (e2, t2, None) \<Rightarrow>
               if cc_TLS_Certificate config = [] \<and> cc_TLS_Key config = [] then (e2, t2, None)
               else if cc_TLS_Certificate config = [] \<or> cc_TLS_Key config = []
               then (e2, t2, Some (GoErr ''provide either both tls.key and tls.certificate or neither''))
               else (case tls_LoadX509KeyPair os e2 (cc_TLS_Certificate config) (cc_TLS_Key config) of
                       (e3, Inl err) \<Rightarrow> (e3, t2, Some (GoErr err))
                     | (e3, Inr cert) \<Rightarrow> (e3, t2\<lparr>tc_Certificates := [cert]\<rparr>, None))))"

fun client_set_features :: "(feature \<times> bool) list \<Rightarrow> client \<Rightarrow> client \<times> go_error option" where
  "client_set_features [] c = (c, None)"
| "client_set_features ((feat, en) # fs) c =
     (if \<not> IsFeatureSupported feat then (c, Some (GoErr (''unknown feature: '' @ feat)))
      else client_set_features fs (client_SetLocalFeature c feat en))"

definition client_options :: "ClientConfig \<Rightarrow> url \<Rightarrow> client \<Rightarrow> client" where
  "client_options config dest c = c\<lparr>
     cl_FirewallMark := cc_FirewallMark config,
     cl_SetDefaultGateway := cc_SetDefaultGateway config,
     cl_ServerURL := dest,
     cl_InterfaceConfig := (cc_Interface config)\<lparr>ifc_OneInterfacePerConnection := False\<rparr>,
     cl_AutoReconnectDelay := cc_AutoReconnectDelay config,
     cl_events := LoadEventConfig (cl_events c) (cc_Scripts config)\<rparr>"

definition client_reload_rest :: "(string \<Rightarrow> string + url) \<Rightarrow> ClientConfig \<Rightarrow> url \<Rightarrow> client \<Rightarrow> ('e, 'l) world
    \<Rightarrow> client \<times> ('e, 'l) world \<times> go_error option" where
  "client_reload_rest url_Parse config dest c w =
     (case (if cc_Proxy config \<noteq> []
            then (case url_Parse (cc_Proxy config) of
                    Inl err \<Rightarrow> (c, Some (GoErr err))
                  | Inr proxyURL \<Rightarrow> (c\<lparr>cl_ProxyURL := Some proxyURL\<rparr>, None))
            else (c, None)) of
        (c1, Some err) \<Rightarrow> (c1, w, Some err)
      | (c1, None) \<Rightarrow>
          (case client_set_features (cc_Features config)
                  (c1\<lparr>cl_SocketConfigurator := Some (cc_Ping config)\<rparr>) of
             (c2, Some err) \<Rightarrow> (c2, w, Some err)
           | (c2, None) \<Rightarrow>
               (let c3 = client_options config dest c2 in
                case client_UpdateSocketConfig c3 w of (w', err) \<Rightarrow> (c3, w', err))))"

definition client_reloadConfig :: "'e os_ext \<Rightarrow> (string \<Rightarrow> string + url) \<Rightarrow> string + ClientConfig \<Rightarrow> client
    \<Rightarrow> ('e, 'l) world \<Rightarrow> client \<times> ('e, 'l) world \<times> go_error option" where
  "client_reloadConfig os url_Parse loaded c w = (case loaded of
     Inl err \<Rightarrow> (c, w, Some (GoErr err))
   | Inr config \<Rightarrow> (case url_Parse (cc_Server config) of
       Inl err \<Rightarrow> (c, w, Some (GoErr err))
     | Inr parsed \<Rightarrow> (case load_userinfo os (w_env w) config parsed of
         (e1, Inl err) \<Rightarrow> (c, w\<lparr>w_env := e1\<rparr>, Some err)
       | (e1, Inr (userInfo, dest)) \<Rightarrow>
           (let c1 = c\<lparr>cl_Headers := client_headers config userInfo\<rparr> in
            case client_tls os config e1 (cl_TLSConfig c1) of
              (e2, t, Some err) \<Rightarrow> (c1\<lparr>cl_TLSConfig := t\<rparr>, w\<lparr>w_env := e2\<rparr>, Some err)
            | (e2, t, None) \<Rightarrow>
                client_reload_rest url_Parse config dest (c1\<lparr>cl_TLSConfig := t\<rparr>) (w\<lparr>w_env := e2\<rparr>)))))"

text \<open>A reload does not touch the connection: its socket, interface and scripts stay.\<close>

lemma client_set_features_keeps:
  "client_set_features fs c = (c', err) \<Longrightarrow> cl_socket c' = cl_socket c \<and> cl_iface c' = cl_iface c \<and>
     cl_scripts c' = cl_scripts c \<and> cl_sentUpEvent c' = cl_sentUpEvent c \<and> cl_adapter c' = cl_adapter c"
  by (induction fs c rule: client_set_features.induct) (auto simp: client_SetLocalFeature_def split: if_splits)

lemma client_reloadConfig_keeps:
  assumes "client_reloadConfig os url_Parse loaded c w = (c', w', err)"
  shows "cl_socket c' = cl_socket c \<and> cl_iface c' = cl_iface c \<and> cl_scripts c' = cl_scripts c \<and>
    cl_sentUpEvent c' = cl_sentUpEvent c \<and> cl_adapter c' = cl_adapter c"
  using assms
  by (auto simp: client_reloadConfig_def client_reload_rest_def client_options_def Let_def
      dest!: client_set_features_keeps split: sum.splits prod.splits option.splits if_splits)

lemma client_reloadConfig_iface:
  assumes "client_reloadConfig os url_Parse loaded c w = (c', w', err)"
  shows "sk_iface (w_sock w' j) = sk_iface (w_sock w j)"
  using assms
  by (auto simp: client_reloadConfig_def client_reload_rest_def client_UpdateSocketConfig_def ConfigurePing_def Let_def
      split: sum.splits prod.splits option.splits if_splits)

text \<open>What the server learns of an authentication file that holds a user and a password.\<close>

lemma auth_file_credentials:
  assumes "config_headers (cc_Headers config) ''Authorization'' = None" and "ui_passwordSet (parse_auth_file authData)"
  shows "BasicAuth (client_headers config (Some (parse_auth_file authData))) =
    Some (url_escape (ui_username (parse_auth_file authData)), url_escape (ui_password (parse_auth_file authData)))"
proof -
  let ?h = "SetBasicAuthFromUserInfo (config_headers (cc_Headers config)) (Some (parse_auth_file authData))"
  have "CanonicalHeaderKey ''User-Agent'' = ''User-Agent''" by code_simp
  then have "header_Get (client_headers config (Some (parse_auth_file authData))) ''Authorization'' =
      header_Get ?h ''Authorization''"
    by (simp add: client_headers_def header_Get_def header_Set_def Let_def)
  then show ?thesis
    using BasicAuth_SetBasicAuth [of "config_headers (cc_Headers config)" "parse_auth_file authData"] assms by (simp add: BasicAuth_def)
qed

end
