(* ===== verification/Client_Events.thy ===== *)
theory Client_Events
  imports Client_Config
begin

text \<open>
  The client as a transition system: rounds of \<^verbatim>\<open>ServeLoop\<close>, control messages,
  closings of its sockets, reloads of its configuration, \<^verbatim>\<open>Client.Reload\<close> and
  \<^verbatim>\<open>Client.Close\<close>, in any order. Its event scripts
  and what a successful \<^verbatim>\<open>init\<close> has done.
\<close>

section \<open>The transitions\<close>

inductive client_step :: "platform \<Rightarrow> ('e, 'l) ext \<Rightarrow> 'e iface_ext \<Rightarrow> 'e dial_ext \<Rightarrow> client \<times> ('e, 'l) world
    \<Rightarrow> client \<times> ('e, 'l) world \<Rightarrow> bool"
  for p x io dl where
  round: "\<not> cl_crashed c \<Longrightarrow> client_step p x io dl (c, w) (serve_round p x dl i c w)"
| received: "\<not> cl_crashed c \<Longrightarrow> control_message x (client_handler p x io i) i message c w = (c', w', ok) \<Longrightarrow>
    client_step p x io dl (c, w) (c', w')"
| closed: "\<not> cl_crashed c \<Longrightarrow> op \<in> {DoClose, DoCloseDone} \<union> range DoCloseError \<Longrightarrow>
    client_step p x io dl (c, w) (c, live x i op w)"
| error_sent: "\<not> cl_crashed c \<Longrightarrow> client_step p x io dl (c, w) (c, sendErrorAndClose x i text w)"
| welcome_sent: "\<not> cl_crashed c \<Longrightarrow> client_step p x io dl (c, w) (c, sendDefaultWelcome x i w)"
| reloaded: "\<not> cl_crashed c \<Longrightarrow> client_reloadConfig os url_Parse loaded c w = (c', w', err) \<Longrightarrow>
    client_step p x io dl (c, w) (c', w')"
| redialled: "\<not> cl_crashed c \<Longrightarrow> client_step p x io dl (c, w) (Reload c, w)"
| shut: "\<not> cl_crashed c \<Longrightarrow> client_step p x io dl (c, w) (client_Close x c w)"

fun alternate :: "string list \<Rightarrow> bool" where
  "alternate [] \<longleftrightarrow> True"
| "alternate [e] \<longleftrightarrow> e = EventUp"
| "alternate (e # f # es) \<longleftrightarrow> e = EventUp \<and> f = EventDown \<and> alternate es"

definition client_ok :: "client \<Rightarrow> ('e, 'l) world \<Rightarrow> bool" where
  "client_ok c w \<longleftrightarrow> alternate (map fst (cl_scripts c)) \<and> (cl_sentUpEvent c \<longleftrightarrow> odd (length (cl_scripts c))) \<and>
     (cl_sentUpEvent c \<longrightarrow> (\<exists>i. cl_socket c = Some i \<and> sk_iface (w_sock w i) \<noteq> None))"

section \<open>Lemmas\<close>

lemma alternate_up: "alternate es \<Longrightarrow> even (length es) \<Longrightarrow> alternate (es @ [EventUp])"
  by (induction es rule: alternate.induct) auto

lemma alternate_down: "alternate es \<Longrightarrow> odd (length es) \<Longrightarrow> alternate (es @ [EventDown])"
  by (induction es rule: alternate.induct) auto

lemma client_ok_world:
  "client_ok c w \<Longrightarrow> (\<And>j. sk_iface (w_sock w j) \<noteq> None \<Longrightarrow> sk_iface (w_sock w' j) \<noteq> None) \<Longrightarrow> client_ok c w'"
  by (auto simp: client_ok_def)

lemma client_ok_client:
  "client_ok c w \<Longrightarrow> cl_scripts c' = cl_scripts c \<Longrightarrow> cl_sentUpEvent c' = cl_sentUpEvent c \<Longrightarrow>
   cl_socket c' = cl_socket c \<Longrightarrow> client_ok c' w"
  by (simp add: client_ok_def)

lemma closed_socket_iface [simp]: "sk_iface (closed_socket s) = sk_iface s"
  by (simp add: closed_socket_def)

lemma client_ok_send: "client_ok c w \<Longrightarrow> client_ok c (fst (rawMakeAndSendCommand x i p cid w))"
  by (erule client_ok_world) (use rawMakeAndSendCommand_sock [of x i p cid w] in \<open>metis closed_socket_iface\<close>)

lemma live_iface: "op \<in> {DoClose, DoCloseDone} \<union> range DoCloseError \<Longrightarrow> sk_iface (w_sock (live x i op w) j) = sk_iface (w_sock w j)"
  by (auto simp: closeDone_def Close_def sock_simps)

lemma closeInternal_fields:
  "closeInternal x c w = (c', w') \<Longrightarrow> \<not> cl_sentUpEvent c' \<and> cl_socket c' = None \<and> cl_adapter c' = None \<and>
     cl_iface c' = None \<and> cl_crashed c' = cl_crashed c \<and>
     map fst (cl_scripts c') = map fst (cl_scripts c) @ (if cl_sentUpEvent c then [EventDown] else [])"
  by (auto simp: closeInternal_def client_doRunEventScript_def Let_def split: option.splits if_splits)

lemma closeInternal_ok: "client_ok c w \<Longrightarrow> closeInternal x c w = (c', w') \<Longrightarrow> client_ok c' w'' \<and> \<not> cl_sentUpEvent c'"
  using closeInternal_fields [of x c w c' w'] alternate_down [of "map fst (cl_scripts c)"]
  by (auto simp: client_ok_def split: if_splits dest!: arg_cong [where f = length])

lemma client_Close_ok:
  assumes "client_ok c w" and "client_Close x c w = (c', w')"
  shows "client_ok c' w' \<and> \<not> cl_sentUpEvent c' \<and>
    map fst (cl_scripts c') = map fst (cl_scripts c) @ (if cl_sentUpEvent c then [EventDown] else [])"
proof -
  let ?c = "c\<lparr>cl_AutoReconnectDelay := 0\<rparr>"
  have "client_ok ?c w" using assms(1) by (simp add: client_ok_def)
  moreover have "closeInternal x ?c w = (c', w')" using assms(2) by (simp add: client_Close_def)
  ultimately show ?thesis using closeInternal_ok [of ?c w x c' w'] closeInternal_fields [of x ?c w c' w'] by simp
qed

lemma Dial_fields:
  "Dial con p x dl e c = (e', c', r) \<Longrightarrow> cl_scripts c' = cl_scripts c \<and> cl_sentUpEvent c' = cl_sentUpEvent c"
  by (cases con) (auto simp: dial_websocket_def dial_webtransport_def
      split: option.splits prod.splits sum.splits if_splits)

lemma connectAdapter_fields:
  "connectAdapter p x dl i c w = (c', w', r) \<Longrightarrow> cl_scripts c' = cl_scripts c \<and> cl_sentUpEvent c' = cl_sentUpEvent c"
  by (auto simp: connectAdapter_def Let_def dest: Dial_fields split: option.splits prod.splits sum.splits)

lemma client_Serve_fields:
  "client_Serve p x dl i c w = (c', w', r) \<Longrightarrow> cl_scripts c' = cl_scripts c \<and> cl_sentUpEvent c' = cl_sentUpEvent c"
  by (auto simp: client_Serve_def Let_def dest!: connectAdapter_fields split: option.splits prod.splits)

lemma serve_round_ok: "client_ok c w \<Longrightarrow> serve_round p x dl i c w = (c', w') \<Longrightarrow> client_ok c' w'"
proof -
  assume ok: "client_ok c w" and r: "serve_round p x dl i c w = (c', w')"
  obtain c1 w1 where c1: "closeInternal x c w = (c1, w1)" by fastforce
  then obtain err where s: "client_Serve p x dl i c1 w1 = (c', w', err)"
    using r by (auto simp: serve_round_def split: prod.splits)
  have "client_ok c1 w'" by (rule conjunct1 [OF closeInternal_ok [OF ok c1]])
  moreover have "\<not> cl_sentUpEvent c1" by (rule conjunct2 [OF closeInternal_ok [OF ok c1]])
  ultimately show ?thesis using client_Serve_fields [OF s] unfolding client_ok_def by metis
qed

lemma client_SetMTU_fields:
  "client_SetMTU x mtu c w = (c', w', err) \<Longrightarrow> c' = c\<lparr>cl_mtu := mtu\<rparr> \<and>
     w_sock w' = (case cl_socket c of None \<Rightarrow> w_sock w | Some i \<Rightarrow> (w_sock w)(i := SetMTU (w_sock w i) mtu)) \<and>
     w_spawned w' = w_spawned w"
  by (auto simp: client_SetMTU_def Let_def split: option.splits prod.splits)

lemma SetInterface_fields:
  "SetInterface i ifc w = (w', err) \<Longrightarrow> (err = None \<longleftrightarrow> sk_iface (w_sock w i) = None) \<and> (err \<noteq> None \<longrightarrow> w' = w) \<and>
     (err = None \<longrightarrow> sk_iface (w_sock w' i) = Some ifc \<and> sk_AssignedIP (w_sock w' i) = sk_AssignedIP (w_sock w i) \<and>
        sk_packetBufferSize (w_sock w' i) = sk_packetBufferSize (w_sock w i) \<and>
        w_spawned w' = w_spawned w @ (if sk_ifaceManaged (w_sock w i) then [ServeIfaceRead i] else []))"
  by (auto simp: SetInterface_def tryServeIfaceRead_def split: if_splits)

lemma init_online_outcome:
  assumes "init_online p x io i net v c w = (c', w', err)"
  shows "if err = None
    then sk_iface (w_sock w i) = None \<and> sk_iface (w_sock w' i) = Some (wi_Interface v) \<and> cl_sentUpEvent c' \<and>
      cl_socket c' = cl_socket c \<and> cl_mtu c' = cl_mtu c \<and>
      sk_AssignedIP (w_sock w' i) = sk_AssignedIP (w_sock w i) \<and>
      sk_packetBufferSize (w_sock w' i) = sk_packetBufferSize (w_sock w i) \<and>
      w_spawned w' = w_spawned w @ (if sk_ifaceManaged (w_sock w i) then [ServeIfaceRead i] else []) \<and>
      (\<exists>v'. cl_iface c' = Some v' \<and> wi_Interface v' = wi_Interface v) \<and>
      cl_scripts c' = cl_scripts c @
        [(EventUp, (case cl_remoteNet c of None \<Rightarrow> [] | Some net \<Rightarrow> GetRaw net), wi_Interface v)]
    else c' = c \<and> w' = w \<and> sk_iface (w_sock w i) \<noteq> None"
proof -
  obtain w1 e1 where s: "SetInterface i (wi_Interface v) w = (w1, e1)" by fastforce
  show ?thesis
    using assms SetInterface_fields [OF s]
    by (auto simp: init_online_def s client_doRunEventScript_def Let_def dest: iface_kept
        split: option.splits prod.splits if_splits)
qed


text \<open>What a successful \<^verbatim>\<open>init\<close> has done, and an unsuccessful one has not.\<close>

definition init_done :: "sid \<Rightarrow> string \<Rightarrow> int \<Rightarrow> client \<Rightarrow> ('e, 'l) world \<Rightarrow> client \<Rightarrow> ('e, 'l) world \<Rightarrow> bool" where
  "init_done i address mtu c w c' w' \<longleftrightarrow> sk_iface (w_sock w i) = None \<and> cl_sentUpEvent c' \<and> cl_mtu c' = mtu \<and>
     sk_packetBufferSize (w_sock w' i) = mtu + 82 \<and>
     w_spawned w' = w_spawned w @ (if sk_ifaceManaged (w_sock w i) then [ServeIfaceRead i] else []) \<and>
     (\<exists>v. cl_iface c' = Some v \<and> sk_iface (w_sock w' i) = Some (wi_Interface v) \<and>
       cl_scripts c' = cl_scripts c @ [(EventUp, address, wi_Interface v)])"

definition init_undone :: "client \<Rightarrow> ('e, 'l) world \<Rightarrow> client \<Rightarrow> ('e, 'l) world \<Rightarrow> bool" where
  "init_undone c w c' w' \<longleftrightarrow> cl_scripts c' = cl_scripts c \<and> cl_sentUpEvent c' = cl_sentUpEvent c \<and>
     (\<forall>j. sk_iface (w_sock w' j) = sk_iface (w_sock w j))"

definition init_outcome :: "sid \<Rightarrow> string \<Rightarrow> int \<Rightarrow> client \<Rightarrow> ('e, 'l) world \<Rightarrow> client \<Rightarrow> ('e, 'l) world
    \<Rightarrow> go_error option \<Rightarrow> bool" where
  "init_outcome i address mtu c w c' w' err \<longleftrightarrow> cl_socket c' = cl_socket c \<and>
     sk_AssignedIP (w_sock w' i) = sk_AssignedIP (w_sock w i) \<and>
     (if err = None then init_done i address mtu c w c' w' else init_undone c w c' w')"

lemma init_ready_outcome:
  assumes "client_SetMTU x mtu (c\<lparr>cl_iface := Some v\<rparr>) (w\<lparr>w_env := e\<rparr>) = (c1, w1, None)"
    and "init_online p x io i net v c1 w1 = (c', w', err)" and "cl_socket c = Some i" and "cl_remoteNet c = Some net"
  shows "init_outcome i (GetRaw net) mtu c w c' w' err"
  using client_SetMTU_fields [OF assms(1)] init_online_outcome [OF assms(2)] assms(3,4)
  by (cases "err = None")
    (auto simp: init_outcome_def init_done_def init_undone_def SetMTU_def GetPacketBufferSizeByMTU_def)

lemma init_interface_outcome:
  assumes "init_interface p x io i ps net c w = (c', w', err)" and "cl_socket c = Some i" and "cl_remoteNet c = Some net"
  shows "init_outcome i (GetRaw net) (in_MTU ps) c w c' w' err"
proof -
  obtain e1 cfg where g: "GetPlatformSpecifics p io (w_env w) \<lparr>wc_DeviceType = ToWaterDeviceType x (VPNModeFromString (in_Mode ps)),
             wc_Name = [], wc_Persist = False, wc_InterfaceName = [], wc_ComponentID = []\<rparr> (cl_InterfaceConfig c) = (e1, cfg)"
    by fastforce
  have undone: "init_outcome i (GetRaw net) (in_MTU ps) c0 w0 c'' w'' (Some e)"
    if "cl_scripts c'' = cl_scripts c0" "cl_sentUpEvent c'' = cl_sentUpEvent c0" "cl_socket c'' = cl_socket c0"
      "\<And>j. sk_iface (w_sock w'' j) = sk_iface (w_sock w0 j)"
      "sk_AssignedIP (w_sock w'' i) = sk_AssignedIP (w_sock w0 i)"
    for e c0 c'' and w0 w'' :: "('a, 'b) world"
    using that by (simp add: init_outcome_def init_undone_def)
  show ?thesis
  proof (cases "water_New io e1 cfg")
    case (Pair e2 r)
    show ?thesis
    proof (cases r)
      case (Inl a)
      then show ?thesis using assms g Pair by (auto simp: init_interface_def intro!: undone)
    next
      case (Inr ifc)
      obtain e3 v ce where cf: "(if cl_doIPConfig c
          then Configure p x io e2 (NewInterfaceWrapper ifc) (GetRawIP net) (Some net) (nil_ip (GetServerIP x net))
          else Configure p x io e2 (NewInterfaceWrapper ifc) [] None []) = (e3, v, ce)"
        by (rule prod_cases3)
      obtain c1 w1 me where m: "client_SetMTU x (in_MTU ps) (c\<lparr>cl_iface := Some v\<rparr>) (w\<lparr>w_env := e3\<rparr>) = (c1, w1, me)"
        by (rule prod_cases3)
      show ?thesis
      proof (cases "ce = None \<and> me = None")
        case True
        then have "init_online p x io i net v c1 w1 = (c', w', err)"
          using assms(1) g Pair Inr cf m by (simp add: init_interface_def)
        then show ?thesis using init_ready_outcome m True assms(2,3) by metis
      next
        case False
        then show ?thesis
          using assms g Pair Inr cf m client_SetMTU_fields [OF m]
          by (cases ce; cases me) (auto simp: init_interface_def SetMTU_def intro!: undone)
      qed
    qed
  qed
qed

lemma HandleInit_fields [simp]:
  "sk_iface (HandleInitPacketFragmentation s b) = sk_iface s"
  "sk_packetBufferSize (HandleInitPacketFragmentation s b) = sk_packetBufferSize s"
  "sk_ifaceManaged (HandleInitPacketFragmentation s b) = sk_ifaceManaged s"
  by (simp_all add: HandleInitPacketFragmentation_def featureCheck_def SetLocalFeature_def Let_def)

lemma init_ids_simps [simp]:
  "cl_scripts (init_ids ps c) = cl_scripts c" "cl_sentUpEvent (init_ids ps c) = cl_sentUpEvent c"
  "cl_socket (init_ids ps c) = cl_socket c"
  by (simp_all add: init_ids_def)

text \<open>
  The interface of the client as \<^verbatim>\<open>init\<close> leaves it: opened as a device of the mode
  of the command, configured with the address, the network and the server's address when the
  command asks for it, and with the MTU of the command.
\<close>

definition interface_up :: "platform \<Rightarrow> ('e, 'l) ext \<Rightarrow> 'e iface_ext \<Rightarrow> InitParameters \<Rightarrow> VPNNet \<Rightarrow> InterfaceConfig
    \<Rightarrow> 'e \<Rightarrow> WaterInterfaceWrapper \<Rightarrow> bool" where
  "interface_up p x io ps net ic e v \<longleftrightarrow> (\<exists>e1 cfg e2 ifc e3 e4.
     GetPlatformSpecifics p io e \<lparr>wc_DeviceType = ToWaterDeviceType x (VPNModeFromString (in_Mode ps)),
       wc_Name = [], wc_Persist = False, wc_InterfaceName = [], wc_ComponentID = []\<rparr> ic = (e1, cfg) \<and>
     water_New io e1 cfg = (e2, Inr ifc) \<and>
     (if in_DoIPConfig ps
      then Configure p x io e2 (NewInterfaceWrapper ifc) (GetRawIP net) (Some net) (nil_ip (GetServerIP x net))
      else Configure p x io e2 (NewInterfaceWrapper ifc) [] None []) = (e3, v, None) \<and>
     wi_SetMTU x e3 v (in_MTU ps) = (e4, None))"

text \<open>What the client has taken from the command.\<close>

definition init_taken :: "InitParameters \<Rightarrow> VPNNet \<Rightarrow> client \<Rightarrow> client \<Rightarrow> bool" where
  "init_taken ps net c c' \<longleftrightarrow> cl_mtu c' = in_MTU ps \<and> cl_remoteNet c' = Some net \<and> cl_doIPConfig c' = in_DoIPConfig ps \<and>
     cl_clientID c' = (if in_ClientID ps = [] then cl_clientID c else in_ClientID ps) \<and>
     cl_serverID c' = (if in_ServerID ps = [] then cl_serverID c else in_ServerID ps)"

lemma init_online_taken:
  "init_online p x io i net v c w = (c', w', None) \<Longrightarrow> cl_remoteNet c' = cl_remoteNet c \<and> cl_doIPConfig c' = cl_doIPConfig c \<and>
     cl_clientID c' = cl_clientID c \<and> cl_serverID c' = cl_serverID c \<and> cl_mtu c' = cl_mtu c \<and>
     (\<exists>v'. cl_iface c' = Some v' \<and> wi_Interface v' = wi_Interface v)"
  by (auto simp: init_online_def client_doRunEventScript_def Let_def dest: iface_kept
      split: option.splits prod.splits if_splits)

lemma init_interface_taken:
  assumes "init_interface p x io i ps net c w = (c', w', None)" and "cl_doIPConfig c = in_DoIPConfig ps"
  shows "cl_remoteNet c' = cl_remoteNet c \<and> cl_doIPConfig c' = cl_doIPConfig c \<and> cl_clientID c' = cl_clientID c \<and>
    cl_serverID c' = cl_serverID c \<and> cl_mtu c' = in_MTU ps \<and>
    (\<exists>v v'. interface_up p x io ps net (cl_InterfaceConfig c) (w_env w) v \<and> cl_iface c' = Some v' \<and>
       wi_Interface v' = wi_Interface v)"
proof -
  obtain e1 cfg where g: "GetPlatformSpecifics p io (w_env w) \<lparr>wc_DeviceType = ToWaterDeviceType x (VPNModeFromString (in_Mode ps)),
             wc_Name = [], wc_Persist = False, wc_InterfaceName = [], wc_ComponentID = []\<rparr> (cl_InterfaceConfig c) = (e1, cfg)"
    by fastforce
  obtain e2 r where n: "water_New io e1 cfg = (e2, r)" by fastforce
  then obtain ifc where r: "r = Inr ifc" using assms(1) g by (cases r) (auto simp: init_interface_def)
  obtain e3 v ce where cf: "(if cl_doIPConfig c
      then Configure p x io e2 (NewInterfaceWrapper ifc) (GetRawIP net) (Some net) (nil_ip (GetServerIP x net))
      else Configure p x io e2 (NewInterfaceWrapper ifc) [] None []) = (e3, v, ce)"
    by (rule prod_cases3)
  obtain c1 w1 me where m: "client_SetMTU x (in_MTU ps) (c\<lparr>cl_iface := Some v\<rparr>) (w\<lparr>w_env := e3\<rparr>) = (c1, w1, me)"
    by (rule prod_cases3)
  have none: "ce = None" "me = None" and online: "init_online p x io i net v c1 w1 = (c', w', None)"
    using assms(1) g n r cf m by (cases ce; cases me; auto simp: init_interface_def)+
  obtain e4 where "wi_SetMTU x e3 v (in_MTU ps) = (e4, None)"
    using m none(2) by (auto simp: client_SetMTU_def Let_def split: option.splits prod.splits)
  then have "interface_up p x io ps net (cl_InterfaceConfig c) (w_env w) v"
    unfolding interface_up_def
    by (intro exI [of _ e1] exI [of _ cfg] exI [of _ e2] exI [of _ ifc] exI [of _ e3] exI [of _ e4] conjI)
      (use g n r cf none(1) assms(2) in simp_all)
  then show ?thesis
    using init_online_taken [OF online] client_SetMTU_fields [OF m] by auto
qed

lemma init_ids_fields:
  "cl_clientID (init_ids ps c) = (if in_ClientID ps = [] then cl_clientID c else in_ClientID ps)"
  "cl_serverID (init_ids ps c) = (if in_ServerID ps = [] then cl_serverID c else in_ServerID ps)"
  "cl_InterfaceConfig (init_ids ps c) = cl_InterfaceConfig c"
  by (simp_all add: init_ids_def)

lemma handle_init_taken:
  assumes "handle_init p x io command c w = Ret (c', w', None)"
    and "DeserializeParameters command (Init zero_init) = Inr (Init ps)" and "cl_socket c = Some i"
    and "ParseVPNNet (in_IPAddress ps) = Inr net"
  shows "init_taken ps net c c' \<and> (\<exists>v v'. interface_up p x io ps net (cl_InterfaceConfig c) (w_env w) v \<and>
    cl_iface c' = Some v' \<and> wi_Interface v' = wi_Interface v)"
proof -
  let ?w1 = "upd_sock i (\<lambda>s. HandleInitPacketFragmentation s (in_EnableFragmentation ps)) w"
  have "init_interface p x io i ps net ((init_ids ps c)\<lparr>cl_remoteNet := Some net, cl_doIPConfig := in_DoIPConfig ps\<rparr>)
      (upd_sock i (\<lambda>s. s\<lparr>sk_AssignedIP := GetRawIP net\<rparr>) ?w1) = (c', w', None)"
    using assms by (simp add: handle_init_def Let_def)
  from init_interface_taken [OF this] show ?thesis by (simp add: init_taken_def init_ids_fields)
qed

text \<open>What \<open>handle_init\<close> has done once its parameters are read.\<close>

lemma handle_init_outcome:
  assumes "handle_init p x io command c w = Ret (c', w', err)"
    and "DeserializeParameters command (Init zero_init) = Inr (Init ps)" and "cl_socket c = Some i"
  shows "cl_socket c' = Some i \<and> (case ParseVPNNet (in_IPAddress ps) of
      Inl e \<Rightarrow> err = Some e \<and> init_undone c w c' w'
    | Inr net \<Rightarrow> sk_AssignedIP (w_sock w' i) = GetRawIP net \<and>
        (if err = None then init_done i (in_IPAddress ps) (in_MTU ps) c w c' w' else init_undone c w c' w'))"
proof -
  let ?c2 = "init_ids ps c"
  let ?w1 = "upd_sock i (\<lambda>s. HandleInitPacketFragmentation s (in_EnableFragmentation ps)) w"
  have c2: "cl_scripts ?c2 = cl_scripts c" "cl_sentUpEvent ?c2 = cl_sentUpEvent c" "cl_socket ?c2 = Some i"
    using assms(3) by simp_all
  show ?thesis
  proof (cases "ParseVPNNet (in_IPAddress ps)")
    case (Inl e)
    then show ?thesis
      using assms c2 by (auto simp: handle_init_def Let_def init_undone_def)
  next
    case (Inr net)
    then have raw: "GetRaw net = in_IPAddress ps"
      by (auto simp: ParseVPNNet_def GetRaw_def split: sum.splits)
    have "init_interface p x io i ps net (?c2\<lparr>cl_remoteNet := Some net, cl_doIPConfig := in_DoIPConfig ps\<rparr>)
        (upd_sock i (\<lambda>s. s\<lparr>sk_AssignedIP := GetRawIP net\<rparr>) ?w1) = (c', w', err)"
      using assms Inr c2 by (simp add: handle_init_def Let_def)
    from init_interface_outcome [OF this] Inr raw c2 show ?thesis
      by (auto simp: init_outcome_def init_done_def init_undone_def)
  qed
qed

lemma handle_init_ok:
  assumes "client_ok c w" and "handle_init p x io command c w = Ret (c', w', err)"
  shows "client_ok c' w'"
proof (cases "DeserializeParameters command (Init zero_init)")
  case (Inl e)
  then show ?thesis using assms by (simp add: handle_init_def)
next
  case (Inr ps)
  show ?thesis
  proof (cases "\<exists>q. ps = Init q")
    case False
    then show ?thesis using assms Inr by (cases ps) (auto simp: handle_init_def)
  next
    case True
    then obtain q where q: "DeserializeParameters command (Init zero_init) = Inr (Init q)" using Inr by blast
    show ?thesis
    proof (cases "cl_socket c")
      case None
      then show ?thesis using assms q by (simp add: handle_init_def Let_def)
    next
      case (Some i)
      from handle_init_outcome [OF assms(2) q Some] assms(1) Some
      have "init_undone c w c' w' \<and> cl_socket c' = cl_socket c \<or>
          init_done i (in_IPAddress q) (in_MTU q) c w c' w' \<and> cl_socket c' = Some i"
        by (auto split: sum.splits if_splits)
      then show ?thesis
      proof
        assume "init_undone c w c' w' \<and> cl_socket c' = cl_socket c"
        then show ?thesis using assms(1) by (auto simp: client_ok_def init_undone_def)
      next
        assume d: "init_done i (in_IPAddress q) (in_MTU q) c w c' w' \<and> cl_socket c' = Some i"
        then have "\<not> cl_sentUpEvent c" using assms(1) Some by (auto simp: client_ok_def init_done_def)
        then show ?thesis
          using d assms(1) alternate_up [of "map fst (cl_scripts c)"] by (auto simp: client_ok_def init_done_def)
      qed
    qed
  qed
qed

lemma client_SetMTU_ok: "client_ok c w \<Longrightarrow> client_SetMTU x mtu c w = (c', w', err) \<Longrightarrow> client_ok c' w'"
  using client_SetMTU_fields [of x mtu c w c' w' err]
  by (auto simp: client_ok_def SetMTU_def split: option.splits)

lemma handle_add_route_ok: "client_ok c w \<Longrightarrow> handle_add_route p x io command c w = (c', w', err) \<Longrightarrow> client_ok c' w'"
  by (auto simp: handle_add_route_def client_ok_def split: sum.splits CommandParameters.splits option.splits prod.splits)

lemma handleVersion_iface [simp]: "sk_iface (handleVersion s v fs) = sk_iface s"
  by (simp add: handleVersion_def featureCheck_def setReady_def Let_def)

lemma default_handler_ok: "client_ok c w \<Longrightarrow> default_handler i h command c w = (c', w', err) \<Longrightarrow> client_ok c' w'"
  by (cases h) (auto simp: handle_version_def handle_reply_def handle_message_def client_ok_def
      split: sum.splits CommandParameters.splits)

lemma client_handler_ok:
  assumes "client_ok c w" and "client_handler p x io i h command c w = (c', w', err)"
  shows "client_ok c' w'"
proof (cases h)
  case InitHandler
  show ?thesis
  proof (cases "handle_init p x io command c w")
    case (Ret r)
    then show ?thesis using assms InitHandler handle_init_ok by (cases r) (auto simp: client_handler_def crash_def)
  next
    case Panic
    then show ?thesis using assms InitHandler by (auto simp: client_handler_def crash_def client_ok_def)
  qed
next
  case AddRouteHandler
  then show ?thesis using assms handle_add_route_ok by (simp add: client_handler_def)
next
  case SetMTUHandler
  then show ?thesis using assms client_SetMTU_ok
    by (auto simp: client_handler_def handle_set_mtu_def split: sum.splits CommandParameters.splits)
qed (use assms default_handler_ok in \<open>simp_all add: client_handler_def del: default_handler.simps\<close>)

lemma received_ok:
  assumes "client_ok c w" and "control_message x (client_handler p x io i) i message c w = (c', w', accepted)"
  shows "client_ok c' w'"
proof (cases "DeserializeCommand message (GetCommandSerializationType (sk_adapter (w_sock w i)))")
  case (Inl e)
  then show ?thesis using assms by (simp add: control_message_def)
next
  case (Inr m)
  obtain c1 w1 err where h: "(case sk_handlers (w_sock w i) (ic_Command m) of
      None \<Rightarrow> (c, w, Some (GoErr ''unknown command'')) | Some h \<Rightarrow> client_handler p x io i h m c w) = (c1, w1, err)"
    by (rule prod_cases3)
  have "client_ok c1 w1"
    using h assms(1) client_handler_ok by (auto split: option.splits)
  then show ?thesis
    using assms(2) Inr h by (auto simp: control_message_def Let_def client_ok_send split: if_splits)
qed

lemma client_ok_send_error: "client_ok c w \<Longrightarrow> client_ok c (sendErrorAndClose x i msg w)"
  unfolding sendErrorAndClose_def SendMessage_def MakeAndSendCommand_def
  by (rule client_ok_world [OF client_ok_send]) (simp_all add: close_adapter_simps)

lemma client_step_ok: "client_step p x io dl (c, w) (c', w') \<Longrightarrow> client_ok c w \<Longrightarrow> client_ok c' w'"
proof (induction "(c, w)" "(c', w')" rule: client_step.induct)
  case (round i)
  then show ?case using serve_round_ok by metis
next
  case (received i message ok)
  then show ?case using received_ok by blast
next
  case (closed op i)
  then show ?case using live_iface client_ok_world by metis
next
  case (error_sent i msg)
  then show ?case using client_ok_send_error by blast
next
  case (welcome_sent i)
  then show ?case unfolding sendDefaultWelcome_def MakeAndSendCommand_def using client_ok_send by blast
next
  case (reloaded os url_Parse loaded err)
  have "sk_iface (w_sock w' j) = sk_iface (w_sock w j)" for j
    using client_reloadConfig_iface [OF reloaded(2)] .
  then have "client_ok c w'" using client_ok_world [OF reloaded(3), of w'] by simp
  then show ?case using client_reloadConfig_keeps [OF reloaded(2)] client_ok_client by metis
next
  case redialled
  then show ?case using client_ok_client [of c w "Reload c"] by (auto simp: Reload_def)
next
  case shut
  then show ?case using client_Close_ok by metis
qed

interpretation client_inv: kept_invariant "client_step p x io dl" "\<lambda>(c, w). client_ok c w" for p x io dl
  by unfold_locales (auto simp: client_step_ok)

text \<open>
  C21 The event scripts of the client run in turn: however connections come and go, whatever
  commands the server sends and whenever sockets are closed, the configuration is reloaded or the client is shut down, the
  scripts that were started are \<^verbatim>\<open>up\<close>, \<^verbatim>\<open>down\<close>,
  \<^verbatim>\<open>up\<close> and so on, and \<^verbatim>\<open>sentUpEvent\<close> says whether a
  \<^verbatim>\<open>down\<close> is still to come. When \<^verbatim>\<open>Close\<close> shuts the client down in
  any of these states, the scripts still alternate and the last one is not \<^verbatim>\<open>up\<close>: one
  \<^verbatim>\<open>down\<close> more was started when the last had been \<^verbatim>\<open>up\<close>, and nothing
  otherwise.
\<close>

theorem client_events_alternate:
  assumes "(client_step p x io dl)\<^sup>*\<^sup>* (c, w) (c', w')" and "cl_scripts c = []" and "\<not> cl_sentUpEvent c"
  shows "alternate (map fst (cl_scripts c')) \<and> (cl_sentUpEvent c' \<longleftrightarrow> odd (length (cl_scripts c'))) \<and>
    (case client_Close x c' w' of (c'', w'') \<Rightarrow> \<not> cl_sentUpEvent c'' \<and> alternate (map fst (cl_scripts c'')) \<and>
       even (length (cl_scripts c'')) \<and>
       map fst (cl_scripts c'') = map fst (cl_scripts c') @ (if cl_sentUpEvent c' then [EventDown] else []))"
proof -
  have "client_ok c w" using assms(2,3) by (simp add: client_ok_def)
  with client_inv.run_keeps [OF assms(1)] have ok: "client_ok c' w'" by simp
  obtain c'' w'' where c: "client_Close x c' w' = (c'', w'')" by fastforce
  have "\<not> cl_sentUpEvent c'' \<and> alternate (map fst (cl_scripts c'')) \<and> even (length (cl_scripts c'')) \<and>
      map fst (cl_scripts c'') = map fst (cl_scripts c') @ (if cl_sentUpEvent c' then [EventDown] else [])"
    using client_Close_ok [OF ok c] by (metis client_ok_def)
  then show ?thesis using ok unfolding c prod.case client_ok_def by blast
qed

text \<open>A client whose server answers: the driver opens the interface that is asked for.\<close>

definition example_client :: client where
  "example_client = NewClient\<lparr>cl_socket := Some 7\<rparr>"

definition example_client_world :: "(demo_env, list_lru) world" where
  "example_client_world = example_world (registerCommandHandlers (MakeSocket (NewWebSocketAdapter 0 1 False) None True False))"

lemma example_interface:
  assumes "cl_socket c = Some 7" and "sk_iface (w_sock w 7) = None" and "cl_doIPConfig c" and "\<not> cl_SetDefaultGateway c"
    and "cl_InterfaceConfig c = cl_InterfaceConfig NewClient"
  shows "\<exists>c' w'. init_interface Linux demo_ext example_driver 7 ps net c w = (c', w', None)"
  using assms by (simp add: init_interface_def init_online_def example_configured GetPlatformSpecifics_linux_def
      getInterfaceNameOrPrefix_def example_driver_def NewClient_def client_SetMTU_def example_calls SetInterface_def
      SetMTU_def Let_def)

lemma example_init_run:
  "\<exists>c' w'. handle_init Linux demo_ext example_driver (received example_init) example_client
     example_client_world = Ret (c', w', None)"
  "DeserializeParameters (received example_init) (Init zero_init) = Inr (oc_Parameters example_init)"
proof -
  show d: "DeserializeParameters (received example_init) (Init zero_init) = Inr (oc_Parameters example_init)"
    using deserialize_parameters [of "oc_Parameters example_init" "received example_init"]
    by (simp add: received_def example_init_def zero_init_def int64_def)
  have "remoteNetStr [10, 0, 0, 2] 24 = ''10.0.0.2/24''" by code_simp
  then obtain net where n: "ParseVPNNet ''10.0.0.2/24'' = Inr net"
    using ParseVPNNet_remoteNetStr [of "[10, 0, 0, 2]" 24] by auto
  let ?c = "(init_ids (case oc_Parameters example_init of Init q \<Rightarrow> q) example_client)
    \<lparr>cl_remoteNet := Some net, cl_doIPConfig := True\<rparr>"
  let ?w = "upd_sock 7 (\<lambda>s. s\<lparr>sk_AssignedIP := GetRawIP net\<rparr>)
    (upd_sock 7 (\<lambda>s. HandleInitPacketFragmentation s True) example_client_world)"
  have "\<exists>c' w'. init_interface Linux demo_ext example_driver 7 (case oc_Parameters example_init of Init q \<Rightarrow> q) net ?c ?w =
      (c', w', None)"
    by (rule example_interface) (simp_all add: example_client_def example_init_def init_ids_def NewClient_def
        example_client_world_def example_world_def registerCommandHandlers_def AddCommandHandler_def MakeSocket_def)
  then show "\<exists>c' w'. handle_init Linux demo_ext example_driver (received example_init) example_client
     example_client_world = Ret (c', w', None)"
    using d n by (auto simp: handle_init_def example_init_def example_client_def NewClient_def Let_def)
qed

text \<open>
  C22 What a successful \<^verbatim>\<open>init\<close> has done: the client has the MTU, the network, the
  identifiers that are given and the choice of configuring addresses of the command; it has opened
  an interface for the mode of the command and its configuration, which went without an error with
  the address, network and server of the command when it asks for that, and so did setting
  the MTU; the client's socket has the address the server assigned, this
  interface, and room for packets of the server's MTU; packets from the interface are read from now
  on; and the \<^verbatim>\<open>up\<close> script was started with that address and interface. It can
  succeed only once per connection: a socket that already has an interface refuses. When it fails
  no script was started and no interface bound to a socket.
\<close>

theorem init_takes_effect:
  assumes "DeserializeParameters command (Init zero_init) = Inr (Init ps)" and "cl_socket c = Some i"
    and "ParseVPNNet (in_IPAddress ps) = Inr net" and "handle_init p x io command c w = Ret (c', w', err)"
  shows "sk_AssignedIP (w_sock w' i) = GetRawIP net \<and>
    (if err = None
     then sk_iface (w_sock w i) = None \<and> sk_packetBufferSize (w_sock w' i) = in_MTU ps + 82 \<and>
       (sk_ifaceManaged (w_sock w i) \<longrightarrow> ServeIfaceRead i \<in> set (w_spawned w')) \<and> cl_sentUpEvent c' \<and>
       cl_mtu c' = in_MTU ps \<and> cl_remoteNet c' = Some net \<and> cl_doIPConfig c' = in_DoIPConfig ps \<and>
       cl_clientID c' = (if in_ClientID ps = [] then cl_clientID c else in_ClientID ps) \<and>
       cl_serverID c' = (if in_ServerID ps = [] then cl_serverID c else in_ServerID ps) \<and>
       (\<exists>v v'. interface_up p x io ps net (cl_InterfaceConfig c) (w_env w) v \<and>
          cl_iface c' = Some v' \<and> wi_Interface v' = wi_Interface v \<and> sk_iface (w_sock w' i) = Some (wi_Interface v) \<and>
          cl_scripts c' = cl_scripts c @ [(EventUp, in_IPAddress ps, wi_Interface v)])
     else cl_scripts c' = cl_scripts c \<and> cl_sentUpEvent c' = cl_sentUpEvent c \<and>
       (\<forall>j. sk_iface (w_sock w' j) = sk_iface (w_sock w j)))"
proof (cases err)
  case None
  have t: "init_taken ps net c c'" and d: "init_done i (in_IPAddress ps) (in_MTU ps) c w c' w'"
    and a: "sk_AssignedIP (w_sock w' i) = GetRawIP net"
    using handle_init_taken [OF assms(4) [unfolded None] assms(1-3)] handle_init_outcome [OF assms(4,1,2)] assms(3) None by auto
  obtain v v' where v: "interface_up p x io ps net (cl_InterfaceConfig c) (w_env w) v" "cl_iface c' = Some v'"
    "wi_Interface v' = wi_Interface v"
    using handle_init_taken [OF assms(4) [unfolded None] assms(1-3)] by blast
  have s: "sk_iface (w_sock w' i) = Some (wi_Interface v)" "cl_scripts c' = cl_scripts c @ [(EventUp, in_IPAddress ps, wi_Interface v)]"
    using d v(2,3) by (auto simp: init_done_def)
  show ?thesis
    using None t d a v s unfolding init_taken_def init_done_def by auto
next
  case (Some e)
  then show ?thesis using handle_init_outcome [OF assms(4,1,2)] assms(3) by (auto simp: init_undone_def)
qed

theorem init_takes_effect_witness:
  "\<exists>c' w'. handle_init Linux demo_ext example_driver (received example_init) example_client example_client_world =
      Ret (c', w', None) \<and> sk_packetBufferSize (w_sock w' 7) = 1482 \<and> ServeIfaceRead 7 \<in> set (w_spawned w') \<and>
    (\<exists>name. cl_scripts c' = [(EventUp, ''10.0.0.2/24'', name)])"
proof -
  obtain c' w' where r: "handle_init Linux demo_ext example_driver (received example_init) example_client
      example_client_world = Ret (c', w', None)" using example_init_run(1) by blast
  have "remoteNetStr [10, 0, 0, 2] 24 = ''10.0.0.2/24''" by code_simp
  then obtain net where n: "ParseVPNNet ''10.0.0.2/24'' = Inr net"
    using ParseVPNNet_remoteNetStr [of "[10, 0, 0, 2]" 24] by auto
  obtain q where q: "oc_Parameters example_init = Init q" "in_IPAddress q = ''10.0.0.2/24''" "in_MTU q = 1400"
    by (simp add: example_init_def)
  have c: "cl_socket example_client = Some 7" "cl_scripts example_client = []"
    by (simp_all add: example_client_def NewClient_def)
  have m: "sk_ifaceManaged (w_sock example_client_world 7)"
    by (simp add: example_client_world_def example_world_def registerCommandHandlers_def AddCommandHandler_def MakeSocket_def)
  have d: "DeserializeParameters (received example_init) (Init zero_init) = Inr (Init q)"
    using example_init_run(2) q(1) by simp
  have "ParseVPNNet (in_IPAddress q) = Inr net" using n q(2) by simp
  from init_takes_effect [OF d c(1) this r] q c(2) m r show ?thesis by auto
qed

definition example_dial :: "demo_env dial_ext" where
  "example_dial = \<lparr>proxy_FromURL = (\<lambda>u. None), ws_Dial = (\<lambda>e nd tc h u. (e, Inr (7, Map.empty))),
     wt_Dial = (\<lambda>e dial tc h u. (e, Inl ''no session'')), net_ResolveUDPAddr = (\<lambda>e a. (e, Inr a)),
     net_ListenUDP = (\<lambda>e. (e, Inr 0)), udp_Close = (\<lambda>e c. e), quic_DialEarly = (\<lambda>e c a t. (e, Inr c)),
     dl_conn = RawSocket, dl_mark = \<lparr>conn_SyscallConn = (\<lambda>e s. (e, None)), raw_Control = (\<lambda>e s. (e, Inr s)),
       unix_SetsockoptInt = (\<lambda>e fd l opt v. (e, None))\<rparr>\<rparr>"

theorem client_events_alternate_witness:
  "\<exists>c' w'. (client_step Linux demo_ext example_driver example_dial)\<^sup>*\<^sup>* (example_client, example_client_world) (c', w') \<and>
    alternate (map fst (cl_scripts c')) \<and> cl_sentUpEvent c' = odd (length (cl_scripts c')) \<and> length (cl_scripts c') = 1 \<and>
    even (length (cl_scripts (fst (client_Close demo_ext c' w'))))"
proof -
  obtain c1 w1 where r: "handle_init Linux demo_ext example_driver (received example_init) example_client
      example_client_world = Ret (c1, w1, None)" using example_init_run(1) by blast
  obtain q where q: "DeserializeParameters (received example_init) (Init zero_init) = Inr (Init q)"
    using example_init_run(2) by (simp add: example_init_def)
  have c: "cl_socket example_client = Some 7" "cl_scripts example_client = []" "\<not> cl_sentUpEvent example_client"
    "\<not> cl_crashed example_client"
    by (simp_all add: example_client_def NewClient_def)
  have s: "length (cl_scripts c1) = 1"
    using handle_init_outcome [OF r q c(1)] c(2) by (auto simp: init_done_def split: sum.splits)
  have k: "sk_handlers (w_sock example_client_world 7) ''init'' = Some InitHandler"
    "GetCommandSerializationType (sk_adapter (w_sock example_client_world 7)) = SerializationTypeJSON"
    by (simp_all add: example_client_world_def example_world_def registerCommandHandlers_def AddCommandHandler_def
        MakeSocket_def command_names NewWebSocketAdapter_def SerializationTypeJSON_def)
  have name: "ic_Command (received example_init) = ''init''" by (simp add: received_def example_init_def)
  obtain w2 ok where "control_message demo_ext (client_handler Linux demo_ext example_driver 7) 7 (command_bytes example_init)
      example_client example_client_world = (c1, w2, ok)"
    using example_commands_received(2) k r name
    by (auto simp: control_message_def client_handler_def crash_def ReplyCommandName_def Let_def)
  then have "(client_step Linux demo_ext example_driver example_dial)\<^sup>*\<^sup>* (example_client, example_client_world) (c1, w2)"
    using client_step.received [OF c(4)] by blast
  from client_events_alternate [OF this c(2,3)] this s show ?thesis
    by (intro exI [of _ c1] exI [of _ w2]) (auto split: prod.splits)
qed

end
