(* ===== verification/Client_Dial.thy ===== *)
theory Client_Dial
  imports Client_State
begin

text \<open>
  What the firewall mark of the client reaches (\<^verbatim>\<open>client/connectors\<close>,
  \<^verbatim>\<open>client/clients/connection_linux.go\<close>): the mark keeps the client's own packets out
  of the tunnel, so each connection that a connector opens has to carry it.
\<close>

section \<open>What the libraries promise\<close>

text \<open>
  \<open>so_mark e s\<close> is the mark of socket \<open>s\<close>, \<open>socket_of\<close> the socket that a connection sends its
  packets on. A \<^verbatim>\<open>net.Dialer\<close> calls \<^verbatim>\<open>Control\<close> on the socket of every
  connection it makes, and does not return the connection if the call failed; the WebTransport library
  makes its session on a QUIC connection that the given function returned; a QUIC connection sends on the
  socket it was given. None of them changes a mark.
\<close>

definition control_is_called :: "'e dial_ext \<Rightarrow> ('e \<Rightarrow> nat \<Rightarrow> int) \<Rightarrow> (conn \<Rightarrow> nat) \<Rightarrow> bool" where
  "control_is_called dl so_mark socket_of \<longleftrightarrow>
     (\<forall>e control tc h u v e' cn hdr. (\<forall>e s e1. control e s = (e1, None) \<longrightarrow> so_mark e1 s = v) \<longrightarrow>
        ws_Dial dl e (NetDialControl control) tc h u = (e', Inr (cn, hdr)) \<longrightarrow> so_mark e' (socket_of cn) = v)"

definition session_is_dialled :: "'e dial_ext \<Rightarrow> ('e \<Rightarrow> nat \<Rightarrow> int) \<Rightarrow> (conn \<Rightarrow> nat) \<Rightarrow> (nat \<Rightarrow> nat) \<Rightarrow> bool" where
  "session_is_dialled dl so_mark socket_of quic_socket \<longleftrightarrow>
     (\<forall>e dial tc h u v e' cn hdr. (\<forall>e a tc e1 q. dial e a tc = (e1, Inr q) \<longrightarrow> so_mark e1 (quic_socket q) = v) \<longrightarrow>
        wt_Dial dl e dial tc h u = (e', Inr (cn, hdr)) \<longrightarrow> so_mark e' (socket_of cn) = v)"

definition dials_marked :: "'e dial_ext \<Rightarrow> ('e \<Rightarrow> nat \<Rightarrow> int) \<Rightarrow> (conn \<Rightarrow> nat) \<Rightarrow> (nat \<Rightarrow> nat) \<Rightarrow> bool" where
  "dials_marked dl so_mark socket_of quic_socket \<longleftrightarrow>
     sets_mark (dl_mark dl) so_mark \<and>
     (\<forall>cn s. bottom_socket (dl_conn dl cn) = Some s \<longrightarrow> socket_of cn = s) \<and>
     control_is_called dl so_mark socket_of \<and> session_is_dialled dl so_mark socket_of quic_socket \<and>
     (\<forall>e cn a tc e' q. quic_DialEarly dl e cn a tc = (e', Inr q) \<longrightarrow> so_mark e' (quic_socket q) = so_mark e (socket_of cn))"

lemma dials_markedD:
  assumes "dials_marked dl so_mark socket_of quic_socket"
  shows "sets_mark (dl_mark dl) so_mark"
    and "bottom_socket (dl_conn dl cn) = Some s \<Longrightarrow> socket_of cn = s"
    and "control_is_called dl so_mark socket_of"
    and "quic_DialEarly dl e cn a tc = (e', Inr q) \<Longrightarrow> so_mark e' (quic_socket q) = so_mark e (socket_of cn)"
    and "session_is_dialled dl so_mark socket_of quic_socket"
  using assms by (simp_all add: dials_marked_def)

primrec adapter_socket :: "(conn \<Rightarrow> nat) \<Rightarrow> adapter \<Rightarrow> nat" where
  "adapter_socket socket_of (WS a) = socket_of (ws_conn a)"
| "adapter_socket socket_of (WT a) = socket_of (wt_conn a)"

section \<open>Lemmas\<close>

lemma EnhanceConn_marks:
  assumes "dials_marked dl so_mark socket_of quic_socket" and "cl_FirewallMark c > 0"
    and "EnhanceConn Linux dl e c cn = (e', None)"
  shows "so_mark e' (socket_of cn) = cl_FirewallMark c"
proof -
  have "linux_setFirewallMark (dl_mark dl) e (dl_conn dl cn) (cl_FirewallMark c) = (e', None)"
    using assms(2,3) by (simp add: EnhanceConn_def setFirewallMark_def)
  from linux_mark_bottom [OF dials_markedD(1) [OF assms(1)] this] dials_markedD(2) [OF assms(1)]
  show ?thesis by metis
qed

lemma control_marks:
  assumes "dials_marked dl so_mark socket_of quic_socket" and "DialerControlFunc Linux dl c e s = (e1, None)"
  shows "so_mark e1 s = cl_FirewallMark c"
  using linux_mark_raw [OF dials_markedD(1) [OF assms(1)]] assms(2)
  by (auto simp: DialerControlFunc_def setFirewallMarkRaw_def)

lemma DialEarly_marks:
  assumes "dials_marked dl so_mark socket_of quic_socket" and "cl_FirewallMark c > 0"
    and "quicDialerHelper_DialEarly Linux dl c e addr tlsCfg = (e', Inr q)"
  shows "so_mark e' (quic_socket q) = cl_FirewallMark c"
proof -
  obtain e2 udpConn e3 udpAddr where u: "EnhanceConn Linux dl e2 c udpConn = (e3, None)"
    "quic_DialEarly dl e3 udpConn udpAddr tlsCfg = (e', Inr q)"
    using assms(3) by (auto simp: quicDialerHelper_DialEarly_def split: prod.splits sum.splits option.splits)
  show ?thesis
    using EnhanceConn_marks [OF assms(1,2) u(1)] dials_markedD(4) [OF assms(1) u(2)] by simp
qed

lemma new_adapter_socket [simp]:
  "adapter_socket f (NewWebSocketAdapter cn t b) = f cn" "adapter_socket f (NewWebTransportAdapter cn t b) = f cn"
  by (simp_all add: NewWebSocketAdapter_def NewWebTransportAdapter_def)

lemma dial_websocket_marks:
  assumes m: "dials_marked dl so_mark socket_of quic_socket" and "cl_FirewallMark c > 0" and "cl_ProxyURL c = None"
    and d: "dial_websocket Linux x dl e c = (e', c', Inr ad)"
  shows "so_mark e' (adapter_socket socket_of ad) = cl_FirewallMark c"
proof (cases "cl_dialer c")
  case True
  then obtain e1 cn hdr tc h u where
    "ws_Dial dl e (NetDialControl (DialerControlFunc Linux dl c)) tc h u = (e1, Inr (cn, hdr))"
    "e' = e1" "adapter_socket socket_of ad = socket_of cn"
    using d assms(3) by (auto simp: dial_websocket_def GetProxyURL_def GetDialer_def split: prod.splits sum.splits)
  then show ?thesis
    using dials_markedD(3) [OF m] control_marks [OF m] unfolding control_is_called_def by metis
next
  case False
  then obtain e1 cn where "EnhanceConn Linux dl e1 c cn = (e', None)" "adapter_socket socket_of ad = socket_of cn"
    using d assms(3)
    by (auto simp: dial_websocket_def GetProxyURL_def GetDialer_def split: prod.splits sum.splits option.splits)
  then show ?thesis using EnhanceConn_marks [OF m assms(2)] by metis
qed

lemma dial_webtransport_marks:
  assumes m: "dials_marked dl so_mark socket_of quic_socket" and "cl_FirewallMark c > 0"
    and d: "dial_webtransport Linux dl e c = (e', c', Inr ad)"
  shows "so_mark e' (adapter_socket socket_of ad) = cl_FirewallMark c"
proof -
  obtain tc h u cn hdr where
    "wt_Dial dl e (quicDialerHelper_DialEarly Linux dl c) tc h u = (e', Inr (cn, hdr))"
    "adapter_socket socket_of ad = socket_of cn"
    using d by (auto simp: dial_webtransport_def split: if_splits prod.splits sum.splits)
  then show ?thesis
    using dials_markedD(5) [OF m] DialEarly_marks [OF m assms(2)] unfolding session_is_dialled_def by metis
qed

section \<open>Properties\<close>

text \<open>
  C29 The client's own connection stays out of its tunnel: on Linux, with a firewall mark and
  without a proxy, every connection that a connector returns sends on a socket with this mark,
  whether the mark was set by the dialer before the connection was made, afterwards through the
  TLS connection, or on the UDP socket of QUIC; a connection that could not be marked is not
  returned. This also holds between a reload and \<^verbatim>\<open>Client.Reload\<close>, when the dialer does not
  fit the mark.
\<close>

theorem connections_carry_mark:
  assumes "dials_marked dl so_mark socket_of quic_socket" and "cl_FirewallMark c > 0" and "cl_ProxyURL c = None"
    and "Dial con Linux x dl e c = (e', c', Inr ad)"
  shows "so_mark e' (adapter_socket socket_of ad) = cl_FirewallMark c"
  using assms dial_websocket_marks dial_webtransport_marks by (cases con) fastforce+

text \<open>A network that remembers the marks it was asked for.\<close>

definition marked :: "demo_env \<Rightarrow> nat \<Rightarrow> int" where
  "marked e s = (case rev (filter (\<lambda>p. fst p = s) e) of [] \<Rightarrow> 0 | p # _ \<Rightarrow> int (length (snd p)))"

definition marking_dial :: "demo_env dial_ext" where
  "marking_dial = \<lparr>proxy_FromURL = (\<lambda>u. None),
     ws_Dial = (\<lambda>e nd tc h u. case nd of
        NetDialControl f \<Rightarrow> (case f e 7 of (e', None) \<Rightarrow> (e', Inr (7, Map.empty)) | (e', Some err) \<Rightarrow> (e', Inl (Error err)))
      | _ \<Rightarrow> (e, Inr (7, Map.empty))),
     wt_Dial = (\<lambda>e dial tc h u. case dial e (url_Rest u) tc of
        (e', Inr q) \<Rightarrow> (e', Inr (q, Map.empty)) | (e', Inl err) \<Rightarrow> (e', Inl (Error err))),
     net_ResolveUDPAddr = (\<lambda>e a. (e, Inr a)), net_ListenUDP = (\<lambda>e. (e, Inr 5)), udp_Close = (\<lambda>e c. e),
     quic_DialEarly = (\<lambda>e c a t. (e, Inr c)), dl_conn = (\<lambda>cn. TLSConn (RawSocket cn)),
     dl_mark = \<lparr>conn_SyscallConn = (\<lambda>e s. (e, None)), raw_Control = (\<lambda>e s. (e, Inr s)),
       unix_SetsockoptInt = (\<lambda>e fd l opt v. if v < 0 then (e, Some ''invalid argument'')
         else (e @ [(fd, replicate (nat v) 0)], None))\<rparr>\<rparr>"

lemma marking_dial_marks: "dials_marked marking_dial marked id id"
  by (auto simp: dials_marked_def sets_mark_def control_is_called_def session_is_dialled_def marking_dial_def marked_def
      split: if_splits prod.splits sum.splits option.splits)

definition marked_client :: client where
  "marked_client = NewClient\<lparr>cl_FirewallMark := 7, cl_dialer := True\<rparr>"

theorem connections_carry_mark_witness:
  "\<exists>e1 c1 ad1 e2 c2 ad2.
     Dial WebSocketConnector Linux demo_ext marking_dial [] marked_client = (e1, c1, Inr ad1) \<and>
     marked e1 (adapter_socket id ad1) = 7 \<and>
     Dial WebTransportConnector Linux demo_ext marking_dial [] marked_client = (e2, c2, Inr ad2) \<and>
     marked e2 (adapter_socket id ad2) = 7"
proof -
  have c: "cl_FirewallMark marked_client = 7" "cl_ProxyURL marked_client = None" "cl_dialer marked_client"
    by (simp_all add: marked_client_def NewClient_def)
  obtain st ty where r: "readSerializationType Map.empty (cl_serialization marked_client) = (st, ty)" by fastforce
  obtain e1 c1 ad1 where d1: "Dial WebSocketConnector Linux demo_ext marking_dial [] marked_client = (e1, c1, Inr ad1)"
    using c r by (simp add: dial_websocket_def GetProxyURL_def GetDialer_def DialerControlFunc_def setFirewallMarkRaw_def
        linux_setFirewallMarkRaw_def marking_dial_def)
  obtain e2 c2 ad2 where d2: "Dial WebTransportConnector Linux demo_ext marking_dial [] marked_client = (e2, c2, Inr ad2)"
    using c r by (simp add: dial_webtransport_def GetProxyURL_def quicDialerHelper_DialEarly_def EnhanceConn_def
        setFirewallMark_def linux_setFirewallMarkRaw_def marking_dial_def)
  show ?thesis
    using connections_carry_mark [OF marking_dial_marks _ c(2) d1] connections_carry_mark [OF marking_dial_marks _ c(2) d2] d1 d2 c
    by auto
qed

text \<open>
  A connection through a proxy is not marked: once \<^verbatim>\<open>Client.Reload\<close> has made the dialer
  for the firewall mark, the connector uses the proxy instead of the dialer and takes the dialer
  for a reason not to mark the connection afterwards, so that dialling is the same for every mark.
\<close>

theorem proxied_connections_unmarked:
  assumes "cl_FirewallMark c > 0" and "cl_ProxyURL c = Some proxy" and "dial_websocket p x dl e (Reload c) = (e', c', r)"
  shows "dial_websocket p x dl e ((Reload c)\<lparr>cl_FirewallMark := m\<rparr>) = (e', c'\<lparr>cl_FirewallMark := m\<rparr>, r)"
proof -
  have "Reload c = c\<lparr>cl_dialer := True\<rparr>" using assms(1) by (simp add: Reload_def)
  then show ?thesis
    using assms(2,3)
    by (auto simp: dial_websocket_def GetProxyURL_def GetTLSConfig_def GetHeaders_def GetServerURL_def
        split: option.splits prod.splits sum.splits)
qed

theorem proxied_connections_unmarked_witness:
  "dial_websocket Linux demo_ext marking_dial [] ((Reload (marked_client\<lparr>cl_ProxyURL := Some (cl_ServerURL NewClient)\<rparr>))\<lparr>cl_FirewallMark := 0\<rparr>) =
     (case dial_websocket Linux demo_ext marking_dial [] (Reload (marked_client\<lparr>cl_ProxyURL := Some (cl_ServerURL NewClient)\<rparr>)) of
       (e', c', r) \<Rightarrow> (e', c'\<lparr>cl_FirewallMark := 0\<rparr>, r)) \<and>
   cl_FirewallMark (marked_client\<lparr>cl_ProxyURL := Some (cl_ServerURL NewClient)\<rparr>) = 7"
proof -
  let ?c = "marked_client\<lparr>cl_ProxyURL := Some (cl_ServerURL NewClient)\<rparr>"
  obtain e' c' r where d: "dial_websocket Linux demo_ext marking_dial [] (Reload ?c) = (e', c', r)" by (rule prod_cases3)
  have m: "cl_FirewallMark ?c = 7" by (simp add: marked_client_def)
  show ?thesis using proxied_connections_unmarked [OF _ _ d, of "cl_ServerURL NewClient" 0] m d by simp
qed

end
