(* ===== verification/Client_Main.thy ===== *)
theory Client_Main
  imports Client_Events Client_Dial Program_Start
begin

text \<open>
  The client program as a whole (\<^verbatim>\<open>Main\<close> of \<^verbatim>\<open>client/cli/base.go\<close>): its
  first configuration, the loop that connects and waits, and what a reload leaves behind.
\<close>

section \<open>Main\<close>

definition zero_ClientConfig :: ClientConfig where
  "zero_ClientConfig = \<lparr>cc_SetDefaultGateway = False, cc_Ping = \<lparr>pc_Interval = 0, pc_Timeout = 0\<rparr>, cc_Features = [],
     cc_Interface = \<lparr>ifc_Name = [], ifc_Persist = False, ifc_ComponentID = [], ifc_OneInterfacePerConnection = False\<rparr>,
     cc_FirewallMark = 0, cc_Scripts = \<lparr>ec_Up = [], ec_Down = [], ec_Startup = []\<rparr>, cc_Server = [], cc_Headers = [],
     cc_Proxy = [], cc_AuthFile = [], cc_AutoReconnectDelay = 0, cc_TLS_CA = [], cc_TLS_Certificate = [], cc_TLS_Key = [],
     cc_TLS_ServerName = [],
     cc_TLS_Config = \<lparr>tf_MinVersion = [], tf_MaxVersion = [], tf_KeyLogFile = [], tf_Insecure = False\<rparr>\<rparr>"

text \<open>The built-in configuration, the YAML library and the parser of URLs are parameters.\<close>

record client_files =
  cf_defaultConfig :: string
  cf_Decode :: "string \<Rightarrow> ClientConfig \<Rightarrow> string + ClientConfig"
  cf_url_Parse :: "string \<Rightarrow> string + url"

definition client_Load :: "'e os_ext \<Rightarrow> client_files \<Rightarrow> 'e \<Rightarrow> string \<Rightarrow> 'e \<times> (string + ClientConfig)" where
  "client_Load os cf e file = Load_over zero_ClientConfig (cf_defaultConfig cf) (cf_Decode cf) (os_ReadFile os) e file"

definition client_reload_from :: "'e os_ext \<Rightarrow> client_files \<Rightarrow> string \<Rightarrow> client \<Rightarrow> ('e, 'l) world
    \<Rightarrow> client \<times> ('e, 'l) world \<times> go_error option" where
  "client_reload_from os cf configPtr c w =
     (case client_Load os cf (w_env w) configPtr of
        (e, loaded) \<Rightarrow> client_reloadConfig os (cf_url_Parse cf) loaded c (w\<lparr>w_env := e\<rparr>))"

datatype ('e, 'l) client_state =
    ClientPrinted string
  | ClientStopped client "('e, 'l) world" go_error
  | ClientLoop client "('e, 'l) world"

text \<open>Up to \<^verbatim>\<open>ServeLoop\<close>; a failed configuration panics after the deferred \<^verbatim>\<open>Close\<close>.\<close>

definition client_Main :: "platform \<Rightarrow> ('e, 'l) ext \<Rightarrow> 'e os_ext \<Rightarrow> 'e wintun_ext \<Rightarrow> client_files \<Rightarrow> string \<Rightarrow> bool \<Rightarrow> ('e, 'l) world
    \<Rightarrow> ('e, 'l) client_state" where
  "client_Main p x os wt cf configPtr printDefaultConfig w =
     (if printDefaultConfig then ClientPrinted (cf_defaultConfig cf)
      else (case client_reload_from os cf configPtr (RegisterDefaultConnectors NewClient)
                   (w\<lparr>w_env := fst (InitializeWater p wt (w_env w))\<rparr>) of
        (c, w1, Some err) \<Rightarrow> (case client_Close x c w1 of (c', w') \<Rightarrow> ClientStopped c' w' err)
      | (c, w1, None) \<Rightarrow> ClientLoop (Reload c) w1))"

text \<open>The signal handler: a reload, whether it succeeds or not, and the dialer that fits it.\<close>

definition client_sighup :: "'e os_ext \<Rightarrow> client_files \<Rightarrow> string \<Rightarrow> client \<Rightarrow> ('e, 'l) world \<Rightarrow> client \<times> ('e, 'l) world" where
  "client_sighup os cf configPtr c w = (case client_reload_from os cf configPtr c w of (c', w', _) \<Rightarrow> (Reload c', w'))"

text \<open>What \<^verbatim>\<open>Serve\<close> logs about the authentication it is going to use, and whether as a warning.\<close>

definition authentications :: "client \<Rightarrow> string list" where
  "authentications c =
     (let useMTLS = tc_Certificates (cl_TLSConfig c) \<noteq> [];
          useHTTPAuth = header_Get (cl_Headers c) ''Authorization'' \<noteq> []
      in (if useMTLS then [''mTLS''] else []) @ (if useHTTPAuth then [''HTTP''] else []))"

definition auth_text :: "client \<Rightarrow> bool \<times> string" where
  "auth_text c = (if authentications c = [] then (True, ''NONE'') else (False, join_with '', '' (authentications c)))"

text \<open>\<^verbatim>\<open>Wait\<close>: the socket whose goroutines are waited for, if there is one.\<close>

definition client_Wait :: "client \<Rightarrow> sid option" where
  "client_Wait c = cl_socket c"

section \<open>The whole program\<close>

lemma client_Main_start:
  assumes "client_Main p x os wt cf configPtr b w = ClientLoop c w1"
  shows "cl_scripts c = [] \<and> \<not> cl_sentUpEvent c \<and> cl_socket c = None \<and> cl_adapter c = None \<and> cl_iface c = None \<and>
    (cl_dialer c \<longleftrightarrow> cl_FirewallMark c > 0)"
proof -
  obtain c0 e loaded where r: "client_reloadConfig os (cf_url_Parse cf) loaded (RegisterDefaultConnectors NewClient)
      (w\<lparr>w_env := e\<rparr>) = (c0, w1, None)" "c = Reload c0"
    using assms by (auto simp: client_Main_def client_reload_from_def split: if_splits prod.splits option.splits)
  show ?thesis
    using client_reloadConfig_keeps [OF r(1)] r(2)
    by (auto simp: Reload_def RegisterDefaultConnectors_def registerConnector_def NewClient_def)
qed


section \<open>What a reload leaves behind\<close>

definition proxy_after :: "(string \<Rightarrow> string + url) \<Rightarrow> ClientConfig \<Rightarrow> url option \<Rightarrow> url option" where
  "proxy_after url_Parse config old = (if cc_Proxy config = [] then old
     else (case url_Parse (cc_Proxy config) of Inr u \<Rightarrow> Some u | Inl _ \<Rightarrow> old))"

definition names_pair :: "ClientConfig \<Rightarrow> bool" where
  "names_pair config \<longleftrightarrow> cc_TLS_Certificate config \<noteq> [] \<and> cc_TLS_Key config \<noteq> []"

lemma client_set_features_other:
  "client_set_features fs c = (c', err) \<Longrightarrow>
     cl_ProxyURL c' = cl_ProxyURL c \<and> cl_TLSConfig c' = cl_TLSConfig c \<and> cl_Headers c' = cl_Headers c"
  by (induction fs c rule: client_set_features.induct) (auto simp: client_SetLocalFeature_def split: if_splits)

lemma client_tls_leaves:
  assumes "client_tls os config e t = (e', t', None)"
  shows "cc_TLS_CA config = [] \<Longrightarrow> tc_RootCAs t' = tc_RootCAs t"
    and "\<not> names_pair config \<Longrightarrow> tc_Certificates t' = tc_Certificates t"
    and "tf_KeyLogFile (cc_TLS_Config config) = [] \<Longrightarrow> tc_KeyLogWriter t' = tc_KeyLogWriter t"
    and "tc_InsecureSkipVerify t' = tf_Insecure (cc_TLS_Config config)"
    and "tc_ServerName t' = cc_TLS_ServerName config"
  using assms
  by (auto simp: client_tls_def names_pair_def TLSUseConfig_def Let_def split: if_splits prod.splits sum.splits option.splits)


lemma client_reload_stages:
  assumes "client_reloadConfig os url_Parse (Inr config) c w = (c', w', None)"
  obtains e1 userInfo dest t e2 c1 c2 where
    "client_tls os config e1 (cl_TLSConfig c) = (e2, t, None)"
    "cl_ProxyURL c1 = proxy_after url_Parse config (cl_ProxyURL c)" "cl_TLSConfig c1 = t"
    "cl_Headers c1 = client_headers config userInfo" "cl_localFeatures c1 = cl_localFeatures c"
    "client_set_features (cc_Features config) c1 = (c2, None)" "c' = client_options config dest c2"
proof -
  obtain e1 userInfo dest e2 t where r: "client_tls os config e1 (cl_TLSConfig c) = (e2, t, None)"
    "client_reload_rest url_Parse config dest (c\<lparr>cl_Headers := client_headers config userInfo, cl_TLSConfig := t\<rparr>)
       (w\<lparr>w_env := e2\<rparr>) = (c', w', None)"
    using assms by (auto simp: client_reloadConfig_def Let_def split: sum.splits prod.splits option.splits)
  define c0 where "c0 = c\<lparr>cl_Headers := client_headers config userInfo, cl_TLSConfig := t,
      cl_ProxyURL := proxy_after url_Parse config (cl_ProxyURL c),
      cl_SocketConfigurator := Some (cc_Ping config)\<rparr>"
  obtain c2 where f: "client_set_features (cc_Features config) c0 = (c2, None)" "c' = client_options config dest c2"
    using r(2) unfolding c0_def
    by (auto simp: client_reload_rest_def proxy_after_def Let_def split: sum.splits prod.splits option.splits if_splits)
  show thesis by (rule that [OF r(1) _ _ _ _ f]) (simp_all add: c0_def)
qed

section \<open>Properties\<close>

text \<open>
  C40 What a reload of the client cannot undo. \<open>config\<close> is what \<open>client_Load\<close> makes of
  the file: its values over those of the built-in file, which names no proxy, certificate authority,
  client certificate or key log. After a successful reload of a running client the headers, the
  verification of the server's certificate and its name are those of \<open>config\<close> alone. A
  proxy, a certificate authority, a client certificate or a key log that the new file no longer
  names, so that it is empty in \<open>config\<close>, is still that of the old one.
\<close>

theorem client_reload_leaves_options:
  assumes "client_reloadConfig os url_Parse (Inr config) c w = (c', w', None)"
  shows "(\<exists>userInfo. cl_Headers c' = client_headers config userInfo) \<and>
    tc_InsecureSkipVerify (GetTLSConfig c') = tf_Insecure (cc_TLS_Config config) \<and>
    tc_ServerName (GetTLSConfig c') = cc_TLS_ServerName config \<and>
    (cc_Proxy config = [] \<longrightarrow> GetProxyURL c' = GetProxyURL c) \<and>
    (cc_TLS_CA config = [] \<longrightarrow> tc_RootCAs (GetTLSConfig c') = tc_RootCAs (GetTLSConfig c)) \<and>
    (\<not> names_pair config \<longrightarrow> tc_Certificates (GetTLSConfig c') = tc_Certificates (GetTLSConfig c)) \<and>
    (tf_KeyLogFile (cc_TLS_Config config) = [] \<longrightarrow>
       tc_KeyLogWriter (GetTLSConfig c') = tc_KeyLogWriter (GetTLSConfig c))"
proof -
  obtain e1 userInfo dest t e2 c1 c2 where s: "client_tls os config e1 (cl_TLSConfig c) = (e2, t, None)"
    "cl_ProxyURL c1 = proxy_after url_Parse config (cl_ProxyURL c)" "cl_TLSConfig c1 = t"
    "cl_Headers c1 = client_headers config userInfo" "cl_localFeatures c1 = cl_localFeatures c"
    "client_set_features (cc_Features config) c1 = (c2, None)" "c' = client_options config dest c2"
    by (rule client_reload_stages [OF assms])
  have "\<exists>userInfo. cl_Headers c' = client_headers config userInfo"
    using s(4,7) client_set_features_other [OF s(6)] by (auto simp: client_options_def)
  then show ?thesis
    using s(2,3,7) client_set_features_other [OF s(6)] client_tls_leaves [OF s(1)]
    by (simp add: GetTLSConfig_def GetProxyURL_def proxy_after_def client_options_def)
qed

text \<open>A client with a proxy, a certificate authority and a certificate, and the values of the built-in file.\<close>

definition example_old_client :: client where
  "example_old_client = NewClient\<lparr>cl_ProxyURL := Some \<lparr>url_Scheme = ''http'', url_User = None, url_Rest = ''proxy''\<rparr>,
     cl_TLSConfig := empty_TLSConfig\<lparr>tc_RootCAs := Some ''old'', tc_Certificates := [''old'']\<rparr>\<rparr>"

definition default_ClientConfig :: ClientConfig where
  "default_ClientConfig = zero_ClientConfig\<lparr>cc_Ping := \<lparr>pc_Interval = 25 * second, pc_Timeout = 5 * second\<rparr>,
     cc_Features := [(Fragmentation, True)],
     cc_Interface := \<lparr>ifc_Name = [], ifc_Persist = False, ifc_ComponentID = ''root'' @ [CHR 0x5C] @ ''tap0901'',
       ifc_OneInterfacePerConnection = False\<rparr>,
     cc_TLS_Config := \<lparr>tf_MinVersion = ''1.2'', tf_MaxVersion = ''1.3'', tf_KeyLogFile = [], tf_Insecure = False\<rparr>\<rparr>"

theorem client_reload_leaves_options_witness:
  "\<exists>c' w'. client_reloadConfig example_os (\<lambda>s. Inr (cl_ServerURL NewClient)) (Inr default_ClientConfig) example_old_client
       example_client_world = (c', w', None) \<and>
     map_option url_Rest (GetProxyURL c') = Some ''proxy'' \<and> tc_RootCAs (GetTLSConfig c') = Some ''old'' \<and>
     tc_Certificates (GetTLSConfig c') = [''old'']"
proof -
  obtain c' w' where r: "client_reloadConfig example_os (\<lambda>s. Inr (cl_ServerURL NewClient)) (Inr default_ClientConfig)
      example_old_client example_client_world = (c', w', None)"
    by (simp add: client_reloadConfig_def load_userinfo_def default_ClientConfig_def zero_ClientConfig_def client_tls_def
        TLSUseConfig_def client_reload_rest_def client_UpdateSocketConfig_def client_options_def example_old_client_def
        NewClient_def IsFeatureSupported_def client_SetLocalFeature_def Let_def)
  show ?thesis
    using client_reload_leaves_options [OF r] r
    by (auto simp: default_ClientConfig_def zero_ClientConfig_def names_pair_def example_old_client_def GetTLSConfig_def
        GetProxyURL_def)
qed

end
