(* ===== verification/Adapter_Serve.thy ===== *)
theory Adapter_Serve
  imports Socket_Commands
begin

text \<open>
  The read loops of the adapters (\<^verbatim>\<open>WebSocketAdapter.Serve\<close>,
  \<^verbatim>\<open>WebTransportAdapter.Serve\<close> and what they call) with the handlers that
  \<^verbatim>\<open>Socket.Serve\<close> has installed. A loop is a function of what the connection
  delivers to it, in order; while nothing more has arrived it waits.
\<close>

section \<open>The handlers\<close>

text \<open>
  One end of a connection: the state of the object that owns the socket, the world, and the
  deadline of the socket's ping timer while it runs.
\<close>

record ('c, 'e, 'l) peer =
  pe_owner :: 'c
  pe_world :: "('e, 'l) world"
  pe_timer :: "gotime option"

type_synonym ('c, 'e, 'l) command_handlers =
  "CommandHandler \<Rightarrow> IncomingCommand \<Rightarrow> 'c \<Rightarrow> ('e, 'l) world \<Rightarrow> 'c \<times> ('e, 'l) world \<times> go_error option"

definition handleControl :: "('e, 'l) ext \<Rightarrow> ('c, 'e, 'l) command_handlers \<Rightarrow> sid \<Rightarrow> bytes \<Rightarrow> ('c, 'e, 'l) peer
    \<Rightarrow> ('c, 'e, 'l) peer \<times> bool" where
  "handleControl x H i message p = (case control_message x H i message (pe_owner p) (pe_world p) of
     (c, w, res) \<Rightarrow> (p\<lparr>pe_owner := c, pe_world := w\<rparr>, res))"

definition handleData :: "('e, 'l) ext \<Rightarrow> sid \<Rightarrow> gotime \<Rightarrow> bytes \<Rightarrow> ('c, 'e, 'l) peer \<Rightarrow> (('c, 'e, 'l) peer \<times> bool) run" where
  "handleData x i now message p =
     run_bind (dataMessageHandler x now i message (pe_world p)) (\<lambda>(w, res). run_return (p\<lparr>pe_world := w\<rparr>, res))"

text \<open>The pong handler that \<^verbatim>\<open>installPingPongHandlers\<close> sets.\<close>

definition handlePong :: "('c, 'e, 'l) peer \<Rightarrow> ('c, 'e, 'l) peer" where
  "handlePong p = p\<lparr>pe_timer := None\<rparr>"

section \<open>WebSocket\<close>

definition ws_handleFrame :: "('e, 'l) ext \<Rightarrow> ('c, 'e, 'l) command_handlers \<Rightarrow> sid \<Rightarrow> ws_adapter \<Rightarrow> gotime
    \<Rightarrow> opcode \<Rightarrow> bytes \<Rightarrow> ('c, 'e, 'l) peer \<Rightarrow> (('c, 'e, 'l) peer \<times> go_error option) run" where
  "ws_handleFrame x H i a now opc data p = (case opc of
     OpText \<Rightarrow> (case handleControl x H i data p of
       (p', res) \<Rightarrow> run_return (p', if \<not> res then Some (GoErr ''error in control message'') else None))
   | OpBinary \<Rightarrow> run_bind (handleData x i now data p)
       (\<lambda>(p', res). run_return (p', if \<not> res then Some (GoErr ''error in data message'') else None))
   | OpPing \<Rightarrow> (case ws_writePongMessage x (w_env (pe_world p)) a data of
       (e, err) \<Rightarrow> run_return (p\<lparr>pe_world := (pe_world p)\<lparr>w_env := e\<rparr>\<rparr>, err))
   | OpPong \<Rightarrow> run_return (handlePong p, None)
   | _ \<Rightarrow> run_return (p, None))"

text \<open>
  The reader of a client whose handshake was answered together with the first frames: what
  \<^verbatim>\<open>ws.ReadFrame\<close> makes of it, and the frames that are left in its buffer when the
  reader is given back.
\<close>

datatype first_frame = FirstFrame opcode bytes | FirstEOF | FirstError string

text \<open>
  What the connection delivers: a frame header with the length of the payload and the result of
  reading the payload, or an error of \<^verbatim>\<open>NextFrame\<close>, each at an instant.
\<close>

datatype ws_read = NextFrame opcode nat "string + bytes" | NextFrameError string

definition ws_handleInitial :: "('e, 'l) ext \<Rightarrow> ('c, 'e, 'l) command_handlers \<Rightarrow> sid \<Rightarrow> ws_adapter \<Rightarrow> gotime
    \<Rightarrow> (first_frame \<times> (gotime \<times> ws_read) list) option \<Rightarrow> ('c, 'e, 'l) peer
    \<Rightarrow> (('c, 'e, 'l) peer \<times> go_error option) run" where
  "ws_handleInitial x H i a now initial p = (case initial of
     None \<Rightarrow> run_return (p, None)
   | Some (FirstFrame opc payload, left) \<Rightarrow> ws_handleFrame x H i a now opc payload p
   | Some (FirstEOF, left) \<Rightarrow> run_return (p, None)
   | Some (FirstError err, left) \<Rightarrow> run_return (p, Some (GoErr err)))"

text \<open>
  The result of a read loop: whether the error was unexpected, and the error; \<open>None\<close> while
  it waits for more.
\<close>

type_synonym ('c, 'e, 'l) served = "(('c, 'e, 'l) peer \<times> (bool \<times> go_error) option) run"

fun ws_serve_loop :: "('e, 'l) ext \<Rightarrow> ('c, 'e, 'l) command_handlers \<Rightarrow> sid \<Rightarrow> ws_adapter \<Rightarrow> (gotime \<times> ws_read) list
    \<Rightarrow> ('c, 'e, 'l) peer \<Rightarrow> ('c, 'e, 'l) served" where
  "ws_serve_loop x H i a [] p = run_return (p, None)"
| "ws_serve_loop x H i a ((now, NextFrameError err) # rs) p = run_return (p, Some (True, GoErr err))"
| "ws_serve_loop x H i a ((now, NextFrame opc len payload) # rs) p =
     (if opc = OpClose then run_return (p, Some (False, GoErr ''received close frame''))
      else if len > unat (MaxDataPayloadLen (WS a)) then run_return (p, Some (True, GoErr ''data payload too large''))
      else (case payload of
        Inl err \<Rightarrow> run_return (p, Some (True, GoErr err))
      | Inr msg \<Rightarrow> run_bind (ws_handleFrame x H i a now opc msg p) (\<lambda>(p', err). case err of
            Some e \<Rightarrow> run_return (p', Some (True, e))
          | None \<Rightarrow> ws_serve_loop x H i a rs p')))"

definition ws_Serve :: "('e, 'l) ext \<Rightarrow> ('c, 'e, 'l) command_handlers \<Rightarrow> sid \<Rightarrow> ws_adapter \<Rightarrow> gotime
    \<Rightarrow> (first_frame \<times> (gotime \<times> ws_read) list) option \<Rightarrow> (gotime \<times> ws_read) list \<Rightarrow> ('c, 'e, 'l) peer
    \<Rightarrow> ('c, 'e, 'l) served" where
  "ws_Serve x H i a now initial rs p =
     run_bind (ws_handleInitial x H i a now initial p) (\<lambda>(p', err). case err of
        Some e \<Rightarrow> run_return (p', Some (True, e))
      | None \<Rightarrow> ws_serve_loop x H i a rs p')"

section \<open>WebTransport\<close>

text \<open>The adapter of a WebTransport socket is in the world, because writing changes it too.\<close>

definition upd_wt :: "sid \<Rightarrow> (wt_adapter \<Rightarrow> wt_adapter) \<Rightarrow> ('c, 'e, 'l) peer \<Rightarrow> ('c, 'e, 'l) peer" where
  "upd_wt i f p = p\<lparr>pe_world := upd_sock i (\<lambda>s. s\<lparr>sk_adapter :=
     (case sk_adapter s of WT a \<Rightarrow> WT (f a) | WS a \<Rightarrow> WS a)\<rparr>) (pe_world p)\<rparr>"

definition wt_close :: "('e, 'l) ext \<Rightarrow> sid \<Rightarrow> ('c, 'e, 'l) peer \<Rightarrow> ('c, 'e, 'l) peer" where
  "wt_close x i p = p\<lparr>pe_world := close_adapter x i (pe_world p)\<rparr>"

text \<open>
  One item of the stream; \<open>conn\<close> is the session. The result of the control message handler is
  not looked at.
\<close>

primrec wt_handle_item :: "('e, 'l) ext \<Rightarrow> ('c, 'e, 'l) command_handlers \<Rightarrow> sid \<Rightarrow> conn \<Rightarrow> stream_item
    \<Rightarrow> ('c, 'e, 'l) peer \<Rightarrow> ('c, 'e, 'l) peer \<times> string option" where
  "wt_handle_item x H i cn (ControlItem data) p = (fst (handleControl x H i data p), None)"
| "wt_handle_item x H i cn PingItem p =
     (case wt_stream_Write x (w_env (pe_world p)) cn [messageTypePong] of
        (e, n, err) \<Rightarrow> (p\<lparr>pe_world := (pe_world p)\<lparr>w_env := e\<rparr>\<rparr>, err))"
| "wt_handle_item x H i cn PongItem p = (handlePong p, None)"
| "wt_handle_item x H i cn (UnknownItem t) p = (p, None)"

text \<open>
  The two goroutines read side by side: the stream delivers items and ends with an error, the
  session delivers datagrams and ends with an error. Only \<^verbatim>\<open>io.EOF\<close> is expected.
\<close>

datatype wt_read = StreamItem stream_item | StreamEnd string | Datagram bytes | DatagramEnd string

text \<open>How a goroutine ends: it keeps the first error, and closes the adapter.\<close>

definition wt_end :: "('e, 'l) ext \<Rightarrow> sid \<Rightarrow> string \<Rightarrow> bool \<Rightarrow> ('c, 'e, 'l) peer \<Rightarrow> ('c, 'e, 'l) peer" where
  "wt_end x i err unexpected p = wt_close x i (upd_wt i (\<lambda>a. wt_handleServeError a (GoErr err) unexpected) p)"

record ('c, 'e, 'l) wt_serving =
  wv_peer :: "('c, 'e, 'l) peer"
  wv_stream :: bool
  wv_data :: bool

primrec wt_read_step :: "('e, 'l) ext \<Rightarrow> ('c, 'e, 'l) command_handlers \<Rightarrow> sid \<Rightarrow> conn \<Rightarrow> gotime \<Rightarrow> wt_read
    \<Rightarrow> ('c, 'e, 'l) wt_serving \<Rightarrow> ('c, 'e, 'l) wt_serving run" where
  "wt_read_step x H i cn now (StreamItem it) v =
     (if \<not> wv_stream v then run_return v
      else (case wt_handle_item x H i cn it (wv_peer v) of
        (p, None) \<Rightarrow> run_return (v\<lparr>wv_peer := p\<rparr>)
      | (p, Some err) \<Rightarrow> run_return (v\<lparr>wv_peer := wt_end x i err (err \<noteq> ''EOF'') p, wv_stream := False\<rparr>)))"
| "wt_read_step x H i cn now (StreamEnd err) v =
     (if \<not> wv_stream v then run_return v
      else run_return (v\<lparr>wv_peer := wt_end x i err (err \<noteq> ''EOF'') (wv_peer v), wv_stream := False\<rparr>))"
| "wt_read_step x H i cn now (Datagram data) v =
     (if \<not> wv_data v then run_return v
      else run_bind (handleData x i now data (wv_peer v)) (\<lambda>(p, res). run_return (v\<lparr>wv_peer := p\<rparr>)))"
| "wt_read_step x H i cn now (DatagramEnd err) v =
     (if \<not> wv_data v then run_return v
      else run_return (v\<lparr>wv_peer := wt_end x i err True (wv_peer v), wv_data := False\<rparr>))"

fun wt_serve_loop :: "('e, 'l) ext \<Rightarrow> ('c, 'e, 'l) command_handlers \<Rightarrow> sid \<Rightarrow> conn \<Rightarrow> (gotime \<times> wt_read) list
    \<Rightarrow> ('c, 'e, 'l) wt_serving \<Rightarrow> ('c, 'e, 'l) wt_serving run" where
  "wt_serve_loop x H i cn [] v = run_return v"
| "wt_serve_loop x H i cn ((now, r) # rs) v =
     run_bind (wt_read_step x H i cn now r v) (wt_serve_loop x H i cn rs)"

text \<open>\<^verbatim>\<open>Serve\<close> returns when both goroutines have ended.\<close>

definition wt_Serve :: "('e, 'l) ext \<Rightarrow> ('c, 'e, 'l) command_handlers \<Rightarrow> sid \<Rightarrow> wt_adapter \<Rightarrow> (gotime \<times> wt_read) list
    \<Rightarrow> ('c, 'e, 'l) peer \<Rightarrow> (('c, 'e, 'l) peer \<times> (bool \<times> go_error option) option) run" where
  "wt_Serve x H i a rs p = (case wt_Serve_start x (w_env (pe_world p)) a of
     (e, a', Some err) \<Rightarrow> run_return (upd_wt i (\<lambda>_. a') (p\<lparr>pe_world := (pe_world p)\<lparr>w_env := e\<rparr>\<rparr>), Some (True, Some err))
   | (e, a', None) \<Rightarrow>
       run_bind (wt_serve_loop x H i (wt_conn a') rs
           \<lparr>wv_peer = upd_wt i (\<lambda>_. a') (p\<lparr>pe_world := (pe_world p)\<lparr>w_env := e\<rparr>\<rparr>), wv_stream = True, wv_data = True\<rparr>)
         (\<lambda>v. run_return (wv_peer v, if wv_stream v \<or> wv_data v then None
            else (case sk_adapter (w_sock (pe_world (wv_peer v)) i) of
                WT b \<Rightarrow> Some (wt_lastServeErrorUnexpected b, wt_lastServeError b)
              | WS b \<Rightarrow> Some (True, None)))))"

section \<open>What the loops do\<close>

lemma wt_stream_fold:
  assumes "wv_stream v"
  shows "wt_serve_loop x H i cn (map (\<lambda>it. (now, StreamItem it)) (map ControlItem ms)) v =
    run_return (v\<lparr>wv_peer := fold (\<lambda>m p. fst (handleControl x H i m p)) ms (wv_peer v)\<rparr>)"
  using assms by (induction ms arbitrary: v) (simp_all add: run_bind_def run_return_def)

definition example_end :: "(unit, demo_env, list_lru) peer" where
  "example_end = \<lparr>pe_owner = (), pe_world = example_world example_peer, pe_timer = None\<rparr>"

definition example_ws :: ws_adapter where
  "example_ws = \<lparr>ws_conn = 0, ws_serializationType = SerializationTypeJSON, ws_isServer = False\<rparr>"

text \<open>
  C28 A client and a server that speak WebTransport exchange commands one by one: the stream
  onto which any messages of at most 65535 bytes were written makes the other end run its
  control message handler on each of them, in the order in which they were written, whether a
  handler fails or not.
\<close>

theorem stream_delivers_commands:
  assumes "\<forall>m \<in> set ms. length m \<le> 0xFFFF" and "wv_stream v"
  shows "wt_serve_loop x H i cn (map (\<lambda>it. (now, StreamItem it)) (stream_items (concat (map control_frame ms)))) v =
    run_return (v\<lparr>wv_peer := fold (\<lambda>m p. fst (handleControl x H i m p)) ms (wv_peer v)\<rparr>)"
  unfolding stream_items_frames [OF assms(1)] by (rule wt_stream_fold [OF assms(2)])

theorem stream_delivers_commands_witness:
  "wt_serve_loop demo_ext (default_handler 7) 7 0
      (map (\<lambda>it. (0, StreamItem it)) (stream_items (concat (map control_frame [[1, 2], []]))))
      \<lparr>wv_peer = example_end, wv_stream = True, wv_data = True\<rparr> =
    run_return \<lparr>wv_peer = fst (handleControl demo_ext (default_handler 7) 7 []
      (fst (handleControl demo_ext (default_handler 7) 7 [1, 2] example_end))), wv_stream = True, wv_data = True\<rparr>"
  using stream_delivers_commands [of "[[1, 2], []]" "\<lparr>wv_peer = example_end, wv_stream = True, wv_data = True\<rparr>"
      demo_ext "default_handler 7" 7 0 0] by simp

lemma ws_loop_step:
  "ws_serve_loop x H i a (r # rs) p = run_bind (ws_serve_loop x H i a [r] p) (\<lambda>(p', out). case out of
     Some o1 \<Rightarrow> run_return (p', Some o1) | None \<Rightarrow> ws_serve_loop x H i a rs p')"
proof -
  obtain now k where r: "r = (now, k)" by fastforce
  show ?thesis
  proof (cases k)
    case (NextFrame opc len payload)
    show ?thesis
    proof (cases payload)
      case (Inr msg)
      then show ?thesis
        unfolding r NextFrame
        by (cases "ws_handleFrame x H i a now opc msg p")
          (auto simp: run_bind_def run_return_def split: go.splits option.splits)
    qed (auto simp: r NextFrame run_bind_def run_return_def)
  qed (auto simp: r run_bind_def run_return_def)
qed

fun is_close :: "ws_read \<Rightarrow> bool" where
  "is_close (NextFrame opc len payload) = (opc = OpClose)"
| "is_close (NextFrameError err) = False"

lemma ws_single_close:
  assumes "ws_serve_loop x H i a [(now, k)] p = Some (Ret (p', Some (unexpected, err)))"
  shows "unexpected = (\<not> is_close k)"
  using assms by (cases k) (auto simp: run_bind_def run_return_def split: if_splits sum.splits option.splits go.splits)

text \<open>
  When a WebSocket connection ends: the loop handles the frames one after the other and
  stops at the first one that ends it, having handled all before it. The end is expected exactly
  if that frame is a close frame; an error of the connection, a frame of more than 65535 bytes
  and a handler that failed are unexpected.
\<close>

theorem websocket_stops_at:
  assumes "ws_serve_loop x H i a rs p = Some (Ret (p', Some (unexpected, err)))"
  shows "\<exists>before now k after p1. rs = before @ (now, k) # after \<and>
    ws_serve_loop x H i a before p = Some (Ret (p1, None)) \<and>
    ws_serve_loop x H i a [(now, k)] p1 = Some (Ret (p', Some (unexpected, err))) \<and>
    unexpected = (\<not> is_close k)"
  using assms
proof (induction rs arbitrary: p)
  case Nil
  then show ?case by (simp add: run_return_def)
next
  case (Cons r rs)
  obtain now k where r: "r = (now, k)" by fastforce
  have "run_bind (ws_serve_loop x H i a [r] p) (\<lambda>(p', out). case out of
      Some o1 \<Rightarrow> run_return (p', Some o1) | None \<Rightarrow> ws_serve_loop x H i a rs p') =
      Some (Ret (p', Some (unexpected, err)))"
    using Cons.prems ws_loop_step [of x H i a r rs p] by simp
  then obtain p2 out where s: "ws_serve_loop x H i a [r] p = Some (Ret (p2, out))" and
    o: "(case out of Some o1 \<Rightarrow> run_return (p2, Some o1) | None \<Rightarrow> ws_serve_loop x H i a rs p2) =
      Some (Ret (p', Some (unexpected, err)))"
    by (auto simp: run_bind_def split: option.splits go.splits)
  show ?case
  proof (cases out)
    case None
    then have q: "ws_serve_loop x H i a rs p2 = Some (Ret (p', Some (unexpected, err)))" using o by simp
    from Cons.IH [OF q] obtain before now' k' after p1 where IH: "rs = before @ (now', k') # after"
      "ws_serve_loop x H i a before p2 = Some (Ret (p1, None))"
      "ws_serve_loop x H i a [(now', k')] p1 = Some (Ret (p', Some (unexpected, err)))"
      "unexpected = (\<not> is_close k')" by blast
    have "ws_serve_loop x H i a (r # before) p = Some (Ret (p1, None))"
      using s None IH(2) ws_loop_step [of x H i a r before p] by (simp add: run_bind_def)
    then show ?thesis
      using IH by (intro exI [of _ "r # before"] exI [of _ now'] exI [of _ k'] exI [of _ after] exI [of _ p1]) simp
  next
    case (Some o1)
    then have e: "ws_serve_loop x H i a [(now, k)] p = Some (Ret (p', Some (unexpected, err)))"
      using s o r by (simp add: run_return_def)
    show ?thesis
      using r e ws_single_close [OF e] by (intro exI [of _ "[]"] exI [of _ now] exI [of _ k] exI [of _ rs] exI [of _ p])
        (simp add: run_return_def)
  qed
qed

theorem websocket_stops_at_witness:
  "\<exists>before now k after p1. [(3, NextFrame OpPong 0 (Inr [])), (5, NextFrame OpClose 0 (Inr [])), (8, NextFrameError ''EOF'')] =
      before @ (now, k) # after \<and>
    ws_serve_loop demo_ext (default_handler 7) 7 example_ws before example_end = Some (Ret (p1, None)) \<and>
    ws_serve_loop demo_ext (default_handler 7) 7 example_ws [(now, k)] p1 =
      Some (Ret (handlePong example_end, Some (False, GoErr ''received close frame''))) \<and>
    False = (\<not> is_close k)"
  by (rule websocket_stops_at) (simp add: ws_handleFrame_def run_bind_def run_return_def)

text \<open>
  A command that fails ends a WebSocket connection and not a WebTransport one: if the
  handler reports failure, the loop of \<^verbatim>\<open>WebSocketAdapter.Serve\<close> returns, which
  closes the socket, and the loop of \<^verbatim>\<open>serveStream\<close> goes on as if nothing
  had happened.
\<close>

theorem failed_command_outcome:
  assumes "handleControl x H i msg p = (p', False)" and "length msg \<le> 0xFFFF"
  shows "ws_serve_loop x H i a ((now, NextFrame OpText (length msg) (Inr msg)) # rs) p =
      run_return (p', Some (True, GoErr ''error in control message'')) \<and>
    wt_read_step x H i cn now (StreamItem (ControlItem msg)) \<lparr>wv_peer = p, wv_stream = True, wv_data = True\<rparr> =
      run_return \<lparr>wv_peer = p', wv_stream = True, wv_data = True\<rparr>"
  using assms by (simp add: ws_handleFrame_def run_bind_def run_return_def)

theorem failed_command_outcome_witness:
  "\<exists>p'. ws_serve_loop demo_ext (default_handler 7) 7 example_ws [(0, NextFrame OpText (length [1 :: u8]) (Inr [1]))] example_end =
      run_return (p', Some (True, GoErr ''error in control message'')) \<and>
    wt_read_step demo_ext (default_handler 7) 7 0 0 (StreamItem (ControlItem [1]))
        \<lparr>wv_peer = example_end, wv_stream = True, wv_data = True\<rparr> =
      run_return \<lparr>wv_peer = p', wv_stream = True, wv_data = True\<rparr>"
proof -
  have "case DeserializeCommand [1] SerializationTypeJSON of Inl err \<Rightarrow> True | Inr c \<Rightarrow> False" by code_simp
  then obtain err where "DeserializeCommand [1] SerializationTypeJSON = Inl err" by (auto split: sum.splits)
  then have h: "handleControl demo_ext (default_handler 7) 7 [1] example_end = (example_end, False)"
    by (simp add: handleControl_def control_message_def example_end_def example_world_def example_peer_simps)
  show ?thesis by (rule exI [of _ example_end], rule failed_command_outcome [OF h]) simp
qed

text \<open>
  Frames that arrive together with the answer to the handshake are lost, except for the
  first one: \<^verbatim>\<open>handleInitial\<close> reads one frame of the buffer and gives the
  buffer back, so a client behaves as if the server had never sent the others, for instance the
  \<^verbatim>\<open>init\<close> command that follows the server's \<^verbatim>\<open>version\<close>.
\<close>

theorem initial_frames_lost:
  assumes "opc \<noteq> OpClose" and "length m \<le> 0xFFFF"
  shows "ws_Serve x H i a now (Some (FirstFrame opc m, left)) rs p =
    ws_Serve x H i a now None ((now, NextFrame opc (length m) (Inr m)) # rs) p"
  using assms by (simp add: ws_Serve_def ws_handleInitial_def run_bind_def run_return_def split: option.splits go.splits)

theorem initial_frames_lost_witness:
  "ws_Serve demo_ext (default_handler 7) 7 example_ws 0 (Some (FirstFrame OpPong [],
     [(0, NextFrame OpText (length (command_bytes example_init)) (Inr (command_bytes example_init)))])) [] example_end =
   ws_Serve demo_ext (default_handler 7) 7 example_ws 0 None [(0, NextFrame OpPong (length ([] :: bytes)) (Inr []))] example_end"
  by (rule initial_frames_lost) simp_all

end
