(* ===== verification/Ping.thy ===== *)
theory Ping
  imports Socket_Commands Config_Base
begin

text \<open>
  The ping loop of a socket (\<^verbatim>\<open>shared/sockets/ping.go\<close>) as a transition system in
  time: the loop waits for the next ping to be due, for the timer that runs while a pong is
  outstanding, and for the socket to be closed. Timers fire at their instant; between two
  transitions of the loop anything may happen to the world.
\<close>

section \<open>The loop\<close>

text \<open>
  The instant \<^verbatim>\<open>time.After\<close> was asked for, whether the round sends a ping, and the
  deadline of \<^verbatim>\<open>pingTimeoutTimer\<close> while it runs.
\<close>

record pinger =
  pg_now :: gotime
  pg_wake :: gotime
  pg_enabled :: bool
  pg_timer :: "gotime option"
  pg_running :: bool

definition ping_interval :: "socket \<Rightarrow> gotime \<times> bool" where
  "ping_interval s =
     (if sk_pingInterval s \<le> 0 \<or> sk_pingTimeout s \<le> 0 then (10 * second, False) else (sk_pingInterval s, True))"

text \<open>The head of the loop.\<close>

definition ping_round :: "socket \<Rightarrow> pinger \<Rightarrow> pinger" where
  "ping_round s p = (case ping_interval s of (interval, enabled) \<Rightarrow>
     p\<lparr>pg_wake := pg_now p + interval, pg_enabled := enabled\<rparr>)"

definition installPingPongHandlers :: "socket \<Rightarrow> gotime \<Rightarrow> pinger" where
  "installPingPongHandlers s now =
     ping_round s \<lparr>pg_now = now, pg_wake = now, pg_enabled = False, pg_timer = None, pg_running = True\<rparr>"

definition pong_received :: "pinger \<Rightarrow> pinger" where
  "pong_received p = p\<lparr>pg_timer := None\<rparr>"

text \<open>The case in which the interval is over.\<close>

definition ping_tick :: "('e, 'l) ext \<Rightarrow> sid \<Rightarrow> ('e, 'l) world \<times> pinger \<Rightarrow> ('e, 'l) world \<times> pinger" where
  "ping_tick x i wp = (case wp of (w, p) \<Rightarrow>
     let p1 = p\<lparr>pg_timer := None\<rparr> in
     if \<not> pg_enabled p then (w, ping_round (w_sock w i) p1)
     else (case WritePingMessage x (w_env w) (sk_adapter (w_sock w i)) of
         (e, Some err) \<Rightarrow> (closeDone x i (w\<lparr>w_env := e\<rparr>), p1\<lparr>pg_running := False\<rparr>)
       | (e, None) \<Rightarrow> (w\<lparr>w_env := e\<rparr>,
           ping_round (w_sock w i) (p1\<lparr>pg_timer := Some (pg_now p + sk_pingTimeout (w_sock w i))\<rparr>))))"

text \<open>The cases of the timer and of the closed channel.\<close>

definition ping_end :: "('e, 'l) ext \<Rightarrow> sid \<Rightarrow> ('e, 'l) world \<times> pinger \<Rightarrow> ('e, 'l) world \<times> pinger" where
  "ping_end x i wp = (case wp of (w, p) \<Rightarrow> (closeDone x i w, p\<lparr>pg_timer := None, pg_running := False\<rparr>))"

section \<open>Transitions\<close>

datatype ping_event = TimePasses | PongReceived | Tick | TimedOut | SocketClosed | Reconfigured | OtherWork

inductive ping_step :: "('e, 'l) ext \<Rightarrow> sid \<Rightarrow> ping_event \<Rightarrow> ('e, 'l) world \<times> pinger \<Rightarrow> ('e, 'l) world \<times> pinger \<Rightarrow> bool"
  for x i where
  time_passes: "pg_running p \<Longrightarrow> pg_now p < t \<Longrightarrow> t \<le> pg_wake p \<Longrightarrow> (\<And>d. pg_timer p = Some d \<Longrightarrow> t \<le> d) \<Longrightarrow>
    ping_step x i TimePasses (w, p) (w, p\<lparr>pg_now := t\<rparr>)"
| pong: "pg_running p \<Longrightarrow> ping_step x i PongReceived (w, p) (w, pong_received p)"
| tick: "pg_running p \<Longrightarrow> pg_wake p \<le> pg_now p \<Longrightarrow> ping_step x i Tick (w, p) (ping_tick x i (w, p))"
| timed_out: "pg_running p \<Longrightarrow> pg_timer p = Some d \<Longrightarrow> d \<le> pg_now p \<Longrightarrow>
    ping_step x i TimedOut (w, p) (ping_end x i (w, p))"
| socket_closed: "pg_running p \<Longrightarrow> \<not> sk_closeChanOpen (w_sock w i) \<Longrightarrow>
    ping_step x i SocketClosed (w, p) (ping_end x i (w, p))"
| reconfigured: "ping_step x i Reconfigured (w, p) (upd_sock i (\<lambda>s. ConfigurePing s interval timeout) w, p)"
| other_work: "sk_pingInterval (w_sock w' i) = sk_pingInterval (w_sock w i) \<Longrightarrow>
    sk_pingTimeout (w_sock w' i) = sk_pingTimeout (w_sock w i) \<Longrightarrow> ping_step x i OtherWork (w, p) (w', p)"

inductive_cases ping_stepE
  [consumes 1, case_names time_passes pong tick timed_out socket_closed reconfigured other_work]: "ping_step x i evt (w, p) (w', p')"

inductive ping_run :: "('e, 'l) ext \<Rightarrow> sid \<Rightarrow> ('e, 'l) world \<times> pinger \<Rightarrow> ping_event list \<Rightarrow> ('e, 'l) world \<times> pinger \<Rightarrow> bool"
  for x i wp where
  start: "ping_run x i wp [] wp"
| step: "ping_run x i wp evts wp1 \<Longrightarrow> ping_step x i evt wp1 wp2 \<Longrightarrow> ping_run x i wp (evts @ [evt]) wp2"

section \<open>Lemmas\<close>

definition configured :: "gotime \<Rightarrow> gotime \<Rightarrow> sid \<Rightarrow> ('e, 'l) world \<Rightarrow> bool" where
  "configured interval timeout i w \<longleftrightarrow>
     sk_pingInterval (w_sock w i) = interval \<and> sk_pingTimeout (w_sock w i) = timeout"

lemma ping_config_closeDone [simp]:
  "sk_pingInterval (w_sock (closeDone x i w) j) = sk_pingInterval (w_sock w j)"
  "sk_pingTimeout (w_sock (closeDone x i w) j) = sk_pingTimeout (w_sock w j)"
  by (simp_all add: closeDone_def Close_def sock_simps closed_socket_def)

lemma ping_config_tick:
  assumes "ping_tick x i (w, p) = (w', p')"
  shows "sk_pingInterval (w_sock w' j) = sk_pingInterval (w_sock w j)"
    and "sk_pingTimeout (w_sock w' j) = sk_pingTimeout (w_sock w j)"
  using assms by (auto simp: ping_tick_def Let_def split: prod.splits option.splits if_splits)

text \<open>The configuration stays, unless it is changed.\<close>

lemma ping_step_configured:
  assumes "ping_step x i evt (w, p) (w', p')" and "configured m n i w" and "evt \<noteq> Reconfigured"
  shows "configured m n i w'"
  using assms ping_config_tick [of x i w p w' p' i]
  by (cases rule: ping_stepE) (auto simp: ping_end_def configured_def)

text \<open>What a tick does to the loop when pings are configured.\<close>

lemma ping_tick_running:
  assumes "ping_tick x i (w, p) = (w', p')" and "pg_running p'" and "configured m n i w" and "0 < m" and "0 < n"
  shows "pg_now p' = pg_now p \<and> pg_wake p' = pg_now p + m \<and> pg_enabled p' \<and>
    pg_timer p' = (if pg_enabled p then Some (pg_now p + n) else None)"
  using assms
  by (auto simp: ping_tick_def ping_round_def ping_interval_def configured_def Let_def split: prod.splits option.splits if_splits)

lemma ping_end_stopped: "ping_end x i (w, p) = (w', p') \<Longrightarrow> \<not> pg_running p' \<and> sk_isClosing (w_sock w' i)"
  by (auto simp: ping_end_def closeDone_def Close_def sock_simps closed_socket_def)

text \<open>
  What holds of the loop while no pong arrives: it is in its first round, or the one timer runs
  that the first ping has started.
\<close>

definition silent :: "gotime \<Rightarrow> gotime \<Rightarrow> gotime \<Rightarrow> pinger \<Rightarrow> bool" where
  "silent t0 m n p \<longleftrightarrow> pg_running p \<longrightarrow> pg_enabled p \<and> pg_now p \<le> pg_wake p \<and>
     (case pg_timer p of None \<Rightarrow> pg_wake p = t0 + m
      | Some d \<Rightarrow> d = t0 + m + n \<and> pg_wake p = t0 + m + m \<and> pg_now p \<le> d)"

lemma ping_step_silent:
  assumes "ping_step x i evt (w, p) (w', p')" and "configured m n i w" and "silent t0 m n p" and "0 < n" and "n < m"
    and "evt \<noteq> PongReceived"
  shows "silent t0 m n p'"
  using assms(1)
proof (cases rule: ping_stepE)
  case (time_passes t)
  then show ?thesis using assms(3) by (auto simp: silent_def split: option.splits)
next
  case tick
  have now: "pg_now p = t0 + m" "pg_enabled p" "pg_timer p = None"
    using tick assms(3,4,5) by (auto simp: silent_def split: option.splits)
  show ?thesis
  proof (cases "pg_running p'")
    case True
    then show ?thesis
      using ping_tick_running [of x i w p w' p' m n] tick now assms(2,4,5) by (auto simp: silent_def)
  qed (simp add: silent_def)
next
  case (timed_out d)
  then show ?thesis using ping_end_stopped [of x i w p w' p'] by (auto simp: silent_def)
next
  case socket_closed
  then show ?thesis using ping_end_stopped [of x i w p w' p'] by (auto simp: silent_def)
qed (use assms in auto)

lemma ping_run_silent:
  assumes "ping_run x i (w, p) evts (w', p')" and "configured m n i w" and "silent t0 m n p" and "0 < n" and "n < m"
    and "PongReceived \<notin> set evts" and "Reconfigured \<notin> set evts"
  shows "configured m n i w' \<and> silent t0 m n p'"
  using assms(1,6,7)
proof (induction evts "(w', p')" arbitrary: w' p' rule: ping_run.induct)
  case start
  then show ?case using assms(2,3) by simp
next
  case (step evts wp1 evt)
  obtain w1 p1 where wp1: "wp1 = (w1, p1)" by fastforce
  then have "configured m n i w1 \<and> silent t0 m n p1" using step by auto
  then show ?case
    using step ping_step_configured [of x i evt w1 p1 w' p' m n] ping_step_silent [of x i evt w1 p1 w' p' m n t0] assms(4,5) unfolding wp1 by auto
qed

lemma ping_run_append:
  "ping_run x i s1 evts s2 \<Longrightarrow> ping_step x i evt s2 s3 \<Longrightarrow> ping_run x i s1 (evts @ [evt]) s3"
  by (rule ping_run.step)

text \<open>The ways of the loop that need neither the peer nor anybody else.\<close>

abbreviation loop_ways :: "ping_event set" where
  "loop_ways \<equiv> {TimePasses, Tick, TimedOut}"

text \<open>Time can pass until the next thing is due.\<close>

lemma ping_wait:
  assumes "pg_running p" and "pg_now p \<le> t" and "t \<le> pg_wake p" and "\<And>d. pg_timer p = Some d \<Longrightarrow> t \<le> d"
  shows "\<exists>evts. ping_run x i (w, p) evts (w, p\<lparr>pg_now := t\<rparr>) \<and> set evts \<subseteq> loop_ways"
proof (cases "pg_now p = t")
  case True
  then show ?thesis using ping_run.start [of x i "(w, p)"] by (intro exI [of _ "[]"]) auto
next
  case False
  then have "ping_step x i TimePasses (w, p) (w, p\<lparr>pg_now := t\<rparr>)"
    using assms by (intro ping_step.time_passes) auto
  then show ?thesis using ping_run.step [OF ping_run.start] by (intro exI [of _ "[TimePasses]"]) fastforce
qed

lemma ping_run_trans:
  assumes "ping_run x i s2 evts2 s3" and "ping_run x i s1 evts1 s2"
  shows "ping_run x i s1 (evts1 @ evts2) s3"
  using assms(1)
proof (induction rule: ping_run.induct)
  case (step evts s evt s')
  then show ?case using ping_run.step [of x i s1 "evts1 @ evts" s evt s'] by simp
qed (use assms(2) in simp)

definition closes :: "('e, 'l) ext \<Rightarrow> sid \<Rightarrow> ('e, 'l) world \<times> pinger \<Rightarrow> bool" where
  "closes x i s \<longleftrightarrow> (\<exists>evts w' p'. ping_run x i s evts (w', p') \<and> set evts \<subseteq> loop_ways \<and>
     \<not> pg_running p' \<and> sk_isClosing (w_sock w' i))"

lemma closes_run:
  assumes "ping_run x i s1 evts s2" and "set evts \<subseteq> loop_ways" and "closes x i s2"
  shows "closes x i s1"
proof -
  obtain evts2 w' p' where r: "ping_run x i s2 evts2 (w', p')" "set evts2 \<subseteq> loop_ways" "\<not> pg_running p'"
    "sk_isClosing (w_sock w' i)"
    using assms(3) by (auto simp: closes_def)
  show ?thesis
    unfolding closes_def using ping_run_trans [OF r(1) assms(1)] r(2-4) assms(2) by (intro exI [of _ "evts @ evts2"]) auto
qed

lemma closes_end:
  assumes "ping_step x i evt (w, p) (w', p')" and "evt \<in> loop_ways" and "\<not> pg_running p'" and "sk_isClosing (w_sock w' i)"
  shows "closes x i (w, p)"
  unfolding closes_def using ping_run.step [OF ping_run.start assms(1)] assms(2-)
  by (intro exI [of _ "[evt]"]) auto

lemma closes_timer:
  assumes "pg_running p" and "pg_timer p = Some d" and "pg_now p \<le> d" and "d \<le> pg_wake p"
  shows "closes x i (w, p)"
proof -
  obtain evts where e: "ping_run x i (w, p) evts (w, p\<lparr>pg_now := d\<rparr>)" "set evts \<subseteq> loop_ways"
    using ping_wait [of p d x i w] assms by auto
  obtain w' p' where stop: "ping_end x i (w, p\<lparr>pg_now := d\<rparr>) = (w', p')" by fastforce
  then have "ping_step x i TimedOut (w, p\<lparr>pg_now := d\<rparr>) (w', p')"
    using ping_step.timed_out [of "p\<lparr>pg_now := d\<rparr>" d x i w] assms by simp
  then show ?thesis
    using closes_run [OF e] closes_end [of x i TimedOut w "p\<lparr>pg_now := d\<rparr>" w' p'] ping_end_stopped [OF stop] by simp
qed

lemma ping_tick_closing:
  "ping_tick x i (w, p) = (w', p') \<Longrightarrow> \<not> pg_running p' \<Longrightarrow> pg_running p \<Longrightarrow> sk_isClosing (w_sock w' i)"
  by (auto simp: ping_tick_def ping_round_def closeDone_def Close_def sock_simps closed_socket_def Let_def
      split: prod.splits option.splits if_splits)

lemma closes_silent:
  assumes "configured m n i w" and "silent t0 m n p" and "0 < n" and "n < m" and "pg_running p"
  shows "closes x i (w, p)"
proof (cases "pg_timer p")
  case None
  then have p: "pg_wake p = t0 + m" "pg_now p \<le> pg_wake p" "pg_enabled p" using assms by (auto simp: silent_def)
  let ?p = "p\<lparr>pg_now := pg_wake p\<rparr>"
  obtain evts where e: "ping_run x i (w, p) evts (w, ?p)" "set evts \<subseteq> loop_ways"
    using ping_wait [of p "pg_wake p" x i w] assms(5) p None by auto
  obtain w1 p1 where t: "ping_tick x i (w, ?p) = (w1, p1)" by fastforce
  then have s: "ping_step x i Tick (w, ?p) (w1, p1)"
    using ping_step.tick [of ?p x i w] assms(5) by simp
  have "closes x i (w, ?p)"
  proof (cases "pg_running p1")
    case True
    then have "closes x i (w1, p1)"
      using ping_tick_running [OF t True assms(1)] p assms(3,4) by (intro closes_timer [of p1 "pg_wake p + n"]) auto
    then show ?thesis
      using closes_run [OF ping_run.step [OF ping_run.start s]] by auto
  next
    case False
    then show ?thesis using closes_end [OF s] ping_tick_closing [OF t] assms(5) by simp
  qed
  then show ?thesis by (rule closes_run [OF e])
next
  case (Some d)
  then show ?thesis using assms by (intro closes_timer [of p d]) (auto simp: silent_def)
qed

text \<open>While the loop runs, one of its own ways is open; at the deadline it is the timeout alone.\<close>

lemma silent_not_stuck:
  assumes "silent t0 m n p" and "pg_running p" and "0 < n" and "n < m"
  shows "\<exists>evt\<in>loop_ways. \<exists>s. ping_step x i evt (w, p) s"
proof -
  consider "pg_wake p \<le> pg_now p" | "pg_timer p = Some (pg_now p)" | "pg_now p < pg_wake p" "pg_timer p \<noteq> Some (pg_now p)"
    by linarith
  then show ?thesis
  proof cases
    case 1
    show ?thesis by (rule bexI [of _ Tick]) (rule exI, rule ping_step.tick [OF assms(2) 1], simp)
  next
    case 2
    show ?thesis by (rule bexI [of _ TimedOut]) (rule exI, rule ping_step.timed_out [OF assms(2) 2 order.refl], simp)
  next
    case 3
    then have "ping_step x i TimePasses (w, p) (w, p\<lparr>pg_now := pg_now p + 1\<rparr>)"
      using assms by (intro ping_step.time_passes) (auto simp: silent_def split: option.splits)
    then show ?thesis by (intro bexI [of _ TimePasses] exI) simp_all
  qed
qed

lemma silent_deadline:
  assumes "silent t0 m n p" and "pg_running p" and "0 < n" and "n < m" and "pg_now p = t0 + m + n"
  shows "ping_step x i TimedOut (w, p) (ping_end x i (w, p)) \<and> (\<nexists>s. ping_step x i TimePasses (w, p) s) \<and>
    (\<nexists>s. ping_step x i Tick (w, p) s)"
proof -
  have p: "pg_timer p = Some (pg_now p)" "pg_now p < pg_wake p"
    using assms by (auto simp: silent_def split: option.splits)
  have "\<not> ping_step x i TimePasses (w, p) s" "\<not> ping_step x i Tick (w, p) s" for s
    using p by (cases s; force elim: ping_stepE)+
  then show ?thesis using ping_step.timed_out [of p "pg_now p" x i w] assms(2) p by auto
qed

lemma ping_stop_closing:
  assumes "ping_step x i evt (w, p) (w', p')" and "pg_running p" and "\<not> pg_running p'"
  shows "sk_isClosing (w_sock w' i)"
  using assms(1)
proof (cases rule: ping_stepE)
  case tick
  then show ?thesis using ping_tick_closing [of x i w p w' p'] assms(2,3) by simp
next
  case timed_out
  then show ?thesis using ping_end_stopped [of x i w p w' p'] by simp
next
  case socket_closed
  then show ?thesis using ping_end_stopped [of x i w p w' p'] by simp
qed (use assms(2,3) in \<open>auto simp: pong_received_def\<close>)

text \<open>The loop itself makes only finitely many transitions when no pong arrives.\<close>

definition loop_event :: "ping_event \<Rightarrow> bool" where
  "loop_event evt \<longleftrightarrow> evt \<in> {TimePasses, Tick, TimedOut, SocketClosed}"

definition ways_left :: "gotime \<Rightarrow> pinger \<Rightarrow> nat" where
  "ways_left t p = (if pg_running p then nat (t - pg_now p) + (if pg_timer p = None then 2 else 1) else 0)"

lemma ways_left_step:
  assumes "ping_step x i evt (w, p) (w', p')" and "configured m n i w" and "silent t0 m n p" and "0 < n" and "n < m"
    and "evt \<noteq> PongReceived" and "evt \<noteq> Reconfigured"
  shows "ways_left (t0 + m + n) p' + (if loop_event evt then 1 else 0) \<le> ways_left (t0 + m + n) p"
  using assms(1)
proof (cases rule: ping_stepE)
  case (time_passes t)
  have "t \<le> t0 + m + n" using time_passes assms(3,4,5) by (auto simp: silent_def split: option.splits)
  then show ?thesis using time_passes by (auto simp: ways_left_def loop_event_def)
next
  case tick
  have now: "pg_now p = t0 + m" "pg_enabled p" "pg_timer p = None"
    using tick assms(3,4,5) by (auto simp: silent_def split: option.splits)
  then show ?thesis
    using ping_tick_running [of x i w p w' p' m n] tick assms(2,4,5) by (auto simp: ways_left_def loop_event_def)
next
  case (timed_out d)
  then show ?thesis using ping_end_stopped [of x i w p w' p'] by (auto simp: ways_left_def loop_event_def)
next
  case socket_closed
  then show ?thesis using ping_end_stopped [of x i w p w' p'] by (auto simp: ways_left_def loop_event_def)
qed (use assms in \<open>auto simp: loop_event_def\<close>)

lemma ping_run_ways:
  assumes "ping_run x i (w, p) evts (w', p')" and "configured m n i w" and "silent t0 m n p" and "0 < n" and "n < m"
    and "PongReceived \<notin> set evts" and "Reconfigured \<notin> set evts"
  shows "ways_left (t0 + m + n) p' + length (filter loop_event evts) \<le> ways_left (t0 + m + n) p"
  using assms(1,6,7)
proof (induction evts "(w', p')" arbitrary: w' p' rule: ping_run.induct)
  case (step evts wp1 evt)
  obtain w1 p1 where wp1: "wp1 = (w1, p1)" by fastforce
  then have r: "ping_run x i (w, p) evts (w1, p1)" "PongReceived \<notin> set evts" "Reconfigured \<notin> set evts"
    "evt \<noteq> PongReceived" "evt \<noteq> Reconfigured" using step by auto
  from ping_run_silent [OF r(1) assms(2-5) r(2,3)] have "configured m n i w1" "silent t0 m n p1" by auto
  then have "ways_left (t0 + m + n) p' + (if loop_event evt then 1 else 0) \<le> ways_left (t0 + m + n) p1"
    using ways_left_step [of x i evt w1 p1 w' p' m n t0] step(3) wp1 assms(4,5) r(4,5) by simp
  then show ?case using step(2) [OF wp1 r(2,3)] by (simp split: if_splits)
qed simp

section \<open>Guarantees\<close>

definition pinging :: "gotime \<Rightarrow> gotime \<Rightarrow> (demo_env, list_lru) world" where
  "pinging m n = example_world (ConfigurePing example_socket m n)"

lemma pinging_simps [simp]:
  "sk_pingInterval (w_sock (pinging m n) i) = m" "sk_pingTimeout (w_sock (pinging m n) i) = n"
  "sk_adapter (w_sock (pinging m n) i) = sk_adapter example_socket" "w_env (pinging m n) = []"
  by (simp_all add: pinging_def example_world_def ConfigurePing_def)

text \<open>A first ping is sent, and its answer outstanding.\<close>

definition first_ping :: "gotime \<Rightarrow> gotime \<Rightarrow> (demo_env, list_lru) world \<times> pinger" where
  "first_ping m n = ((pinging m n)\<lparr>w_env := [(0, [])]\<rparr>,
     \<lparr>pg_now = m, pg_wake = m + m, pg_enabled = True, pg_timer = Some (m + n), pg_running = True\<rparr>)"

lemma first_ping_run:
  assumes "0 < m" and "0 < n"
  shows "ping_run demo_ext 0 (pinging m n, installPingPongHandlers (w_sock (pinging m n) 0) 0) [TimePasses, Tick] (first_ping m n)"
proof -
  let ?p = "\<lparr>pg_now = 0, pg_wake = m, pg_enabled = True, pg_timer = None, pg_running = True\<rparr>"
  have i: "installPingPongHandlers (w_sock (pinging m n) 0) 0 = ?p"
    using assms by (simp add: installPingPongHandlers_def ping_round_def ping_interval_def)
  have t: "ping_step demo_ext 0 TimePasses (pinging m n, ?p) (pinging m n, ?p\<lparr>pg_now := m\<rparr>)"
    using assms by (intro ping_step.time_passes) simp_all
  have "ping_tick demo_ext 0 (pinging m n, ?p\<lparr>pg_now := m\<rparr>) = first_ping m n"
    using assms
    by (simp add: ping_tick_def first_ping_def ping_round_def ping_interval_def example_socket_def MakeSocket_def
        NewWebSocketAdapter_def SetLocalFeature_def)
  then have k: "ping_step demo_ext 0 Tick (pinging m n, ?p\<lparr>pg_now := m\<rparr>) (first_ping m n)"
    using ping_step.tick [of "?p\<lparr>pg_now := m\<rparr>" demo_ext 0 "pinging m n"] by simp
  show ?thesis
    using ping_run.step [OF ping_run.step [OF ping_run.start t] k] unfolding i by simp
qed

text \<open>
  C23 A peer that is gone is noticed: with pings every \<open>m\<close> and a timeout of \<open>n < m\<close>, the
  loop of a connection on which no pong ever arrives makes only finitely many transitions of its
  own, whatever else happens in between, and it is never stuck: as long as it runs, it can go on
  without a pong, without a new configuration and without the socket being closed by somebody
  else, so in the end it stops. It stops at the latest \<open>m + n\<close> after it was started: at that
  instant the only way of its own is the timeout, which closes the socket. Whichever
  transition stops the loop, earlier or then, closes the socket.
\<close>

theorem dead_peer_detected:
  assumes "ping_run x i (w, installPingPongHandlers (w_sock w i) t0) evts (w', p')"
    and "sk_pingInterval (w_sock w i) = m" and "sk_pingTimeout (w_sock w i) = n" and "0 < n" and "n < m"
    and "PongReceived \<notin> set evts" and "Reconfigured \<notin> set evts" and "pg_running p'"
  shows "length (filter loop_event evts) \<le> nat (m + n) + 2 \<and> pg_now p' \<le> t0 + m + n \<and>
    (\<exists>evt\<in>{TimePasses, Tick, TimedOut}. \<exists>s. ping_step x i evt (w', p') s) \<and>
    (pg_now p' = t0 + m + n \<longrightarrow> ping_step x i TimedOut (w', p') (ping_end x i (w', p')) \<and>
       (\<nexists>s. ping_step x i TimePasses (w', p') s) \<and> (\<nexists>s. ping_step x i Tick (w', p') s)) \<and>
    (\<exists>evts2 w2 p2. ping_run x i (w', p') evts2 (w2, p2) \<and> set evts2 \<subseteq> {TimePasses, Tick, TimedOut} \<and>
       \<not> pg_running p2 \<and> sk_isClosing (w_sock w2 i)) \<and>
    (\<forall>evt w2 p2. ping_step x i evt (w', p') (w2, p2) \<and> \<not> pg_running p2 \<longrightarrow> sk_isClosing (w_sock w2 i))"
proof -
  have c: "configured m n i w" using assms(2,3) by (simp add: configured_def)
  let ?p = "installPingPongHandlers (w_sock w i) t0"
  have s: "silent t0 m n ?p"
    using assms(2-5) by (simp add: silent_def installPingPongHandlers_def ping_round_def ping_interval_def)
  have r: "configured m n i w'" "silent t0 m n p'" using ping_run_silent [OF assms(1) c s assms(4-7)] by auto
  have "ways_left (t0 + m + n) ?p = nat (m + n) + 2"
    by (simp add: ways_left_def installPingPongHandlers_def ping_round_def split: prod.splits)
  then have "length (filter loop_event evts) \<le> nat (m + n) + 2"
    using ping_run_ways [OF assms(1) c s assms(4-7)] by simp
  moreover have "pg_now p' \<le> t0 + m + n"
    using r(2) assms(4,8) by (auto simp: silent_def split: option.splits)
  moreover have "closes x i (w', p')" by (rule closes_silent [OF r assms(4,5,8)])
  ultimately show ?thesis
    using silent_not_stuck [OF r(2) assms(8,4,5)] silent_deadline [OF r(2) assms(8,4,5)] ping_stop_closing [OF _ assms(8)]
    unfolding closes_def by (intro conjI) blast+
qed

theorem dead_peer_detected_witness:
  "pg_now (snd (first_ping (30 * second) (5 * second))) \<le> 0 + 30 * second + 5 * second \<and>
    (\<exists>evts2 w2 p2. ping_run demo_ext 0 (first_ping (30 * second) (5 * second)) evts2 (w2, p2) \<and>
       set evts2 \<subseteq> {TimePasses, Tick, TimedOut} \<and> \<not> pg_running p2 \<and> sk_isClosing (w_sock w2 0))"
proof -
  have s: "0 < 30 * second" "0 < 5 * second" "5 * second < 30 * second" by (simp_all add: second_def)
  obtain w' p' where f: "first_ping (30 * second) (5 * second) = (w', p')" by fastforce
  then have "pg_running p'" by (auto simp: first_ping_def)
  then have "pg_now p' \<le> 0 + 30 * second + 5 * second \<and> (\<exists>evts2 w2 p2. ping_run demo_ext 0 (w', p') evts2 (w2, p2) \<and>
       set evts2 \<subseteq> {TimePasses, Tick, TimedOut} \<and> \<not> pg_running p2 \<and> sk_isClosing (w_sock w2 0))"
    using dead_peer_detected [OF first_ping_run [OF s(1,2), unfolded f] _ _ s(2,3)] by simp
  then show ?thesis by (simp add: f)
qed

lemma slow_step:
  assumes "ping_step x i evt (w, p) (w', p')" and "configured m n i w" and "0 < m" and "m < n" and "evt \<noteq> Reconfigured"
    and "pg_running p \<longrightarrow> pg_enabled p \<and> pg_now p \<le> pg_wake p \<and> (\<forall>d. pg_timer p = Some d \<longrightarrow> pg_wake p < d)"
  shows "evt \<noteq> TimedOut \<and> (pg_running p' \<longrightarrow> pg_enabled p' \<and> pg_now p' \<le> pg_wake p' \<and>
    (\<forall>d. pg_timer p' = Some d \<longrightarrow> pg_wake p' < d))"
  using assms(1)
proof (cases rule: ping_stepE)
  case tick
  then show ?thesis
    using ping_tick_running [of x i w p w' p' m n] assms(2-4,6) by (cases "pg_running p'") auto
next
  case (timed_out d)
  then show ?thesis using assms(6) by force
next
  case socket_closed
  then show ?thesis using ping_end_stopped [of x i w p w' p'] by auto
qed (use assms in \<open>auto simp: pong_received_def\<close>)

text \<open>
  A timeout longer than the interval is no timeout: every ping stops the timer of the ping
  before it, so the connection is never closed because a pong is missing.
\<close>

theorem slow_timeout_never_fires:
  assumes "ping_run x i (w, installPingPongHandlers (w_sock w i) t0) evts (w', p')"
    and "0 < sk_pingInterval (w_sock w i)" and "sk_pingInterval (w_sock w i) < sk_pingTimeout (w_sock w i)"
    and "Reconfigured \<notin> set evts"
  shows "TimedOut \<notin> set evts"
proof -
  let ?m = "sk_pingInterval (w_sock w i)" and ?n = "sk_pingTimeout (w_sock w i)"
  have "TimedOut \<notin> set evts \<and> configured ?m ?n i w' \<and> (pg_running p' \<longrightarrow> pg_enabled p' \<and> pg_now p' \<le> pg_wake p' \<and>
      (\<forall>d. pg_timer p' = Some d \<longrightarrow> pg_wake p' < d))"
    using assms(1,4)
  proof (induction evts "(w', p')" arbitrary: w' p' rule: ping_run.induct)
    case start
    then show ?case
      using assms(2,3) by (simp add: installPingPongHandlers_def ping_round_def ping_interval_def configured_def)
  next
    case (step evts wp1 evt)
    obtain w1 p1 where wp1: "wp1 = (w1, p1)" by fastforce
    from step(2) [OF wp1] step(4) have IH: "TimedOut \<notin> set evts" "configured ?m ?n i w1"
      "pg_running p1 \<longrightarrow> pg_enabled p1 \<and> pg_now p1 \<le> pg_wake p1 \<and> (\<forall>d. pg_timer p1 = Some d \<longrightarrow> pg_wake p1 < d)"
      by simp_all
    have s: "ping_step x i evt (w1, p1) (w', p')" "evt \<noteq> Reconfigured" using step(3,4) wp1 by auto
    show ?case using slow_step [OF s(1) IH(2) assms(2,3) s(2) IH(3)] ping_step_configured [OF s(1) IH(2) s(2)] IH(1) by auto
  qed
  then show ?thesis by blast
qed

theorem slow_timeout_never_fires_witness: "TimedOut \<notin> set [TimePasses, Tick]"
proof -
  obtain w' p' where f: "first_ping (5 * second) (30 * second) = (w', p')" by fastforce
  show ?thesis
    by (rule slow_timeout_never_fires [OF first_ping_run [of "5 * second" "30 * second", unfolded f]]) (simp_all add: second_def)
qed

text \<open>
  Turning pings off closes the connections that had them on: the loop has already decided to
  ping when the new configuration sets the timeout to 0, and starts its timer with that. The
  timer is over at once; no time can pass before the connection is closed, unless the pong has
  arrived within that instant.
\<close>

theorem disabled_pings_disconnect:
  assumes "pg_running p" and "pg_enabled p" and "sk_pingTimeout (w_sock w i) \<le> 0"
    and "ping_tick x i (w, p) = (w1, p1)" and "pg_running p1"
  shows "(\<nexists>s. ping_step x i TimePasses (w1, p1) s) \<and> ping_step x i TimedOut (w1, p1) (ping_end x i (w1, p1)) \<and>
    sk_isClosing (w_sock (fst (ping_end x i (w1, p1))) i)"
proof -
  have t: "pg_timer p1 = Some (pg_now p + sk_pingTimeout (w_sock w i))" "pg_now p1 = pg_now p"
    using assms by (auto simp: ping_tick_def ping_round_def Let_def split: prod.splits option.splits)
  have "\<not> ping_step x i TimePasses (w1, p1) s" for s
    using t assms(3) by (cases s) (force elim: ping_stepE)
  moreover have "ping_step x i TimedOut (w1, p1) (ping_end x i (w1, p1))"
    using t assms(3,5) by (intro ping_step.timed_out) auto
  ultimately show ?thesis
    by (auto simp: ping_end_def closeDone_def Close_def sock_simps closed_socket_def)
qed

theorem disabled_pings_disconnect_witness:
  "\<exists>w1 p1. ping_tick demo_ext 0 (pinging (30 * second) 0,
      \<lparr>pg_now = 0, pg_wake = 0, pg_enabled = True, pg_timer = None, pg_running = True\<rparr>) = (w1, p1) \<and>
    (\<nexists>s. ping_step demo_ext 0 TimePasses (w1, p1) s) \<and> ping_step demo_ext 0 TimedOut (w1, p1) (ping_end demo_ext 0 (w1, p1)) \<and>
    sk_isClosing (w_sock (fst (ping_end demo_ext 0 (w1, p1))) 0)"
proof -
  let ?p = "\<lparr>pg_now = 0, pg_wake = 0, pg_enabled = True, pg_timer = None, pg_running = True\<rparr>"
  obtain w1 p1 where t: "ping_tick demo_ext 0 (pinging (30 * second) 0, ?p) = (w1, p1)" by fastforce
  then have r: "pg_running p1"
    by (auto simp: ping_tick_def ping_round_def ping_interval_def example_socket_def MakeSocket_def NewWebSocketAdapter_def
        SetLocalFeature_def)
  show ?thesis using disabled_pings_disconnect [OF _ _ _ t r] t by simp
qed

end
