(* ===== verification/Ready_Wait.thy ===== *)
theory Ready_Wait
  imports Socket_Core
begin

text \<open>
  Who waits for \<^verbatim>\<open>setReady\<close>: the handler of a connection waits for its socket before it
  sends the \<^verbatim>\<open>init\<close> command (\<^verbatim>\<open>server/servers/sockets.go\<close>), and
  \<^verbatim>\<open>Socket.Serve\<close> for its adapter before it sends its version. The interleavings are those of
  \<open>Cond_Wait\<close>, which the socket and the WebTransport adapter instantiate.
\<close>

lemma example_not_ready: "\<not> sk_isReady example_socket"
  by (simp add: example_socket_def MakeSocket_def SetLocalFeature_def)

text \<open>
  C24 A broadcast releases those who wait: if no goroutine is between the test of
  \<^verbatim>\<open>WaitReady\<close> and its place on the list of waiters when \<^verbatim>\<open>setReady\<close>
  broadcasts, then in every interleaving afterwards the waiting goroutines take at most four steps each, and
  as long as one has not returned there is one that can go on, so that all return; and a goroutine returns
  only when the socket is ready.
\<close>

theorem setReady_releases_waiters:
  assumes "cond_run sk_isReady setReady as (cv_start W s0) = Some s" and "finite W"
    and "cond_step sk_isReady setReady Notify s = Some s1" and "\<And>w. cv_at s w \<noteq> AtLock \<and> cv_at s w \<noteq> AtEnlist"
    and "cond_run sk_isReady setReady bs s1 = Some s2"
  shows "waiter_steps bs \<le> 4 * card W \<and>
    (\<forall>w\<in>W. cv_at s2 w \<noteq> Returned \<longrightarrow> (\<exists>v\<in>W. cond_step sk_isReady setReady (Runs v) s2 \<noteq> None)) \<and>
    (\<forall>w\<in>W. cv_at s2 w = Returned \<longrightarrow> sk_isReady (cv_obj s2))"
proof -
  have "cond_run sk_isReady setReady (as @ Notify # bs) (cv_start W s0) = Some s2"
    using assms(1,3,5) by (simp add: cond_run_append)
  then have "cond_ok sk_isReady W s2" by (rule sk_flag.ok_run) (rule sk_flag.ok_start)
  then show ?thesis using sk_flag.waiters_return [OF assms] by (simp add: cond_ok_def)
qed

theorem setReady_releases_waiters_witness:
  "\<exists>s s1 s2. cond_run sk_isReady setReady [Runs 0, Runs 0, Runs 0, Runs 0, Store] (cv_start {0 :: nat, 2} example_socket) = Some s \<and>
     cond_step sk_isReady setReady Notify s = Some s1 \<and>
     cond_run sk_isReady setReady [Runs 2, Runs 0] s1 = Some s2 \<and> waiter_steps [Runs (2 :: nat), Runs 0] \<le> 4 * card {0 :: nat, 2} \<and>
     cv_at s2 0 = AtUnlock \<and> cv_at s2 2 = Returned \<and> sk_isReady (cv_obj s2)"
proof -
  obtain s s1 s2 where s: "cond_run sk_isReady setReady [Runs 0, Runs 0, Runs 0, Runs 0, Store] (cv_start {0 :: nat, 2} example_socket) = Some s"
    "cond_step sk_isReady setReady Notify s = Some s1" "\<And>w. cv_at s w \<noteq> AtLock \<and> cv_at s w \<noteq> AtEnlist"
    "cond_run sk_isReady setReady [Runs 2, Runs 0] s1 = Some s2" "cv_at s2 0 = AtUnlock" "cv_at s2 2 = Returned"
    by (simp add: WaitReady_step_def setReady_store_def Broadcast_def setReady_def example_not_ready)
  show ?thesis
    using setReady_releases_waiters [OF s(1) _ s(2-4)] s by (auto simp del: cond_run.simps cond_step.simps)
qed

text \<open>
  C34 \<^verbatim>\<open>WaitReady\<close> can miss \<^verbatim>\<open>setReady\<close>: the flag is tested
  without the lock, and set and broadcast without it. A goroutine that has seen that the object is not ready,
  and joins the list of waiters only after the broadcast, sleeps although the object is ready, whatever
  others do, until \<^verbatim>\<open>setReady\<close> is called again: for a socket when it is closed, so that
  the client never gets its \<^verbatim>\<open>init\<close>; for the adapter never.
\<close>

theorem setReady_can_be_missed:
  assumes "\<not> sk_isReady so" and "\<not> wt_isReady a"
  shows "(\<exists>s. cond_run sk_isReady setReady [Runs w, Store, Notify, Runs w, Runs w, Runs w] (cv_start {w} so) = Some s \<and>
      missed_wakeup sk_isReady setReady w s \<and>
      (\<exists>s'. cond_run sk_isReady setReady [Store, Notify, Runs w, Runs w, Runs w] s = Some s' \<and> cv_at s' w = Returned)) \<and>
    (\<exists>s. cond_run wt_isReady wt_setReady [Runs w, Store, Notify, Runs w, Runs w, Runs w] (cv_start {w} a) = Some s \<and>
      missed_wakeup wt_isReady wt_setReady w s)"
  using sk_flag.misses_setReady [of so w, OF assms(1)] wt_flag.misses_setReady [of a w, OF assms(2)] by fast

theorem setReady_can_be_missed_witness:
  "\<exists>s. cond_run sk_isReady setReady [Runs 0, Store, Notify, Runs 0, Runs 0, Runs 0] (cv_start {0 :: nat} example_socket) = Some s \<and>
     missed_wakeup sk_isReady setReady 0 s"
proof -
  obtain a where a: "NewWebTransportAdapter 0 1 False = WT a" "\<not> wt_isReady a" by (simp add: NewWebTransportAdapter_def)
  from setReady_can_be_missed [OF example_not_ready a(2), of "0 :: nat"] show ?thesis by fast
qed

end
