(* ===== verification/End_To_End.thy ===== *)
theory End_To_End
  imports Switch_Safety
begin

text \<open>
  A packet on its whole way in TUN mode: one client splits it, the server puts it together, checks it
  and splits it again for the addressee, whose client puts it together and writes it to its interface.
  The three ends are the operations of \<^verbatim>\<open>shared/sockets/data_message.go\<close> and of the IP switch;
  the transport delivers the messages of each connection in any order.
\<close>

section \<open>One end of a connection\<close>

text \<open>The read loop of an adapter: one message after the other, with the time at which it came.\<close>

fun handle_messages :: "('e, 'l) ext \<Rightarrow> sid \<Rightarrow> (gotime \<times> bytes) list \<Rightarrow> ('e, 'l) world
    \<Rightarrow> (('e, 'l) world \<times> bool list) run" where
  "handle_messages x i [] w = run_return (w, [])"
| "handle_messages x i ((now, msg) # msgs) w =
     run_bind (dataMessageHandler x now i msg w) (\<lambda>(w1, b).
       run_bind (handle_messages x i msgs w1) (\<lambda>(w2, bs). run_return (w2, b # bs)))"

text \<open>Messages as they arrive: \<open>order\<close> lists the arrival times with the positions in which the messages were sent.\<close>

definition arriving :: "bytes list \<Rightarrow> (gotime \<times> nat) list \<Rightarrow> (gotime \<times> bytes) list" where
  "arriving sent order = map (\<lambda>(now, k). (now, sent ! k)) order"

definition all_arrive :: "bytes list \<Rightarrow> (gotime \<times> nat) list \<Rightarrow> bool" where
  "all_arrive sent order \<longleftrightarrow> distinct (map snd order) \<and> set (map snd order) = {..<length sent}"

text \<open>What a socket sends for a packet, and the state once the transport has taken it.\<close>

definition outgoing :: "socket \<Rightarrow> bytes \<Rightarrow> bytes list" where
  "outgoing s data = wire_messages data (MaxDataPayloadLen (sk_adapter s)) (sk_lastFragmentID s + 1)"

definition can_send :: "('e, 'l) ext \<Rightarrow> ('e, 'l) world \<Rightarrow> sid \<Rightarrow> bytes \<Rightarrow> bool" where
  "can_send x w i data \<longleftrightarrow> accepts_fragments (w_sock w i) \<and>
     deliverable data (MaxDataPayloadLen (sk_adapter (w_sock w i))) \<and>
     snd (snd (sendAll x (outgoing (w_sock w i) data) (w_env w) (sk_adapter (w_sock w i)))) = None"

definition after_send :: "('e, 'l) ext \<Rightarrow> sid \<Rightarrow> bytes \<Rightarrow> ('e, 'l) world \<Rightarrow> ('e, 'l) world" where
  "after_send x i data w =
     (let s = w_sock w i in case sendAll x (outgoing s data) (w_env w) (sk_adapter s) of
        (e, ad, _) \<Rightarrow> set_sock i e (s\<lparr>sk_lastFragmentID :=
            (if length data < unat (MaxDataPayloadLen (sk_adapter s)) then sk_lastFragmentID s else sk_lastFragmentID s + 1),
          sk_adapter := ad\<rparr>) w)"

lemma WritePacket_sends:
  assumes "can_send x w i data"
  shows "WritePacket x i data w = run_return (after_send x i data w, None)"
proof -
  let ?s = "w_sock w i"
  let ?n = "MaxDataPayloadLen (sk_adapter ?s)"
  obtain e ad where s: "sendAll x (outgoing ?s data) (w_env w) (sk_adapter ?s) = (e, ad, None)"
    using assms by (auto simp: can_send_def prod_eq_iff)
  have d: "deliverable data ?n" using assms by (simp add: can_send_def)
  have "resendLoop x data (w_env w) ?s = run_return (e, ?s\<lparr>sk_lastFragmentID :=
      (if length data < unat ?n then sk_lastFragmentID ?s else sk_lastFragmentID ?s + 1), sk_adapter := ad\<rparr>, None)"
    using sends_wire_messages_id [OF d, of x "w_env w" ?s] s
    by (subst resendLoop.simps) (simp add: outgoing_def run_return_def)
  moreover have "data \<noteq> []" "length data \<le> 0xFFFF" using d by (simp_all add: deliverable_def)
  ultimately show ?thesis
    using assms s by (simp add: WritePacket_def can_send_def accepts_fragments_def after_send_def Let_def run_return_def run_bind_def)
qed

text \<open>The messages of one packet, once they have all arrived.\<close>

lemma handle_messages_receive:
  assumes "receive (w_sock w i) msgs = (s, replicate (length msgs - 1) ReturnTrue @ [ProcessPacket packet])" and "msgs \<noteq> []"
  shows "handle_messages x i msgs w =
    run_bind (processPacket x (fst (last msgs)) i packet (upd_sock i (\<lambda>_. s) w))
      (\<lambda>(w', b). run_return (w', replicate (length msgs - 1) True @ [b]))"
  using assms
proof (induction msgs arbitrary: w)
  case (Cons m msgs)
  obtain now msg where m: "m = (now, msg)" by fastforce
  obtain s1 act where a: "data_message now (w_sock w i) msg = (s1, act)" by fastforce
  show ?case
  proof (cases "msgs = []")
    case True
    then show ?thesis
      using Cons.prems a m by (auto simp: dataMessageHandler_def run_bind_def run_return_def split: option.splits go.splits)
  next
    case False
    then have n: "length msgs = Suc (length msgs - 1)" by (cases msgs) auto
    then have r: "act = ReturnTrue"
      "receive (w_sock (upd_sock i (\<lambda>_. s1) w) i) msgs = (s, replicate (length msgs - 1) ReturnTrue @ [ProcessPacket packet])"
      using Cons.prems(1) a m by (auto simp: case_prod_beta prod_eq_iff replicate_Suc [symmetric] simp del: replicate_Suc)
        (metis append_Cons list.inject n replicate_Suc)+
    have u: "upd_sock i (\<lambda>_. s) (upd_sock i (\<lambda>_. s1) w) = upd_sock i (\<lambda>_. s) w" by (simp add: upd_sock_def)
    have "True # replicate (length msgs - Suc 0) True = replicate (length msgs) True"
      using n by (metis One_nat_def replicate_Suc)
    then show ?thesis
      using Cons.IH [OF r(2) False] a m r(1) False
      by (simp add: dataMessageHandler_def u run_bind_def run_return_def split: option.splits go.splits)
  qed
qed simp

lemma receive_outgoing:
  assumes "deliverable data (MaxDataPayloadLen (sk_adapter s))" and "accepts_fragments r"
    and "sk_defragBuffer r (wireID (sk_lastFragmentID s + 1)) = None" and "all_arrive (outgoing s data) order"
  shows "receive r (arriving (outgoing s data) order) = (r, replicate (length order - 1) ReturnTrue @ [ProcessPacket data])"
  using assms unfolding arriving_def outgoing_def all_arrive_def by (intro receive_wire_messages) simp_all

text \<open>The packet is handled when its last message arrives.\<close>

lemma handle_arriving:
  assumes "deliverable data (MaxDataPayloadLen (sk_adapter s))" and "accepts_fragments (w_sock w i)"
    and "sk_defragBuffer (w_sock w i) (wireID (sk_lastFragmentID s + 1)) = None" and "all_arrive (outgoing s data) order"
    and p: "processPacket x (fst (last order)) i data w = run_return (w', True)"
  shows "handle_messages x i (arriving (outgoing s data) order) w = run_return (w', replicate (length order) True)"
proof -
  note r = receive_outgoing [OF assms(1-4)]
  have o: "order \<noteq> []" using r by (auto simp: arriving_def)
  then have n: "length (arriving (outgoing s data) order) = length order" "arriving (outgoing s data) order \<noteq> []"
    and t: "fst (last (arriving (outgoing s data) order)) = fst (last order)"
    by (simp_all add: arriving_def last_map case_prod_beta)
  have l: "replicate (length order - 1) True @ [True] = replicate (length order) True"
    using o by (cases order) (simp_all add: replicate_append_same)
  have u: "upd_sock i (\<lambda>_. w_sock w i) w = w" by (simp add: upd_sock_def)
  show ?thesis
    unfolding handle_messages_receive [where x = x, OF r [folded n(1)] n(2)] u t p n(1)
    using l by (simp add: run_bind_def run_return_def)
qed

section \<open>Properties\<close>

text \<open>
  C3 A packet crosses the network unchanged: in TUN mode with client-to-client traffic allowed, a packet
  of a client, from the address it was given to the address of another client, is sent as messages; when they have
  reached the server, in any order, the server has sent the packet on to the addressee alone, again as messages,
  split for the addressee's own connection; and when these have reached the addressee's client, in any order, it
  has written exactly this packet to its interface, and nothing else has happened on the way. The packet
  has to be one that the format can carry on both connections, and the transport has to take the messages.
\<close>

theorem packet_crosses_server:
  assumes "can_send x wa a packet"
    and "accepts_fragments (w_sock w i)"
    and "sk_defragBuffer (w_sock w i) (wireID (sk_lastFragmentID (w_sock wa a) + 1)) = None"
    and "all_arrive (outgoing (w_sock wa a) packet) order"
    and "w_handler w = Some (IPH g)" and "sk_hasPacketHandler (w_sock w i)" and "ips_AllowClientToClient g"
    and "ip_packet_ok x packet (sk_AssignedIP (w_sock w i))"
    and "IPDestination x packet = Some destIP" and "IsGlobalUnicast destIP" and "findSocketByIP g destIP = Some j"
    and "can_send x w j packet"
    and "accepts_fragments (w_sock wb b)" and "\<not> sk_hasPacketHandler (w_sock wb b)" and "sk_iface (w_sock wb b) = Some dev"
    and "sk_defragBuffer (w_sock wb b) (wireID (sk_lastFragmentID (w_sock w j) + 1)) = None"
    and "all_arrive (outgoing (w_sock w j) packet) order'"
    and "if_Write x (w_env wb) dev packet = (e, None)"
  shows "WritePacket x a packet wa = run_return (after_send x a packet wa, None) \<and>
    handle_messages x i (arriving (outgoing (w_sock wa a) packet) order) w =
      run_return (after_send x j packet w, replicate (length order) True) \<and>
    handle_messages x b (arriving (outgoing (w_sock w j) packet) order') wb =
      run_return (wb\<lparr>w_env := e\<rparr>, replicate (length order') True)"
proof (intro conjI)
  note send = WritePacket_sends [OF assms(12)]
  have d: "deliverable packet (MaxDataPayloadLen (sk_adapter (w_sock wa a)))"
    "deliverable packet (MaxDataPayloadLen (sk_adapter (w_sock w j)))" "packet \<noteq> []"
    using assms(1,12) by (simp_all add: can_send_def deliverable_def)
  show "WritePacket x a packet wa = run_return (after_send x a packet wa, None)" by (rule WritePacket_sends [OF assms(1)])
  have "processPacket x now i packet w = run_return (after_send x j packet w, True)" for now
    using assms(5-11) d(3) send
    by (auto simp: processPacket_def HandlePacket_def ips_HandlePacket_def ips_minLen_def ip_packet_ok_def run_bind_def
        run_return_def Let_def)
  then show "handle_messages x i (arriving (outgoing (w_sock wa a) packet) order) w =
      run_return (after_send x j packet w, replicate (length order) True)"
    by (intro handle_arriving [OF d(1) assms(2-4)])
  have "processPacket x now b packet wb = run_return (wb\<lparr>w_env := e\<rparr>, True)" for now
    using assms(14,15,18) d(3) by (simp add: processPacket_def iface_write_def run_bind_def run_return_def)
  then show "handle_messages x b (arriving (outgoing (w_sock w j) packet) order') wb =
      run_return (wb\<lparr>w_env := e\<rparr>, replicate (length order') True)"
    by (intro handle_arriving [OF d(2) assms(13,16,17)])
qed

definition example_hop :: bytes where
  "example_hop = [0x45, 0, 0, 20, 0, 0, 0, 0, 64, 17, 0, 0, 10, 0, 0, 3, 10, 0, 0, 2]"

definition example_server :: "(demo_env, list_lru) world" where
  "example_server = (upd_sock 3 (\<lambda>s. s\<lparr>sk_AssignedIP := [10, 0, 0, 3]\<rparr>) example_joined)
     \<lparr>w_handler := Some (IPH (example_ip_table\<lparr>ips_AllowClientToClient := True\<rparr>))\<rparr>"

definition example_addressee :: "(demo_env, list_lru) world" where
  "example_addressee = example_world (example_client\<lparr>sk_hasPacketHandler := False, sk_iface := Some ''tun0''\<rparr>)"

lemma example_can_send:
  assumes "accepts_fragments (w_sock w i)" and "sk_adapter (w_sock w i) = sk_adapter example_client"
  shows "can_send demo_ext w i example_hop" and "outgoing (w_sock w i) example_hop = [0b10000000 # example_hop]"
  using assms by (simp_all add: can_send_def outgoing_def deliverable_def wire_messages_def example_hop_def ws_WriteDataMessage_def)

theorem packet_crosses_server_witness:
  "handle_messages demo_ext 3 (arriving (outgoing (w_sock example_addressee 0) example_hop) [(5, 0)]) example_server =
     run_return (after_send demo_ext 7 example_hop example_server, [True]) \<and>
   handle_messages demo_ext 1 (arriving (outgoing (w_sock example_server 7) example_hop) [(6, 0)]) example_addressee =
     run_return (example_addressee\<lparr>w_env := [(4, example_hop)]\<rparr>, [True])"
proof -
  let ?g = "example_ip_table\<lparr>ips_AllowClientToClient := True\<rparr>"
  have w [simp]: "w_handler example_server = Some (IPH ?g)" "w_env example_server = []"
    "w_sock example_server 3 = example_client\<lparr>sk_AssignedIP := [10, 0, 0, 3]\<rparr>" "w_sock example_server 7 = example_client"
    "w_sock example_addressee k = example_client\<lparr>sk_hasPacketHandler := False, sk_iface := Some ''tun0''\<rparr>"
    "w_env example_addressee = []" for k
    by (simp_all add: example_server_def example_addressee_def example_world_def)
  have acc [simp]: "accepts_fragments example_client" "accepts_fragments (example_client\<lparr>sk_AssignedIP := ip\<rparr>)"
    "accepts_fragments (example_client\<lparr>sk_hasPacketHandler := h, sk_iface := d\<rparr>)" for ip h d
    by (simp_all add: accepts_fragments_def protocol_consts)
  have buf [simp]: "sk_defragBuffer example_client p = None" for p
    by (simp add: example_client_def example_receiver_def example_socket_def MakeSocket_def SetLocalFeature_def)
  have cs: "can_send demo_ext example_addressee 0 example_hop" "can_send demo_ext example_server 7 example_hop"
    "outgoing (w_sock example_addressee 0) example_hop = [0b10000000 # example_hop]"
    "outgoing (w_sock example_server 7) example_hop = [0b10000000 # example_hop]"
    by (rule example_can_send; simp)+
  have g: "IsGlobalUnicast [10, 0, 0, 2]"
    by (simp add: IsGlobalUnicast_def IPv4bcast_def IsUnspecified_def IPv4zero_def IPv6unspecified_def
        IsLoopback_def IsMulticast_def IsLinkLocalUnicast_def To4_def ip_Equal_def v4InV6Prefix_def)
      (simp add: numeral_eq_Suc)
  have r: "ips_AllowClientToClient ?g" "findSocketByIP ?g [10, 0, 0, 2] = Some 7"
    "ip_packet_ok demo_ext example_hop [10, 0, 0, 3]" "IPDestination demo_ext example_hop = Some [10, 0, 0, 2]"
    by (simp_all add: example_ip_table_def MakeIPSwitch_def findSocketByIP_def ip_packet_ok_def example_hop_def ip_Equal_def)
  show ?thesis
    using packet_crosses_server [of demo_ext example_addressee 0 example_hop example_server 3 "[(5, 0)]" ?g
        "[10, 0, 0, 2]" 7 example_addressee 1 "''tun0''" "[(6, 0)]" "[(4, example_hop)]"] cs g r
    by (simp add: all_arrive_def lessThan_Suc)
qed

end
