(* ===== verification/Address_Assignment.thy ===== *)
theory Address_Assignment
  imports Client_Events Server_Conn
begin

text \<open>
  The address of a client on its way from the server to the client's interface: the
  \<^verbatim>\<open>init\<close> command of \<^verbatim>\<open>server/servers/sockets.go\<close>, its text on the
  wire, and the handlers of \<^verbatim>\<open>shared/sockets/commands.go\<close> and
  \<^verbatim>\<open>client/clients/commands.go\<close> that read it.
\<close>

section \<open>Lemmas\<close>

lemma ascii_join: "ascii sep \<Longrightarrow> list_all ascii ss \<Longrightarrow> ascii (join_with sep ss)"
  by (induction sep ss rule: join_with.induct) auto

lemma ascii_remoteNetStr:
  assumes "length ip = 4" and "0 \<le> prefix"
  shows "ascii (remoteNetStr ip prefix)"
proof -
  have "list_all ascii (map byte_text ip)" by (simp add: list_all_iff byte_text_def ascii_nat_text)
  then have "ascii (dotted ip)" by (simp add: dotted_def ascii_join)
  moreover have "ip \<noteq> []" "To4 ip = Some ip" using assms(1) by (auto simp: To4_def)
  ultimately show ?thesis using assms(2) by (simp add: remoteNetStr_def IP_String_def Itoa_def ascii_nat_text)
qed

text \<open>A command that was sent without an error, and what its bytes mean to a reader.\<close>

lemma sent_command:
  assumes "rawMakeAndSendCommand x i p cid w = (w', None)" and "sendable p"
    and "\<And>e cmd. MakeCommand x (w_env w) p cid = (e, cmd, None) \<Longrightarrow> ascii (oc_ID cmd)"
    and "GetCommandSerializationType (sk_adapter (w_sock w i)) = SerializationTypeJSON"
  obtains e cmd b r where "MakeCommand x (w_env w) p cid = (e, cmd, None)"
    "WriteControlMessage x e (sk_adapter (w_sock w i)) b = (w_env w', None)"
    "DeserializeCommand b SerializationTypeJSON = Inr r" "ic_Command r = oc_Command cmd"
    "DeserializeParameters r (zero_parameters p) = Inr p"
proof -
  obtain e cmd b where c: "MakeCommand x (w_env w) p cid = (e, cmd, None)"
    "Serialize cmd SerializationTypeJSON = Inr b" "WriteControlMessage x e (sk_adapter (w_sock w i)) b = (w_env w', None)"
    using assms(1,4) by (auto simp: rawMakeAndSendCommand_def Let_def split: option.splits prod.splits sum.splits)
  let ?r = "\<lparr>ic_ID = oc_ID cmd, ic_Command = oc_Command cmd, ic_Parameters = Some (parameters_json p)\<rparr>"
  have m: "ascii (oc_Command cmd)" "oc_Parameters cmd = p" using MakeCommand_ascii [OF c(1)] by simp_all
  have "b = text_bytes (json_text (command_json cmd))" using c(2) by (simp add: Serialize_def)
  then have "DeserializeCommand b SerializationTypeJSON = Inr ?r"
    using deserialize_command [of cmd] assms(2,3) c(1) m by simp
  moreover have "DeserializeParameters ?r (zero_parameters p) = Inr p"
    using assms(2) by (rule deserialize_parameters) simp
  ultimately show thesis using that [OF c(1,3), of ?r] by simp
qed

definition init_parameters :: "conn_info \<Rightarrow> server \<Rightarrow> ('e, 'l) world \<Rightarrow> InitParameters" where
  "init_parameters ci sv w = \<lparr>in_Mode = ModeToString (sv_Mode sv), in_DoIPConfig = sv_DoRemoteIPConfig sv,
     in_IPAddress = remote_net sv (ci_ip ci), in_MTU = sv_mtu sv, in_ServerID = sv_serverID sv,
     in_ClientID = ci_clientID ci, in_EnableFragmentation = IsLocalFeature (w_sock w (ci_sid ci)) Fragmentation\<rparr>"

lemma send_init_sent:
  "send_init x ci sv w = (sv', w', Connected ci') \<Longrightarrow>
     rawMakeAndSendCommand x (ci_sid ci) (Init (init_parameters ci sv w)) [] w = (w', None)"
  by (auto simp: send_init_def init_parameters_def MakeAndSendCommand_def split: prod.splits option.splits)

lemma closed_socket_address [simp]: "sk_AssignedIP (closed_socket s) = sk_AssignedIP s"
  by (simp add: closed_socket_def)

text \<open>The handler of the text at the client, with the reply that follows.\<close>

lemma init_text_handled:
  assumes "DeserializeCommand b SerializationTypeJSON = Inr r" and "ic_Command r = InitCommandName"
    and "DeserializeParameters r (Init zero_init) = Inr (Init ps)" and "ParseVPNNet (in_IPAddress ps) = Inr net"
    and "cl_socket c = Some k" and "sk_handlers (w_sock w k) InitCommandName = Some InitHandler"
    and "GetCommandSerializationType (sk_adapter (w_sock w k)) = SerializationTypeJSON"
    and h: "control_message x (client_handler p x io k) k b c w = (c', w', ok)"
  shows "sk_AssignedIP (w_sock w' k) = GetRawIP net \<and>
    (ok \<longrightarrow> cl_sentUpEvent c' \<and> cl_mtu c' = in_MTU ps \<and> (\<exists>v. cl_iface c' = Some v \<and>
        cl_scripts c' = cl_scripts c @ [(EventUp, in_IPAddress ps, wi_Interface v)]))"
proof -
  have "handle_init p x io r c w \<noteq> Panic" using assms(3,5) by (auto simp: handle_init_def Let_def split: sum.splits)
  then obtain c1 w1 err where i: "handle_init p x io r c w = Ret (c1, w1, err)"
    by (cases "handle_init p x io r c w") auto
  have n: "InitCommandName \<noteq> ReplyCommandName" by (simp add: command_names)
  have m: "c' = c1" "ok = (err = None)" "\<exists>q cid. w' = fst (rawMakeAndSendCommand x k q cid w1)"
    using h assms(1,2,6,7) i n by (auto simp: control_message_def client_handler_def crash_def Let_def)
  then have "sk_AssignedIP (w_sock w' k) = sk_AssignedIP (w_sock w1 k)"
    using rawMakeAndSendCommand_sock [of x k _ _ w1 k] by (metis closed_socket_address)
  then show ?thesis using handle_init_outcome [OF i assms(3,5)] assms(4) m(1,2) by (auto simp: init_done_def)
qed

section \<open>Properties\<close>

text \<open>
  C5 In an IPv4 subnet (an address and a mask of four bytes) the client gets the address it was
  assigned: when the server has sent its \<^verbatim>\<open>init\<close> command over a connection that encodes
  commands as JSON, and its identifiers are ASCII texts, the bytes it wrote make the control handler
  of a client that is waiting for it set exactly the address of the slot, and if the handler succeeds the client has the MTU of the server, and its \<^verbatim>\<open>up\<close>
  script was started with the address and network of the server.
\<close>

theorem assigned_address_reaches_client:
  assumes "send_init x ci sv w = (sv', w', Connected ci')"
    and "length (ci_ip ci) = 4" and "length (ipnet_Mask (vn_ipNet (sv_VPNNet sv))) = 4" and "ascii (ci_clientID ci)" and "ascii (sv_serverID sv)"
    and "int64 (sv_mtu sv)" and "\<forall>e e' u. uuid_NewRandom x e = (e', Inr u) \<longrightarrow> ascii u"
    and "GetCommandSerializationType (sk_adapter (w_sock w (ci_sid ci))) = SerializationTypeJSON"
  shows "\<exists>e b. WriteControlMessage x e (sk_adapter (w_sock w (ci_sid ci))) b = (w_env w', None) \<and>
    (\<forall>p io c k wc c' wc' ok. cl_socket c = Some k \<longrightarrow> sk_handlers (w_sock wc k) InitCommandName = Some InitHandler \<longrightarrow>
       GetCommandSerializationType (sk_adapter (w_sock wc k)) = SerializationTypeJSON \<longrightarrow>
       control_message x (client_handler p x io k) k b c wc = (c', wc', ok) \<longrightarrow>
       To4 (sk_AssignedIP (w_sock wc' k)) = Some (ci_ip ci) \<and>
       (ok \<longrightarrow> cl_sentUpEvent c' \<and> cl_mtu c' = sv_mtu sv \<and> (\<exists>v. cl_iface c' = Some v \<and>
          cl_scripts c' = cl_scripts c @ [(EventUp, remote_net sv (ci_ip ci), wi_Interface v)])))"
proof -
  let ?ps = "init_parameters ci sv w"
  have g: "0 \<le> GetSize (sv_VPNNet sv)" "GetSize (sv_VPNNet sv) \<le> 32"
    using GetSize_bound [of "sv_VPNNet sv"] assms(3) by (simp_all add: GetSize_def split: option.split)
  have mode: "ascii (ModeToString m)" for m by (cases m) simp_all
  have s: "sendable (Init ?ps)"
    using assms(4-6) mode ascii_remoteNetStr [OF assms(2) g(1)] by (simp add: init_parameters_def remote_net_def)
  have id: "ascii (oc_ID cmd)" if "MakeCommand x (w_env w) (Init ?ps) [] = (e, cmd, None)" for e cmd
    using that assms(7) by (auto simp: Init_MakeCommand_def makeCommand_def Let_def split: prod.splits sum.splits)
  obtain e cmd b r where c: "MakeCommand x (w_env w) (Init ?ps) [] = (e, cmd, None)"
    "WriteControlMessage x e (sk_adapter (w_sock w (ci_sid ci))) b = (w_env w', None)"
    "DeserializeCommand b SerializationTypeJSON = Inr r" "ic_Command r = oc_Command cmd"
    "DeserializeParameters r (zero_parameters (Init ?ps)) = Inr (Init ?ps)"
    by (rule sent_command [OF send_init_sent [OF assms(1)] s _ assms(8)]) (erule id)
  have "ic_Command r = InitCommandName" "DeserializeParameters r (Init zero_init) = Inr (Init ?ps)"
    using c(1,4,5) by (auto simp: Init_MakeCommand_def makeCommand_def zero_init_def Let_def split: prod.splits sum.splits)
  note read = init_text_handled [OF c(3) this]
  obtain net where net: "ParseVPNNet (in_IPAddress ?ps) = Inr net" "To4 (GetRawIP net) = Some (ci_ip ci)"
    using ParseVPNNet_remoteNetStr [OF assms(2) g] assms(2)
    by (auto simp: init_parameters_def remote_net_def GetRawIP_def To4_def v4InV6Prefix_def)
  show ?thesis
    using c(2) read [OF net(1)] net(2) by (intro exI [of _ e] exI [of _ b]) (fastforce simp: init_parameters_def)
qed

definition example_assigning :: server where
  "example_assigning = NewServer\<lparr>sv_VPNNet := example_net, sv_mtu := 1420, sv_Mode := VPNModeTUN, sv_DoRemoteIPConfig := True, sv_serverID := ''s1''\<rparr>"

definition example_conn :: conn_info where
  "example_conn = \<lparr>ci_clientID = ''c1'', ci_username = [], ci_sid = 3, ci_slot = 1, ci_ip = [10, 0, 0, 2], ci_iface = None\<rparr>"

theorem assigned_address_reaches_client_witness:
  "\<exists>sv' w' e b. send_init demo_ext example_conn example_assigning (example_world example_receiver) = (sv', w', Connected example_conn) \<and>
     WriteControlMessage demo_ext e (sk_adapter example_receiver) b = (w_env w', None) \<and>
     To4 (sk_AssignedIP (w_sock (fst (snd (control_message demo_ext (client_handler Linux demo_ext example_driver 7) 7 b
       Client_Events.example_client example_client_world))) 7)) = Some [10, 0, 0, 2]"
proof -
  have g: "length (ipnet_Mask (vn_ipNet (sv_VPNNet example_assigning))) = 4" by (simp add: example_assigning_def example_net_def)
  have a: "sk_adapter example_receiver = WS \<lparr>ws_conn = 0, ws_serializationType = SerializationTypeJSON, ws_isServer = True\<rparr>"
    "sk_remoteProtocolVersion example_receiver = 12"
    by (simp_all add: example_receiver_def example_socket_def MakeSocket_def SetLocalFeature_def NewWebSocketAdapter_def
        SerializationTypeJSON_def)
  have c: "length (ci_ip example_conn) = 4" "ascii (ci_clientID example_conn)" "ascii (sv_serverID example_assigning)"
    "int64 (sv_mtu example_assigning)" "ci_sid example_conn = 3" "ci_ip example_conn = [10, 0, 0, 2]"
    by (simp_all add: example_conn_def example_assigning_def int64_def)
  have u: "\<forall>e e' u. uuid_NewRandom demo_ext e = (e', Inr u) \<longrightarrow> ascii u" by simp
  have j: "GetCommandSerializationType (sk_adapter (w_sock (example_world example_receiver) (ci_sid example_conn))) =
      SerializationTypeJSON" using a by (simp add: example_world_def)
  obtain sv' w' where s: "send_init demo_ext example_conn example_assigning (example_world example_receiver) =
      (sv', w', Connected example_conn)"
    using a c(5) by (simp add: send_init_def MakeAndSendCommand_def rawMakeAndSendCommand_def command_allowed_def
        Init_MakeCommand_def Init_MinProtocolVersion_def Init_ServerCanIssue_def makeCommand_def Serialize_def example_world_def Let_def)
  have k: "cl_socket Client_Events.example_client = Some 7" "sk_handlers (w_sock example_client_world 7) InitCommandName = Some InitHandler"
    "GetCommandSerializationType (sk_adapter (w_sock example_client_world 7)) = SerializationTypeJSON"
    by (simp_all add: Client_Events.example_client_def example_client_world_def example_world_def registerCommandHandlers_def AddCommandHandler_def
        MakeSocket_def command_names NewWebSocketAdapter_def SerializationTypeJSON_def)
  obtain e b where b: "WriteControlMessage demo_ext e (sk_adapter example_receiver) b = (w_env w', None)"
    "\<And>c' wc' ok. control_message demo_ext (client_handler Linux demo_ext example_driver 7) 7 b Client_Events.example_client example_client_world = (c', wc', ok) \<Longrightarrow>
      To4 (sk_AssignedIP (w_sock wc' 7)) = Some [10, 0, 0, 2]"
    using assigned_address_reaches_client [OF s c(1) g c(2-4) u j] c(5,6) k by (simp add: example_world_def) blast
  show ?thesis using s b by (metis prod.collapse)
qed

end
