(* ===== verification/Frame_Path.thy ===== *)
theory Frame_Path
  imports End_To_End
begin

text \<open>
  A frame on its whole way in TAP mode: as in \<open>End_To_End\<close>, but through the MAC switch, which on
  the way learns where the sender is.
\<close>

section \<open>What the switch learns from a frame\<close>

text \<open>The switch after \<^verbatim>\<open>setMACFrom\<close> has accepted a frame.\<close>

definition learned :: "('l \<Rightarrow> bool) \<Rightarrow> ('l \<Rightarrow> (macAddr \<times> gotime) list) \<Rightarrow> 'l MACSwitch \<Rightarrow> sid \<Rightarrow> macAddr \<Rightarrow> 'l MACSwitch \<Rightarrow> bool" where
  "learned ok entries g i m g' \<longleftrightarrow> macs_ok ok entries g' \<and> macTable g' m = Some i \<and>
     (\<forall>j. j \<noteq> i \<longrightarrow> (\<forall>k. macTable g' k = Some j \<longleftrightarrow> macTable g k = Some j)) \<and>
     macs_AllowClientToClient g' = macs_AllowClientToClient g"

context lru_cache
begin

lemma upd_cache_learned:
  assumes g: "macs_ok ok entries g" and g': "macs_ok ok entries (upd_cache i r g1)"
    and t: "socketTable g1 = socketTable g" "macs_AllowClientToClient g1 = macs_AllowClientToClient g"
    and m: "m \<in> fst ` set (entries (fst r))"
  shows "learned ok entries g i m (upd_cache i r g1)"
proof -
  have sm: "socketMACs (upd_cache i r g1) j = (if j = i then Some (fst r) else socketMACs g j)" for j
    using t(1) by (simp add: table_simps) (simp add: socketMACs_def)
  have "owns entries (upd_cache i r g1) i m" using m by (simp add: owns_def sm)
  moreover have "owns entries (upd_cache i r g1) j k \<longleftrightarrow> owns entries g j k" if "j \<noteq> i" for j k
    using that by (simp add: owns_def sm)
  moreover have "macs_AllowClientToClient (upd_cache i r g1) = macs_AllowClientToClient g"
    using t(2) by (simp add: upd_cache_def fold_onMACEvicted)
  ultimately show ?thesis
    unfolding learned_def using macs_okD(3) [OF g] macs_okD(3) [OF g'] g' by blast
qed

lemma setMACFrom_learns:
  assumes g: "macs_ok ok entries g" and s: "setMACFrom x now g i msg w = (w1, True)"
  shows "\<exists>g'. w1 = set_macs g' w \<and> learned ok entries g i (hwAddrToMAC (MACSource x msg)) g'"
proof -
  let ?m = "hwAddrToMAC (MACSource x msg)"
  obtain c where c: "socketMACs g i = Some c" using s by (auto simp: setMACFrom_def Let_def split: if_splits option.splits)
  have okc: "ok c" by (rule macs_okD(2) [OF g c])
  have added: "?m \<in> fst ` set (entries (fst (lru_Add x c ?m now)))" by (rule add_keys(5) [OF okc surjective_pairing])
  show ?thesis
  proof (cases "lru_Contains x c ?m")
    case True
    then have k: "?m \<in> fst ` set (entries c)" using contains_entries [OF okc] by simp
    have "w1 = set_macs (upd_cache i (lru_Add x c ?m now) g) w"
      using s c True by (auto simp: setMACFrom_def Let_def split: if_splits)
    then show ?thesis using upd_cache_learned [OF g refresh_ok [OF g c k] refl refl added] by blast
  next
    case False
    let ?g1 = "g\<lparr>macTable := (macTable g)(?m \<mapsto> i)\<rparr>"
    have w1: "w1 = set_macs (upd_cache i (lru_Add x c ?m now) ?g1) w" and free: "macTable g ?m = None"
      using s c False by (auto simp: setMACFrom_def Let_def split: if_splits)
    have "learned ok entries g i ?m (upd_cache i (lru_Add x c ?m now) ?g1)"
      by (rule upd_cache_learned [OF g learn_ok [OF g c free]]) (simp_all add: added)
    then show ?thesis using w1 by blast
  qed
qed

end

section \<open>One end of a connection, in TAP mode\<close>

lemma can_send_set_macs [simp]: "can_send x (set_macs g w) i data = can_send x w i data"
  by (simp add: can_send_def set_macs_def)

text \<open>What the settings of the switch ask of a frame.\<close>

definition frame_accepted :: "('e, 'l) ext \<Rightarrow> 'l MACSwitch \<Rightarrow> bytes \<Rightarrow> ip \<Rightarrow> bool" where
  "frame_accepted x g packet assignedIP \<longleftrightarrow> EthernetLength \<le> length packet \<and>
     (macs_AllowUnknownEtherTypes g \<or> MACEthertype x packet \<in> {ethertype_ARP x, ethertype_IPv4 x, ethertype_IPv6 x}) \<and>
     (macs_AllowIPSpoofing g \<or> \<not> frame_spoofed x packet assignedIP)"

lemma set_macs_world [simp]:
  "w_sock (set_macs g w) = w_sock w" "macs_of h (set_macs g w) = g" "w_handler (set_macs g w) = Some (MACH g)"
  by (simp_all add: set_macs_def macs_of_def)

lemma processPacket_forwards:
  assumes "w_handler w = Some (MACH g)" and "sk_hasPacketHandler (w_sock w i)"
    and "frame_accepted x g packet (sk_AssignedIP (w_sock w i))" and "setMACFrom x now g i packet w = (set_macs g' w, True)"
    and "macs_AllowClientToClient g'" and "IsMACUnicast x (MACDestination x packet)"
    and "findSocketByMAC g' (MACDestination x packet) = Some j" and "can_send x w j packet"
  shows "processPacket x now i packet w = run_return (after_send x j packet (set_macs g' w), True)"
proof -
  have "WritePacket x j packet (set_macs g' w) = run_return (after_send x j packet (set_macs g' w), None)"
    using assms(8) by (intro WritePacket_sends) simp
  then have f: "macs_forward x g' (Some i) packet (set_macs g' w) = run_return (after_send x j packet (set_macs g' w), True)"
    using assms(5-7) by (simp add: macs_forward_def run_bind_def run_return_def)
  have "packet \<noteq> []" using assms(3) by (auto simp: frame_accepted_def EthernetLength_def)
  moreover have "macs_HandlePacket x now g (Some i) packet w = macs_forward x g' (Some i) packet (set_macs g' w)"
    using assms(3,4) by (auto simp: macs_HandlePacket_def frame_accepted_def Let_def)
  ultimately show ?thesis
    using assms(1,2) f by (cases packet) (simp_all add: processPacket_def HandlePacket_def run_return_def run_bind_def)
qed

section \<open>The whole way\<close>

text \<open>
  C4 A frame crosses the network unchanged, and the switch learns the way back: in TAP mode with
  client-to-client traffic allowed, a frame of a client that passes the tests of the switch, to an
  address another client has used, is sent as messages; when they have reached the server, in any
  order, the server has sent the frame on to that client alone, again as messages split for its
  own connection; when these have reached its end, in any order, it has written exactly this
  frame to its interface. Afterwards the source address belongs to the sender, so that an answer
  finds it, no address of another client has changed, and the tables still agree.
\<close>

theorem frame_crosses_server:
  assumes "lru_cache x ok cap entries" and "w_handler w = Some (MACH g)" and "macs_ok ok entries g"
    and "can_send x wa a packet"
    and "accepts_fragments (w_sock w i)"
    and "sk_defragBuffer (w_sock w i) (wireID (sk_lastFragmentID (w_sock wa a) + 1)) = None"
    and "all_arrive (outgoing (w_sock wa a) packet) order"
    and "sk_hasPacketHandler (w_sock w i)" and "macs_AllowClientToClient g"
    and "frame_accepted x g packet (sk_AssignedIP (w_sock w i))"
    and "setMACFrom x (fst (last order)) g i packet w = (w1, True)"
    and "IsMACUnicast x (MACDestination x packet)" and "findSocketByMAC g (MACDestination x packet) = Some j" and "j \<noteq> i"
    and "can_send x w j packet"
    and "accepts_fragments (w_sock wb b)" and "\<not> sk_hasPacketHandler (w_sock wb b)" and "sk_iface (w_sock wb b) = Some dev"
    and "sk_defragBuffer (w_sock wb b) (wireID (sk_lastFragmentID (w_sock w j) + 1)) = None"
    and "all_arrive (outgoing (w_sock w j) packet) order'"
    and "if_Write x (w_env wb) dev packet = (e, None)"
  shows "\<exists>g'. WritePacket x a packet wa = run_return (after_send x a packet wa, None) \<and>
    handle_messages x i (arriving (outgoing (w_sock wa a) packet) order) w =
      run_return (after_send x j packet (set_macs g' w), replicate (length order) True) \<and>
    handle_messages x b (arriving (outgoing (w_sock w j) packet) order') wb =
      run_return (wb\<lparr>w_env := e\<rparr>, replicate (length order') True) \<and>
    macs_ok ok entries g' \<and> findSocketByMAC g' (MACSource x packet) = Some i \<and>
    (\<forall>hw k. k \<noteq> i \<longrightarrow> (findSocketByMAC g' hw = Some k \<longleftrightarrow> findSocketByMAC g hw = Some k))"
proof -
  obtain g' where w1: "w1 = set_macs g' w" and l: "learned ok entries g i (hwAddrToMAC (MACSource x packet)) g'"
    using lru_cache.setMACFrom_learns [OF assms(1,3,11)] by blast
  have dest: "findSocketByMAC g' (MACDestination x packet) = Some j"
    using l assms(13,14) by (simp add: learned_def findSocketByMAC_def)
  have d: "deliverable packet (MaxDataPayloadLen (sk_adapter (w_sock wa a)))"
    "deliverable packet (MaxDataPayloadLen (sk_adapter (w_sock w j)))" "packet \<noteq> []"
    using assms(4,15) by (simp_all add: can_send_def deliverable_def)
  have c2c: "macs_AllowClientToClient g'" using l assms(9) by (simp add: learned_def)
  have "WritePacket x a packet wa = run_return (after_send x a packet wa, None)" by (rule WritePacket_sends [OF assms(4)])
  moreover have "handle_messages x i (arriving (outgoing (w_sock wa a) packet) order) w =
      run_return (after_send x j packet (set_macs g' w), replicate (length order) True)"
    by (rule handle_arriving [OF d(1) assms(5-7)])
      (rule processPacket_forwards [OF assms(2,8,10) assms(11) [unfolded w1] c2c assms(12) dest assms(15)])
  moreover have "handle_messages x b (arriving (outgoing (w_sock w j) packet) order') wb =
      run_return (wb\<lparr>w_env := e\<rparr>, replicate (length order') True)"
  proof (rule handle_arriving [OF d(2) assms(16,19,20)])
    show "processPacket x (fst (last order')) b packet wb = run_return (wb\<lparr>w_env := e\<rparr>, True)"
      using assms(17,18,21) d(3) by (simp add: processPacket_def iface_write_def run_bind_def run_return_def)
  qed
  ultimately show ?thesis
    using l by (intro exI [of _ g']) (simp add: learned_def findSocketByMAC_def)
qed

text \<open>Client 8, which has not sent anything yet, writes to client 7, the owner of 02:00:00:00:00:07.\<close>

definition example_frame_out :: bytes where
  "example_frame_out = [2, 0, 0, 0, 0, 7, 2, 0, 0, 0, 0, 8, 8, 6] @ replicate 28 0"

definition example_bridge :: "list_lru MACSwitch" where
  "example_bridge = example_two\<lparr>macs_AllowClientToClient := True\<rparr>"

definition example_bridge_world :: "(demo_env, list_lru) world" where
  "example_bridge_world = set_macs example_bridge example_macs_world"

definition example_far_end :: "(demo_env, list_lru) world" where
  "example_far_end = example_world (example_client\<lparr>sk_hasPacketHandler := False, sk_iface := Some ''tap0''\<rparr>)"

lemma example_frame_out_parts [simp]:
  "length example_frame_out = 42" "take 6 example_frame_out = [2, 0, 0, 0, 0, 7]"
  "take 6 (drop 6 example_frame_out) = [2, 0, 0, 0, 0, 8]" "take 2 (drop 12 example_frame_out) = [8, 6]"
  "example_frame_out \<noteq> []" "example_frame_out ! 0 = 2" "example_frame_out ! 6 = 2"
  "hwAddrToMAC [2, 0, 0, 0, 0, 7] = [2, 0, 0, 0, 0, 7]" "hwAddrToMAC [2, 0, 0, 0, 0, 8] = [2, 0, 0, 0, 0, 8]"
  by (simp_all add: example_frame_out_def hwAddrToMAC_def numeral_eq_Suc)

lemma example_bridge_simps [simp]:
  "w_handler example_bridge_world = Some (MACH example_bridge)" "w_sock example_bridge_world k = example_client"
  "w_env example_bridge_world = []" "macs_AllowClientToClient example_bridge"
  "findSocketByMAC example_bridge [2, 0, 0, 0, 0, 7] = Some 7"
  "socketMACs example_bridge 8 = Some (1, [])" "macs_AllowMACChanging example_bridge"
  "macTable example_bridge m = (if m = [2, 0, 0, 0, 0, 7] then Some 7 else None)"
  by (simp_all add: example_bridge_world_def example_macs_world_def example_world_def example_bridge_def example_two_def
      example_switch_def findSocketByMAC_def hwAddrToMAC_def socketMACs_def MakeMACSwitch_def set_macs_def numeral_eq_Suc)

lemma example_bridge_ok: "macs_ok ll_ok snd example_bridge"
  by (auto simp: macs_ok_def owns_def example_bridge_def example_two_def example_switch_def socketMACs_def
      MakeMACSwitch_def ll_ok_def split: if_splits)

theorem frame_crosses_server_witness:
  "\<exists>g'. handle_messages demo_ext 8 (arriving (outgoing (w_sock example_far_end 0) example_frame_out) [(6, 0)]) example_bridge_world =
     run_return (after_send demo_ext 7 example_frame_out (set_macs g' example_bridge_world), [True]) \<and>
   handle_messages demo_ext 1 (arriving (outgoing (w_sock example_bridge_world 7) example_frame_out) [(7, 0)]) example_far_end =
     run_return (example_far_end\<lparr>w_env := [(4, example_frame_out)]\<rparr>, [True]) \<and>
   findSocketByMAC g' [2, 0, 0, 0, 0, 8] = Some 8"
proof -
  have far [simp]: "w_sock example_far_end k = example_client\<lparr>sk_hasPacketHandler := False, sk_iface := Some ''tap0''\<rparr>"
    "w_env example_far_end = []" for k
    by (simp_all add: example_far_end_def example_world_def)
  have acc [simp]: "accepts_fragments example_client"
    "accepts_fragments (example_client\<lparr>sk_hasPacketHandler := h, sk_iface := d\<rparr>)" for h d
    by (simp_all add: accepts_fragments_def protocol_consts)
  have buf [simp]: "sk_defragBuffer example_client p = None" for p
    by (simp add: example_client_def example_receiver_def example_socket_def MakeSocket_def SetLocalFeature_def)
  have out: "can_send demo_ext w k example_frame_out" "outgoing (w_sock w k) example_frame_out = [0b10000000 # example_frame_out]"
    if "accepts_fragments (w_sock w k)" "sk_adapter (w_sock w k) = sk_adapter example_client" for w :: "(demo_env, list_lru) world" and k
    using that by (simp_all add: can_send_def outgoing_def deliverable_def wire_messages_def ws_WriteDataMessage_def)
  have cs: "can_send demo_ext example_far_end 0 example_frame_out" "can_send demo_ext example_bridge_world 7 example_frame_out"
    "outgoing (w_sock example_far_end 0) example_frame_out = [0b10000000 # example_frame_out]"
    "outgoing (w_sock example_bridge_world 7) example_frame_out = [0b10000000 # example_frame_out]"
    by (rule out; simp)+
  have f: "frame_accepted demo_ext example_bridge example_frame_out (sk_AssignedIP example_client)"
    by (simp add: frame_accepted_def frame_spoofed_def expected_ip_def EthernetLength_def)
  have s: "\<exists>w1. setMACFrom demo_ext 6 example_bridge 8 example_frame_out example_bridge_world = (w1, True)"
    by (simp add: setMACFrom_def Let_def)
  then obtain w1 where s: "setMACFrom demo_ext 6 example_bridge 8 example_frame_out example_bridge_world = (w1, True)" by blast
  show ?thesis
    using frame_crosses_server [OF demo_lru_cache example_bridge_simps(1) example_bridge_ok, of example_far_end 0
        example_frame_out 8 "[(6, 0)]" w1 7 example_far_end 1 "''tap0''" "[(7, 0)]" "[(4, example_frame_out)]"] cs f s
    by (simp add: all_arrive_def lessThan_Suc) blast
qed

end
