(* ===== verification/Mac_Locking.thy ===== *)
theory Mac_Locking
  imports Switch_Safety
begin

text \<open>
  The MAC switch at the grain of its locks (\<^verbatim>\<open>server/macswitch\<close>). An operation is a
  sequence of sections: a stretch of code under \<^verbatim>\<open>macLock\<close>, one call on a client's
  address cache (which has a lock of its own), or one run of the eviction callback. Goroutines
  interleave at the borders of the sections. A section that runs alone to the end of its
  operation does what the operation of the atomic model does; two interleavings of a frame
  with the closing of a connection do not.
\<close>

section \<open>The shared memory\<close>

text \<open>
  \<open>socketTable\<close> holds pointers to caches; \<open>mm_cache\<close> is the object behind a pointer
  and \<open>mm_next\<close> the next free one. An unregistered client's cache stays in memory for
  the goroutines that have read the pointer. \<open>mm_closed\<close> lists the sockets
  \<^verbatim>\<open>CloseError\<close> was called for.
\<close>

record 'l macs_mem =
  mm_switch :: "nat MACSwitch"
  mm_cache :: "nat \<Rightarrow> 'l"
  mm_next :: nat
  mm_closed :: "sid list"

section \<open>The sections\<close>

text \<open>
  The point a goroutine has reached, with its local variables. \<open>Evict ks q\<close> has the
  callback to run for the keys \<open>ks\<close> before it goes on with \<open>q\<close>.
\<close>

datatype macs_pc =
    Returned bool
  | Panicked
  | Evict "macAddr list" macs_pc
  | SetLookup sid macAddr
  | SetContains sid macAddr nat
  | SetCount sid macAddr nat
  | SetClaim sid macAddr nat
  | SetAdd macAddr nat
  | Closing sid macs_pc
  | Register sid
  | UnregTable sid macs_pc
  | UnregPurge nat macs_pc
  | CleanupStart
  | CleanupTables "nat option list"
  | CleanupRemove macAddr nat "nat option list"
  | ConfigStart
  | ConfigTables "nat option list"

type_synonym 'l macs_thread = "macs_pc \<times> 'l macs_mem"

definition cache_op :: "nat \<Rightarrow> 'l \<times> macAddr list \<Rightarrow> macs_pc \<Rightarrow> 'l macs_mem \<Rightarrow> 'l macs_thread" where
  "cache_op p r q s = (Evict (snd r) q, s\<lparr>mm_cache := (mm_cache s)(p := fst r)\<rparr>)"

definition upd_switch :: "(nat MACSwitch \<Rightarrow> nat MACSwitch) \<Rightarrow> 'l macs_mem \<Rightarrow> 'l macs_mem" where
  "upd_switch f s = s\<lparr>mm_switch := f (mm_switch s)\<rparr>"

text \<open>\<^verbatim>\<open>setMACFrom\<close>, once the frame's source is known to be a unicast address.\<close>

fun setMACFrom_section :: "('e, 'l) ext \<Rightarrow> gotime \<Rightarrow> macs_pc \<Rightarrow> 'l macs_mem \<Rightarrow> 'l macs_thread" where
  "setMACFrom_section x now (SetLookup i m) s =
     (case socketMACs (mm_switch s) i of
        None \<Rightarrow> (Returned False, s)
      | Some p \<Rightarrow> (SetContains i m p, s))"
| "setMACFrom_section x now (SetContains i m p) s =
     (if lru_Contains x (mm_cache s p) m then (SetAdd m p, s) else (SetCount i m p, s))"
| "setMACFrom_section x now (SetCount i m p) s =
     (if \<not> macs_AllowMACChanging (mm_switch s) \<and> lru_Len x (mm_cache s p) > 0
      then (Returned False, s) else (SetClaim i m p, s))"
| "setMACFrom_section x now (SetClaim i m p) s =
     (if macTable (mm_switch s) m \<noteq> None then (Closing i (Returned False), s)
      else (SetAdd m p, upd_switch (\<lambda>g. g\<lparr>macTable := (macTable g)(m \<mapsto> i)\<rparr>) s))"
| "setMACFrom_section x now (SetAdd m p) s =
     cache_op p (lru_Add x (mm_cache s p) m now) (Returned True) s"
| "setMACFrom_section x now q s = (q, s)"

text \<open>\<^verbatim>\<open>RegisterSocket\<close>: one section; a failed cache closes the socket.\<close>

definition RegisterSocket_section :: "('e, 'l) ext \<Rightarrow> sid \<Rightarrow> 'l macs_mem \<Rightarrow> 'l macs_thread" where
  "RegisterSocket_section x i s =
     (case lru_NewWithEvict x (macs_AllowedMACsPerConnection (mm_switch s)) of
        Inl err \<Rightarrow>
          (Closing i (Returned True),
           upd_switch (\<lambda>g. g\<lparr>socketTable := AList.update i None (socketTable g)\<rparr>) s)
      | Inr c \<Rightarrow>
          (Returned True,
           upd_switch (\<lambda>g. g\<lparr>socketTable := AList.update i (Some (mm_next s)) (socketTable g)\<rparr>)
             (s\<lparr>mm_cache := (mm_cache s)(mm_next s := c), mm_next := mm_next s + 1\<rparr>)))"

text \<open>The part of \<^verbatim>\<open>UnregisterSocket\<close> under the lock, for a socket with a cache.\<close>

definition clear_tables :: "('e, 'l) ext \<Rightarrow> sid \<Rightarrow> 'l \<Rightarrow> 'l macs_mem \<Rightarrow> 'l macs_mem" where
  "clear_tables x i c = upd_switch (\<lambda>g. g\<lparr>macTable := fold (\<lambda>mac t. t(mac := None)) (lru_Keys x c) (macTable g),
     socketTable := AList.delete i (socketTable g)\<rparr>)"

text \<open>
  \<^verbatim>\<open>UnregisterSocket\<close>: the tables are cleared under the lock, the cache is purged after
  it, and the callback takes the lock again for every key.
\<close>

fun UnregisterSocket_section :: "('e, 'l) ext \<Rightarrow> macs_pc \<Rightarrow> 'l macs_mem \<Rightarrow> 'l macs_thread" where
  "UnregisterSocket_section x (UnregTable i q) s =
     (case socketMACs (mm_switch s) i of
        None \<Rightarrow> (q, s)
      | Some p \<Rightarrow>
          (UnregPurge p q, clear_tables x i (mm_cache s p) s))"
| "UnregisterSocket_section x (UnregPurge p q) s = cache_op p (lru_Purge x (mm_cache s p)) q s"
| "UnregisterSocket_section x q s = (q, s)"

text \<open>A round of \<^verbatim>\<open>cleanupAllMACs\<close> with the loop of \<^verbatim>\<open>cleanupMACs\<close>.\<close>

fun cleanup_section :: "('e, 'l) ext \<Rightarrow> gotime \<Rightarrow> macs_pc \<Rightarrow> 'l macs_mem \<Rightarrow> 'l macs_thread" where
  "cleanup_section x now CleanupStart s =
     (let s1 = upd_switch (\<lambda>g. g\<lparr>macs_timerArmed := False\<rparr>) s in
      if \<not> macs_AllowMACChanging (mm_switch s1) then (Returned True, s1)
      else (CleanupTables (map snd (socketTable (mm_switch s1))), s1))"
| "cleanup_section x now (CleanupTables []) s = (Returned True, s)"
| "cleanup_section x now (CleanupTables (None # ps)) s = (Panicked, s)"
| "cleanup_section x now (CleanupTables (Some p # ps)) s =
     (case lru_GetOldest x (mm_cache s p) of
        None \<Rightarrow> (CleanupTables ps, s)
      | Some e \<Rightarrow>
          if now - snd e \<le> macs_MACTableTimeout (mm_switch s) then (CleanupTables ps, s)
          else (CleanupRemove (fst e) p ps, s))"
| "cleanup_section x now (CleanupRemove k p ps) s =
     cache_op p (lru_Remove x (mm_cache s p) k) (CleanupTables (Some p # ps)) s"
| "cleanup_section x now q s = (q, s)"

fun ConfigUpdate_section :: "('e, 'l) ext \<Rightarrow> macs_pc \<Rightarrow> 'l macs_mem \<Rightarrow> 'l macs_thread" where
  "ConfigUpdate_section x ConfigStart s = (ConfigTables (map snd (socketTable (mm_switch s))), s)"
| "ConfigUpdate_section x (ConfigTables []) s = (Returned True, s)"
| "ConfigUpdate_section x (ConfigTables (None # ps)) s = (Panicked, s)"
| "ConfigUpdate_section x (ConfigTables (Some p # ps)) s =
     cache_op p (lru_Resize x (mm_cache s p) (macs_AllowedMACsPerConnection (mm_switch s))) (ConfigTables ps) s"
| "ConfigUpdate_section x q s = (q, s)"

text \<open>
  One section of any goroutine. \<open>Closing\<close> is the call of \<^verbatim>\<open>CloseError\<close>: as far as
  the switch is concerned it unregisters the socket.
\<close>

fun run_section :: "('e, 'l) ext \<Rightarrow> gotime \<Rightarrow> macs_pc \<Rightarrow> 'l macs_mem \<Rightarrow> 'l macs_thread" where
  "run_section x now (Returned b) s = (Returned b, s)"
| "run_section x now Panicked s = (Panicked, s)"
| "run_section x now (Evict [] q) s = (q, s)"
| "run_section x now (Evict (k # ks) q) s = (Evict ks q, upd_switch (onMACEvicted k) s)"
| "run_section x now (Closing i q) s = (UnregTable i q, s\<lparr>mm_closed := i # mm_closed s\<rparr>)"
| "run_section x now (Register i) s = RegisterSocket_section x i s"
| "run_section x now (UnregTable i q) s = UnregisterSocket_section x (UnregTable i q) s"
| "run_section x now (UnregPurge p q) s = UnregisterSocket_section x (UnregPurge p q) s"
| "run_section x now CleanupStart s = cleanup_section x now CleanupStart s"
| "run_section x now (CleanupTables ps) s = cleanup_section x now (CleanupTables ps) s"
| "run_section x now (CleanupRemove k p ps) s = cleanup_section x now (CleanupRemove k p ps) s"
| "run_section x now ConfigStart s = ConfigUpdate_section x ConfigStart s"
| "run_section x now (ConfigTables ps) s = ConfigUpdate_section x (ConfigTables ps) s"
| "run_section x now q s = setMACFrom_section x now q s"

section \<open>Interleavings\<close>

text \<open>
  The memory and the goroutines inside the switch. One of them takes a section, or a new call
  comes in: a frame of a client, a connection that starts or ends, the clean-up timer, or a new
  configuration with a positive number of addresses.
\<close>

inductive macs_step :: "('e, 'l) ext \<Rightarrow> 'l macs_mem \<times> macs_pc list \<Rightarrow> 'l macs_mem \<times> macs_pc list \<Rightarrow> bool"
  for x where
  run: "j < length qs \<Longrightarrow> run_section x now (qs ! j) s = (q, s') \<Longrightarrow> macs_step x (s, qs) (s', qs[j := q])"
| frame: "macs_step x (s, qs) (s, qs @ [SetLookup i m])"
| serve: "macs_step x (s, qs) (s, qs @ [Register i])"
| close: "macs_step x (s, qs) (s, qs @ [UnregTable i (Returned True)])"
| tick: "cleanupAllMACs_ready (mm_switch s) \<Longrightarrow> macs_step x (s, qs) (s, qs @ [CleanupStart])"
| configure: "0 < n \<Longrightarrow> macs_step x (s, qs)
    (upd_switch (\<lambda>g. g\<lparr>macs_AllowMACChanging := b, macs_AllowedMACsPerConnection := n, macs_MACTableTimeout := t\<rparr>) s,
     qs @ [ConfigStart])"

abbreviation macs_steps :: "('e, 'l) ext \<Rightarrow> 'l macs_mem \<times> macs_pc list \<Rightarrow> 'l macs_mem \<times> macs_pc list \<Rightarrow> bool" where
  "macs_steps x \<equiv> (macs_step x)\<^sup>*\<^sup>*"

text \<open>A goroutine that nobody interrupts.\<close>

definition alone :: "('e, 'l) ext \<Rightarrow> gotime \<Rightarrow> 'l macs_thread \<Rightarrow> 'l macs_thread \<Rightarrow> bool" where
  "alone x now c c' \<longleftrightarrow> (\<exists>n. ((\<lambda>(q, s). run_section x now q s) ^^ n) c = c')"


lemma alone_refl [simp]: "alone x now c c"
  unfolding alone_def by (rule exI [of _ 0]) simp

lemma alone_step: "run_section x now q s = c \<Longrightarrow> alone x now c c' \<Longrightarrow> alone x now (q, s) c'"
  unfolding alone_def by (elim exE, rule_tac x = "Suc n" in exI) (simp add: funpow_Suc_right del: funpow.simps)

lemma upd_switch_simps [table_simps]:
  "mm_switch (upd_switch f s) = f (mm_switch s)" "mm_cache (upd_switch f s) = mm_cache s"
  "mm_next (upd_switch f s) = mm_next s" "mm_closed (upd_switch f s) = mm_closed s"
  "upd_switch f (upd_switch g s) = upd_switch (\<lambda>h. f (g h)) s"
  by (simp_all add: upd_switch_def)

lemma alone_evict: "alone x now (Evict ks q, s) (q, upd_switch (fold onMACEvicted ks) s)"
proof (induction ks arbitrary: s)
  case Nil
  show ?case by (intro alone_step [OF refl]) (simp add: upd_switch_def)
next
  case (Cons k ks)
  then have "alone x now (Evict ks q, upd_switch (onMACEvicted k) s)
      (q, upd_switch (fold onMACEvicted (k # ks)) s)"
    using Cons [of "upd_switch (onMACEvicted k) s"] by (simp add: table_simps comp_def)
  then show ?case by (intro alone_step [OF refl]) (simp add: comp_def)
qed

lemma alone_trans: "alone x now c c' \<Longrightarrow> alone x now c' c'' \<Longrightarrow> alone x now c c''"
  unfolding alone_def by (metis comp_apply funpow_add)

text \<open>An operation on a cache, with its callbacks.\<close>

definition cache_upd :: "nat \<Rightarrow> 'l \<times> macAddr list \<Rightarrow> 'l macs_mem \<Rightarrow> 'l macs_mem" where
  "cache_upd p r s = upd_switch (fold onMACEvicted (snd r)) (s\<lparr>mm_cache := (mm_cache s)(p := fst r)\<rparr>)"

lemma alone_cache_op: "run_section x now q s = cache_op p r q' s \<Longrightarrow> alone x now (q', cache_upd p r s) c
    \<Longrightarrow> alone x now (q, s) c"
  by (rule alone_step, assumption) (auto simp: cache_op_def cache_upd_def intro: alone_trans [OF alone_evict])

section \<open>The memory as the atomic model sees it\<close>

definition deref :: "(nat \<Rightarrow> 'l) \<Rightarrow> (sid \<times> nat option) list \<Rightarrow> (sid \<times> 'l option) list" where
  "deref h = map (map_prod id (map_option h))"

definition atomic_switch :: "'l macs_mem \<Rightarrow> 'l MACSwitch" where
  "atomic_switch s = (let g = mm_switch s in \<lparr>
     macs_AllowClientToClient = macs_AllowClientToClient g,
     macs_AllowIPSpoofing = macs_AllowIPSpoofing g,
     macs_AllowUnknownEtherTypes = macs_AllowUnknownEtherTypes g,
     macs_AllowMACChanging = macs_AllowMACChanging g,
     macs_AllowedMACsPerConnection = macs_AllowedMACsPerConnection g,
     macs_MACTableTimeout = macs_MACTableTimeout g,
     macTable = macTable g,
     socketTable = deref (mm_cache s) (socketTable g),
     macs_timerArmed = macs_timerArmed g,
     macs_isRunning = macs_isRunning g\<rparr>)"

text \<open>Every client has a cache object of its own.\<close>

definition mem_ok :: "'l macs_mem \<Rightarrow> bool" where
  "mem_ok s \<longleftrightarrow> distinct (keys (socketTable (mm_switch s))) \<and>
     (\<forall>i j p. socketMACs (mm_switch s) i = Some p \<longrightarrow> socketMACs (mm_switch s) j = Some p \<longrightarrow> i = j) \<and>
     (\<forall>i p. socketMACs (mm_switch s) i = Some p \<longrightarrow> p < mm_next s)"

lemma map_of_deref: "map_of (deref h t) i = map_option (map_option h) (map_of t i)"
  by (induction t) (auto simp: deref_def)

lemma keys_deref: "keys (deref h t) = keys t"
  by (induction t) (auto simp: deref_def keys_def)

lemma deref_update: "deref h (AList.update i v t) = AList.update i (map_option h v) (deref h t)"
  by (induction t) (auto simp: deref_def)

lemma deref_delete: "deref h (AList.delete i t) = AList.delete i (deref h t)"
  by (induction t) (auto simp: deref_def AList.delete_eq)

lemma AList_update_same: "distinct (keys t) \<Longrightarrow> map_of t i = Some v \<Longrightarrow> AList.update i v t = t"
  by (induction t) (auto simp: keys_def)

lemma atomic_socketMACs: "socketMACs (atomic_switch s) i = map_option (mm_cache s) (socketMACs (mm_switch s) i)"
  by (auto simp: socketMACs_def atomic_switch_def Let_def map_of_deref split: option.splits)

lemma socketMACs_Some: "socketMACs g i = Some p \<Longrightarrow> map_of (socketTable g) i = Some (Some p)"
  by (auto simp: socketMACs_def split: option.splits)

lemma update_as_map:
  "distinct (keys t) \<Longrightarrow> i \<in> fst ` set t \<Longrightarrow>
   AList.update i v t = map (\<lambda>e. (fst e, if fst e = i then v else snd e)) t"
proof (induction t)
  case (Cons e t)
  have "map (\<lambda>e. (fst e, if fst e = i then v else snd e)) t = t" if "i \<notin> fst ` set t"
    using that by (intro map_idI) auto
  then show ?case using Cons by (cases e) (auto simp: keys_def)
qed simp

lemma deref_upd:
  assumes "distinct (keys t)" and "map_of t i = Some (Some p)"
    and "\<And>j. map_of t j = Some (Some p) \<Longrightarrow> j = i"
  shows "deref (h(p := c)) t = AList.update i (Some c) (deref h t)"
proof -
  have p: "snd e = Some p \<longleftrightarrow> fst e = i" if "e \<in> set t" for e
  proof -
    have e: "map_of t (fst e) = Some (snd e)" using assms(1) that by (simp add: keys_def)
    show ?thesis using assms(2) assms(3) [of "fst e"] by (metis e option.inject)
  qed
  have "i \<in> fst ` set (deref h t)"
    using assms(2) by (force simp: deref_def dest: map_of_SomeD)
  then have "AList.update i (Some c) (deref h t) =
      map (\<lambda>e. (fst e, if fst e = i then Some c else snd e)) (deref h t)"
    using assms(1) by (intro update_as_map) (simp_all add: keys_deref)
  also have "\<dots> = deref (h(p := c)) t"
    unfolding deref_def list.map_comp
  proof (rule map_cong [OF refl])
    fix e assume "e \<in> set t"
    from p [OF this] show "((\<lambda>e. (fst e, if fst e = i then Some c else snd e)) \<circ> map_prod id (map_option h)) e =
        map_prod id (map_option (h(p := c))) e"
      by (cases e; cases "snd e") auto
  qed
  finally show ?thesis by simp
qed

lemma atomic_cache_upd:
  assumes "mem_ok s" and "socketMACs (mm_switch s) i = Some p"
  shows "atomic_switch (cache_upd p r s) = upd_cache i r (atomic_switch s)"
proof -
  have "deref ((mm_cache s)(p := fst r)) (socketTable (mm_switch s)) =
      AList.update i (Some (fst r)) (deref (mm_cache s) (socketTable (mm_switch s)))"
  proof (rule deref_upd)
    show "j = i" if "map_of (socketTable (mm_switch s)) j = Some (Some p)" for j
      using assms that unfolding mem_ok_def socketMACs_map_of by blast
  qed (use assms in \<open>simp_all add: mem_ok_def socketMACs_Some\<close>)
  then show ?thesis
    by (simp add: cache_upd_def atomic_switch_def upd_switch_def upd_cache_def fold_onMACEvicted Let_def
        fun_eq_iff)
qed


lemma mem_ok_cache_upd: "mem_ok (cache_upd p r s) \<longleftrightarrow> mem_ok s"
  by (simp add: mem_ok_def cache_upd_def upd_switch_def fold_onMACEvicted socketMACs_def)

lemma cache_upd_simps [table_simps]:
  "macTable (mm_switch (cache_upd p r s)) m = (if m \<in> set (snd r) then None else macTable (mm_switch s) m)"
  "socketTable (mm_switch (cache_upd p r s)) = socketTable (mm_switch s)"
  "socketMACs (mm_switch (cache_upd p r s)) = socketMACs (mm_switch s)"
  "mm_cache (cache_upd p r s) = (mm_cache s)(p := fst r)"
  "mm_closed (cache_upd p r s) = mm_closed s" "mm_next (cache_upd p r s) = mm_next s"
  "macs_AllowedMACsPerConnection (mm_switch (cache_upd p r s)) = macs_AllowedMACsPerConnection (mm_switch s)"
  by (simp_all add: cache_upd_def upd_switch_def fold_onMACEvicted socketMACs_def fun_eq_iff)

section \<open>Sections that run alone\<close>

lemma clear_tables_simps [table_simps]:
  "macTable (mm_switch (clear_tables x i c s)) m = (if m \<in> set (lru_Keys x c) then None else macTable (mm_switch s) m)"
  "socketTable (mm_switch (clear_tables x i c s)) = AList.delete i (socketTable (mm_switch s))"
  "socketMACs (mm_switch (clear_tables x i c s)) j = (if j = i then None else socketMACs (mm_switch s) j)"
  "mm_cache (clear_tables x i c s) = mm_cache s" "mm_closed (clear_tables x i c s) = mm_closed s"
  "mm_next (clear_tables x i c s) = mm_next s"
  "macs_AllowMACChanging (mm_switch (clear_tables x i c s)) = macs_AllowMACChanging (mm_switch s)"
  "macs_AllowedMACsPerConnection (mm_switch (clear_tables x i c s)) = macs_AllowedMACsPerConnection (mm_switch s)"
  by (simp_all add: clear_tables_def table_simps fold_delete_macs socketMACs_def split: option.splits)

lemma section_clears: "socketMACs (mm_switch s) i = Some p \<Longrightarrow>
    run_section x now (UnregTable i q) s = (UnregPurge p q, clear_tables x i (mm_cache s p) s)"
  by simp

lemma alone_purges: "alone x now (UnregPurge p q, s) (q, cache_upd p (lru_Purge x (mm_cache s p)) s)"
  by (rule alone_cache_op [OF _ alone_refl]) simp

lemma alone_clears: "socketMACs (mm_switch s) i = Some p \<Longrightarrow>
    alone x now (UnregTable i q, s) (q, cache_upd p (lru_Purge x (mm_cache s p)) (clear_tables x i (mm_cache s p) s))"
  using alone_purges [of x now p q "clear_tables x i (mm_cache s p) s"]
  by (intro alone_step [OF section_clears]) (simp_all add: table_simps)

lemma unregister_alone:
  assumes "mem_ok s"
  shows "\<exists>s'. alone x now (UnregTable i q, s) (q, s') \<and> mem_ok s' \<and>
    atomic_switch s' = macs_UnregisterSocket x (atomic_switch s) i \<and> mm_closed s' = mm_closed s"
proof (cases "socketMACs (mm_switch s) i")
  case None
  then show ?thesis using assms
    by (intro exI [of _ s]) (auto simp: macs_UnregisterSocket_def atomic_socketMACs intro!: alone_step)
next
  case (Some p)
  let ?s = "clear_tables x i (mm_cache s p) s"
  let ?s' = "cache_upd p (lru_Purge x (mm_cache s p)) ?s"
  have ok: "mem_ok ?s"
    using assms unfolding mem_ok_def by (auto simp: table_simps)
  have "alone x now (UnregTable i q, s) (q, ?s')"
    by (rule alone_clears [OF Some])
  moreover have "deref ((mm_cache s)(p := c)) (AList.delete i (socketTable (mm_switch s))) =
      AList.delete i (deref (mm_cache s) (socketTable (mm_switch s)))" for c
  proof -
    have "v \<noteq> Some p" if "(j, v) \<in> set (AList.delete i (socketTable (mm_switch s)))" for j v
    proof
      assume "v = Some p"
      have "distinct (keys (socketTable (mm_switch ?s)))" using ok by (simp add: mem_ok_def)
      then have "map_of (socketTable (mm_switch ?s)) j = Some (Some p)"
        using that \<open>v = Some p\<close> by (intro map_of_is_SomeI) (simp_all add: table_simps keys_def)
      then have "socketMACs (mm_switch ?s) j = Some p" by (simp only: socketMACs_map_of)
      then show False using assms Some unfolding mem_ok_def clear_tables_simps by (metis option.distinct(1))
    qed
    then show ?thesis
      unfolding deref_delete [symmetric] by (auto simp: deref_def map_option_case split: option.splits)
  qed
  then have "atomic_switch ?s' = macs_UnregisterSocket x (atomic_switch s) i"
    unfolding macs_UnregisterSocket_cases atomic_socketMACs Some
    by (simp add: atomic_switch_def Let_def fold_onMACEvicted fold_delete_macs cache_upd_def upd_switch_def
        clear_tables_def fun_eq_iff)
  ultimately show ?thesis
    using ok by (intro exI [of _ ?s']) (simp add: mem_ok_cache_upd cache_upd_simps clear_tables_simps)
qed


lemma mem_ok_upd_switch:
  "socketTable (f (mm_switch s)) = socketTable (mm_switch s) \<Longrightarrow> mem_ok (upd_switch f s) = mem_ok s"
  by (simp add: mem_ok_def table_simps socketMACs_def)

lemma atomic_simps:
  "macTable (atomic_switch s) = macTable (mm_switch s)"
  "macs_AllowMACChanging (atomic_switch s) = macs_AllowMACChanging (mm_switch s)"
  "macs_AllowedMACsPerConnection (atomic_switch s) = macs_AllowedMACsPerConnection (mm_switch s)"
  "macs_MACTableTimeout (atomic_switch s) = macs_MACTableTimeout (mm_switch s)"
  "socketTable (atomic_switch s) = deref (mm_cache s) (socketTable (mm_switch s))"
  "atomic_switch (s\<lparr>mm_closed := js\<rparr>) = atomic_switch s" "mem_ok (s\<lparr>mm_closed := js\<rparr>) = mem_ok s"
  by (simp_all add: atomic_switch_def mem_ok_def Let_def)

lemma alone_known:
  "socketMACs (mm_switch s) i = Some p \<Longrightarrow> lru_Contains x (mm_cache s p) m \<Longrightarrow>
   alone x now (SetAdd m p, s) c \<Longrightarrow> alone x now (SetLookup i m, s) c"
  by (intro alone_step [of x now "SetLookup i m" s "(SetContains i m p, s)"]
      alone_step [of x now "SetContains i m p" s "(SetAdd m p, s)"]) simp_all

lemma alone_unknown:
  "socketMACs (mm_switch s) i = Some p \<Longrightarrow> \<not> lru_Contains x (mm_cache s p) m \<Longrightarrow>
   alone x now (SetCount i m p, s) c \<Longrightarrow> alone x now (SetLookup i m, s) c"
  by (intro alone_step [of x now "SetLookup i m" s "(SetContains i m p, s)"]
      alone_step [of x now "SetContains i m p" s "(SetCount i m p, s)"]) simp_all

lemma alone_claims:
  "macs_AllowMACChanging (mm_switch s) \<or> lru_Len x (mm_cache s p) = 0 \<Longrightarrow>
   alone x now (SetClaim i m p, s) c \<Longrightarrow> alone x now (SetCount i m p, s) c"
  by (rule alone_step [of x now "SetCount i m p" s "(SetClaim i m p, s)"]) auto

lemma alone_adds: "alone x now (SetAdd m p, s) (Returned True, cache_upd p (lru_Add x (mm_cache s p) m now) s)"
  by (rule alone_cache_op [OF _ alone_refl]) simp

lemma setMACFrom_alone:
  assumes "mem_ok s" and "w_handler w = Some (MACH (atomic_switch s))" and "sk_hasPacketHandler (w_sock w i)"
    and "IsMACUnicast x (MACSource x msg)" and "setMACFrom x now (atomic_switch s) i msg w = (w', b)"
  shows "\<exists>s'. alone x now (SetLookup i (hwAddrToMAC (MACSource x msg)), s) (Returned b, s') \<and> mem_ok s' \<and>
    w_handler w' = Some (MACH (atomic_switch s'))"
proof (cases "socketMACs (mm_switch s) i")
  case None
  then show ?thesis using assms
    by (intro exI [of _ s]) (auto simp: setMACFrom_def Let_def atomic_socketMACs intro!: alone_step)
next
  case (Some p)
  let ?m = "hwAddrToMAC (MACSource x msg)" and ?c = "mm_cache s p"
  let ?add = "lru_Add x ?c ?m now"
  have sm: "socketMACs (atomic_switch s) i = Some ?c" by (simp add: atomic_socketMACs Some)
  consider (known) "lru_Contains x ?c ?m"
    | (full) "\<not> lru_Contains x ?c ?m" "\<not> macs_AllowMACChanging (mm_switch s)" "lru_Len x ?c > 0"
    | (taken) "\<not> lru_Contains x ?c ?m" "macs_AllowMACChanging (mm_switch s) \<or> lru_Len x ?c = 0"
        "macTable (mm_switch s) ?m \<noteq> None"
    | (free) "\<not> lru_Contains x ?c ?m" "macs_AllowMACChanging (mm_switch s) \<or> lru_Len x ?c = 0"
        "macTable (mm_switch s) ?m = None" by blast
  then show ?thesis
  proof cases
    case known
    have "alone x now (SetLookup i ?m, s) (Returned True, cache_upd p ?add s)"
      by (rule alone_known [OF Some known alone_adds])
    then show ?thesis
      using assms known sm atomic_cache_upd [OF assms(1) Some]
      by (intro exI [of _ "cache_upd p ?add s"])
        (auto simp: setMACFrom_def Let_def set_macs_def mem_ok_cache_upd)
  next
    case full
    have "alone x now (SetLookup i ?m, s) (Returned False, s)"
      by (rule alone_unknown [OF Some full(1)], rule alone_step [OF refl]) (simp add: full)
    then show ?thesis
      using assms full sm by (intro exI [of _ s]) (auto simp: setMACFrom_def Let_def atomic_simps)
  next
    case taken
    let ?s = "s\<lparr>mm_closed := i # mm_closed s\<rparr>"
    from unregister_alone [of ?s x now i "Returned False"] assms(1) obtain s' where
      s': "alone x now (UnregTable i (Returned False), ?s) (Returned False, s')" "mem_ok s'"
      "atomic_switch s' = macs_UnregisterSocket x (atomic_switch s) i" by (auto simp: atomic_simps)
    have "alone x now (SetLookup i ?m, s) (Returned False, s')"
      by (rule alone_unknown [OF Some taken(1) alone_claims [OF taken(2)]], rule alone_step [OF refl])
        (simp add: taken(3), rule alone_step [OF refl], simp add: s'(1))
    moreover have "w' = CloseError x i (GoErr ''MAC collision'') w" "b = False"
      using assms taken sm by (auto simp: setMACFrom_def Let_def atomic_simps split: if_splits)
    ultimately show ?thesis
      using s' assms(2,3) by (auto simp: sock_simps unregistered_def UnregisterSocket_def)
  next
    case free
    let ?s = "upd_switch (\<lambda>g. g\<lparr>macTable := (macTable g)(?m \<mapsto> i)\<rparr>) s"
    have ok: "mem_ok ?s" using assms(1) by (simp add: mem_ok_upd_switch)
    have "alone x now (SetLookup i ?m, s) (Returned True, cache_upd p ?add ?s)"
      using alone_adds [of x now ?m p ?s]
      by (intro alone_unknown [OF Some free(1) alone_claims [OF free(2)]] alone_step [OF refl])
        (simp add: free(3) table_simps)
    moreover have "atomic_switch ?s = (atomic_switch s)\<lparr>macTable := (macTable (mm_switch s))(?m \<mapsto> i)\<rparr>"
      by (simp add: atomic_switch_def upd_switch_def Let_def)
    moreover have "socketMACs (mm_switch ?s) i = Some p" using Some by (simp add: table_simps socketMACs_def)
    ultimately show ?thesis
      using assms free sm atomic_cache_upd [OF ok, of i p ?add] ok
      by (intro exI [of _ "cache_upd p ?add ?s"])
        (auto simp: setMACFrom_def Let_def set_macs_def mem_ok_cache_upd atomic_simps)
  qed
qed

lemma deref_unused: "(\<And>j. (j, Some p) \<notin> set t) \<Longrightarrow> deref (h(p := c)) t = deref h t"
  by (force simp: deref_def map_option_case split: option.splits)

lemma mem_ok_pointers:
  assumes "mem_ok s"
  shows "(j, Some p) \<in> set (socketTable (mm_switch s)) \<longleftrightarrow> socketMACs (mm_switch s) j = Some p"
  using assms by (simp add: mem_ok_def keys_def socketMACs_map_of [symmetric])

lemma register_alone:
  assumes "mem_ok s"
  shows "\<exists>s'. alone x now (Register i, s) (Returned True, s') \<and> mem_ok s' \<and>
    atomic_switch s' = fst (macs_RegisterSocket x (atomic_switch s) i)"
proof (cases "lru_NewWithEvict x (macs_AllowedMACsPerConnection (mm_switch s))")
  case (Inl err)
  let ?s = "upd_switch (\<lambda>g. g\<lparr>socketTable := AList.update i None (socketTable g)\<rparr>) s"
  let ?s' = "?s\<lparr>mm_closed := i # mm_closed ?s\<rparr>"
  have sm: "socketMACs (mm_switch ?s) j = (if j = i then None else socketMACs (mm_switch s) j)" for j
    by (simp add: table_simps socketMACs_def)
  have "alone x now (Register i, s) (Returned True, ?s')"
    by (rule alone_step [OF refl], simp add: RegisterSocket_section_def Inl, rule alone_step [OF refl], simp,
        rule alone_step [OF refl]) (simp add: sm)
  moreover have "mem_ok ?s"
    using assms unfolding mem_ok_def sm by (auto simp: table_simps)
  ultimately show ?thesis
    by (intro exI [of _ ?s']) (simp add: atomic_simps macs_RegisterSocket_def Inl,
        simp add: atomic_switch_def upd_switch_def Let_def deref_update)
next
  case (Inr c)
  let ?s = "upd_switch (\<lambda>g. g\<lparr>socketTable := AList.update i (Some (mm_next s)) (socketTable g)\<rparr>)
             (s\<lparr>mm_cache := (mm_cache s)(mm_next s := c), mm_next := mm_next s + 1\<rparr>)"
  have sm: "socketMACs (mm_switch ?s) j = (if j = i then Some (mm_next s) else socketMACs (mm_switch s) j)" for j
    by (simp add: table_simps socketMACs_def)
  have new: "socketMACs (mm_switch s) j \<noteq> Some (mm_next s)" for j
    using assms unfolding mem_ok_def by blast
  then have "(j, Some (mm_next s)) \<notin> set (socketTable (mm_switch s))" for j
    by (simp add: mem_ok_pointers [OF assms])
  from deref_unused [OF this, where h = "mm_cache s" and c = c] have "atomic_switch ?s = fst (macs_RegisterSocket x (atomic_switch s) i)"
    by (simp add: atomic_simps macs_RegisterSocket_def Inr)
      (simp add: atomic_switch_def upd_switch_def Let_def deref_update)
  moreover have "mem_ok ?s"
  proof -
    have "distinct (keys (socketTable (mm_switch ?s)))" using assms by (simp add: mem_ok_def table_simps)
    moreover have "p < Suc (mm_next s)" if "socketMACs (mm_switch s) j = Some p" for j p
      using assms that unfolding mem_ok_def by (simp add: less_SucI)
    ultimately show ?thesis
      using assms new unfolding mem_ok_def sm by (auto simp: table_simps)
  qed
  moreover have "alone x now (Register i, s) (Returned True, ?s)"
    by (rule alone_step [OF refl]) (simp add: RegisterSocket_section_def Inr)
  ultimately show ?thesis by blast
qed

lemma resize_alone:
  assumes "mem_ok s" and "distinct (map fst t)"
    and "\<And>i p. (i, Some p) \<in> set t \<Longrightarrow> socketMACs (mm_switch s) i = Some p"
  shows "\<exists>q s'. alone x now (ConfigTables (map snd t), s) (q, s') \<and>
    (case resize_tables x (deref (mm_cache s) t) (atomic_switch s) of
       Ret g' \<Rightarrow> q = Returned True \<and> mem_ok s' \<and> atomic_switch s' = g'
     | Panic \<Rightarrow> q = Panicked)"
  using assms
proof (induction t arbitrary: s)
  case Nil
  have "alone x now (ConfigTables [], s) (Returned True, s)" by (rule alone_step [OF refl]) simp
  then show ?case using Nil by (intro exI [of _ "Returned True"] exI [of _ s]) (simp add: deref_def)
next
  case (Cons e t)
  show ?case
  proof (cases "snd e")
    case None
    have "alone x now (ConfigTables (map snd (e # t)), s) (Panicked, s)"
      by (rule alone_step [OF refl]) (simp add: None)
    then show ?thesis using None by (cases e) (auto simp: deref_def)
  next
    case (Some p)
    then have e: "e = (fst e, Some p)" by (cases e) simp
    let ?i = "fst e" and ?r = "lru_Resize x (mm_cache s p) (macs_AllowedMACsPerConnection (mm_switch s))"
    let ?s = "cache_upd p ?r s"
    have i: "socketMACs (mm_switch s) ?i = Some p" using Cons.prems(3) [of ?i p] e by (metis list.set_intros(1))
    have "(j, Some p) \<notin> set t" for j
    proof
      assume j: "(j, Some p) \<in> set t"
      then have "socketMACs (mm_switch s) j = Some p" using Cons.prems(3) by simp
      then have "j = ?i" using i Cons.prems(1) unfolding mem_ok_def by blast
      then show False using j Cons.prems(2) by (force simp: image_iff)
    qed
    then have t: "deref (mm_cache ?s) t = deref (mm_cache s) t" by (simp add: table_simps deref_unused)
    have "\<exists>q s'. alone x now (ConfigTables (map snd t), ?s) (q, s') \<and>
      (case resize_tables x (deref (mm_cache ?s) t) (atomic_switch ?s) of
         Ret g' \<Rightarrow> q = Returned True \<and> mem_ok s' \<and> atomic_switch s' = g'
       | Panic \<Rightarrow> q = Panicked)"
      using Cons.prems by (intro Cons.IH) (simp_all add: mem_ok_cache_upd table_simps)
    moreover have "resize_tables x (deref (mm_cache s) (e # t)) (atomic_switch s) =
        resize_tables x (deref (mm_cache ?s) t) (atomic_switch ?s)"
      by (subst e, subst t, subst atomic_cache_upd [OF Cons.prems(1) i]) (simp add: deref_def atomic_simps)
    moreover have "alone x now (ConfigTables (map snd (e # t)), s) c" if "alone x now (ConfigTables (map snd t), ?s) c" for c
      using that by (intro alone_cache_op [of x now _ s p ?r]) (simp_all add: Some)
    ultimately show ?thesis by metis
  qed
qed

lemma configure_alone:
  assumes "mem_ok s"
  shows "\<exists>q s'. alone x now (ConfigStart, s) (q, s') \<and>
    (case ConfigUpdate x (atomic_switch s) of
       Ret g' \<Rightarrow> q = Returned True \<and> mem_ok s' \<and> atomic_switch s' = g'
     | Panic \<Rightarrow> q = Panicked)"
proof -
  have "distinct (map fst (socketTable (mm_switch s)))" using assms by (simp add: mem_ok_def keys_def)
  from resize_alone [OF assms this, of x now] obtain q s' where
    "alone x now (ConfigTables (map snd (socketTable (mm_switch s))), s) (q, s')"
    "case ConfigUpdate x (atomic_switch s) of
       Ret g' \<Rightarrow> q = Returned True \<and> mem_ok s' \<and> atomic_switch s' = g' | Panic \<Rightarrow> q = Panicked"
    by (auto simp: mem_ok_pointers [OF assms] ConfigUpdate_def atomic_simps)
  then show ?thesis by (intro exI [of _ q] exI [of _ s'] conjI) (rule alone_step [OF refl], simp)
qed

lemma cleanupMACs_induct [consumes 1, case_names loop]:
  assumes "cleanupMACs x now i c g = Some g'"
    and "\<And>cleanup x now i c g g'. (\<And>x now i c g g'. cleanup x now i c g = Some g' \<Longrightarrow> P x now i c g g') \<Longrightarrow>
      (case lru_GetOldest x c of
         None \<Rightarrow> Some g
       | Some p \<Rightarrow> if now - snd p \<le> macs_MACTableTimeout g then Some g
           else cleanup x now i (fst (lru_Remove x c (fst p))) (upd_cache i (lru_Remove x c (fst p)) g)) = Some g' \<Longrightarrow>
      P x now i c g g'"
  shows "P x now i c g g'"
  by (rule cleanupMACs.raw_induct [of P "((((x, now), i), c), g)" g', unfolded prod.case])
    (erule assms(2), assumption, rule assms(1))

lemma cleanupMACs_alone:
  assumes "cleanupMACs x now i c g = Some g'"
    and "mem_ok s" and "atomic_switch s = g" and "socketMACs (mm_switch s) i = Some p" and "mm_cache s p = c"
  shows "\<exists>s'. alone x now (CleanupTables (Some p # ps), s) (CleanupTables ps, s') \<and> mem_ok s' \<and>
      atomic_switch s' = g' \<and> socketMACs (mm_switch s') = socketMACs (mm_switch s) \<and>
      (\<forall>q. q \<noteq> p \<longrightarrow> mm_cache s' q = mm_cache s q)"
  using assms
proof (induction arbitrary: s rule: cleanupMACs_induct)
  case (loop cleanup x now i c g g')
  note 1 = loop
  let ?start = "(CleanupTables (Some p # ps), s)"
  note ok = 1(3) and i = 1(5)
  have c: "lru_GetOldest x (mm_cache s p) = lru_GetOldest x c" using 1(6) by simp
  show ?case
  proof (cases "lru_GetOldest x c")
    case None
    then have "alone x now ?start (CleanupTables ps, s)" by (intro alone_step [OF refl]) (simp add: c)
    then show ?thesis using 1(2,4) ok None by auto
  next
    case (Some e)
    show ?thesis
    proof (cases "now - snd e \<le> macs_MACTableTimeout g")
      case True
      then have "alone x now ?start (CleanupTables ps, s)"
        using Some 1(4) by (intro alone_step [OF refl]) (auto simp: c atomic_simps)
      then show ?thesis using 1(2,4) ok Some True by auto
    next
      case False
      let ?r = "lru_Remove x c (fst e)"
      let ?s = "cache_upd p ?r s"
      have "cleanup x now i (fst ?r) (upd_cache i ?r g) = Some g'" using 1(2) Some False by simp
      then obtain s' where s': "alone x now (CleanupTables (Some p # ps), ?s) (CleanupTables ps, s')" "mem_ok s'"
        "atomic_switch s' = g'" "socketMACs (mm_switch s') = socketMACs (mm_switch ?s)"
        "\<And>q. q \<noteq> p \<Longrightarrow> mm_cache s' q = mm_cache ?s q"
        using 1(1) [of x now i "fst ?r" "upd_cache i ?r g" g' ?s] ok i 1(4) atomic_cache_upd [OF ok i, of ?r]
        by (auto simp: mem_ok_cache_upd table_simps)
      have "macs_MACTableTimeout (mm_switch s) = macs_MACTableTimeout g"
        using atomic_simps(4) [of s] 1(4) by simp
      then have "run_section x now (CleanupTables (Some p # ps)) s = (CleanupRemove (fst e) p ps, s)"
        using False by (simp add: c Some)
      moreover have "alone x now (CleanupRemove (fst e) p ps, s) (CleanupTables ps, s')"
        by (rule alone_cache_op [of x now _ s p ?r, OF _ s'(1)]) (simp add: 1(6))
      ultimately have "alone x now ?start (CleanupTables ps, s')" by (rule alone_step)
      then show ?thesis using s' by (intro exI [of _ s']) (simp add: table_simps)
    qed
  qed
qed

lemma cleanup_alone:
  assumes "mem_ok s" and "distinct (map fst t)"
    and "\<And>i p. (i, Some p) \<in> set t \<Longrightarrow> socketMACs (mm_switch s) i = Some p"
    and "cleanup_tables x now (deref (mm_cache s) t) (atomic_switch s) = Some r"
  shows "\<exists>q s'. alone x now (CleanupTables (map snd t), s) (q, s') \<and>
    (case r of Ret g' \<Rightarrow> q = Returned True \<and> mem_ok s' \<and> atomic_switch s' = g' | Panic \<Rightarrow> q = Panicked)"
  using assms
proof (induction t arbitrary: s)
  case Nil
  have "alone x now (CleanupTables [], s) (Returned True, s)" by (rule alone_step [OF refl]) simp
  then show ?case using Nil by (intro exI [of _ "Returned True"] exI [of _ s]) (auto simp: deref_def)
next
  case (Cons e t)
  show ?case
  proof (cases "snd e")
    case None
    have "alone x now (CleanupTables (map snd (e # t)), s) (Panicked, s)"
      by (rule alone_step [OF refl]) (simp add: None)
    then show ?thesis using None Cons.prems(4) by (cases e) (auto simp: deref_def)
  next
    case (Some p)
    then have e: "e = (fst e, Some p)" by (cases e) simp
    let ?i = "fst e"
    have i: "socketMACs (mm_switch s) ?i = Some p" using Cons.prems(3) [of ?i p] e by (metis list.set_intros(1))
    have "deref (mm_cache s) (e # t) = (?i, Some (mm_cache s p)) # deref (mm_cache s) t"
      by (subst e) (simp add: deref_def)
    then obtain g1 where g1: "cleanupMACs x now ?i (mm_cache s p) (atomic_switch s) = Some g1"
      "cleanup_tables x now (deref (mm_cache s) t) g1 = Some r"
      using Cons.prems(4) by (auto split: option.splits)
    from cleanupMACs_alone [OF g1(1) Cons.prems(1) refl i refl, of "map snd t"] obtain s1 where s1:
      "alone x now (CleanupTables (Some p # map snd t), s) (CleanupTables (map snd t), s1)" "mem_ok s1"
      "atomic_switch s1 = g1" "socketMACs (mm_switch s1) = socketMACs (mm_switch s)"
      "\<And>q. q \<noteq> p \<Longrightarrow> mm_cache s1 q = mm_cache s q" by blast
    have "(j, Some p) \<notin> set t" for j
    proof
      assume j: "(j, Some p) \<in> set t"
      then have "socketMACs (mm_switch s) j = Some p" using Cons.prems(3) by simp
      then have "j = ?i" using i Cons.prems(1) unfolding mem_ok_def by blast
      then show False using j Cons.prems(2) by (force simp: image_iff)
    qed
    then have "deref (mm_cache s1) t = deref (mm_cache s) t"
      using s1(5) by (force simp: deref_def map_option_case split: option.splits)
    then have "\<exists>q s'. alone x now (CleanupTables (map snd t), s1) (q, s') \<and>
      (case r of Ret g' \<Rightarrow> q = Returned True \<and> mem_ok s' \<and> atomic_switch s' = g' | Panic \<Rightarrow> q = Panicked)"
      using Cons.prems g1(2) by (intro Cons.IH) (simp_all add: s1)
    then show ?thesis using alone_trans [OF s1(1)] Some by (metis list.map(2))
  qed
qed

lemma cleanup_round_alone:
  assumes "mem_ok s" and "cleanupAllMACs_round x now (atomic_switch s) = Some r"
  shows "\<exists>q s'. alone x now (CleanupStart, s) (q, s') \<and>
    (case r of Ret g' \<Rightarrow> q = Returned True \<and> mem_ok s' \<and> atomic_switch s' = g' | Panic \<Rightarrow> q = Panicked)"
proof -
  let ?s = "upd_switch (\<lambda>g. g\<lparr>macs_timerArmed := False\<rparr>) s"
  let ?t = "socketTable (mm_switch s)"
  have s: "mem_ok ?s" using assms(1) by (simp add: mem_ok_upd_switch)
  have g: "(atomic_switch s)\<lparr>macs_timerArmed := False\<rparr> = atomic_switch ?s"
    by (simp add: atomic_switch_def upd_switch_def Let_def)
  show ?thesis
  proof (cases "macs_AllowMACChanging (mm_switch s)")
    case False
    then have "alone x now (CleanupStart, s) (Returned True, ?s)"
      by (intro alone_step [OF refl]) (simp add: Let_def table_simps)
    moreover have "r = Ret (atomic_switch ?s)"
      using assms(2) False by (simp add: cleanupAllMACs_round_def Let_def g [symmetric] atomic_simps)
    ultimately show ?thesis using s by (intro exI [of _ "Returned True"] exI [of _ ?s]) simp
  next
    case True
    have "distinct (map fst ?t)" using s by (simp add: mem_ok_def keys_def table_simps)
    moreover have "cleanup_tables x now (deref (mm_cache ?s) ?t) (atomic_switch ?s) = Some r"
      using assms(2) True by (simp add: cleanupAllMACs_round_def Let_def g [symmetric] atomic_simps table_simps)
    ultimately obtain q s' where "alone x now (CleanupTables (map snd ?t), ?s) (q, s')"
      "case r of Ret g' \<Rightarrow> q = Returned True \<and> mem_ok s' \<and> atomic_switch s' = g' | Panic \<Rightarrow> q = Panicked"
      using cleanup_alone [OF s, of ?t x now r] mem_ok_pointers [OF s] by (auto simp: table_simps)
    then show ?thesis
      using True by (intro exI [of _ q] exI [of _ s'] conjI) (rule alone_step [OF refl], simp add: Let_def table_simps)
  qed
qed

text \<open>
  The lock sections add up: whatever operation a goroutine runs - a frame's address, the start
  or the end of a connection, a new configuration, the clean-up - its sections, when no other
  goroutine comes between them, change the switch exactly as the operation of the atomic model
  does, with the same answer and with every client keeping a cache object of its own.
\<close>

theorem sections_alone_are_atomic:
  assumes "mem_ok s" and "w_handler w = Some (MACH (atomic_switch s))" and "sk_hasPacketHandler (w_sock w i)"
    and "IsMACUnicast x (MACSource x msg)" and "setMACFrom x now (atomic_switch s) i msg w = (w', b)"
    and "cleanupAllMACs_round x now (atomic_switch s) = Some r"
  shows "(\<exists>s'. alone x now (SetLookup i (hwAddrToMAC (MACSource x msg)), s) (Returned b, s') \<and> mem_ok s' \<and>
      w_handler w' = Some (MACH (atomic_switch s'))) \<and>
    (\<exists>s'. alone x now (Register i, s) (Returned True, s') \<and> mem_ok s' \<and>
      atomic_switch s' = fst (macs_RegisterSocket x (atomic_switch s) i)) \<and>
    (\<exists>s'. alone x now (UnregTable i (Returned True), s) (Returned True, s') \<and> mem_ok s' \<and>
      atomic_switch s' = macs_UnregisterSocket x (atomic_switch s) i) \<and>
    (\<exists>q s'. alone x now (ConfigStart, s) (q, s') \<and>
      (case ConfigUpdate x (atomic_switch s) of
         Ret g' \<Rightarrow> q = Returned True \<and> mem_ok s' \<and> atomic_switch s' = g' | Panic \<Rightarrow> q = Panicked)) \<and>
    (\<exists>q s'. alone x now (CleanupStart, s) (q, s') \<and>
      (case r of Ret g' \<Rightarrow> q = Returned True \<and> mem_ok s' \<and> atomic_switch s' = g' | Panic \<Rightarrow> q = Panicked))"
  using setMACFrom_alone [OF assms(1-5)] register_alone [OF assms(1), of x now i]
    unregister_alone [OF assms(1), of x now i "Returned True"] configure_alone [OF assms(1), of x now]
    cleanup_round_alone [OF assms(1,6)]
  by (intro conjI) (simp | blast)+

text \<open>A client that has registered and sends its first frame.\<close>

definition example_mem :: "list_lru macs_mem" where
  "example_mem = \<lparr>mm_switch = MakeMACSwitch\<lparr>socketTable := [(7, Some 0)]\<rparr>, mm_cache = (\<lambda>_. (1, [])),
     mm_next = 1, mm_closed = []\<rparr>"

lemma example_mem_ok: "mem_ok example_mem"
  by (auto simp: mem_ok_def example_mem_def socketMACs_def split: if_splits)

lemma example_mem_atomic: "atomic_switch example_mem = MakeMACSwitch\<lparr>socketTable := [(7, Some (1, []))]\<rparr>"
  by (simp add: atomic_switch_def example_mem_def MakeMACSwitch_def deref_def)

definition example_registered_world :: "(demo_env, list_lru) world" where
  "example_registered_world = set_macs (atomic_switch example_mem) example_macs_world"

lemma example_registered_world_simps:
  "w_handler example_registered_world = Some (MACH (atomic_switch example_mem))"
  "sk_hasPacketHandler (w_sock example_registered_world 7)"
  "IsMACUnicast demo_ext (MACSource demo_ext example_frame)"
  "hwAddrToMAC (MACSource demo_ext example_frame) = [2, 0, 0, 0, 0, 7]"
  by (simp_all add: example_registered_world_def set_macs_def example_macs_world_def example_world_def
      example_frame_parts)

lemma example_first_frame:
  "setMACFrom demo_ext 5 (atomic_switch example_mem) 7 example_frame example_registered_world = (example_learned, True)"
  by (simp add: setMACFrom_def example_frame_parts example_mem_atomic socketMACs_def MakeMACSwitch_def Let_def
      example_registered_world_def example_learned_def example_switch_def set_macs_def upd_cache_def ll_add_def lru_put_def)

lemma example_no_cleanup:
  "cleanupAllMACs_round demo_ext 5 (atomic_switch example_mem) =
     Some (Ret ((atomic_switch example_mem)\<lparr>macs_timerArmed := False\<rparr>))"
  by (simp add: cleanupAllMACs_round_def example_mem_atomic MakeMACSwitch_def Let_def cleanupMACs.simps ll_oldest_def)

theorem sections_alone_are_atomic_witness:
  "\<exists>s'. alone demo_ext 5 (SetLookup 7 [2, 0, 0, 0, 0, 7], example_mem) (Returned True, s') \<and> mem_ok s' \<and>
     atomic_switch s' = example_switch"
  using conjunct1 [OF sections_alone_are_atomic [OF example_mem_ok example_registered_world_simps(1-3)
      example_first_frame example_no_cleanup], unfolded example_registered_world_simps(4)]
  by (auto simp: example_learned_def)

end
