(* ===== verification/Mac_Races.thy ===== *)
theory Mac_Races
  imports Mac_Locking
begin

text \<open>
  What the interleavings of the MAC switch can do (\<^verbatim>\<open>server/macswitch\<close>). The sections of
  a frame and of the end of a connection, taken in an unlucky order, leave the address table in
  states the atomic operations never reach: an entry that belongs to nobody and never goes away,
  and a client whose address is missing from the table while its cache has it. In no order does
  an entry pass from one client to another.
\<close>

section \<open>Runs of one goroutine inside a system\<close>

lemma steps_run: "alone x now (qs ! j, s) (q, s') \<Longrightarrow> j < length qs \<Longrightarrow> macs_steps x (s, qs) (s', qs[j := q])"
proof -
  assume "alone x now (qs ! j, s) (q, s')" and j: "j < length qs"
  then obtain n where "((\<lambda>(q, s). run_section x now q s) ^^ n) (qs ! j, s) = (q, s')"
    by (auto simp: alone_def)
  then show ?thesis using j
  proof (induction n arbitrary: qs s)
    case (Suc n)
    obtain q1 s1 where r: "run_section x now (qs ! j) s = (q1, s1)" by (cases "run_section x now (qs ! j) s")
    then have "macs_steps x (s1, qs[j := q1]) (s', qs[j := q1, j := q])"
      using Suc by (intro Suc.IH) (simp_all add: funpow_Suc_right del: funpow.simps)
    then show ?case
      using macs_step.run [OF Suc.prems(2) r] by (simp add: converse_rtranclp_into_rtranclp)
  qed (simp add: list_update_same_conv [THEN iffD2])
qed

section \<open>An entry that belongs to nobody\<close>

text \<open>A cache that does not hold the address, and a goroutine that will not touch its entry.\<close>

definition lacks :: "('l \<Rightarrow> bool) \<Rightarrow> ('l \<Rightarrow> (macAddr \<times> gotime) list) \<Rightarrow> macAddr \<Rightarrow> 'l macs_mem \<Rightarrow> nat \<Rightarrow> bool" where
  "lacks ok entries m s p \<longleftrightarrow> ok (mm_cache s p) \<and> m \<notin> fst ` set (entries (mm_cache s p))"

fun quiet :: "macAddr \<Rightarrow> (nat \<Rightarrow> bool) \<Rightarrow> macs_pc \<Rightarrow> bool" where
  "quiet m free (Evict ks q) \<longleftrightarrow> m \<notin> set ks \<and> quiet m free q"
| "quiet m free (SetContains i k p) \<longleftrightarrow> free p"
| "quiet m free (SetCount i k p) \<longleftrightarrow> free p"
| "quiet m free (SetClaim i k p) \<longleftrightarrow> free p"
| "quiet m free (SetAdd k p) \<longleftrightarrow> k \<noteq> m \<and> free p"
| "quiet m free (Closing i q) \<longleftrightarrow> quiet m free q"
| "quiet m free (UnregTable i q) \<longleftrightarrow> quiet m free q"
| "quiet m free (UnregPurge p q) \<longleftrightarrow> free p \<and> quiet m free q"
| "quiet m free (CleanupTables ps) \<longleftrightarrow> (\<forall>p. Some p \<in> set ps \<longrightarrow> free p)"
| "quiet m free (CleanupRemove k p ps) \<longleftrightarrow> free p \<and> (\<forall>p. Some p \<in> set ps \<longrightarrow> free p)"
| "quiet m free (ConfigTables ps) \<longleftrightarrow> (\<forall>p. Some p \<in> set ps \<longrightarrow> free p)"
| "quiet m free q \<longleftrightarrow> True"

definition orphaned :: "('l \<Rightarrow> bool) \<Rightarrow> ('l \<Rightarrow> (macAddr \<times> gotime) list) \<Rightarrow> macAddr \<Rightarrow> sid \<Rightarrow> 'l macs_mem \<Rightarrow> bool" where
  "orphaned ok entries m i s \<longleftrightarrow> macTable (mm_switch s) m = Some i \<and>
     0 < macs_AllowedMACsPerConnection (mm_switch s) \<and>
     (\<forall>j p. (j, Some p) \<in> set (socketTable (mm_switch s)) \<longrightarrow> lacks ok entries m s p)"

lemma quiet_mono: "quiet m free q \<Longrightarrow> (\<And>p. free p \<Longrightarrow> free' p) \<Longrightarrow> quiet m free' q"
  by (induction m free q rule: quiet.induct) auto

text \<open>An operation on a cache without the address does not bring it in and does not evict it.\<close>

definition harmless :: "('l \<Rightarrow> bool) \<Rightarrow> ('l \<Rightarrow> (macAddr \<times> gotime) list) \<Rightarrow> macAddr \<Rightarrow> 'l \<times> macAddr list \<Rightarrow> bool" where
  "harmless ok entries m r \<longleftrightarrow> ok (fst r) \<and> m \<notin> fst ` set (entries (fst r)) \<and> m \<notin> set (snd r)"

text \<open>What a section keeps: the caches without the address, the entry, and its own quiet.\<close>

definition keeps :: "('l \<Rightarrow> bool) \<Rightarrow> ('l \<Rightarrow> (macAddr \<times> gotime) list) \<Rightarrow> macAddr \<Rightarrow> sid \<Rightarrow> 'l macs_mem \<Rightarrow> 'l macs_thread \<Rightarrow> bool" where
  "keeps ok entries m i s c \<longleftrightarrow> orphaned ok entries m i (snd c) \<and> (\<forall>p. lacks ok entries m s p \<longrightarrow> lacks ok entries m (snd c) p) \<and>
     quiet m (lacks ok entries m (snd c)) (fst c)"

lemma pointers_update:
  "(k, Some p) \<in> set (AList.update j v t) \<Longrightarrow> v = Some p \<or> (k, Some p) \<in> set t"
  by (induction t) (auto split: if_splits)

lemma pointers_delete: "e \<in> set (AList.delete j t) \<Longrightarrow> e \<in> set t"
  by (auto simp: AList.delete_eq)

lemma lacks_switch: "lacks ok entries m (upd_switch f s) = lacks ok entries m s"
  by (simp add: fun_eq_iff lacks_def table_simps)

context lru_cache
begin

lemma lack_keys: "lacks ok entries m s p \<Longrightarrow> m \<notin> set (lru_Keys x (mm_cache s p))"
  by (simp add: lacks_def keys_entries)

lemma lack_oldest: "lacks ok entries m s p \<Longrightarrow> lru_GetOldest x (mm_cache s p) = Some e \<Longrightarrow> fst e \<noteq> m"
  by (auto simp: lacks_def oldest_entries split: list.splits)

lemma harmless_ops:
  assumes "lacks ok entries m s p"
  shows "k \<noteq> m \<Longrightarrow> harmless ok entries m (lru_Add x (mm_cache s p) k t)"
    and "harmless ok entries m (lru_Remove x (mm_cache s p) k)"
    and "0 < n \<Longrightarrow> harmless ok entries m (lru_Resize x (mm_cache s p) n)"
    and "harmless ok entries m (lru_Purge x (mm_cache s p))"
proof -
  note c = assms [unfolded lacks_def]
  show "harmless ok entries m (lru_Add x (mm_cache s p) k t)" if "k \<noteq> m"
  proof -
    obtain c' ev where r: "lru_Add x (mm_cache s p) k t = (c', ev)" by (cases "lru_Add x (mm_cache s p) k t")
    have "m \<notin> fst ` set (entries c') \<union> set ev"
      using add_keys(3) [OF _ r] c that by (metis insertE)
    then show ?thesis using add_keys(1) [OF _ r] c by (simp add: harmless_def r)
  qed
  show "harmless ok entries m (lru_Remove x (mm_cache s p) k)"
    using c remove_entries [of "mm_cache s p" k] by (cases "lru_Remove x (mm_cache s p) k") (auto simp: harmless_def)
  show "0 < n \<Longrightarrow> harmless ok entries m (lru_Resize x (mm_cache s p) n)"
    using c resize_entries [of "mm_cache s p" n]
    by (cases "lru_Resize x (mm_cache s p) n") (auto simp: harmless_def dest: in_set_dropD in_set_takeD)
  show "harmless ok entries m (lru_Purge x (mm_cache s p))"
    using c purge_entries [of "mm_cache s p"] by (cases "lru_Purge x (mm_cache s p)") (auto simp: harmless_def)
qed

lemma keeps_same: "orphaned ok entries m i s \<Longrightarrow> quiet m (lacks ok entries m s) q \<Longrightarrow> keeps ok entries m i s (q, s)"
  by (simp add: keeps_def)

lemma keeps_cache_op:
  assumes "orphaned ok entries m i s" and "harmless ok entries m r" and "quiet m (lacks ok entries m s) q"
  shows "keeps ok entries m i s (cache_op p r q s)"
proof -
  let ?s = "s\<lparr>mm_cache := (mm_cache s)(p := fst r)\<rparr>"
  have l: "lacks ok entries m s p' \<Longrightarrow> lacks ok entries m ?s p'" for p' using assms(2) by (simp add: lacks_def harmless_def)
  then show ?thesis
    using assms quiet_mono [OF assms(3), of "lacks ok entries m ?s"] by (simp add: keeps_def cache_op_def orphaned_def harmless_def)
qed

lemma keeps_upd_switch:
  assumes "orphaned ok entries m i s" and "quiet m (lacks ok entries m s) q" and "macTable (f (mm_switch s)) m = Some i"
    and "0 < macs_AllowedMACsPerConnection (f (mm_switch s))"
    and "\<And>j p. (j, Some p) \<in> set (socketTable (f (mm_switch s))) \<Longrightarrow> lacks ok entries m s p"
  shows "keeps ok entries m i s (q, upd_switch f s)"
  using assms unfolding keeps_def orphaned_def by (simp add: table_simps lacks_switch)

lemma keeps_register:
  assumes "orphaned ok entries m i s"
  shows "keeps ok entries m i s (RegisterSocket_section x j s)"
proof (cases "lru_NewWithEvict x (macs_AllowedMACsPerConnection (mm_switch s))")
  case (Inl err)
  then show ?thesis
    using assms by (auto simp: RegisterSocket_section_def orphaned_def intro!: keeps_upd_switch dest!: pointers_update)
next
  case (Inr c)
  let ?s = "s\<lparr>mm_cache := (mm_cache s)(mm_next s := c), mm_next := mm_next s + 1\<rparr>"
  have c: "ok c" "entries c = []" using new_entries [OF Inr] by auto
  have l: "lacks ok entries m s p \<Longrightarrow> lacks ok entries m ?s p" "lacks ok entries m ?s (mm_next s)" for p
    using c by (simp_all add: lacks_def)
  then show ?thesis
    using assms
    by (auto simp: RegisterSocket_section_def Inr keeps_def orphaned_def lacks_switch table_simps dest!: pointers_update)
qed

lemma keeps_unregister:
  assumes "orphaned ok entries m i s" and "quiet m (lacks ok entries m s) q"
  shows "keeps ok entries m i s (UnregisterSocket_section x (UnregTable j q) s)"
proof (cases "socketMACs (mm_switch s) j")
  case None
  then show ?thesis using assms by (simp add: keeps_same)
next
  case (Some p)
  then have "(j, Some p) \<in> set (socketTable (mm_switch s))" by (simp add: socketMACs_Some map_of_SomeD)
  then have p: "lacks ok entries m s p" using assms(1) by (force simp: orphaned_def)
  show ?thesis
    using assms p lack_keys [OF p]
    by (auto simp: Some clear_tables_def fold_delete_macs orphaned_def intro!: keeps_upd_switch dest!: pointers_delete)
qed

lemma keeps_claim:
  assumes "orphaned ok entries m i s" and "macTable (mm_switch s) k = None" and "lacks ok entries m s p"
  shows "keeps ok entries m i s (SetAdd k p, upd_switch (\<lambda>g. g\<lparr>macTable := (macTable g)(k \<mapsto> j)\<rparr>) s)"
  using assms by (intro keeps_upd_switch) (auto simp: orphaned_def)

lemma lack_contains: "lacks ok entries m s p \<Longrightarrow> \<not> lru_Contains x (mm_cache s p) m"
  by (simp add: lacks_def contains_entries)

lemma keeps_section:
  assumes s: "orphaned ok entries m i s" and q: "quiet m (lacks ok entries m s) q"
  shows "keeps ok entries m i s (run_section x now q s)"
proof -
  have tables: "lacks ok entries m s p" if "socketMACs (mm_switch s) j = Some p" for j p
    using s that by (force simp: orphaned_def dest: socketMACs_Some map_of_SomeD)
  have evicted: "macTable (mm_switch s) m = Some i" "0 < macs_AllowedMACsPerConnection (mm_switch s)"
    using s by (simp_all add: orphaned_def)
  show ?thesis
  proof (cases "(x, now, q, s)" rule: run_section.cases)
    case (4 x' now' k ks q' s')
    then show ?thesis
      using s q by (auto simp: orphaned_def onMACEvicted_def intro!: keeps_upd_switch)
  next
    case (5 x' now' j q' s')
    have "lacks ok entries m (s\<lparr>mm_closed := js\<rparr>) = lacks ok entries m s" for js by (simp add: fun_eq_iff lacks_def)
    then show ?thesis using 5 s q by (simp add: keeps_def orphaned_def)
  next
    case (7 x' now' j q' s')
    then show ?thesis
      using s q keeps_unregister [OF s, of q' j] by (simp del: UnregisterSocket_section.simps)
  next
    case (9 x' now' s')
    then show ?thesis
      using s q by (auto simp: Let_def keeps_def orphaned_def table_simps lacks_switch)
  next
    case (10 x' now' ps s')
    then show ?thesis
      using s q lack_oldest [of m s] by (cases "(x, now, CleanupTables ps, s)" rule: cleanup_section.cases)
        (auto intro!: keeps_same split: option.splits)
  next
    case (12 x' now' s')
    then show ?thesis using s q by (auto simp: orphaned_def intro!: keeps_same)
  next
    case (13 x' now' ps s')
    then show ?thesis
      using s q evicted by (cases "(x, ConfigTables ps, s)" rule: ConfigUpdate_section.cases)
        (auto intro!: keeps_same keeps_cache_op harmless_ops)
  qed (use s q tables evicted in \<open>auto simp: keeps_register keeps_claim lack_contains intro!: keeps_same keeps_cache_op
      harmless_ops split: option.splits\<close>)
qed

text \<open>The entry stays, whatever the goroutines of the switch do from then on.\<close>

lemma orphaned_for_ever:
  assumes "macs_steps x (s, qs) (s', qs')" and "orphaned ok entries m i s"
    and "\<forall>q\<in>set qs. quiet m (lacks ok entries m s) q"
  shows "orphaned ok entries m i s' \<and> (\<forall>q\<in>set qs'. quiet m (lacks ok entries m s') q)"
  using assms
proof (induction rule: rtranclp_induct2)
  case (step s1 qs1 s2 qs2)
  then have s1: "orphaned ok entries m i s1" and q1: "\<And>q. q \<in> set qs1 \<Longrightarrow> quiet m (lacks ok entries m s1) q" by auto
  from step(2) show ?case
  proof cases
    case (run j now q)
    have k: "keeps ok entries m i s1 (q, s2)"
      using keeps_section [OF s1 q1 [OF nth_mem [OF run(2)]], of now] run(3) by simp
    have "quiet m (lacks ok entries m s2) q'" if "q' \<in> set qs2" for q'
    proof (cases "q' = q")
      case True
      then show ?thesis using k by (simp add: keeps_def)
    next
      case False
      then have "q' \<in> set qs1" using that run(1) set_update_subset_insert [of qs1 j q] by auto
      then show ?thesis using quiet_mono [OF q1] k by (simp add: keeps_def)
    qed
    then show ?thesis using k by (simp add: keeps_def)
  next
    case (configure n b t)
    then show ?thesis using s1 q1 by (auto simp: orphaned_def lacks_switch table_simps)
  qed (use s1 q1 in auto)
qed simp

lemma free_lacks:
  assumes "macs_ok ok entries (atomic_switch s)" and "macTable (mm_switch s) m = None"
    and "socketMACs (mm_switch s) j = Some p"
  shows "lacks ok entries m s p"
proof -
  have sm: "socketMACs (atomic_switch s) j = Some (mm_cache s p)" by (simp add: atomic_socketMACs assms(3))
  have "\<not> owns entries (atomic_switch s) j m"
    using macs_okD(3) [OF assms(1), of m j] assms(2) by (simp add: atomic_simps)
  then show ?thesis using sm macs_okD(2) [OF assms(1) sm] by (simp add: owns_def lacks_def)
qed

text \<open>Adding to a purged cache evicts nothing.\<close>

lemma add_purged:
  assumes "ok c"
  shows "snd (lru_Add x (fst (lru_Purge x c)) m t) = []"
proof -
  obtain c' ev where p: "lru_Purge x c = (c', ev)" by (cases "lru_Purge x c")
  note c' = purge_entries [OF assms p]
  obtain c2 ev2 where a: "lru_Add x c' m t = (c2, ev2)" by (cases "lru_Add x c' m t")
  have "length (lru_put m t (entries c')) \<le> cap c'" using c' ok_cap [of c'] by (simp add: lru_put_def)
  then show ?thesis using add_entries [OF _ a] c' by (simp add: p a)
qed

lemma leak_steps:
  assumes mem: "mem_ok s" and tables: "macs_ok ok entries (atomic_switch s)"
    and i: "socketMACs (mm_switch s) i = Some p" and free: "macTable (mm_switch s) m = None"
    and changing: "macs_AllowMACChanging (mm_switch s)" and allowed: "0 < macs_AllowedMACsPerConnection (mm_switch s)"
  shows "\<exists>s'. macs_steps x (s, []) (s', [Returned True, Returned True]) \<and>
    socketMACs (mm_switch s') i = None \<and> orphaned ok entries m i s'"
proof -
  let ?s1 = "upd_switch (\<lambda>g. g\<lparr>macTable := (macTable g)(m \<mapsto> i)\<rparr>) s"
  let ?s2 = "cache_upd p (lru_Purge x (mm_cache s p)) (clear_tables x i (mm_cache s p) ?s1)"
  let ?s3 = "cache_upd p (lru_Add x (mm_cache ?s2 p) m 0) ?s2"
  have l: "lacks ok entries m s p" by (rule free_lacks [OF tables free i])
  have claim: "alone x 0 (SetLookup i m, s) (SetAdd m p, ?s1)"
    by (rule alone_unknown [OF i lack_contains [OF l] alone_claims [OF disjI1 [OF changing]]], rule alone_step [OF refl])
      (simp add: free)
  have closes: "alone x 0 (UnregTable i (Returned True), ?s1) (Returned True, ?s2)"
    using alone_clears [of ?s1 i p x 0 "Returned True"] i by (simp add: table_simps socketMACs_def)
  have adds: "alone x 0 (SetAdd m p, ?s2) (Returned True, ?s3)" by (rule alone_adds)
  have "macs_steps x (s, []) (?s3, [Returned True, Returned True])"
  proof -
    note [trans] = rtranclp_trans
    have "macs_steps x (s, []) (s, [SetLookup i m])" using macs_step.frame [of x s "[]" i m] by simp
    also have "macs_steps x \<dots> (?s1, [SetAdd m p])" using steps_run [of x 0 "[SetLookup i m]" 0] claim by simp
    also have "macs_steps x \<dots> (?s1, [SetAdd m p, UnregTable i (Returned True)])"
      using macs_step.close [of x ?s1 "[SetAdd m p]" i] by simp
    also have "macs_steps x \<dots> (?s2, [SetAdd m p, Returned True])"
      using steps_run [of x 0 "[SetAdd m p, UnregTable i (Returned True)]" 1] closes by simp
    also have "macs_steps x \<dots> (?s3, [Returned True, Returned True])"
      using steps_run [of x 0 "[SetAdd m p, Returned True]" 0] adds by simp
    finally show ?thesis .
  qed
  moreover have "orphaned ok entries m i ?s3"
    unfolding orphaned_def
  proof (intro conjI allI impI)
    have "m \<notin> set (lru_Keys x (mm_cache s p))" "m \<notin> set (snd (lru_Purge x (mm_cache s p)))"
      using lack_keys [OF l] harmless_ops(4) [OF l] by (simp_all add: harmless_def)
    moreover have "ok (mm_cache s p)" using l by (simp add: lacks_def)
    ultimately show "macTable (mm_switch ?s3) m = Some i" by (simp add: table_simps add_purged)
    show "0 < macs_AllowedMACsPerConnection (mm_switch ?s3)" using allowed by (simp add: table_simps)
    fix j q assume "(j, Some q) \<in> set (socketTable (mm_switch ?s3))"
    then have "(j, Some q) \<in> set (socketTable (mm_switch s))" "j \<noteq> i"
      by (simp_all add: table_simps AList.delete_eq)
    then have j: "socketMACs (mm_switch s) j = Some q" and "q \<noteq> p"
      using mem_ok_pointers [OF mem] mem i unfolding mem_ok_def by (blast, metis)
    then show "lacks ok entries m ?s3 q"
      using free_lacks [OF tables free j] by (simp add: lacks_def table_simps)
  qed
  moreover have "socketMACs (mm_switch ?s3) i = None" by (simp add: table_simps)
  ultimately show ?thesis by blast
qed

text \<open>The callback of a client that closes removes the entry of the client that has just taken over.\<close>

lemma lost_steps:
  assumes mem: "mem_ok s" and tables: "macs_ok ok entries (atomic_switch s)"
    and i: "socketMACs (mm_switch s) i = Some p" and j: "socketMACs (mm_switch s) j = Some p'" and "i \<noteq> j"
    and owner: "macTable (mm_switch s) m = Some i" and changing: "macs_AllowMACChanging (mm_switch s)"
  shows "\<exists>s'. macs_steps x (s, []) (s', [Returned True, Returned True]) \<and>
    socketMACs (mm_switch s') j = Some p' \<and> ok (mm_cache s' p') \<and>
    m \<in> fst ` set (entries (mm_cache s' p')) \<and> macTable (mm_switch s') m = None"
proof -
  let ?c = "mm_cache s p" and ?c' = "mm_cache s p'"
  let ?s1 = "clear_tables x i ?c s"
  let ?s2 = "upd_switch (\<lambda>g. g\<lparr>macTable := (macTable g)(m \<mapsto> j)\<rparr>) ?s1"
  let ?s3 = "cache_upd p' (lru_Add x ?c' m 0) ?s2"
  let ?s4 = "cache_upd p (lru_Purge x ?c) ?s3"
  have p: "p \<noteq> p'" using mem i j \<open>i \<noteq> j\<close> unfolding mem_ok_def by blast
  have sm: "socketMACs (atomic_switch s) i = Some ?c" "socketMACs (atomic_switch s) j = Some ?c'"
    by (simp_all add: atomic_socketMACs i j)
  note ok = macs_okD(2) [OF tables sm(1)] macs_okD(2) [OF tables sm(2)]
  have "owns entries (atomic_switch s) i m" "\<not> owns entries (atomic_switch s) j m"
    using macs_okD(3) [OF tables, of m i] macs_okD(3) [OF tables, of m j] owner \<open>i \<noteq> j\<close>
    by (simp_all add: atomic_simps)
  then have m: "m \<in> fst ` set (entries ?c)" "m \<notin> fst ` set (entries ?c')" using sm by (simp_all add: owns_def)
  have keys: "m \<in> set (lru_Keys x ?c)" using m(1) keys_entries [OF ok(1)] by simp
  have purge: "m \<in> set (snd (lru_Purge x ?c))"
    using m(1) purge_entries [OF ok(1)] by (cases "lru_Purge x ?c") auto
  have clears: "alone x 0 (UnregTable i (Returned True), s) (UnregPurge p (Returned True), ?s1)"
    by (intro alone_step [OF section_clears [OF i]]) simp
  have learns: "alone x 0 (SetLookup j m, ?s1) (Returned True, ?s3)"
  proof (rule alone_unknown)
    show "socketMACs (mm_switch ?s1) j = Some p'" using j \<open>i \<noteq> j\<close> by (simp add: table_simps)
    show "\<not> lru_Contains x (mm_cache ?s1 p') m" using m(2) contains_entries [OF ok(2)] by (simp add: table_simps)
    show "alone x 0 (SetCount j m p', ?s1) (Returned True, ?s3)"
      using alone_adds [of x 0 m p' ?s2]
      by (intro alone_claims alone_step [OF refl]) (simp_all add: table_simps changing keys)
  qed
  have purges: "alone x 0 (UnregPurge p (Returned True), ?s3) (Returned True, ?s4)"
    using alone_purges [of x 0 p "Returned True" ?s3] p by (simp add: table_simps)
  have "macs_steps x (s, []) (?s4, [Returned True, Returned True])"
  proof -
    note [trans] = rtranclp_trans
    let ?closing = "UnregPurge p (Returned True)"
    have "macs_steps x (s, []) (s, [UnregTable i (Returned True)])" using macs_step.close [of x s "[]" i] by simp
    also have "macs_steps x \<dots> (?s1, [?closing])"
      using steps_run [of x 0 "[UnregTable i (Returned True)]" 0] clears by simp
    also have "macs_steps x \<dots> (?s1, [?closing, SetLookup j m])"
      using macs_step.frame [of x ?s1 "[?closing]" j m] by simp
    also have "macs_steps x \<dots> (?s3, [?closing, Returned True])"
      using steps_run [of x 0 "[?closing, SetLookup j m]" 1] learns by simp
    also have "macs_steps x \<dots> (?s4, [Returned True, Returned True])"
      using steps_run [of x 0 "[?closing, Returned True]" 0] purges by simp
    finally show ?thesis .
  qed
  moreover have "ok (mm_cache ?s4 p')" "m \<in> fst ` set (entries (mm_cache ?s4 p'))"
    using add_keys(1,5) [OF ok(2) surjective_pairing] p by (simp_all add: table_simps)
  moreover have "macTable (mm_switch ?s4) m = None" using purge by (simp add: table_simps)
  moreover have "socketMACs (mm_switch ?s4) j = Some p'" using j \<open>i \<noteq> j\<close> by (simp add: table_simps socketMACs_def)
  ultimately show ?thesis by blast
qed

text \<open>No frame of the client that was taken over brings the entry back.\<close>

lemma refresh_keeps_missing:
  assumes "socketMACs (mm_switch s) j = Some p" and "ok (mm_cache s p)" and "m \<in> fst ` set (entries (mm_cache s p))"
  shows "alone x now (SetLookup j m, s) (Returned True, cache_upd p (lru_Add x (mm_cache s p) m now) s) \<and>
    macTable (mm_switch (cache_upd p (lru_Add x (mm_cache s p) m now) s)) = macTable (mm_switch s) \<and>
    m \<in> fst ` set (entries (fst (lru_Add x (mm_cache s p) m now)))"
proof -
  have "lru_Contains x (mm_cache s p) m" using assms(2,3) by (simp add: contains_entries)
  then show ?thesis
    using alone_known [OF assms(1) _ alone_adds] add_known_keys(2) [OF assms(2,3) surjective_pairing]
      add_keys(5) [OF assms(2) surjective_pairing] by (simp add: table_simps fun_eq_iff)
qed

end

text \<open>A goroutine that will not claim the address for the client: a look into its cache finds it there.\<close>

fun no_claim :: "sid \<Rightarrow> macAddr \<Rightarrow> nat \<Rightarrow> macs_pc \<Rightarrow> bool" where
  "no_claim j m p (SetContains i k q) \<longleftrightarrow> i = j \<and> k = m \<longrightarrow> q = p"
| "no_claim j m p (SetCount i k q) \<longleftrightarrow> i \<noteq> j \<or> k \<noteq> m"
| "no_claim j m p (SetClaim i k q) \<longleftrightarrow> i \<noteq> j \<or> k \<noteq> m"
| "no_claim j m p (Evict ks q) \<longleftrightarrow> no_claim j m p q"
| "no_claim j m p (Closing i q) \<longleftrightarrow> no_claim j m p q"
| "no_claim j m p (UnregTable i q) \<longleftrightarrow> no_claim j m p q"
| "no_claim j m p (UnregPurge c q) \<longleftrightarrow> no_claim j m p q"
| "no_claim j m p q \<longleftrightarrow> True"

text \<open>The client is registered with its cache, and the cache has the address.\<close>

definition cached_at :: "('e, 'l) ext \<Rightarrow> sid \<Rightarrow> macAddr \<Rightarrow> nat \<Rightarrow> 'l macs_mem \<Rightarrow> bool" where
  "cached_at x j m p s \<longleftrightarrow> socketMACs (mm_switch s) j = Some p \<and> lru_Contains x (mm_cache s p) m"

lemma register_table [table_simps]:
  "macTable (mm_switch (snd (RegisterSocket_section x i s))) = macTable (mm_switch s)"
  by (simp add: RegisterSocket_section_def upd_switch_def split: sum.split)

text \<open>What a section does to one entry of the table, and to the claims of a goroutine.\<close>

lemma section_entry:
  assumes "run_section x now q s = (q', s')"
  shows "macTable (mm_switch s') m = macTable (mm_switch s) m \<or>
    (\<exists>ks r. q = Evict (m # ks) r) \<and> macTable (mm_switch s') m = None \<or>
    (\<exists>i p r. q = UnregTable i r \<and> socketMACs (mm_switch s) i = Some p \<and> m \<in> set (lru_Keys x (mm_cache s p))) \<and>
      macTable (mm_switch s') m = None \<or>
    (\<exists>i p. q = SetClaim i m p \<and> macTable (mm_switch s) m = None \<and> macTable (mm_switch s') m = Some i)"
proof (cases "(x, now, q, s)" rule: run_section.cases)
  case (6 x' now' i s')
  then show ?thesis using assms register_table [of x i s] by (simp add: prod_eq_iff) 
next
  case (10 x' now' ps s')
  then show ?thesis using assms by (cases "(x, now, CleanupTables ps, s)" rule: cleanup_section.cases)
      (auto simp: cache_op_def split: option.splits if_splits)
next
  case (13 x' now' ps s')
  then show ?thesis using assms by (cases "(x, ConfigTables ps, s)" rule: ConfigUpdate_section.cases)
      (auto simp: cache_op_def split: option.splits if_splits)
qed (use assms in \<open>auto simp: cache_op_def Let_def upd_switch_def onMACEvicted_def clear_tables_def fold_delete_macs
      split: option.splits if_splits\<close>)

lemma section_no_claim:
  assumes "cached_at x j m p s" and "no_claim j m p q" and "run_section x now q s = (q', s')"
  shows "no_claim j m p q'"
proof (cases "(x, now, q, s)" rule: run_section.cases)
  case (6 x' now' i s')
  then show ?thesis using assms by (auto simp: RegisterSocket_section_def split: sum.splits)
next
  case (10 x' now' ps s')
  then show ?thesis using assms by (cases "(x, now, CleanupTables ps, s)" rule: cleanup_section.cases)
      (auto simp: cache_op_def split: option.splits if_splits)
next
  case (13 x' now' ps s')
  then show ?thesis using assms by (cases "(x, ConfigTables ps, s)" rule: ConfigUpdate_section.cases)
      (auto simp: cache_op_def split: option.splits if_splits)
qed (use assms in \<open>auto simp: cache_op_def Let_def cached_at_def split: option.splits if_splits\<close>)

text \<open>Whatever the goroutines do, the client does not get an entry while its cache has the address.\<close>

lemma cached_never_claims:
  assumes "(\<lambda>a b. macs_step x a b \<and> cached_at x j m p (fst b))\<^sup>*\<^sup>* (s, qs) (s', qs')"
    and "cached_at x j m p s" and "\<forall>q\<in>set qs. no_claim j m p q" and "macTable (mm_switch s) m \<noteq> Some j"
  shows "cached_at x j m p s' \<and> (\<forall>q\<in>set qs'. no_claim j m p q) \<and> macTable (mm_switch s') m \<noteq> Some j"
  using assms
proof (induction rule: rtranclp_induct2)
  case (step s1 qs1 s2 qs2)
  then have c: "cached_at x j m p s1" "\<And>q. q \<in> set qs1 \<Longrightarrow> no_claim j m p q" "macTable (mm_switch s1) m \<noteq> Some j"
    and c2: "cached_at x j m p s2" by auto
  from step(2) have "macs_step x (s1, qs1) (s2, qs2)" by simp
  then show ?case
  proof cases
    case (run k now q)
    have q: "no_claim j m p q" using section_no_claim [OF c(1) c(2) [OF nth_mem [OF run(2)]] run(3)] .
    have "macTable (mm_switch s2) m \<noteq> Some j"
      using section_entry [OF run(3), of m] c(3) c(2) [OF nth_mem [OF run(2)]] by auto
    then show ?thesis using q c c2 run(1) set_update_subset_insert [of qs1 k q] by auto
  qed (use c c2 in \<open>auto simp: table_simps\<close>)
qed simp

section \<open>What the unlucky orders do\<close>

text \<open>
  C7 A connection that closes while a frame of it is being handled can block an address for
  good. From any state in which the tables agree, for any client and any free address, the
  goroutine of a frame can claim the address, the closing can then clear the client's tables, and
  the frame's goroutine goes on to note the address in the cache that nobody reads any more. Both
  calls return, the client is gone, and its entry is still there; from then on, whatever frames,
  connections, clean-ups and configurations follow, the entry stays, no client ever gets the
  address into its cache, and every client that sends from it is closed with a collision.
\<close>

theorem closing_client_blocks_address:
  assumes "lru_cache x ok cap entries" and "mem_ok s" and "macs_ok ok entries (atomic_switch s)"
    and "socketMACs (mm_switch s) i = Some p" and "macTable (mm_switch s) m = None"
    and "macs_AllowMACChanging (mm_switch s)" and "0 < macs_AllowedMACsPerConnection (mm_switch s)"
  shows "\<exists>s'. macs_steps x (s, []) (s', [Returned True, Returned True]) \<and> socketMACs (mm_switch s') i = None \<and>
    (\<forall>s'' qs. macs_steps x (s', [Returned True, Returned True]) (s'', qs) \<longrightarrow>
       macTable (mm_switch s'') m = Some i \<and>
       (\<forall>j q. socketMACs (mm_switch s'') j = Some q \<longrightarrow> \<not> lru_Contains x (mm_cache s'' q) m) \<and>
       (\<forall>j q now. run_section x now (SetClaim j m q) s'' = (Closing j (Returned False), s'')))"
proof -
  obtain s' where s': "macs_steps x (s, []) (s', [Returned True, Returned True])" "socketMACs (mm_switch s') i = None"
    "orphaned ok entries m i s'" using lru_cache.leak_steps [OF assms] by blast
  have later: "orphaned ok entries m i s''"
    if "macs_steps x (s', [Returned True, Returned True]) (s'', qs)" for s'' qs
    using lru_cache.orphaned_for_ever [OF assms(1) that s'(3)] by simp
  have "\<not> lru_Contains x (mm_cache s'' q) m"
    if "orphaned ok entries m i s''" "socketMACs (mm_switch s'') j = Some q" for s'' j q
    using that by (intro lru_cache.lack_contains [OF assms(1)])
      (auto simp: orphaned_def dest: socketMACs_Some map_of_SomeD)
  then show ?thesis using s' later by (intro exI [of _ s']) (auto simp: orphaned_def)
qed

lemma example_mem_tables: "macs_ok ll_ok snd (atomic_switch example_mem)"
  by (auto simp: example_mem_atomic macs_ok_def owns_def socketMACs_def MakeMACSwitch_def ll_ok_def split: if_splits)

theorem closing_client_blocks_address_witness:
  "\<exists>s'. macs_steps demo_ext (example_mem, []) (s', [Returned True, Returned True]) \<and>
     socketMACs (mm_switch s') 7 = None \<and> macTable (mm_switch s') [2, 0, 0, 0, 0, 7] = Some 7"
proof -
  have "socketMACs (mm_switch example_mem) 7 = Some 0" "macTable (mm_switch example_mem) [2, 0, 0, 0, 0, 7] = None"
    "macs_AllowMACChanging (mm_switch example_mem)" "0 < macs_AllowedMACsPerConnection (mm_switch example_mem)"
    by (simp_all add: example_mem_def socketMACs_def MakeMACSwitch_def)
  from closing_client_blocks_address [OF demo_lru_cache example_mem_ok example_mem_tables this]
  show ?thesis by blast
qed

text \<open>
  C8 A connection that closes can cut off the client that takes its address over. From any state
  in which the tables agree: the closing clears the tables of the client that owns the address and
  lets go of the lock; another client sends its first frame from the address, owns it now and has
  it in its cache; then the purge of the old cache runs the eviction callback, which deletes the
  entry without looking whose it is. Both calls have returned and the new owner has no entry, so
  nothing is forwarded to it. Its next frame, at any time, is accepted and only refreshes its
  cache; and as long as its cache keeps the address, whatever the goroutines of the switch do in
  whatever order, it does not get the entry back. (Once the clean-up or an eviction has dropped
  the address from its cache, a frame claims it again.)
\<close>

theorem closing_client_cuts_off_successor:
  assumes "lru_cache x ok cap entries" and "mem_ok s" and "macs_ok ok entries (atomic_switch s)"
    and "socketMACs (mm_switch s) i = Some p" and "socketMACs (mm_switch s) j = Some p'" and "i \<noteq> j"
    and "macTable (mm_switch s) m = Some i" and "macs_AllowMACChanging (mm_switch s)"
  shows "\<exists>s'. macs_steps x (s, []) (s', [Returned True, Returned True]) \<and>
    socketMACs (mm_switch s') j = Some p' \<and> lru_Contains x (mm_cache s' p') m \<and> macTable (mm_switch s') m = None \<and>
    (\<forall>now. \<exists>s''. alone x now (SetLookup j m, s') (Returned True, s'') \<and>
       socketMACs (mm_switch s'') j = Some p' \<and> lru_Contains x (mm_cache s'' p') m \<and> macTable (mm_switch s'') m = None) \<and>
    (\<forall>s'' qs. (\<lambda>a b. macs_step x a b \<and> socketMACs (mm_switch (fst b)) j = Some p' \<and>
         lru_Contains x (mm_cache (fst b) p') m)\<^sup>*\<^sup>* (s', [Returned True, Returned True]) (s'', qs) \<longrightarrow>
       macTable (mm_switch s'') m \<noteq> Some j)"
proof -
  note lru = assms(1)
  obtain s' where s': "macs_steps x (s, []) (s', [Returned True, Returned True])"
    "socketMACs (mm_switch s') j = Some p'" "ok (mm_cache s' p')" "m \<in> fst ` set (entries (mm_cache s' p'))"
    "macTable (mm_switch s') m = None" using lru_cache.lost_steps [OF assms] by blast
  have c: "lru_Contains x (mm_cache s' p') m" using lru_cache.contains_entries [OF lru s'(3)] s'(4) by simp
  have "\<exists>s''. alone x now (SetLookup j m, s') (Returned True, s'') \<and>
       socketMACs (mm_switch s'') j = Some p' \<and> lru_Contains x (mm_cache s'' p') m \<and> macTable (mm_switch s'') m = None"
    for now
  proof -
    let ?r = "lru_Add x (mm_cache s' p') m now"
    have "ok (fst ?r)" using lru_cache.add_keys(1) [OF lru s'(3) surjective_pairing] by simp
    then show ?thesis
      using lru_cache.refresh_keeps_missing [OF lru s'(2-4), of now] lru_cache.contains_entries [OF lru] s'(2,5)
      by (intro exI [of _ "cache_upd p' ?r s'"]) (simp add: table_simps)
  qed
  moreover have "macTable (mm_switch s'') m \<noteq> Some j"
    if "(\<lambda>a b. macs_step x a b \<and> socketMACs (mm_switch (fst b)) j = Some p' \<and>
         lru_Contains x (mm_cache (fst b) p') m)\<^sup>*\<^sup>* (s', [Returned True, Returned True]) (s'', qs)" for s'' qs
    using cached_never_claims [of x j m p', unfolded cached_at_def, OF that] s' c by simp
  ultimately show ?thesis using s' c by blast
qed

text \<open>Client 7 owns the address 02:00:00:00:00:07 and client 8 is about to use it.\<close>

definition example_takeover :: "list_lru macs_mem" where
  "example_takeover = \<lparr>mm_switch = MakeMACSwitch\<lparr>macTable := [[2, 0, 0, 0, 0, 7] \<mapsto> 7],
       socketTable := [(7, Some 0), (8, Some 1)]\<rparr>,
     mm_cache = (\<lambda>p. if p = 0 then (1, [([2, 0, 0, 0, 0, 7], 5)]) else (1, [])), mm_next = 2, mm_closed = []\<rparr>"

lemma example_takeover_ok: "mem_ok example_takeover"
  by (auto simp: mem_ok_def example_takeover_def socketMACs_def split: if_splits)

lemma example_takeover_tables: "macs_ok ll_ok snd (atomic_switch example_takeover)"
  by (auto simp: atomic_switch_def deref_def Let_def example_takeover_def macs_ok_def owns_def socketMACs_def
      MakeMACSwitch_def ll_ok_def split: if_splits)

theorem closing_client_cuts_off_successor_witness:
  "\<exists>s'. macs_steps demo_ext (example_takeover, []) (s', [Returned True, Returned True]) \<and>
     [2, 0, 0, 0, 0, 7] \<in> fst ` set (snd (mm_cache s' 1)) \<and> macTable (mm_switch s') [2, 0, 0, 0, 0, 7] = None"
proof -
  have "socketMACs (mm_switch example_takeover) 7 = Some 0" "socketMACs (mm_switch example_takeover) 8 = Some 1"
    "(7::sid) \<noteq> 8" "macTable (mm_switch example_takeover) [2, 0, 0, 0, 0, 7] = Some 7"
    "macs_AllowMACChanging (mm_switch example_takeover)"
    by (simp_all add: example_takeover_def socketMACs_def MakeMACSwitch_def)
  from closing_client_cuts_off_successor [OF demo_lru_cache example_takeover_ok example_takeover_tables this]
  show ?thesis by (auto simp: demo_ext_def)
qed

section \<open>No address is taken over\<close>

text \<open>A goroutine that handles a frame of a client handles one with an address from the set.\<close>

fun frame_in :: "(sid \<times> macAddr) set \<Rightarrow> macs_pc \<Rightarrow> bool" where
  "frame_in F (SetLookup i m) \<longleftrightarrow> (i, m) \<in> F"
| "frame_in F (SetContains i m p) \<longleftrightarrow> (i, m) \<in> F"
| "frame_in F (SetCount i m p) \<longleftrightarrow> (i, m) \<in> F"
| "frame_in F (SetClaim i m p) \<longleftrightarrow> (i, m) \<in> F"
| "frame_in F (Evict ks q) \<longleftrightarrow> frame_in F q"
| "frame_in F (Closing i q) \<longleftrightarrow> frame_in F q"
| "frame_in F (UnregTable i q) \<longleftrightarrow> frame_in F q"
| "frame_in F (UnregPurge c q) \<longleftrightarrow> frame_in F q"
| "frame_in F q \<longleftrightarrow> True"

text \<open>A step in which a frame that arrives is one of the set: its client and its source address.\<close>

definition macs_step_from :: "('e, 'l) ext \<Rightarrow> (sid \<times> macAddr) set \<Rightarrow> 'l macs_mem \<times> macs_pc list \<Rightarrow> 'l macs_mem \<times> macs_pc list \<Rightarrow> bool" where
  "macs_step_from x F a b \<longleftrightarrow> macs_step x a b \<and> (\<forall>i m. snd b = snd a @ [SetLookup i m] \<longrightarrow> (i, m) \<in> F)"

lemma section_frame_in:
  assumes "frame_in F q" and "run_section x now q s = (q', s')"
  shows "frame_in F q'"
proof (cases "(x, now, q, s)" rule: run_section.cases)
  case (6 x' now' i s')
  then show ?thesis using assms by (auto simp: RegisterSocket_section_def split: sum.splits)
next
  case (10 x' now' ps s')
  then show ?thesis using assms by (cases "(x, now, CleanupTables ps, s)" rule: cleanup_section.cases)
      (auto simp: cache_op_def split: option.splits if_splits)
next
  case (13 x' now' ps s')
  then show ?thesis using assms by (cases "(x, ConfigTables ps, s)" rule: ConfigUpdate_section.cases)
      (auto simp: cache_op_def split: option.splits if_splits)
qed (use assms in \<open>auto simp: cache_op_def Let_def split: option.splits if_splits\<close>)

lemma entries_from_frames:
  assumes "(macs_step_from x F)\<^sup>*\<^sup>* (s, qs) (s', qs')"
    and "\<forall>q\<in>set qs. frame_in F q" and "\<forall>m i. macTable (mm_switch s) m = Some i \<longrightarrow> (i, m) \<in> F"
  shows "(\<forall>q\<in>set qs'. frame_in F q) \<and> (\<forall>m i. macTable (mm_switch s') m = Some i \<longrightarrow> (i, m) \<in> F)"
  using assms
proof (induction rule: rtranclp_induct2)
  case (step s1 qs1 s2 qs2)
  then have c: "\<And>q. q \<in> set qs1 \<Longrightarrow> frame_in F q" "\<And>m i. macTable (mm_switch s1) m = Some i \<Longrightarrow> (i, m) \<in> F" by auto
  have f: "\<And>i m. qs2 = qs1 @ [SetLookup i m] \<Longrightarrow> (i, m) \<in> F" using step(2) by (simp add: macs_step_from_def)
  from step(2) have "macs_step x (s1, qs1) (s2, qs2)" by (simp add: macs_step_from_def)
  then show ?case
  proof cases
    case (run k now q)
    have q1: "frame_in F (qs1 ! k)" by (rule c(1) [OF nth_mem [OF run(2)]])
    have "(i, m) \<in> F" if "macTable (mm_switch s2) m = Some i" for m i
      using section_entry [OF run(3), of m] c(2) [of m i] q1 that by auto
    then show ?thesis
      using c section_frame_in [OF q1 run(3)] run(1) set_update_subset_insert [of qs1 k q] by auto
  qed (use c f in \<open>auto simp: table_simps\<close>)
qed simp

lemma entry_step:
  assumes "macs_step x (s, qs) (s', qs')" and "macTable (mm_switch s) m = Some i"
  shows "macTable (mm_switch s') m = Some i \<or> macTable (mm_switch s') m = None \<and>
    (\<exists>q\<in>set qs. (\<exists>ks r. q = Evict (m # ks) r) \<or>
       (\<exists>j p r. q = UnregTable j r \<and> socketMACs (mm_switch s) j = Some p \<and> m \<in> set (lru_Keys x (mm_cache s p))))"
  using assms(1)
proof cases
  case (run k now q)
  then have "qs ! k \<in> set qs" by simp
  then show ?thesis using section_entry [OF run(3), of m] assms(2) by (elim disjE) (blast | simp)+
qed (use assms(2) in \<open>auto simp: table_simps\<close>)

text \<open>
  C9 No client gets an address that is another's, however the goroutines of the switch interleave.
  Let the frames that arrive come from a set of pairs of a client and a source address. In every
  state that the switch reaches from an empty table, an entry belongs to a client that has sent a
  frame from that address. Whatever section or call comes next, the entry does not pass to
  another client: it stays what it is, or it is removed, and it is removed only by the eviction
  callback for this address or by the end of a connection whose cache lists the address. A frame
  of any client that comes to claim the address while the entry is there is refused and closes
  that client.
\<close>

theorem addresses_not_taken_over:
  assumes "(macs_step_from x F)\<^sup>*\<^sup>* (s, []) (s', qs)" and "macTable (mm_switch s) = Map.empty"
    and "macTable (mm_switch s') m = Some i"
  shows "(i, m) \<in> F \<and>
    (\<forall>s'' qs'. macs_step x (s', qs) (s'', qs') \<longrightarrow> macTable (mm_switch s'') m = Some i \<or>
       macTable (mm_switch s'') m = None \<and>
       (\<exists>q\<in>set qs. (\<exists>ks r. q = Evict (m # ks) r) \<or>
         (\<exists>j p r. q = UnregTable j r \<and> socketMACs (mm_switch s') j = Some p \<and> m \<in> set (lru_Keys x (mm_cache s' p))))) \<and>
    (\<forall>j p now. run_section x now (SetClaim j m p) s' = (Closing j (Returned False), s'))"
proof -
  have "(i, m) \<in> F" using entries_from_frames [OF assms(1)] assms(2,3) by simp
  then show ?thesis using entry_step [OF _ assms(3)] assms(3) by (intro conjI) (blast | simp)+
qed

lemma run_step_from: "j < length qs \<Longrightarrow> run_section x now (qs ! j) s = (q, s') \<Longrightarrow> qs[j := q] = qs' \<Longrightarrow>
    macs_step_from x F (s, qs) (s', qs')"
  using macs_step.run [of j qs x now s q s'] by (auto simp: macs_step_from_def dest: arg_cong [of _ _ length])

lemma example_claims: "\<exists>s'. (macs_step_from demo_ext {(7, [2, 0, 0, 0, 0, 7])})\<^sup>*\<^sup>* (example_mem, []) (s', [SetAdd [2, 0, 0, 0, 0, 7] 0]) \<and>
    macTable (mm_switch s') [2, 0, 0, 0, 0, 7] = Some 7"
proof -
  let ?m = "[2, 0, 0, 0, 0, 7]" and ?s = "example_mem"
  let ?s' = "upd_switch (\<lambda>g. g\<lparr>macTable := (macTable g)(?m \<mapsto> 7)\<rparr>) ?s"
  note ex = example_mem_def socketMACs_def MakeMACSwitch_def
  have "macs_step_from demo_ext {(7, ?m)} (?s, []) (?s, [SetLookup 7 ?m])"
    using macs_step.frame [of demo_ext ?s "[]"] by (simp add: macs_step_from_def)
  moreover have "macs_step_from demo_ext {(7, ?m)} (?s, [SetLookup 7 ?m]) (?s, [SetContains 7 ?m 0])"
    by (rule run_step_from [of 0]) (auto simp: ex)
  moreover have "macs_step_from demo_ext {(7, ?m)} (?s, [SetContains 7 ?m 0]) (?s, [SetCount 7 ?m 0])"
    by (rule run_step_from [of 0]) (auto simp: ex demo_ext_def)
  moreover have "macs_step_from demo_ext {(7, ?m)} (?s, [SetCount 7 ?m 0]) (?s, [SetClaim 7 ?m 0])"
    by (rule run_step_from [of 0]) (auto simp: ex)
  moreover have "macs_step_from demo_ext {(7, ?m)} (?s, [SetClaim 7 ?m 0]) (?s', [SetAdd ?m 0])"
    by (rule run_step_from [of 0]) (auto simp: ex)
  ultimately have "(macs_step_from demo_ext {(7, ?m)})\<^sup>*\<^sup>* (?s, []) (?s', [SetAdd ?m 0])"
    by (blast intro: converse_rtranclp_into_rtranclp)
  then show ?thesis by (intro exI [of _ ?s']) (simp add: table_simps)
qed

theorem addresses_not_taken_over_witness:
  "\<exists>s'. macTable (mm_switch s') [2, 0, 0, 0, 0, 7] = Some 7 \<and>
     run_section demo_ext 5 (SetClaim 8 [2, 0, 0, 0, 0, 7] 1) s' = (Closing 8 (Returned False), s')"
proof -
  obtain s' where s': "(macs_step_from demo_ext {(7, [2, 0, 0, 0, 0, 7])})\<^sup>*\<^sup>* (example_mem, []) (s', [SetAdd [2, 0, 0, 0, 0, 7] 0])"
    "macTable (mm_switch s') [2, 0, 0, 0, 0, 7] = Some 7" using example_claims by blast
  have "macTable (mm_switch example_mem) = Map.empty" by (simp add: example_mem_def MakeMACSwitch_def)
  from addresses_not_taken_over [OF s'(1) this s'(2)] s'(2) show ?thesis by blast
qed

end
