(* ===== verification/Shutdown.thy ===== *)
theory Shutdown
  imports Server_Main Client_Main
begin

text \<open>
  The end of the program by a signal (\<^verbatim>\<open>shared/cli/shutdown.go\<close> and the callbacks that
  both \<^verbatim>\<open>Main\<close> functions register): how often the callback runs, and what has happened
  when the process ends.
\<close>

section \<open>The signals\<close>

text \<open>
  The channel for signals has room for one; the library drops a signal that finds no room.
  \<open>sg_receiving\<close> is true while the goroutine waits for its one receive.
\<close>

record shutdown_signals =
  sg_channel :: nat
  sg_receiving :: bool

definition RegisterShutdownSignals :: shutdown_signals where
  "RegisterShutdownSignals = \<lparr>sg_channel = 0, sg_receiving = True\<rparr>"

definition signal_arrives :: "shutdown_signals \<Rightarrow> shutdown_signals" where
  "signal_arrives g = g\<lparr>sg_channel := min 1 (sg_channel g + 1)\<rparr>"

text \<open>The receive, after which the goroutine runs the callback; \<open>None\<close> if it cannot go on.\<close>

definition shutdown_receive :: "shutdown_signals \<Rightarrow> shutdown_signals option" where
  "shutdown_receive g = (if sg_receiving g \<and> sg_channel g > 0
     then Some (g\<lparr>sg_channel := sg_channel g - 1, sg_receiving := False\<rparr>) else None)"

lemma signal_is_received: "sg_receiving g \<Longrightarrow> shutdown_receive (signal_arrives g) \<noteq> None"
  by (simp add: shutdown_receive_def signal_arrives_def)

lemma callback_runs_once:
  assumes "shutdown_receive g = Some g'"
  shows "shutdown_receive ((signal_arrives ^^ n) g') = None"
proof -
  have "sg_receiving ((signal_arrives ^^ n) g) = sg_receiving g" for n g
    by (induction n) (simp_all add: signal_arrives_def)
  then show ?thesis using assms by (auto simp: shutdown_receive_def split: if_splits)
qed

section \<open>The callbacks\<close>

text \<open>What is left when the process has ended with a status.\<close>

definition server_shutdown :: "('e, 'l) ext \<Rightarrow> 'e life_ext \<Rightarrow> server \<times> ('e, 'l) world \<Rightarrow> (server \<times> ('e, 'l) world) \<times> int" where
  "server_shutdown x le sw = (server_Close x le sw, 0)"

definition client_shutdown :: "('e, 'l) ext \<Rightarrow> client \<times> ('e, 'l) world \<Rightarrow> (client \<times> ('e, 'l) world) \<times> int" where
  "client_shutdown x cw = (case cw of (c, w) \<Rightarrow> (client_Close x c w, 0))"

section \<open>The client and its scripts\<close>

text \<open>
  The client with the goroutines of its event scripts: \<open>fin\<close> has the positions in
  \<open>cl_scripts\<close> whose script has run. A script can run before or after the callback has closed
  the client, but not after the exit.
\<close>

datatype ('e, 'l) client_process =
    Working client "('e, 'l) world" "nat set"
  | Exiting client "('e, 'l) world" "nat set" int
  | Exited client "('e, 'l) world" "nat set" int

definition run_script :: "('e, 'l) ext \<Rightarrow> client \<Rightarrow> nat \<Rightarrow> ('e, 'l) world \<Rightarrow> ('e, 'l) world" where
  "run_script x c k w = (case cl_scripts c ! k of (event, remoteNet, ifc) \<Rightarrow>
     w\<lparr>w_env := fst (RunEventScript x (w_env w) (cl_events c) event remoteNet ifc [])\<rparr>)"

inductive client_exit_step :: "('e, 'l) ext \<Rightarrow> ('e, 'l) client_process \<Rightarrow> ('e, 'l) client_process \<Rightarrow> bool" for x where
  script: "k < length (cl_scripts c) \<Longrightarrow> k \<notin> fin \<Longrightarrow>
    client_exit_step x (Working c w fin) (Working c (run_script x c k w) (insert k fin))"
| late_script: "k < length (cl_scripts c) \<Longrightarrow> k \<notin> fin \<Longrightarrow>
    client_exit_step x (Exiting c w fin n) (Exiting c (run_script x c k w) (insert k fin) n)"
| callback: "client_shutdown x (c, w) = ((c', w'), n) \<Longrightarrow> client_exit_step x (Working c w fin) (Exiting c' w' fin n)"
| os_Exit: "client_exit_step x (Exiting c w fin n) (Exited c w fin n)"

inductive_cases exitedE: "client_exit_step x (Exited c w fin n) st"

text \<open>
  A client that is up can end without its script for the event down: the callback starts it in a
  goroutine and leaves at once.
\<close>

lemma client_exit_skips_down_script:
  assumes "cl_sentUpEvent c" and "fin \<subseteq> {..<length (cl_scripts c)}"
  shows "\<exists>c' w'. (client_exit_step x)\<^sup>*\<^sup>* (Working c w fin) (Exited c' w' fin 0) \<and>
    length (cl_scripts c') = Suc (length (cl_scripts c)) \<and> fst (last (cl_scripts c')) = EventDown \<and>
    length (cl_scripts c) \<notin> fin \<and> (\<forall>st. \<not> client_exit_step x (Exited c' w' fin 0) st)"
proof -
  obtain c' w' where r: "client_Close x c w = (c', w')" by fastforce
  then have d: "cl_scripts c' = cl_scripts (client_doRunEventScript EventDown c)"
    using assms(1) by (auto simp: client_Close_def closeInternal_def client_doRunEventScript_def Let_def split: option.splits)
  have "client_exit_step x (Working c w fin) (Exiting c' w' fin 0)"
    by (rule client_exit_step.callback) (simp add: client_shutdown_def r)
  with client_exit_step.os_Exit [of x c' w' fin 0]
  have "(client_exit_step x)\<^sup>*\<^sup>* (Working c w fin) (Exited c' w' fin 0)" by (meson r_into_rtranclp rtranclp.rtrancl_into_rtrancl)
  then show ?thesis
    using assms(2) by (intro exI [of _ c'] exI [of _ w']) (auto simp: d client_doRunEventScript_def Let_def elim: exitedE)
qed

section \<open>The server and its scripts\<close>

text \<open>
  \<^verbatim>\<open>Close\<close> of the server closes the adapters and leaves it to the goroutines of the
  connections to close their sockets and run their scripts: when it returns, and the process ends,
  no event has been pushed.
\<close>

lemma close_one_events: "close_one x le k (s, w) = (s', w') \<Longrightarrow> w_events w' = w_events w \<and> w_sock w' = w_sock w"
  by (cases k) (auto simp: sock_simps split: option.splits prod.splits)

lemma closeAll_events: "closeAll x le (s, w) = (s', w') \<Longrightarrow> w_events w' = w_events w \<and> w_sock w' = w_sock w"
proof -
  have "fold (close_one x le) ks (s, w) = (s', w') \<Longrightarrow> w_events w' = w_events w \<and> w_sock w' = w_sock w" for ks s w s' w'
  proof (induction ks arbitrary: s w)
    case (Cons k ks)
    obtain s1 w1 where k: "close_one x le k (s, w) = (s1, w1)" by fastforce
    then show ?case using Cons close_one_events [OF k] by fastforce
  qed simp
  from this [of "sv_closers s" s w] show "closeAll x le (s, w) = (s', w') \<Longrightarrow> w_events w' = w_events w \<and> w_sock w' = w_sock w"
    by (auto simp: closeAll_def split: prod.splits)
qed

lemma server_exit_skips_down_scripts:
  assumes "server_shutdown x le (s, w) = ((s', w'), n)"
  shows "n = 0 \<and> w_events w' = w_events w \<and> w_sock w' = w_sock w"
  using assms closeAll_events [of x le s w] by (auto simp: server_shutdown_def server_Close_def split: prod.splits)

end
