(* ===== verification/Spec2Isabelle.thy ===== *)
theory Spec2Isabelle
  imports Server_Main Client_Main Adapter_Serve Ping Ready_Wait End_To_End Address_Assignment Frame_Path Mac_Races
    Shutdown
begin

text \<open>
  A verification library for wsvpn, a VPN that carries layer-2 (TAP) or layer-3 (TUN) traffic
  over WebSockets or WebTransport.

  \<^bold>\<open>The program.\<close> A server (\<^verbatim>\<open>server/\<close>) accepts connections,
  authenticates them, gives each client a slot and with it an IP address, and runs a
  \<^verbatim>\<open>Socket\<close> (\<^verbatim>\<open>shared/sockets\<close>) over an adapter
  (\<^verbatim>\<open>shared/sockets/adapters\<close>). A client (\<^verbatim>\<open>client/\<close>) runs
  the same \<^verbatim>\<open>Socket\<close> at the other end. Two channels share the connection: control
  commands (\<^verbatim>\<open>shared/commands\<close>), of which the first is the exchange of versions
  and features, and data messages, each a packet or a fragment of one. On the server a data
  message goes through the packet handler, the IP switch (\<^verbatim>\<open>server/ipswitch\<close>) or
  the MAC switch (\<^verbatim>\<open>server/macswitch\<close>), which checks the sender's address and
  sends the packet to another client, to all of them or to the server's interface.

  \<^bold>\<open>Theories and what they model.\<close>

  \<^item> \<open>Wsvpn_Prelude\<close>: machine integers, Go's errors, panics, slices and maps, the
    lemmas about them that all components share, and the rule by which what one step of a
    transition system keeps holds after any run (locale \<open>kept_invariant\<close>, which the server, its
    life cycle, the client and the whole server program instantiate).
  \<^item> \<open>Externals\<close>: the code that is not in the repository, as a record of parameters that every
    definition that uses it takes as its argument: the transport libraries, the packet accessors
    of \<^verbatim>\<open>water/waterutil\<close>, go-cidr, uuid, the LRU cache of
    \<^verbatim>\<open>hashicorp/golang-lru\<close>. What the code relies on is stated as hypotheses; the
    contract of the cache is the locale \<open>lru_cache\<close>. \<open>demo_ext\<close> is a concrete instance on
    which the examples run.
  \<^item> \<open>Net_IP\<close>: Go's \<^verbatim>\<open>net.IP\<close>, \<^verbatim>\<open>ipToIPAddr\<close> and
    \<^verbatim>\<open>hwAddrToMAC\<close>, the keys of the switch tables.
  \<^item> \<open>Shared_Base\<close>: \<^verbatim>\<open>shared/util.go\<close>, \<^verbatim>\<open>modes.go\<close>,
    \<^verbatim>\<open>features\<close>, \<^verbatim>\<open>events.go\<close>,
    \<^verbatim>\<open>vpn_net.go\<close>, \<^verbatim>\<open>version.go\<close>.
  \<^item> \<open>Cond_Wait\<close>: \<^verbatim>\<open>WaitReady\<close> and \<^verbatim>\<open>setReady\<close> over a
    \<^verbatim>\<open>sync.Cond\<close>, as interleavings of single accesses to memory; the locale
    \<open>ready_flag\<close> has the adapter and the socket as instances, and \<open>Ready_Wait\<close> draws the
    conclusions.
  \<^item> \<open>Adapters\<close>: the two adapters, how they write, close and learn their payload limit, and the
    framing of the WebTransport control stream.
  \<^item> \<open>Socket_State\<close>, \<open>Socket_Core\<close>: the fields of \<^verbatim>\<open>Socket\<close>, features, and
    closing, in the state of the whole program (\<open>world\<close>: the sockets, the packet handler, the
    goroutines that were started, the events that were pushed).
  \<^item> \<open>Data_Write\<close>, \<open>Fragmentation\<close>, \<open>Reassembly\<close>, \<open>Data_Path\<close>:
    \<^verbatim>\<open>shared/sockets/data_message.go\<close>. \<open>Fragmentation\<close> is the specification of
    the wire format on natural numbers, which the \<^verbatim>\<open>uint16\<close> computation of
    \<open>Data_Write\<close> refines.
  \<^item> \<open>Switch_Tables\<close>, \<open>Packet_Handlers\<close>: the tables of the switches and what they do with
    packets. \<open>Mac_Table\<close>: the invariant of the MAC tables, kept by every operation.
    \<open>Mac_Locking\<close>: the MAC switch again, cut into its lock sections, with caches behind pointers;
    \<open>Mac_Races\<close>: what some interleavings of the sections do to the tables, and what none does.
  \<^item> \<open>Server_Steps\<close>, \<open>Switch_Safety\<close>: the server as a transition system
    (\<open>server_step\<close>), the rule by which an invariant of a switch holds in every reachable state
    (locale \<open>switch_invariant\<close>), and the guarantees that follow. \<open>End_To_End\<close>, \<open>Frame_Path\<close>: a packet, and a
    frame, on its way from one client through the server to another. \<open>Address_Assignment\<close>: the address of a client on
    its way from the server's slot through the \<^verbatim>\<open>init\<close> command to the client's socket.
  \<^item> \<open>Commands\<close>, \<open>Socket_Serve\<close>: the commands and who may send them; the start of a socket,
    its handlers and its events.
  \<^item> \<open>Serialization\<close>: the choice of a command encoding when a connection is opened.
  \<^item> \<open>Go_Text\<close>, \<open>Json\<close>, \<open>Json_Roundtrip\<close>, \<open>Command_Text\<close>, \<open>Socket_Commands\<close>:
    Go's number formatting, the JSON texts of \<^verbatim>\<open>encoding/json\<close> with a parser and a
    printer, the text of each command in both directions, and the way of an incoming text through
    the handlers to its answer (\<^verbatim>\<open>shared/sockets/commands.go\<close>).
  \<^item> \<open>Net_Text\<close>: the text of addresses and networks, as the server writes and the client reads it.
  \<^item> \<open>Basic_Auth\<close>: the credentials of a client (\<^verbatim>\<open>client/clients/auth.go\<close>), with
    percent-encoding and base64, and what the server reads.
  \<^item> \<open>Iface_Config\<close>: \<^verbatim>\<open>shared/iface\<close>: the commands that configure an interface on
    Linux, macOS and Windows (\<open>platform\<close> chooses the build).
  \<^item> \<open>Config_Base\<close>: the parts of a configuration both sides share (\<^verbatim>\<open>shared/cli\<close>).
  \<^item> \<open>Conn_Mark\<close>: the firewall mark of a connection
    (\<^verbatim>\<open>client/clients/connection_linux.go\<close>, \<^verbatim>\<open>connection_other.go\<close>).
  \<^item> \<open>Program_Start\<close>: the command line, the three \<^verbatim>\<open>main.go\<close>, reading a configuration
    file over the built-in one, the driver library of Windows.
  \<^item> \<open>Server_State\<close>: the fields of \<^verbatim>\<open>Server\<close> and their simple operations.
  \<^item> \<open>Server_Sockets\<close>: slots, addresses and the limit of connections per user;
    \<open>Server_Conn\<close>: the handler of a connection as a whole
    (\<^verbatim>\<open>server/servers/sockets.go\<close>).
  \<^item> \<open>Adapter_Serve\<close>: the read loops of the adapters (\<^verbatim>\<open>Serve\<close>, \<^verbatim>\<open>serveStream\<close>,
    \<^verbatim>\<open>serveData\<close>, \<^verbatim>\<open>handleFrame\<close>) with the handlers of the socket, as
    functions of what the connection delivers; \<open>Ping\<close>: \<^verbatim>\<open>shared/sockets/ping.go\<close> as a
    transition system in time (\<open>ping_step\<close>).
  \<^item> \<open>Server_Life\<close>: \<^verbatim>\<open>Serve\<close>, \<^verbatim>\<open>Close\<close>, the listeners and the main
    interface, with the goroutines side by side (\<open>life_step\<close>); \<open>Web\<close>: \<^verbatim>\<open>web.go\<close> and
    \<^verbatim>\<open>web_api.go\<close>.
  \<^item> \<open>Server_Auth\<close>: \<^verbatim>\<open>server/servers/auth.go\<close> and
    \<^verbatim>\<open>server/authenticators\<close>.
  \<^item> \<open>Server_Config\<close>: the MTU of the server and \<^verbatim>\<open>reloadConfig\<close> of
    \<^verbatim>\<open>server/cli/base.go\<close>, stage by stage; \<open>Server_TLS\<close>: the TLS configuration that a
    handshake uses; \<open>Server_Main\<close>: \<^verbatim>\<open>Main\<close>, and the running program with reloads, requests,
    connections and packets in any order (\<open>running_step\<close>).
  \<^item> \<open>Client_State\<close>, \<open>Client\<close>: \<^verbatim>\<open>client/clients\<close> and
    \<^verbatim>\<open>client/connectors\<close>: the client, its connection, the handlers of its commands;
    \<open>Client_Dial\<close>: what the connectors ask the libraries for, and which connections carry the mark;
    \<open>Client_Config\<close>: \<^verbatim>\<open>reloadConfig\<close> of \<^verbatim>\<open>client/cli/base.go\<close>;
    \<open>Client_Events\<close>: the client as a transition system (\<open>client_step\<close>);
    \<open>Client_Main\<close>: \<^verbatim>\<open>Main\<close> and the effect of a reload.
  \<^item> \<open>Shutdown\<close>: the signals that end the program, the callbacks of both sides, and which event
    scripts have run by then.

  \<^bold>\<open>State and errors.\<close> An operation on an object is a function from the record of its
  fields to the new record. An operation that can reach other objects acts on \<open>world\<close>. A Go
  error is a value of \<open>go_error\<close>, nil is \<open>None\<close>; a panic is \<open>Panic\<close> of the type
  \<open>'a go\<close>; a loop without a bound of its own is a partial function into an option (\<open>'a run\<close>),
  \<open>None\<close> being a loop that never ends, and the theorems show that it ends. No fuel is used. A
  goroutine is recorded in \<open>w_spawned\<close> when it is started; its steps are transitions of
  their own. A transition of \<open>server_step\<close> and of the systems built on it is a whole operation of a
  socket or a packet handler. Where the order of the parts of an operation matters the grain is
  finer: a lock section or a call on a cache in \<open>Mac_Locking\<close> (\<open>macs_step\<close>), which shows that the
  sections of an operation that nobody interrupts are that operation; a single access to memory in
  \<open>Cond_Wait\<close>, where the code does without the lock.

  \<^bold>\<open>What is shown.\<close> The lemmas of \<open>Data_Write\<close> to \<open>Data_Path\<close> lead to the
  round trip of packets through fragmentation in any order of arrival, with the sizes that the
  format can carry; those of \<open>Mac_Table\<close> to \<open>Switch_Safety\<close> to the agreement of the tables
  in every state that whole operations reach, the rejection of spoofed addresses, and delivery to the addressee
  alone, which \<open>End_To_End\<close> and \<open>Frame_Path\<close> put together to the way of a packet or a frame between two clients; those of
  \<open>Mac_Locking\<close> and \<open>Mac_Races\<close> to what of this holds when operations overlap (no client gets an entry that is another's) and what
  does not; those of \<open>Server_Sockets\<close> and \<open>Server_Conn\<close> to distinct addresses, the limit per user,
  and connections that need a login and leave nothing behind; those of \<open>Ping\<close> to the time within which a
  peer that is gone is noticed; those of \<open>Server_Life\<close> to what \<^verbatim>\<open>Serve\<close> can return; those
  of \<open>Web\<close> to the files and connections a request can reach; those of
  \<open>Socket_State\<close>, \<open>Socket_Serve\<close>, \<open>Serialization\<close> and \<open>Client_Events\<close> to the agreement of both
  ends and the order of events; those of \<open>Json_Roundtrip\<close> to \<open>Socket_Commands\<close> to commands that
  are read as they were written and answered once; those of \<open>Server_Config\<close> to configurations that
  leave the server consistent, those of \<open>Server_TLS\<close> to certificates that can be replaced while the
  server runs, those of \<open>Server_Main\<close> to a program that dereferences no nil but that of a cache that could not be made; those of
  \<open>Client_Dial\<close> to connections that stay out of the tunnel. Some theorems state where the program does less than it means to: the
  identifiers modulo 255, the sizes near 65535, the timer that fires once, the slot whose
  address is the broadcast address, the cache that could not be made, the credentials that are
  encoded once too often, the certificate that is not looked at, the frames lost in the handshake, the pings
  that cannot be turned off, the channel that can be closed twice, the proxied connection without a mark, the
  options that a reload of the client cannot take back, the MTU that cannot be set back after a change that
  failed half way, the wake-up that can be missed, the address
  that a closing client blocks or takes away, the scripts that the end of the program leaves out.

  \<^bold>\<open>Bounds.\<close> Lengths, limits and offsets of the data channel are 16-bit words, packet
  identifiers 32-bit words, slots 64-bit words, all with their wrap-around; Go's
  \<^verbatim>\<open>int\<close> is \<open>int\<close> where only configuration values reach it. A packet has at most
  128 fragments, because the index has seven bits.

  \<^bold>\<open>Not modelled.\<close> The text of configuration files and of the command line, which libraries
  parse (parameters give the values), the moment at which a signal arrives (its handler is a step that may
  happen at any time), and the log. \<^verbatim>\<open>water\<close> and the tools that configure an interface,
  and the HTTP, WebSocket, QUIC and WebTransport libraries are parameters. Mutexes appear as the
  boundaries of the sections.
\<close>

end
